(* ===== verification/Prelude.thy ===== *)
theory Prelude
  imports Main "HOL-Library.Multiset" "HOL-Library.Word"
begin

text \<open>
  Shared material of the development: the result type of C code that may run into undefined
  behaviour, its sequencing combinator, the named collections the component theories fill, and
  generic facts on lists and on results.

  A C function that can reach undefined behaviour on some inputs is a function into
  \<open>'a res\<close>: \<open>Inl u\<close> says which kind of undefined behaviour is reached (or that an assertion failed),
  \<open>Inr x\<close> is the result. A function whose every input is well defined has a plain result type.
\<close>

named_theorems rbc_step \<open>unfolding equations of straight-line code\<close>
named_theorems rbc_frame \<open>fields of the state an operation leaves alone\<close>

section \<open>Undefined behaviour as a value\<close>

datatype ub =
    Null_Deref      \<comment> \<open>a NULL pointer is dereferenced\<close>
  | Out_Of_Bounds   \<comment> \<open>a read or write outside an object\<close>
  | Uninit_Read     \<comment> \<open>an indeterminate value is used\<close>
  | Div_By_Zero     \<comment> \<open>an integer division by zero\<close>
  | Closed_Stream   \<comment> \<open>a stream is used after \<open>fclose\<close>\<close>
  | Use_After_Free  \<comment> \<open>freed memory is used or freed again\<close>
  | Aborted         \<comment> \<open>an assertion fails and the process ends\<close>

type_synonym 'a res = "ub + 'a"

fun rbind :: "'a res \<Rightarrow> ('a \<Rightarrow> 'b res) \<Rightarrow> 'b res" where
  "rbind (Inl u) f = Inl u"
| "rbind (Inr x) f = f x"

fun res_ok :: "'a res \<Rightarrow> bool" where
  "res_ok (Inl u) = False"
| "res_ok (Inr x) = True"

text \<open>Reading a pointer that may be NULL.\<close>

fun deref :: "'a option \<Rightarrow> 'a res" where
  "deref None = Inl Null_Deref"
| "deref (Some x) = Inr x"

text \<open>A pointer variable that may not have been set yet.\<close>

datatype 'a slot = Uninit | Null | Ptr 'a

fun read_slot :: "'a slot \<Rightarrow> 'a option res" where
  "read_slot Uninit = Inl Uninit_Read"
| "read_slot Null = Inr None"
| "read_slot (Ptr x) = Inr (Some x)"

fun deref_slot :: "'a slot \<Rightarrow> 'a res" where
  "deref_slot Uninit = Inl Uninit_Read"
| "deref_slot Null = Inl Null_Deref"
| "deref_slot (Ptr x) = Inr x"

text \<open>A variable that is not a pointer: \<open>None\<close> until it is set.\<close>

fun read_var :: "'a option \<Rightarrow> 'a res" where
  "read_var None = Inl Uninit_Read"
| "read_var (Some x) = Inr x"

text \<open>A loop over a list whose body may fail.\<close>

fun rfold :: "('a \<Rightarrow> 's \<Rightarrow> 's res) \<Rightarrow> 'a list \<Rightarrow> 's \<Rightarrow> 's res" where
  "rfold f [] s = Inr s"
| "rfold f (x # xs) s = rbind (f x s) (rfold f xs)"

lemma rbind_Inr_iff: "rbind m f = Inr y \<longleftrightarrow> (\<exists>x. m = Inr x \<and> f x = Inr y)"
  by (cases m) auto

lemma rbind_Inl_iff: "rbind m f = Inl u \<longleftrightarrow> m = Inl u \<or> (\<exists>x. m = Inr x \<and> f x = Inl u)"
  by (cases m) auto

lemma rbindE [elim]:
  assumes "rbind m f = Inr y"
  obtains x where "m = Inr x" and "f x = Inr y"
  using assms by (cases m) auto

lemma rbind_cong [fundef_cong]:
  assumes "m = m'" and "\<And>x. m' = Inr x \<Longrightarrow> f x = g x"
  shows "rbind m f = rbind m' g"
  using assms by (cases m') auto

lemma rbind_assoc: "rbind (rbind m f) g = rbind m (\<lambda>x. rbind (f x) g)"
  by (cases m) auto

lemma rbind_Inr_right [simp]: "rbind m Inr = m"
  by (cases m) auto

lemma res_ok_iff: "res_ok m \<longleftrightarrow> (\<exists>x. m = Inr x)"
  by (cases m) auto

lemma deref_Inr_iff [simp]: "deref p = Inr x \<longleftrightarrow> p = Some x"
  by (cases p) auto

lemma deref_slot_Inr_iff [simp]: "deref_slot p = Inr x \<longleftrightarrow> p = Ptr x"
  by (cases p) auto

lemma read_slot_Inr_iff: "read_slot p = Inr x \<longleftrightarrow> p = (case x of None \<Rightarrow> Null | Some y \<Rightarrow> Ptr y)"
  by (cases p; cases x) auto

lemma read_var_Inr_iff [simp]: "read_var p = Inr x \<longleftrightarrow> p = Some x"
  by (cases p) auto

lemma rfold_append: "rfold f (xs @ ys) s = rbind (rfold f xs s) (rfold f ys)"
proof (induction xs arbitrary: s)
  case (Cons x xs)
  then show ?case by (cases "f x s") simp_all
qed simp

lemma rfold_invariant:
  assumes "\<And>x s s'. x \<in> set xs \<Longrightarrow> P s \<Longrightarrow> f x s = Inr s' \<Longrightarrow> P s'"
    and "P s" and "rfold f xs s = Inr s'"
  shows "P s'"
  using assms by (induction xs arbitrary: s) (auto simp: rbind_Inr_iff)

text \<open>A counting loop with an invariant that the body keeps and that lets it succeed.\<close>

lemma rfold_upt:
  assumes "a \<le> n" and "P a s"
    and "\<And>j s. a \<le> j \<Longrightarrow> j < n \<Longrightarrow> P j s \<Longrightarrow> \<exists>s'. f j s = Inr s' \<and> P (Suc j) s'"
  shows "\<exists>s'. rfold f [a..<n] s = Inr s' \<and> P n s'"
  using assms
proof (induction "n - a" arbitrary: a s)
  case 0
  then show ?case by simp
next
  case (Suc m)
  then have a: "a < n" by simp
  then obtain s1 where s1: "f a s = Inr s1" "P (Suc a) s1" using Suc.prems by blast
  have "\<exists>s'. rfold f [Suc a..<n] s1 = Inr s' \<and> P n s'"
    using Suc.hyps(1) [of "Suc a" s1] Suc.hyps(2) Suc.prems(3) s1(2) a by simp
  then show ?case using a s1(1) by (simp add: upt_conv_Cons)
qed

text \<open>Sequencing when a step may also not end.\<close>

fun obind :: "'a res option \<Rightarrow> ('a \<Rightarrow> 'b res option) \<Rightarrow> 'b res option" where
  "obind None f = None"
| "obind (Some (Inl u)) f = Some (Inl u)"
| "obind (Some (Inr x)) f = f x"

lemma obind_cong [fundef_cong]:
  assumes "m = m'" and "\<And>x. m' = Some (Inr x) \<Longrightarrow> f x = g x"
  shows "obind m f = obind m' g"
  using assms by (cases "(m', g)" rule: obind.cases) auto

section \<open>Lists\<close>

lemma take_Suc_nth: "i < length xs \<Longrightarrow> take (Suc i) xs = take i xs @ [xs ! i]"
  by (rule take_Suc_conv_app_nth)

lemma takeWhile_append_stop:
  "\<forall>x\<in>set xs. P x \<Longrightarrow> \<not> P y \<Longrightarrow> takeWhile P (xs @ y # ys) = xs"
  by (induction xs) auto

lemma dropWhile_append_stop:
  "\<forall>x\<in>set xs. P x \<Longrightarrow> \<not> P y \<Longrightarrow> dropWhile P (xs @ y # ys) = y # ys"
  by (induction xs) auto

lemma takeWhile_all: "\<forall>x\<in>set xs. P x \<Longrightarrow> takeWhile P xs = xs"
  by (induction xs) auto

lemma dropWhile_all: "\<forall>x\<in>set xs. P x \<Longrightarrow> dropWhile P xs = []"
  by (induction xs) auto

lemma mset_swap_nth:
  "i < length xs \<Longrightarrow> j < length xs \<Longrightarrow> mset (xs[i := xs ! j, j := xs ! i]) = mset xs"
  by (rule mset_swap)

end
