(* ===== verification/C_Lib.thy ===== *)
theory C_Lib
  imports Prelude
begin

text \<open>
  The part of the C language and its standard library that the sources use. A C string is a
  \<open>string\<close> without its terminating NUL; a pointer into a string is an offset. Plain \<open>char\<close>
  values are bytes. \<open>int\<close> is 32 bits and \<open>long\<close> and \<open>size_t\<close> are 64 bits (LP64), the
  platform of the Makefile. Files are read through \<open>fgets\<close>: a file is what is left to read and
  its end-of-file indicator.
\<close>

section \<open>Characters\<close>

abbreviation c_tab :: char where "c_tab \<equiv> CHR 0x09"
abbreviation c_lf :: char where "c_lf \<equiv> CHR 0x0A"
abbreviation c_cr :: char where "c_cr \<equiv> CHR 0x0D"
abbreviation c_nul :: char where "c_nul \<equiv> CHR 0x00"
abbreviation c_dquote :: char where "c_dquote \<equiv> CHR 0x22"
abbreviation c_backslash :: char where "c_backslash \<equiv> CHR 0x5C"
abbreviation c_quote :: char where "c_quote \<equiv> CHR 0x27"

definition c_isspace :: "char \<Rightarrow> bool" where
  "c_isspace c \<longleftrightarrow> c = CHR '' '' \<or> (9 \<le> (of_char c :: nat) \<and> (of_char c :: nat) \<le> 13)"

definition c_isdigit :: "char \<Rightarrow> bool" where
  "c_isdigit c \<longleftrightarrow> 48 \<le> (of_char c :: nat) \<and> (of_char c :: nat) \<le> 57"

definition c_tolower :: "char \<Rightarrow> char" where
  "c_tolower c = (if 65 \<le> (of_char c :: nat) \<and> (of_char c :: nat) \<le> 90
                  then char_of ((of_char c :: nat) + 32) else c)"

definition c_toupper :: "char \<Rightarrow> char" where
  "c_toupper c = (if 97 \<le> (of_char c :: nat) \<and> (of_char c :: nat) \<le> 122
                  then char_of ((of_char c :: nat) - 32) else c)"

section \<open>Searching and comparing strings\<close>

definition starts_with :: "string \<Rightarrow> string \<Rightarrow> bool" where
  "starts_with p s \<longleftrightarrow> take (length p) s = p"

text \<open>\<open>strstr\<close>: the offset of the first occurrence.\<close>

fun strstr :: "string \<Rightarrow> string \<Rightarrow> nat option" where
  "strstr [] n = (if n = [] then Some 0 else None)"
| "strstr (c # s) n = (if starts_with n (c # s) then Some 0 else map_option Suc (strstr s n))"

text \<open>As a truth value, in the conditions of the sources: \<open>if (strstr(line, "..."))\<close>.\<close>

definition contains :: "string \<Rightarrow> string \<Rightarrow> bool" where
  "contains s n \<longleftrightarrow> strstr s n \<noteq> None"

definition strcasestr :: "string \<Rightarrow> string \<Rightarrow> nat option" where
  "strcasestr s n = strstr (map c_tolower s) (map c_tolower n)"

fun strrchr :: "string \<Rightarrow> char \<Rightarrow> nat option" where
  "strrchr [] c = None"
| "strrchr (x # xs) c =
     (case strrchr xs c of Some i \<Rightarrow> Some (Suc i) | None \<Rightarrow> if x = c then Some 0 else None)"

fun strchr :: "string \<Rightarrow> char \<Rightarrow> nat option" where
  "strchr [] c = None"
| "strchr (x # xs) c = (if x = c then Some 0 else map_option Suc (strchr xs c))"

text \<open>
  \<open>strcasecmp\<close> and \<open>strncasecmp\<close> are used for equality only: a result of 0. The comparison
  of the first \<open>n\<close> characters stops at a terminator, which both strings must then share.
\<close>

definition strcaseeq :: "string \<Rightarrow> string \<Rightarrow> bool" where
  "strcaseeq a b \<longleftrightarrow> map c_tolower a = map c_tolower b"

definition strncaseeq :: "nat \<Rightarrow> string \<Rightarrow> string \<Rightarrow> bool" where
  "strncaseeq n a b \<longleftrightarrow> map c_tolower (take n a) = map c_tolower (take n b)"

section \<open>Tokens\<close>

text \<open>
  \<open>strtok(s, ds)\<close> returns the first token and keeps, for the calls with NULL, what follows the
  delimiter that ended it.
\<close>

definition strtok :: "string \<Rightarrow> string \<Rightarrow> (string \<times> string) option" where
  "strtok s ds =
     (let s' = dropWhile (\<lambda>c. c \<in> set ds) s
      in if s' = [] then None
         else Some (takeWhile (\<lambda>c. c \<notin> set ds) s', tl (dropWhile (\<lambda>c. c \<notin> set ds) s')))"

text \<open>The \<open>n\<close>-th further token: \<open>n\<close> calls \<open>strtok(NULL, ds)\<close> after a first one.\<close>

fun strtok_skip :: "nat \<Rightarrow> string \<Rightarrow> string \<Rightarrow> (string \<times> string) option" where
  "strtok_skip 0 s ds = strtok s ds"
| "strtok_skip (Suc n) s ds =
     (case strtok s ds of None \<Rightarrow> None | Some (t, r) \<Rightarrow> strtok_skip n r ds)"

fun strcmp :: "string \<Rightarrow> string \<Rightarrow> int" where
  "strcmp [] [] = 0"
| "strcmp [] (b # bs) = -1"
| "strcmp (a # as) [] = 1"
| "strcmp (a # as) (b # bs) =
     (if a = b then strcmp as bs else if (of_char a :: nat) < of_char b then -1 else 1)"

section \<open>Numbers\<close>

definition int_wrap :: "int \<Rightarrow> int" where
  "int_wrap n = sint (word_of_int n :: 32 word)"

definition int32 :: "int \<Rightarrow> bool" where
  "int32 n \<longleftrightarrow> - (2 ^ 31) \<le> n \<and> n < 2 ^ 31"

definition digit_val :: "char \<Rightarrow> int" where
  "digit_val c = int (of_char c :: nat) - 48"

definition dec_value :: "string \<Rightarrow> int" where
  "dec_value ds = foldl (\<lambda>a c. 10 * a + digit_val c) 0 ds"

text \<open>\<open>strtol(s, NULL, 10)\<close> saturates at the limits of \<open>long\<close>; \<open>atoi\<close> casts it to \<open>int\<close>.\<close>

definition strtol10 :: "string \<Rightarrow> int" where
  "strtol10 s =
     (let s1 = dropWhile c_isspace s;
          neg = (s1 \<noteq> [] \<and> hd s1 = CHR ''-'');
          s2 = (if s1 \<noteq> [] \<and> (hd s1 = CHR ''-'' \<or> hd s1 = CHR ''+'') then tl s1 else s1);
          v = dec_value (takeWhile c_isdigit s2)
      in max (- (2 ^ 63)) (min (2 ^ 63 - 1) (if neg then - v else v)))"

definition atoi :: "string \<Rightarrow> int" where
  "atoi s = int_wrap (strtol10 s)"

text \<open>\<open>sprintf("%d")\<close>.\<close>

definition digit_char :: "nat \<Rightarrow> char" where
  "digit_char d = char_of (48 + d)"

fun nat_digits :: "nat \<Rightarrow> string" where
  "nat_digits n = (if n < 10 then [digit_char n] else nat_digits (n div 10) @ [digit_char (n mod 10)])"

declare nat_digits.simps [simp del]

definition fmt_d :: "int \<Rightarrow> string" where
  "fmt_d n = (if n < 0 then CHR ''-'' # nat_digits (nat (- n)) else nat_digits (nat n))"

section \<open>Buffers\<close>

text \<open>A string written into a character array of a given size needs room for its terminator.\<close>

definition store :: "nat \<Rightarrow> string \<Rightarrow> string res" where
  "store cap s = (if length s < cap then Inr s else Inl Out_Of_Bounds)"

section \<open>Files\<close>

record cfile =
  f_rest :: string
  f_eof :: bool

definition fopen_text :: "string \<Rightarrow> cfile" where
  "fopen_text s = \<lparr>f_rest = s, f_eof = False\<rparr>"

text \<open>
  The characters \<open>fgets(buf, n, f)\<close> takes: up to \<open>n - 1\<close>, and none past a newline. The
  end-of-file indicator is set when the reading stops because the file ends. The string in the
  buffer ends at the first NUL byte of the file's text.
\<close>

fun fgets_len :: "nat \<Rightarrow> string \<Rightarrow> nat" where
  "fgets_len 0 s = 0"
| "fgets_len (Suc n) [] = 0"
| "fgets_len (Suc n) (c # s) = (if c = c_lf then 1 else Suc (fgets_len n s))"

definition fgets :: "nat \<Rightarrow> cfile \<Rightarrow> string option \<times> cfile" where
  "fgets n f =
     (if f_rest f = [] then (None, f\<lparr>f_eof := True\<rparr>)
      else let k = fgets_len (n - 1) (f_rest f); chunk = take k (f_rest f)
           in (Some (takeWhile (\<lambda>c. c \<noteq> c_nul) chunk),
               \<lparr>f_rest = drop k (f_rest f),
                f_eof = (f_eof f \<or> (k < n - 1 \<and> last chunk \<noteq> c_lf))\<rparr>))"

section \<open>Facts\<close>

lemma starts_with_append [simp]: "starts_with p (p @ s)"
  by (simp add: starts_with_def)

lemma starts_with_Nil [simp]: "starts_with [] s"
  by (simp add: starts_with_def)

lemma starts_with_iff: "starts_with p s \<longleftrightarrow> (\<exists>r. s = p @ r)"
  by (metis append_eq_conv_conj append_take_drop_id starts_with_def)

lemma strstr_Some_starts: "strstr s n = Some k \<Longrightarrow> starts_with n (drop k s)"
  by (induction s n arbitrary: k rule: strstr.induct) (auto split: if_splits)

lemma strstr_Some_bound: "strstr s n = Some k \<Longrightarrow> k + length n \<le> length s"
proof (induction s n arbitrary: k rule: strstr.induct)
  case (1 n)
  then show ?case by (simp split: if_splits)
next
  case (2 c s n)
  show ?case
  proof (cases "starts_with n (c # s)")
    case True
    then have "length n \<le> length (c # s)"
      by (metis nat_le_linear starts_with_def take_all_iff)
    with True "2.prems" show ?thesis by simp
  next
    case False
    with 2 show ?thesis by auto
  qed
qed

lemma strstr_Some_minimal: "strstr s n = Some k \<Longrightarrow> j < k \<Longrightarrow> \<not> starts_with n (drop j s)"
proof (induction s n arbitrary: k j rule: strstr.induct)
  case (1 n)
  then show ?case by (auto split: if_splits)
next
  case (2 c s n)
  then show ?case by (cases j) (auto split: if_splits)
qed

lemma strstr_SomeI:
  "k \<le> length s \<Longrightarrow> starts_with n (drop k s) \<Longrightarrow> (\<And>j. j < k \<Longrightarrow> \<not> starts_with n (drop j s)) \<Longrightarrow>
   strstr s n = Some k"
proof (induction s n arbitrary: k rule: strstr.induct)
  case (1 n)
  then show ?case by (auto simp: starts_with_def)
next
  case (2 c s n)
  show ?case
  proof (cases k)
    case 0
    with "2.prems" show ?thesis by simp
  next
    case (Suc k')
    have "\<not> starts_with n (c # s)" using "2.prems"(3) [of 0] Suc by simp
    moreover have "strstr s n = Some k'"
    proof (rule "2.IH")
      show "\<not> starts_with n (drop j s)" if "j < k'" for j
        using "2.prems"(3) [of "Suc j"] that Suc by simp
    qed (use "2.prems" Suc calculation in auto)
    ultimately show ?thesis using Suc by simp
  qed
qed

lemma starts_with_nth: "starts_with p s \<Longrightarrow> i < length p \<Longrightarrow> i < length s \<and> s ! i = p ! i"
  by (auto simp: starts_with_iff nth_append)

lemma strstr_append_Some: "strstr (a @ n @ b) n \<noteq> None"
proof (induction a)
  case Nil
  have "starts_with n (n @ b)" by simp
  then show ?case by (cases "n @ b") auto
next
  case (Cons c a)
  then show ?case by auto
qed

lemma contains_iff: "contains s n \<longleftrightarrow> (\<exists>a b. s = a @ n @ b)"
proof
  assume "contains s n"
  then obtain k where "strstr s n = Some k" by (auto simp: contains_def)
  then have "starts_with n (drop k s)" by (rule strstr_Some_starts)
  then obtain b where "drop k s = n @ b" by (auto simp: starts_with_iff)
  then have "s = take k s @ n @ b" by (metis append_take_drop_id)
  then show "\<exists>a b. s = a @ n @ b" by blast
next
  assume "\<exists>a b. s = a @ n @ b"
  then obtain a b where "s = a @ n @ b" by blast
  then show "contains s n" using strstr_append_Some [of a n b] by (simp add: contains_def)
qed

lemma strrchr_None_iff: "strrchr s c = None \<longleftrightarrow> c \<notin> set s"
  by (induction s) (auto split: option.splits)

lemma strrchr_Some:
  "strrchr s c = Some i \<Longrightarrow> i < length s \<and> s ! i = c \<and> c \<notin> set (drop (Suc i) s)"
  by (induction s arbitrary: i)
     (auto split: option.splits if_splits simp: strrchr_None_iff)

lemma strrchr_append [simp]: "c \<notin> set t \<Longrightarrow> strrchr (s @ c # t) c = Some (length s)"
  by (induction s) (auto simp: strrchr_None_iff split: option.splits)

lemma strchr_Some: "strchr s c = Some i \<Longrightarrow> i < length s \<and> s ! i = c \<and> c \<notin> set (take i s)"
  by (induction s arbitrary: i) (auto split: if_splits)

lemma strchr_None_iff: "strchr s c = None \<longleftrightarrow> c \<notin> set s"
  by (induction s) auto

lemma strtok_Some:
  assumes "strtok s ds = Some (t, r)"
  shows "t \<noteq> []" and "set t \<inter> set ds = {}" and "length r < length s"
proof -
  define s' where "s' = dropWhile (\<lambda>c. c \<in> set ds) s"
  from assms have ne: "s' \<noteq> []" and t: "t = takeWhile (\<lambda>c. c \<notin> set ds) s'"
    and r: "r = tl (dropWhile (\<lambda>c. c \<notin> set ds) s')"
    by (auto simp: strtok_def s'_def Let_def split: if_splits)
  have "hd s' \<notin> set ds"
    using ne hd_dropWhile [of "\<lambda>c. c \<in> set ds" s] unfolding s'_def by simp
  with ne t show "t \<noteq> []" by (cases s') auto
  show "set t \<inter> set ds = {}" using t by (auto dest: set_takeWhileD)
  have "length r \<le> length s' - 1"
    using r length_dropWhile_le [of "\<lambda>c. c \<notin> set ds" s'] by (simp add: diff_le_mono)
  moreover have "length s' \<le> length s" by (simp add: s'_def length_dropWhile_le)
  ultimately show "length r < length s" using ne by (cases s') auto
qed

lemma strtok_first:
  assumes "t \<noteq> []" and "set t \<inter> set ds = {}" and "d \<in> set ds"
  shows "strtok (t @ d # r) ds = Some (t, r)"
proof -
  have nd: "c \<notin> set ds" if "c \<in> set t" for c using that assms(2) by auto
  have "dropWhile (\<lambda>c. c \<in> set ds) (t @ d # r) = t @ d # r"
    using assms(1) nd by (cases t) auto
  moreover have "takeWhile (\<lambda>c. c \<notin> set ds) (t @ d # r) = t"
    by (rule takeWhile_append_stop) (use nd assms(3) in auto)
  moreover have "dropWhile (\<lambda>c. c \<notin> set ds) (t @ d # r) = d # r"
    by (rule dropWhile_append_stop) (use nd assms(3) in auto)
  ultimately show ?thesis using assms(1) by (simp add: strtok_def)
qed

lemma strtok_skip_delim: "d \<in> set ds \<Longrightarrow> strtok (d # s) ds = strtok s ds"
  by (simp add: strtok_def)

lemma fgets_len_le: "fgets_len n s \<le> length s"
  by (induction n s rule: fgets_len.induct) auto

lemma fgets_len_le_n: "fgets_len n s \<le> n"
  by (induction n s rule: fgets_len.induct) auto

lemma fgets_len_pos: "0 < n \<Longrightarrow> s \<noteq> [] \<Longrightarrow> 0 < fgets_len n s"
  by (cases n; cases s) auto

lemma fgets_None_iff: "fst (fgets n f) = None \<longleftrightarrow> f_rest f = []"
  by (simp add: fgets_def Let_def)

lemma fgets_progress:
  assumes "fgets n f = (Some l, f')" and "2 \<le> n"
  shows "length (f_rest f') < length (f_rest f)"
  using assms fgets_len_pos [of "n - 1" "f_rest f"] fgets_len_le [of "n - 1" "f_rest f"]
  by (auto simp: fgets_def Let_def split: if_splits)

lemma fgets_length: "fgets n f = (Some l, f') \<Longrightarrow> length l < max 1 n"
  using fgets_len_le_n [of "n - 1" "f_rest f"]
    length_takeWhile_le [of "\<lambda>c. c \<noteq> c_nul" "take (fgets_len (n - 1) (f_rest f)) (f_rest f)"]
  by (auto simp: fgets_def Let_def split: if_splits)

lemma fgets_rest_le: "length (f_rest (snd (fgets n f))) \<le> length (f_rest f)"
  by (simp add: fgets_def Let_def)

lemma store_Inr_iff [simp]: "store n s = Inr t \<longleftrightarrow> t = s \<and> length s < n"
  by (auto simp: store_def)

subsection \<open>Printing and reading numbers\<close>

lemma of_char_digit_char: "d < 10 \<Longrightarrow> (of_char (digit_char d) :: nat) = 48 + d"
  by (simp add: digit_char_def)

lemma digit_char_isdigit: "d < 10 \<Longrightarrow> c_isdigit (digit_char d)"
  by (simp add: c_isdigit_def of_char_digit_char)

lemma digit_val_digit_char: "d < 10 \<Longrightarrow> digit_val (digit_char d) = int d"
  by (simp add: digit_val_def of_char_digit_char)

lemma nat_digits_digits: "\<forall>c\<in>set (nat_digits n). c_isdigit c"
proof (induction n rule: nat_digits.induct)
  case (1 n)
  then show ?case
    by (subst nat_digits.simps) (auto simp: digit_char_isdigit)
qed

lemma nat_digits_nonempty [simp]: "nat_digits n \<noteq> []"
  by (subst nat_digits.simps) simp

lemma dec_value_snoc: "dec_value (xs @ [c]) = 10 * dec_value xs + digit_val c"
  by (simp add: dec_value_def)

lemma dec_value_nat_digits: "dec_value (nat_digits n) = int n"
proof (induction n rule: nat_digits.induct)
  case (1 n)
  show ?case
  proof (cases "n < 10")
    case True
    then show ?thesis
      by (subst nat_digits.simps) (simp add: dec_value_def digit_val_digit_char)
  next
    case False
    then have "dec_value (nat_digits n) = 10 * int (n div 10) + int (n mod 10)"
      using 1 by (subst nat_digits.simps) (simp add: dec_value_snoc digit_val_digit_char)
    also have "\<dots> = int (10 * (n div 10) + n mod 10)" unfolding of_nat_add of_nat_mult by simp
    finally show ?thesis by (simp only: mult_div_mod_eq)
  qed
qed

lemma c_isdigit_not_space: "c_isdigit c \<Longrightarrow> \<not> c_isspace c"
  by (auto simp: c_isdigit_def c_isspace_def)

lemma c_isdigit_not_sign: "c_isdigit c \<Longrightarrow> c \<noteq> CHR ''-'' \<and> c \<noteq> CHR ''+''"
  by (auto simp: c_isdigit_def)

lemma strtol10_nat_digits:
  "int n < 2 ^ 63 \<Longrightarrow> strtol10 (nat_digits n) = int n"
  "int n \<le> 2 ^ 63 \<Longrightarrow> strtol10 (CHR ''-'' # nat_digits n) = - int n"
proof -
  obtain c ds where eq: "nat_digits n = c # ds" by (cases "nat_digits n") auto
  have all: "\<forall>x\<in>set (nat_digits n). c_isdigit x" by (rule nat_digits_digits)
  then have c: "\<not> c_isspace c" "c \<noteq> CHR ''-''" "c \<noteq> CHR ''+''"
    using eq c_isdigit_not_space c_isdigit_not_sign by auto
  have tw: "takeWhile c_isdigit (nat_digits n) = nat_digits n"
    using all by (rule takeWhile_all)
  show "strtol10 (nat_digits n) = int n" if "int n < 2 ^ 63"
    using c tw that dec_value_nat_digits [of n] by (simp add: strtol10_def Let_def eq)
  have "\<not> c_isspace (CHR ''-'')" by (simp add: c_isspace_def)
  then show "strtol10 (CHR ''-'' # nat_digits n) = - int n" if "int n \<le> 2 ^ 63"
    using that dec_value_nat_digits [of n]
    by (simp add: strtol10_def Let_def tw del: takeWhile_eq_all_conv)
qed

lemma int_wrap_id: "int32 n \<Longrightarrow> int_wrap n = n"
  by (simp add: int_wrap_def int32_def int_word_sint)

lemma int_wrap_int32: "int32 (int_wrap n)"
  using sint_ge [of "word_of_int n :: 32 word"] sint_lt [of "word_of_int n :: 32 word"]
  by (simp add: int_wrap_def int32_def)

lemma atoi_int32: "int32 (atoi s)"
  by (simp add: atoi_def int_wrap_int32)

lemma atoi_fmt_d:
  assumes "int32 n"
  shows "atoi (fmt_d n) = n"
proof (cases "n < 0")
  case True
  then have "strtol10 (fmt_d n) = n"
    using assms strtol10_nat_digits(2) [of "nat (- n)"] by (simp add: fmt_d_def int32_def)
  then show ?thesis using assms by (simp add: atoi_def int_wrap_id)
next
  case False
  then have "strtol10 (fmt_d n) = n"
    using assms strtol10_nat_digits(1) [of "nat n"] by (simp add: fmt_d_def int32_def)
  then show ?thesis using assms by (simp add: atoi_def int_wrap_id)
qed

lemma strcmp_0_iff [simp]: "strcmp a b = 0 \<longleftrightarrow> a = b"
  by (induction a b rule: strcmp.induct) auto

lemma fgets_decreases:
  "(Some l, f') = fgets n f \<Longrightarrow> 2 \<le> n \<Longrightarrow> length (f_rest f') < length (f_rest f)"
  using fgets_progress by metis

lemma fgets_rest_mono: "(l, f') = fgets n f \<Longrightarrow> length (f_rest f') \<le> length (f_rest f)"
  using fgets_rest_le [of n f] by (metis snd_conv)

lemma fgets_rest_drop: "fgets n g = (l, g') \<Longrightarrow> length (f_rest g') \<le> length (f_rest g)"
  using fgets_rest_mono by metis

lemma fgets_line_less: "fgets n g = (Some l, g') \<Longrightarrow> 2 \<le> n \<Longrightarrow> length (f_rest g') < length (f_rest g)"
  using fgets_decreases by metis

lemma fopen_rest: "(fopen_text s)\<lparr>f_rest := r\<rparr> = fopen_text r"
  by (simp add: fopen_text_def)

lemma fgets_len_line: "c_lf \<notin> set l \<Longrightarrow> length l < n \<Longrightarrow> fgets_len n (l @ c_lf # r) = Suc (length l)"
proof (induction l arbitrary: n)
  case Nil
  then show ?case by (cases n) simp_all
next
  case (Cons c l)
  then show ?case by (cases n) auto
qed

text \<open>A line without NUL bytes that fits is read as it is.\<close>

lemma fgets_line:
  assumes "f_rest g = l @ c_lf # r" and "c_lf \<notin> set l" and "c_nul \<notin> set l" and "length l + 1 < n"
  shows "fgets n g = (Some (l @ [c_lf]), g\<lparr>f_rest := r\<rparr>)"
proof -
  have k: "fgets_len (n - 1) (l @ c_lf # r) = Suc (length l)" using fgets_len_line assms(2,4) by simp
  have "takeWhile (\<lambda>c. c \<noteq> c_nul) (l @ [c_lf]) = l @ [c_lf]" using assms(3) by (intro takeWhile_all) auto
  then show ?thesis using assms(1) k by (cases g) (simp add: fgets_def Let_def)
qed

lemma length_nat_digits: "n < 10 ^ Suc k \<Longrightarrow> length (nat_digits n) \<le> Suc k"
proof (induction n arbitrary: k rule: nat_digits.induct)
  case (1 n)
  show ?case
  proof (cases "n < 10")
    case True
    then show ?thesis by (simp add: nat_digits.simps [of n])
  next
    case False
    then obtain k' where k: "k = Suc k'" using "1.prems" by (cases k) auto
    then have "n div 10 < 10 ^ Suc k'" using "1.prems" by (simp add: less_mult_imp_div_less)
    then show ?thesis using "1.IH" [OF False] False k by (simp add: nat_digits.simps [of n])
  qed
qed

lemma length_fmt_d: "int32 x \<Longrightarrow> length (fmt_d x) \<le> 11"
proof -
  assume "int32 x"
  then have "nat \<bar>x\<bar> < 10 ^ Suc 9" by (auto simp: int32_def)
  then have "length (nat_digits (nat \<bar>x\<bar>)) \<le> 10" using length_nat_digits [of "nat \<bar>x\<bar>" 9] by simp
  then show ?thesis by (auto simp: fmt_d_def)
qed

end
