(* ===== verification/Rbc_Api.thy ===== *)
theory Rbc_Api
  imports C_Lib
begin

text \<open>
  The services the driver and the libraries share: src/rbc_utils.c (the log line), src/rbc_api.c
  (logging, memory, command strings), src/rbc_task.c (processes) and the constants of
  lib/rbc_constants.h. The state is a record of the globals of include/librobocheck.h and of what
  the code observes of its environment: the text written to each stream, the streams that were
  closed, the clock, and the outcome of each allocation whose result the code tests. Other
  components extend the record.
\<close>

section \<open>Constants\<close>

definition MAX_BUFF_SIZE :: nat where "MAX_BUFF_SIZE = 512"
definition ALLOC_INC :: nat where "ALLOC_INC = 128"

definition NULL_STRING :: string where "NULL_STRING = ''[NULL]''"
definition RBC_TAG :: string where "RBC_TAG = ''[robocheck]''"
definition NOMEM_ERR :: string where "NOMEM_ERR = ''Insuficient memory space.''"
definition INVALID_PROC_STARTED :: string where
  "INVALID_PROC_STARTED = ''Invalid shell command for starting the process.''"
definition INVALID_PROC_STOPED :: string where "INVALID_PROC_STOPED = ''Invalid process stoped.''"
definition LIB_START :: string where "LIB_START = ''lib''"
definition LIB_END :: string where "LIB_END = ''.so''"

section \<open>State\<close>

datatype stream = STDERR_HANDLER | STDIN_HANDLER | STDOUT_HANDLER | Other_File nat

text \<open>
  \<open>clock n\<close> is the \<open>n\<close>-th reading of the clock, as \<open>strftime\<close> prints it; \<open>None\<close> when
  \<open>localtime\<close> fails. \<open>allocs\<close> are the outcomes of the coming allocations; past its end they
  succeed.
\<close>

record io_state =
  FileLogger :: "stream option"
  OutputStream :: "stream option"
  LoggerBuff :: string
  CurrentModule :: string
  text_of :: "stream \<Rightarrow> string"
  closed_streams :: "stream list"
  clock :: "nat \<Rightarrow> string option"
  now :: nat
  allocs :: "bool list"

definition alloc :: "'a io_state_scheme \<Rightarrow> bool \<times> 'a io_state_scheme" where
  "alloc st = (case allocs st of [] \<Rightarrow> (True, st) | b # bs \<Rightarrow> (b, st\<lparr>allocs := bs\<rparr>))"

definition fprintf :: "stream \<Rightarrow> string \<Rightarrow> 'a io_state_scheme \<Rightarrow> 'a io_state_scheme res" where
  "fprintf f s st =
     (if f \<in> set (closed_streams st) then Inl Closed_Stream
      else Inr (st\<lparr>text_of := (text_of st)(f := text_of st f @ s)\<rparr>))"

definition fclose :: "stream \<Rightarrow> 'a io_state_scheme \<Rightarrow> 'a io_state_scheme res" where
  "fclose f st = (if f \<in> set (closed_streams st) then Inl Closed_Stream else Inr (st\<lparr>closed_streams := f # closed_streams st\<rparr>))"

section \<open>The log line\<close>

text \<open>
  \<open>create_log_message\<close> fills the buffer of \<open>2 * MAX_BUFF_SIZE\<close> characters; \<open>max_length\<close> is an
  \<open>int\<close> that the stamp is taken from twice, once as \<open>current_length\<close> and once with the module.
\<close>

definition log_size :: nat where
  "log_size = 2 * MAX_BUFF_SIZE"

definition log_max :: "string \<Rightarrow> int" where
  "log_max message = int (max log_size (length message + 1))"

definition log_stamp :: "string \<Rightarrow> 'a io_state_scheme \<Rightarrow> string" where
  "log_stamp message st =
     (case clock st (now st) of None \<Rightarrow> []
      | Some t \<Rightarrow> if int (length t) < log_max message then t else [])"

definition log_tagged :: "string \<Rightarrow> 'a io_state_scheme \<Rightarrow> string" where
  "log_tagged message st =
     log_stamp message st @
     take (nat (log_max message - int (length (log_stamp message st)))) (CurrentModule st)"

definition log_len :: "string \<Rightarrow> 'a io_state_scheme \<Rightarrow> int" where
  "log_len message st =
     (let max_length = log_max message - int (length (log_stamp message st)) - int (length (log_tagged message st))
      in if int (length message) > max_length - 1 then max_length - 1 else int (length message))"

definition create_log_message :: "string option \<Rightarrow> 'a io_state_scheme \<Rightarrow> 'a io_state_scheme res" where
  "create_log_message msg st =
     (let message = (case msg of None \<Rightarrow> NULL_STRING | Some m \<Rightarrow> m)
      in rbind (store log_size (log_tagged message st)) (\<lambda>tagged.
         rbind (store log_size (tagged @ '' '' @ take (nat (log_len message st)) message)) (\<lambda>line.
           Inr (st\<lparr>now := Suc (now st), LoggerBuff := line\<rparr>))))"

definition log_message :: "string option \<Rightarrow> stream option \<Rightarrow> 'a io_state_scheme \<Rightarrow> (int \<times> 'a io_state_scheme) res" where
  "log_message message f_ptr st =
     rbind (create_log_message message st) (\<lambda>st1.
       case f_ptr of
         Some f \<Rightarrow> rbind (fprintf f (LoggerBuff st1 @ [c_lf]) st1) (\<lambda>st2. Inr (0, st2))
       | None \<Rightarrow>
           (case FileLogger st1 of
              Some f \<Rightarrow> rbind (fprintf f (LoggerBuff st1 @ [c_lf]) st1) (\<lambda>st2. Inr (0, st2))
            | None \<Rightarrow> Inr (-1, st1)))"

text \<open>A call whose result is not used.\<close>

definition log_to :: "string \<Rightarrow> stream option \<Rightarrow> 'a io_state_scheme \<Rightarrow> 'a io_state_scheme res" where
  "log_to message f_ptr st = rbind (log_message (Some message) f_ptr st) (\<lambda>(_, st1). Inr st1)"

fun is_internal_stream :: "stream option \<Rightarrow> bool" where
  "is_internal_stream stream \<longleftrightarrow>
     stream = Some STDERR_HANDLER \<or> stream = Some STDIN_HANDLER \<or> stream = Some STDOUT_HANDLER"

definition set_robocheck_module :: "'a io_state_scheme \<Rightarrow> 'a io_state_scheme" where
  "set_robocheck_module st = st\<lparr>CurrentModule := RBC_TAG\<rparr>"

text \<open>The name between the first \<open>lib\<close> and the next \<open>.so\<close>.\<close>

definition running_name :: "string \<Rightarrow> string" where
  "running_name libname =
     (let tool_name = (case strstr libname LIB_START of None \<Rightarrow> libname
                       | Some k \<Rightarrow> drop (k + length LIB_START) libname)
      in case strstr tool_name LIB_END of None \<Rightarrow> tool_name | Some k \<Rightarrow> take k tool_name)"

definition set_running_module :: "string option \<Rightarrow> 'a io_state_scheme \<Rightarrow> 'a io_state_scheme res" where
  "set_running_module libname st =
     (case libname of None \<Rightarrow> Inr st
      | Some l \<Rightarrow>
          (let (ok, st1) = alloc st
           in if \<not> ok then Inr st1
              else rbind (store log_size (''['' @ running_name l @ '']'')) (\<lambda>m.
                     Inr (st1\<lparr>CurrentModule := m\<rparr>))))"

section \<open>Memory\<close>

text \<open>
  \<open>rbc_get_mem\<close> reports whether it got the memory; a failure is logged to \<open>FileLogger\<close>.
\<close>

definition rbc_get_mem :: "'a io_state_scheme \<Rightarrow> (bool \<times> 'a io_state_scheme) res" where
  "rbc_get_mem st =
     (let (ok, st1) = alloc st
      in if ok then Inr (True, st1)
         else rbind (log_message (Some NOMEM_ERR) (FileLogger st1) st1) (\<lambda>(_, st2). Inr (False, st2)))"

definition rbc_free_mem :: "'b option \<Rightarrow> 'b option" where
  "rbc_free_mem mem_ptr = (if mem_ptr \<noteq> None then None else mem_ptr)"

section \<open>Command strings\<close>

text \<open>
  A heap buffer that was filled from its start: the characters written and its size. The
  characters after them are indeterminate; \<open>memset\<close> is called with its last two arguments
  exchanged and sets none.
\<close>

record cbuf =
  b_text :: string
  b_size :: nat

definition put_at_end :: "string \<Rightarrow> cbuf \<Rightarrow> cbuf res" where
  "put_at_end s b =
     (if length (b_text b) + length s \<le> b_size b then Inr (b\<lparr>b_text := b_text b @ s\<rparr>) else Inl Out_Of_Bounds)"

fun comm_loop :: "string option list \<Rightarrow> cbuf \<Rightarrow> 'a io_state_scheme \<Rightarrow> (cbuf option \<times> 'a io_state_scheme) res" where
  "comm_loop [] b st = Inr (Some b, st)"
| "comm_loop (None # as) b st = comm_loop as b st"
| "comm_loop (Some [] # as) b st = comm_loop as b st"
| "comm_loop (Some (c # s) # as) b st =
     (let temp_len = length (c # s);
          grow = (temp_len + length (b_text b) + 3 > b_size b);
          (ok, st1) = (if grow then alloc st else (True, st));
          b1 = (if grow then b\<lparr>b_size := b_size b + MAX_BUFF_SIZE\<rparr> else b)
      in if \<not> ok then rbind (log_to NOMEM_ERR None st1) (\<lambda>st2. Inr (None, st2))
         else rbind (put_at_end (c # s) b1) (\<lambda>b2.
              rbind (put_at_end '' '' b2) (\<lambda>b3.
                comm_loop as b3 st1)))"

definition make_comm_string ::
  "int \<Rightarrow> string option list option \<Rightarrow> 'a io_state_scheme \<Rightarrow> (cbuf option \<times> 'a io_state_scheme) res" where
  "make_comm_string argc args st =
     rbind (rbc_get_mem st) (\<lambda>(ok, st1).
       let b = \<lparr>b_text = [], b_size = MAX_BUFF_SIZE\<rparr>
       in if \<not> ok then Inr (None, st1)
          else case args of
                 None \<Rightarrow> Inr (Some b, st1)
               | Some as \<Rightarrow>
                   (if argc \<le> 0 then Inr (Some b, st1)
                    else if nat argc \<le> length as then comm_loop (take (nat argc) as) b st1
                    else Inl Out_Of_Bounds))"

section \<open>Processes\<close>

datatype EN_rbc_access = RBC_R | RBC_W | RBC_RW

record 'p rbc_task_t =
  access :: EN_rbc_access
  task_output :: "'p option"

text \<open>
  \<open>popen\<close> and \<open>pclose\<close> belong to the system. \<open>popen\<close> reads its command up to the terminator, and
  a buffer of \<open>make_comm_string\<close> has none among the characters that were written.
\<close>

definition c_string_of :: "cbuf \<Rightarrow> string res" where
  "c_string_of b = (if c_nul \<in> set (b_text b) then Inr (takeWhile (\<lambda>c. c \<noteq> c_nul) (b_text b)) else Inl Uninit_Read)"

definition open_process ::
  "(string \<Rightarrow> 'p option) \<Rightarrow> int \<Rightarrow> string option list option \<Rightarrow> EN_rbc_access \<Rightarrow> 'a io_state_scheme \<Rightarrow>
   ('p rbc_task_t option \<times> 'a io_state_scheme) res" where
  "open_process popen argc args acc st =
     rbind (make_comm_string argc args st) (\<lambda>(comm, st1).
       case comm of
         None \<Rightarrow> Inr (None, st1)
       | Some b \<Rightarrow>
           rbind (c_string_of b) (\<lambda>command.
             case popen command of
               Some comm_output \<Rightarrow>
                 rbind (rbc_get_mem st1) (\<lambda>(ok, st2).
                   Inr (if ok then Some \<lparr>access = acc, task_output = Some comm_output\<rparr> else None, st2))
             | None \<Rightarrow> rbind (log_to INVALID_PROC_STARTED None st1) (\<lambda>st2. Inr (None, st2))))"

definition wait_process ::
  "('p \<Rightarrow> int) \<Rightarrow> 'p rbc_task_t option \<Rightarrow> 'a io_state_scheme \<Rightarrow> (int \<times> 'a io_state_scheme) res" where
  "wait_process pclose task st =
     (case task of
        None \<Rightarrow> Inr (-1, st)
      | Some t \<Rightarrow>
          (case task_output t of
             None \<Rightarrow> Inr (0, st)
           | Some p \<Rightarrow>
               (if pclose p \<noteq> 0
                then rbind (log_to INVALID_PROC_STOPED None st) (\<lambda>st1. Inr (pclose p, st1))
                else Inr (pclose p, st))))"

section \<open>Facts on logging\<close>

lemma buffer_sizes [simp]: "MAX_BUFF_SIZE = 512" "log_size = 1024" "ALLOC_INC = 128"
  by (simp_all add: MAX_BUFF_SIZE_def log_size_def ALLOC_INC_def)

text \<open>The text of a log line with a stamp \<open>t\<close>, when the module name leaves room for a message.\<close>

definition log_room :: "string \<Rightarrow> string \<Rightarrow> nat" where
  "log_room t tag_name = 1024 - (2 * length t + length tag_name) - 1"

lemma log_len_arith:
  fixes k mo l :: nat
  assumes "2 * k + mo < 1024"
  shows "nat (if int l > int (max 1024 (l + 1)) - int k - int (k + mo) - 1
              then int (max 1024 (l + 1)) - int k - int (k + mo) - 1 else int l) =
         min l (1024 - (2 * k + mo) - 1 + (l + 1 - 1024))"
  using assms unfolding max_def min_def by (cases "1024 \<le> l + 1"; simp; linarith)

lemma create_log_message_iff:
  assumes "clock st (now st) = Some t" and "t \<noteq> []" and "2 * length t + length (CurrentModule st) < 1024"
  shows "create_log_message (Some m) st =
    (if length m < 1023 + length t
     then Inr (st\<lparr>now := Suc (now st),
                  LoggerBuff := t @ CurrentModule st @ '' '' @
                    take (log_room t (CurrentModule st) + (length m + 1 - 1024)) m\<rparr>)
     else Inl Out_Of_Bounds)"
proof -
  let ?k = "length t" and ?mo = "length (CurrentModule st)" and ?l = "length m"
  have k: "1 \<le> ?k" using assms(2) by (cases t) auto
  have stamp: "log_stamp m st = t"
    using assms(1,3) by (simp add: log_stamp_def log_max_def max_def)
  have tagged: "log_tagged m st = t @ CurrentModule st"
    using assms(3) by (simp add: log_tagged_def stamp log_max_def)
  have len: "nat (log_len m st) = min ?l (log_room t (CurrentModule st) + (?l + 1 - 1024))"
    using log_len_arith [OF assms(3), of ?l]
    unfolding log_len_def Let_def stamp tagged log_max_def log_room_def buffer_sizes length_append .
  have fits: "?k + (?mo + Suc (min ?l (nat (log_len m st)))) < 1024 \<longleftrightarrow> ?l < 1023 + ?k"
    using assms(3) k unfolding len log_room_def min_def by (simp; linarith)
  have tk: "take (nat (log_len m st)) m = take (log_room t (CurrentModule st) + (?l + 1 - 1024)) m"
    by (simp add: len min_def)
  have "create_log_message (Some m) st =
        rbind (store 1024 ((t @ CurrentModule st) @ '' '' @ take (nat (log_len m st)) m)) (\<lambda>line.
          Inr (st\<lparr>now := Suc (now st), LoggerBuff := line\<rparr>))"
    using assms(3) by (simp add: create_log_message_def tagged store_def)
  moreover have "length ((t @ CurrentModule st) @ '' '' @ take (nat (log_len m st)) m) < 1024 \<longleftrightarrow> ?l < 1023 + ?k"
    using fits by simp
  ultimately show ?thesis unfolding tk by (simp only: store_def append_assoc rbind.simps split: if_split) blast
qed

text \<open>The states in which the program's own messages can be logged.\<close>

definition io_wf :: "'a io_state_scheme \<Rightarrow> bool" where
  "io_wf st \<longleftrightarrow> (\<forall>n. \<exists>t. clock st n = Some t \<and> t \<noteq> [] \<and> length t \<le> 64) \<and> length (CurrentModule st) < 512"

text \<open>What logging may change.\<close>

definition same_but_log :: "'a io_state_scheme \<Rightarrow> 'a io_state_scheme \<Rightarrow> bool" where
  "same_but_log st st' \<longleftrightarrow>
     FileLogger st' = FileLogger st \<and> OutputStream st' = OutputStream st \<and>
     CurrentModule st' = CurrentModule st \<and> closed_streams st' = closed_streams st \<and> clock st' = clock st \<and>
     allocs st' = allocs st \<and> io_state.more st' = io_state.more st"

lemma same_but_log_refl [simp]: "same_but_log st st"
  by (simp add: same_but_log_def)

lemma same_but_log_trans: "same_but_log a b \<Longrightarrow> same_but_log b c \<Longrightarrow> same_but_log a c"
  by (simp add: same_but_log_def)

lemmas same_but_log_fields = same_but_log_def [THEN iffD1]

lemma io_wf_same_but_log: "same_but_log st st' \<Longrightarrow> io_wf st' \<longleftrightarrow> io_wf st"
  by (simp add: io_wf_def same_but_log_def)

lemma log_to_ok:
  assumes "io_wf st" and "length m < 1024"
    and "case f of Some g \<Rightarrow> g \<notin> set (closed_streams st) | None \<Rightarrow> \<forall>g. FileLogger st = Some g \<longrightarrow> g \<notin> set (closed_streams st)"
  shows "\<exists>st'. log_to m f st = Inr st'"
proof -
  obtain t where t: "clock st (now st) = Some t" "t \<noteq> []" "length t \<le> 64"
    using assms(1) by (auto simp: io_wf_def)
  then have "2 * length t + length (CurrentModule st) < 1024" using assms(1) by (simp add: io_wf_def)
  from create_log_message_iff [OF t(1,2) this, of m] assms(2)
  have "length m < 1023 + length t" using t(2) by (cases t) auto
  then show ?thesis
    using assms(3) create_log_message_iff [OF t(1,2) \<open>2 * length t + _ < 1024\<close>, of m]
    by (auto simp: log_to_def log_message_def fprintf_def split: option.splits)
qed

lemma create_log_message_frame: "create_log_message m st = Inr st' \<Longrightarrow> same_but_log st st' \<and> text_of st' = text_of st"
  by (auto simp: create_log_message_def Let_def rbind_Inr_iff same_but_log_def)

lemma fprintf_frame:
  "fprintf f s st = Inr st' \<Longrightarrow> same_but_log st st' \<and> text_of st' = (text_of st)(f := text_of st f @ s) \<and> f \<notin> set (closed_streams st)"
  by (auto simp: fprintf_def same_but_log_def split: if_splits)

lemma log_message_frame:
  assumes "log_message m f st = Inr (r, st')"
  shows "same_but_log st st'"
    and "f \<noteq> None \<Longrightarrow> s \<noteq> the f \<Longrightarrow> text_of st' s = text_of st s"
    and "f = None \<Longrightarrow> FileLogger st \<noteq> Some s \<Longrightarrow> text_of st' s = text_of st s"
proof -
  from assms obtain st1 where st1: "create_log_message m st = Inr st1"
    by (auto simp: log_message_def rbind_Inr_iff)
  note fr = create_log_message_frame [OF st1]
  have lg: "FileLogger st1 = FileLogger st" using fr by (simp add: same_but_log_def)
  note defs = log_message_def rbind_Inr_iff st1
  show "same_but_log st st'"
    using assms fr by (auto simp: defs split: option.splits dest!: fprintf_frame intro: same_but_log_trans)
  show "f \<noteq> None \<Longrightarrow> s \<noteq> the f \<Longrightarrow> text_of st' s = text_of st s"
    using assms fr by (auto simp: defs split: option.splits dest!: fprintf_frame)
  show "f = None \<Longrightarrow> FileLogger st \<noteq> Some s \<Longrightarrow> text_of st' s = text_of st s"
    using assms fr lg by (auto simp: defs split: option.splits dest!: fprintf_frame)
qed

lemma log_to_frame:
  assumes "log_to m f st = Inr st'"
  shows "same_but_log st st'"
    and "f \<noteq> None \<Longrightarrow> s \<noteq> the f \<Longrightarrow> text_of st' s = text_of st s"
    and "f = None \<Longrightarrow> FileLogger st \<noteq> Some s \<Longrightarrow> text_of st' s = text_of st s"
  using assms log_message_frame [of "Some m" f st _ st']
  by (auto simp: log_to_def rbind_Inr_iff)

section \<open>Facts on command strings\<close>

text \<open>The command the arguments stand for.\<close>

definition comm_text :: "string option list \<Rightarrow> string" where
  "comm_text as = concat (map (\<lambda>a. case a of Some (c # s) \<Rightarrow> (c # s) @ '' '' | _ \<Rightarrow> []) as)"

definition short_args :: "string option list \<Rightarrow> bool" where
  "short_args as \<longleftrightarrow> (\<forall>s. Some s \<in> set as \<longrightarrow> length s < MAX_BUFF_SIZE)"

lemma comm_loop_short:
  assumes "allocs st = []" and "short_args as" and "length (b_text b) \<le> b_size b"
  shows "\<exists>n. comm_loop as b st = Inr (Some \<lparr>b_text = b_text b @ comm_text as, b_size = n\<rparr>, st) \<and>
             length (b_text b @ comm_text as) \<le> n"
  using assms(2,3)
proof (induction as arbitrary: b)
  case Nil
  then show ?case by (cases b) (auto simp: comm_text_def)
next
  case (Cons a as)
  have as: "short_args as" using Cons.prems(1) by (simp add: short_args_def)
  show ?case
  proof (cases "a = None \<or> a = Some []")
    case True
    then have "comm_loop (a # as) b st = comm_loop as b st" and "comm_text (a # as) = comm_text as"
      by (auto simp: comm_text_def)
    then show ?thesis using Cons.IH [OF as Cons.prems(2)] by simp
  next
    case False
    then obtain c s where a: "a = Some (c # s)" by (metis neq_Nil_conv option.exhaust)
    define n where "n = (if length (c # s) + length (b_text b) + 3 > b_size b then b_size b + 512 else b_size b)"
    have "length (c # s) < 512" using Cons.prems(1) by (simp add: short_args_def a)
    then have fits: "length (b_text b) + length (c # s) + 1 \<le> n"
      using Cons.prems(2) by (auto simp: n_def)
    let ?b = "\<lparr>b_text = b_text b @ (c # s) @ '' '', b_size = n\<rparr>"
    have "comm_loop (a # as) b st = comm_loop as ?b st"
      using fits assms(1) by (cases b) (auto simp: a put_at_end_def alloc_def n_def Let_def)
    moreover have "comm_text (a # as) = (c # s) @ '' '' @ comm_text as"
      by (simp add: a comm_text_def)
    ultimately show ?thesis using Cons.IH [OF as, of ?b] fits by simp
  qed
qed

lemma make_comm_string_short:
  assumes "allocs st = []" and "short_args as" and "0 < argc" and "nat argc = length as"
  shows "\<exists>n. make_comm_string argc (Some as) st = Inr (Some \<lparr>b_text = comm_text as, b_size = n\<rparr>, st) \<and>
             length (comm_text as) \<le> n"
  using comm_loop_short [OF assms(1,2), of "\<lparr>b_text = [], b_size = 512\<rparr>"] assms
  by (auto simp: make_comm_string_def rbc_get_mem_def alloc_def)

lemma comm_text_no_nul:
  "(\<forall>s. Some s \<in> set as \<longrightarrow> c_nul \<notin> set s) \<Longrightarrow> c_nul \<notin> set (comm_text as)"
proof (induction as)
  case (Cons a as)
  then show ?case by (cases a) (auto simp: comm_text_def split: list.splits)
qed (simp add: comm_text_def)

section \<open>Properties\<close>

text \<open>
  A message is logged safely exactly when it is shorter than 1023 characters plus the length of
  the time stamp; a longer one overruns the log buffer, although the code bounds its length. A
  message that leaves room for the stamp twice is written in full.
\<close>

theorem log_message_bound:
  assumes "clock st (now st) = Some t" and "t \<noteq> []" and "2 * length t + length (CurrentModule st) < 1024"
    and "f \<notin> set (closed_streams st)"
  shows "(res_ok (log_message (Some m) (Some f) st) \<longleftrightarrow> length m < 1023 + length t) \<and>
         (length m \<le> log_room t (CurrentModule st) \<longrightarrow>
          (\<exists>st'. log_message (Some m) (Some f) st = Inr (0, st') \<and>
                 text_of st' f = text_of st f @ t @ CurrentModule st @ '' '' @ m @ [c_lf]))"
proof -
  have "length m < 1023 + length t" if "length m \<le> log_room t (CurrentModule st)"
    using that assms(2,3) by (cases t) (auto simp: log_room_def)
  then show ?thesis
    using create_log_message_iff [OF assms(1-3), of m] assms(4)
    by (auto simp: log_message_def fprintf_def)
qed

definition sample_io :: "string \<Rightarrow> io_state" where
  "sample_io module =
     \<lparr>FileLogger = Some STDERR_HANDLER, OutputStream = Some STDOUT_HANDLER, LoggerBuff = [],
      CurrentModule = module, text_of = (\<lambda>_. []), closed_streams = [],
      clock = (\<lambda>_. Some ''01-06-2013 10:00:00 - ''), now = 0, allocs = []\<rparr>"

theorem log_message_bound_witness:
  "\<not> res_ok (log_message (Some (replicate 1045 CHR ''x'')) (Some STDERR_HANDLER) (sample_io RBC_TAG)) \<and>
   res_ok (log_message (Some (replicate 1044 CHR ''x'')) (Some STDERR_HANDLER) (sample_io RBC_TAG))"
  using log_message_bound [of "sample_io RBC_TAG" "''01-06-2013 10:00:00 - ''" STDERR_HANDLER "replicate 1045 CHR ''x''"]
    log_message_bound [of "sample_io RBC_TAG" "''01-06-2013 10:00:00 - ''" STDERR_HANDLER "replicate 1044 CHR ''x''"]
  by (simp add: sample_io_def RBC_TAG_def)

text \<open>
  For arguments shorter than a buffer increment, \<open>make_comm_string\<close> builds the arguments
  separated by spaces, in a buffer that is large enough.
\<close>

theorem make_comm_string_text:
  assumes "allocs st = []" and "short_args as" and "0 < argc" and "nat argc = length as"
  shows "\<exists>n. make_comm_string argc (Some as) st = Inr (Some \<lparr>b_text = comm_text as, b_size = n\<rparr>, st) \<and>
             length (comm_text as) \<le> n"
  using assms by (rule make_comm_string_short)

theorem make_comm_string_text_witness:
  "\<exists>n. make_comm_string 2 (Some [Some ''valgrind'', Some ''-q'']) (sample_io RBC_TAG) =
         Inr (Some \<lparr>b_text = ''valgrind -q '', b_size = n\<rparr>, sample_io RBC_TAG) \<and>
       length ''valgrind -q '' \<le> n"
  using make_comm_string_text [of "sample_io RBC_TAG" "[Some ''valgrind'', Some ''-q'']" 2]
  by (simp add: sample_io_def short_args_def comm_text_def)

text \<open>
  The buffer is not terminated (the arguments of \<open>memset\<close> are exchanged), so \<open>open_process\<close>
  hands an unterminated string to \<open>popen\<close> for every command.
\<close>

theorem open_process_unterminated:
  assumes "allocs st = []" and "short_args as" and "0 < argc" and "nat argc = length as"
    and "\<forall>s. Some s \<in> set as \<longrightarrow> c_nul \<notin> set s"
  shows "open_process popen argc (Some as) acc st = Inl Uninit_Read"
  using make_comm_string_short [OF assms(1-4)] comm_text_no_nul [OF assms(5)]
  by (auto simp: open_process_def c_string_of_def)

theorem open_process_unterminated_witness:
  "open_process (\<lambda>c. Some c) 1 (Some [Some ''ls'']) RBC_R (sample_io RBC_TAG) = Inl Uninit_Read"
  by (rule open_process_unterminated) (simp_all add: sample_io_def short_args_def)

end
