(* ===== verification/Errset.thy ===== *)
theory Errset
  imports C_Lib
begin

unbundle bit_operations_syntax

text \<open>
  Error codes and error sets: lib/rbc_err_codes.h, lib/rbc_constants.h and the macros of
  lib/rbc_errset.h. An error set is an array of 32-bit words; the macros index it with the code
  divided by the word size, with no check. The interface the rest of the program relies on is the
  locale \<open>errset_api\<close>, interpreted here on the macros for the codes that have a bit.
\<close>

section \<open>Error codes\<close>

datatype EN_err_type =
    ERR_NONE
  | ERR_MEMORY_LEAK
  | ERR_INVALID_ACCESS
  | ERR_UNINITIALIZED
  | ERR_FILE_DESCRIPTORS
  | ERR_DATA_RACE
  | ERR_DEAD_LOCK
  | ERR_UNLOCK
  | ERR_DESTROY
  | ERR_CONDITION_VARIABLE
  | ERR_HOLD_LOCK
  | ERR_DUPLICATE_CODE
  | ERR_STATIC_VARIABLE
  | ERR_SIGNED_UNSIGNED
  | ERR_UNVERIFIED_FUNCTION
  | ERR_FUNCTION_LINE
  | ERR_FUNCTION_INDENTATION
  | ERR_TRAILING_WHITESPACE
  | ERR_MIXED_TABS
  | ERR_INVALID_FREE
  | ERR_MAX

text \<open>The value of an enumerator: its position.\<close>

primrec err_code :: "EN_err_type \<Rightarrow> nat" where
  "err_code ERR_NONE = 0"
| "err_code ERR_MEMORY_LEAK = 1"
| "err_code ERR_INVALID_ACCESS = 2"
| "err_code ERR_UNINITIALIZED = 3"
| "err_code ERR_FILE_DESCRIPTORS = 4"
| "err_code ERR_DATA_RACE = 5"
| "err_code ERR_DEAD_LOCK = 6"
| "err_code ERR_UNLOCK = 7"
| "err_code ERR_DESTROY = 8"
| "err_code ERR_CONDITION_VARIABLE = 9"
| "err_code ERR_HOLD_LOCK = 10"
| "err_code ERR_DUPLICATE_CODE = 11"
| "err_code ERR_STATIC_VARIABLE = 12"
| "err_code ERR_SIGNED_UNSIGNED = 13"
| "err_code ERR_UNVERIFIED_FUNCTION = 14"
| "err_code ERR_FUNCTION_LINE = 15"
| "err_code ERR_FUNCTION_INDENTATION = 16"
| "err_code ERR_TRAILING_WHITESPACE = 17"
| "err_code ERR_MIXED_TABS = 18"
| "err_code ERR_INVALID_FREE = 19"
| "err_code ERR_MAX = 20"

section \<open>Error sets\<close>

definition UINT_SIZE :: nat where
  "UINT_SIZE = 4 * 8"

definition RBC_ERRSET_COUNT :: nat where
  "RBC_ERRSET_COUNT = err_code ERR_MAX div UINT_SIZE + 1"

record rbc_errset_t =
  bit_set :: "32 word list"

text \<open>
  \<open>UINT_SIZE\<close> is a \<open>size_t\<close>, so a code is converted to 64 bits, without its sign, before the
  division.
\<close>

definition err_size_t :: "int \<Rightarrow> nat" where
  "err_size_t n = unat (word_of_int n :: 64 word)"

definition err_word :: "int \<Rightarrow> nat" where
  "err_word n = err_size_t n div UINT_SIZE"

definition err_mask :: "int \<Rightarrow> 32 word" where
  "err_mask n = push_bit (err_size_t n mod UINT_SIZE) 1"

definition RESET :: rbc_errset_t where
  "RESET = \<lparr>bit_set = replicate RBC_ERRSET_COUNT 0\<rparr>"

definition SET_ERR :: "int \<Rightarrow> rbc_errset_t \<Rightarrow> rbc_errset_t res" where
  "SET_ERR n es =
     (if err_word n < length (bit_set es)
      then Inr (es\<lparr>bit_set := (bit_set es)[err_word n := bit_set es ! err_word n OR err_mask n]\<rparr>)
      else Inl Out_Of_Bounds)"

definition CLR_ERR :: "int \<Rightarrow> rbc_errset_t \<Rightarrow> rbc_errset_t res" where
  "CLR_ERR n es =
     (if err_word n < length (bit_set es)
      then Inr (es\<lparr>bit_set := (bit_set es)[err_word n := bit_set es ! err_word n AND NOT (err_mask n)]\<rparr>)
      else Inl Out_Of_Bounds)"

definition ISSET_ERR :: "int \<Rightarrow> rbc_errset_t \<Rightarrow> bool res" where
  "ISSET_ERR n es =
     (if err_word n < length (bit_set es)
      then Inr (bit_set es ! err_word n AND err_mask n \<noteq> 0)
      else Inl Out_Of_Bounds)"

text \<open>The guard of the tool modules: the code is an enumerator, whose word is always there.\<close>

definition isset :: "EN_err_type \<Rightarrow> rbc_errset_t \<Rightarrow> bool" where
  "isset e es \<longleftrightarrow> ISSET_ERR (int (err_code e)) es = Inr True"

definition errset_wf :: "rbc_errset_t \<Rightarrow> bool" where
  "errset_wf es \<longleftrightarrow> length (bit_set es) = RBC_ERRSET_COUNT"

definition has_bit :: "int \<Rightarrow> bool" where
  "has_bit n \<longleftrightarrow> 0 \<le> n \<and> n < int (RBC_ERRSET_COUNT * UINT_SIZE)"

section \<open>Error codes are ordered by their value\<close>

lemma err_code_inject [simp]: "err_code a = err_code b \<longleftrightarrow> a = b"
  by (cases a; cases b) simp_all

lemma err_code_le: "err_code e \<le> 20"
  by (cases e) simp_all

instantiation EN_err_type :: linorder
begin

definition less_eq_EN_err_type :: "EN_err_type \<Rightarrow> EN_err_type \<Rightarrow> bool" where
  "less_eq_EN_err_type a b \<longleftrightarrow> err_code a \<le> err_code b"

definition less_EN_err_type :: "EN_err_type \<Rightarrow> EN_err_type \<Rightarrow> bool" where
  "less_EN_err_type a b \<longleftrightarrow> err_code a < err_code b"

instance
  by standard (auto simp: less_eq_EN_err_type_def less_EN_err_type_def)

end

section \<open>The interface of an error set\<close>

locale errset_api =
  fixes inv :: "'s \<Rightarrow> bool"
    and code :: "int \<Rightarrow> bool"
    and reset :: "'s"
    and set_err :: "int \<Rightarrow> 's \<Rightarrow> 's res"
    and clr_err :: "int \<Rightarrow> 's \<Rightarrow> 's res"
    and isset_err :: "int \<Rightarrow> 's \<Rightarrow> bool res"
  assumes reset_inv: "inv reset"
    and reset_isset: "code n \<Longrightarrow> isset_err n reset = Inr False"
    and isset_total: "inv s \<Longrightarrow> code n \<Longrightarrow> \<exists>b. isset_err n s = Inr b"
    and set_total: "inv s \<Longrightarrow> code n \<Longrightarrow> \<exists>s'. set_err n s = Inr s'"
    and set_inv: "inv s \<Longrightarrow> set_err n s = Inr s' \<Longrightarrow> inv s'"
    and set_isset: "inv s \<Longrightarrow> code n \<Longrightarrow> code m \<Longrightarrow> set_err n s = Inr s' \<Longrightarrow>
          isset_err m s' = Inr (m = n \<or> isset_err m s = Inr True)"
    and clr_total: "inv s \<Longrightarrow> code n \<Longrightarrow> \<exists>s'. clr_err n s = Inr s'"
    and clr_inv: "inv s \<Longrightarrow> clr_err n s = Inr s' \<Longrightarrow> inv s'"
    and clr_isset: "inv s \<Longrightarrow> code n \<Longrightarrow> code m \<Longrightarrow> clr_err n s = Inr s' \<Longrightarrow>
          isset_err m s' = Inr (m \<noteq> n \<and> isset_err m s = Inr True)"
begin

definition members :: "'s \<Rightarrow> int set" where
  "members s = {n. code n \<and> isset_err n s = Inr True}"

lemma members_reset: "members reset = {}"
  by (auto simp: members_def reset_isset)

lemma members_set: "inv s \<Longrightarrow> code n \<Longrightarrow> set_err n s = Inr s' \<Longrightarrow> members s' = insert n (members s)"
  by (auto simp: members_def set_isset)

lemma members_clr: "inv s \<Longrightarrow> code n \<Longrightarrow> clr_err n s = Inr s' \<Longrightarrow> members s' = members s - {n}"
  by (auto simp: members_def clr_isset)

lemma set_all:
  assumes "inv s" and "\<forall>n\<in>set ns. code n"
  shows "\<exists>s'. rfold set_err ns s = Inr s' \<and> inv s' \<and> members s' = members s \<union> set ns"
  using assms
proof (induction ns arbitrary: s)
  case Nil
  then show ?case by simp
next
  case (Cons n ns)
  obtain s1 where s1: "set_err n s = Inr s1" using set_total Cons.prems by force
  then have "inv s1" using set_inv Cons.prems by blast
  then obtain s' where "rfold set_err ns s1 = Inr s'" "inv s'" "members s' = members s1 \<union> set ns"
    using Cons.IH [of s1] Cons.prems(2) by auto
  moreover have "members s1 = insert n (members s)"
    using members_set s1 Cons.prems by auto
  ultimately show ?case using s1 by auto
qed

end

section \<open>The macros implement it\<close>

lemma errset_sizes [simp]: "UINT_SIZE = 32" "RBC_ERRSET_COUNT = 1"
  by (simp_all add: UINT_SIZE_def RBC_ERRSET_COUNT_def)

lemma err_size_t_nonneg: "0 \<le> n \<Longrightarrow> n < 2 ^ 64 \<Longrightarrow> err_size_t n = nat n"
  by (simp add: err_size_t_def unat_eq_nat_uint uint_word_of_int)

lemma has_bit_size_t: "has_bit n \<Longrightarrow> err_size_t n = nat n"
  by (rule err_size_t_nonneg) (simp_all add: has_bit_def)

lemma has_bit_word: "has_bit n \<Longrightarrow> err_word n = 0"
  by (simp add: err_word_def has_bit_size_t) (simp add: has_bit_def nat_less_iff)

lemma bit_err_mask: "has_bit n \<Longrightarrow> bit (err_mask n) k \<longleftrightarrow> k = nat n"
  by (auto simp: err_mask_def has_bit_size_t bit_simps has_bit_def)

lemma and_err_mask: "has_bit n \<Longrightarrow> w AND err_mask n \<noteq> 0 \<longleftrightarrow> bit w (nat n)"
proof -
  assume n: "has_bit n"
  then have "nat n < 32" by (auto simp: has_bit_def)
  then show ?thesis
    using n by (auto simp: bit_eq_iff [of "w AND err_mask n"] bit_and_iff bit_err_mask)
qed

lemma errset_wf_bit_set: "errset_wf es \<Longrightarrow> \<exists>w. bit_set es = [w]"
  by (auto simp: errset_wf_def length_Suc_conv)

lemma isset_bit:
  "has_bit n \<Longrightarrow> bit_set es = [w] \<Longrightarrow> ISSET_ERR n es = Inr (bit w (nat n))"
  by (simp add: ISSET_ERR_def has_bit_word and_err_mask)

lemma set_bit:
  "has_bit n \<Longrightarrow> bit_set es = [w] \<Longrightarrow> SET_ERR n es = Inr (es\<lparr>bit_set := [w OR err_mask n]\<rparr>)"
  by (simp add: SET_ERR_def has_bit_word)

lemma clr_bit:
  "has_bit n \<Longrightarrow> bit_set es = [w] \<Longrightarrow> CLR_ERR n es = Inr (es\<lparr>bit_set := [w AND NOT (err_mask n)]\<rparr>)"
  by (simp add: CLR_ERR_def has_bit_word)

lemma errset_wf_ops:
  "errset_wf es \<Longrightarrow> SET_ERR n es = Inr es' \<Longrightarrow> errset_wf es'"
  "errset_wf es \<Longrightarrow> CLR_ERR n es = Inr es' \<Longrightarrow> errset_wf es'"
  by (auto simp: SET_ERR_def CLR_ERR_def errset_wf_def split: if_splits)

lemma has_bit_nat_eq: "has_bit m \<Longrightarrow> has_bit n \<Longrightarrow> nat m = nat n \<longleftrightarrow> m = n"
  by (auto simp: has_bit_def)

interpretation es: errset_api errset_wf has_bit RESET SET_ERR CLR_ERR ISSET_ERR
proof unfold_locales
  show "errset_wf RESET" by (simp add: RESET_def errset_wf_def)
next
  fix n assume "has_bit n"
  then show "ISSET_ERR n RESET = Inr False" by (simp add: RESET_def isset_bit)
next
  fix s n assume "errset_wf s" and "has_bit n"
  then show "\<exists>b. ISSET_ERR n s = Inr b" using isset_bit errset_wf_bit_set by blast
next
  fix s n assume "errset_wf s" and "has_bit n"
  then show "\<exists>s'. SET_ERR n s = Inr s'" using set_bit errset_wf_bit_set by blast
next
  fix s n s' assume "errset_wf s" and "SET_ERR n s = Inr s'"
  then show "errset_wf s'" by (rule errset_wf_ops)
next
  fix s n m s' assume "errset_wf s" and n: "has_bit n" and m: "has_bit m" and s': "SET_ERR n s = Inr s'"
  then obtain w where w: "bit_set s = [w]" using errset_wf_bit_set by blast
  with n s' have "bit_set s' = [w OR err_mask n]" by (auto simp: set_bit)
  with m n w show "ISSET_ERR m s' = Inr (m = n \<or> ISSET_ERR m s = Inr True)"
    by (auto simp: isset_bit bit_simps bit_err_mask has_bit_nat_eq)
next
  fix s n assume "errset_wf s" and "has_bit n"
  then show "\<exists>s'. CLR_ERR n s = Inr s'" using clr_bit errset_wf_bit_set by blast
next
  fix s n s' assume "errset_wf s" and "CLR_ERR n s = Inr s'"
  then show "errset_wf s'" by (rule errset_wf_ops)
next
  fix s n m s' assume "errset_wf s" and n: "has_bit n" and m: "has_bit m" and s': "CLR_ERR n s = Inr s'"
  then obtain w where w: "bit_set s = [w]" using errset_wf_bit_set by blast
  with n s' have "bit_set s' = [w AND NOT (err_mask n)]" by (auto simp: clr_bit)
  moreover have "nat m < 32" using m by (auto simp: has_bit_def)
  ultimately show "ISSET_ERR m s' = Inr (m \<noteq> n \<and> ISSET_ERR m s = Inr True)"
    using m n w by (auto simp: isset_bit bit_simps bit_err_mask has_bit_nat_eq)
qed

lemma err_code_has_bit: "has_bit (int (err_code e))"
  using err_code_le [of e] by (simp add: has_bit_def)

lemma isset_members: "errset_wf es \<Longrightarrow> isset e es \<longleftrightarrow> int (err_code e) \<in> es.members es"
  by (simp add: isset_def es.members_def err_code_has_bit)

section \<open>Properties\<close>

text \<open>
  After a reset and any sequence of \<open>SET_ERR\<close> on codes that have a bit, \<open>ISSET_ERR\<close> answers
  exactly whether the code was set.
\<close>

theorem errset_sets_then_isset:
  assumes "\<forall>n\<in>set ns. has_bit n" and "has_bit m"
  shows "\<exists>s. rfold SET_ERR ns RESET = Inr s \<and> ISSET_ERR m s = Inr (m \<in> set ns)"
proof -
  obtain s where s: "rfold SET_ERR ns RESET = Inr s" "errset_wf s" "es.members s = set ns"
    using es.set_all [OF es.reset_inv assms(1)] by (auto simp: es.members_reset)
  obtain b where b: "ISSET_ERR m s = Inr b" using es.isset_total [OF s(2) assms(2)] by blast
  then have "b \<longleftrightarrow> m \<in> es.members s" using assms(2) by (simp add: es.members_def)
  then show ?thesis using s b by simp
qed

theorem errset_sets_then_isset_witness:
  "\<exists>s. rfold SET_ERR [1, 2, 19] RESET = Inr s \<and> ISSET_ERR 19 s = Inr ((19 :: int) \<in> set [1, 2, 19])"
  by (rule errset_sets_then_isset) (simp_all add: has_bit_def)

text \<open>
  The macros do not check their code: \<open>SET_ERR\<close> writes outside the set exactly for the \<open>int\<close>
  codes below 0 or above the last bit of the array.
\<close>

theorem set_err_out_of_bounds:
  assumes "int32 n" and "errset_wf es"
  shows "SET_ERR n es = Inl Out_Of_Bounds \<longleftrightarrow> n < 0 \<or> 32 \<le> n"
proof (cases "0 \<le> n")
  case True
  then have "err_size_t n = nat n" using assms(1) by (intro err_size_t_nonneg) (simp_all add: int32_def)
  then have "err_word n = nat n div 32" by (simp add: err_word_def)
  then show ?thesis using True assms(2) by (auto simp: SET_ERR_def errset_wf_def div_eq_0_iff)
next
  case False
  then have n: "n < 0" "- (2 ^ 31) \<le> n" using assms(1) by (auto simp: int32_def)
  have "n mod 2 ^ 64 = (n + 2 ^ 64) mod 2 ^ 64" by simp
  also have "\<dots> = n + 2 ^ 64" using n by (intro mod_pos_pos_trivial) simp_all
  finally have "err_size_t n = nat (n + 2 ^ 64)"
    by (simp add: err_size_t_def unat_eq_nat_uint uint_word_of_int)
  then have "32 \<le> err_size_t n" using n by simp
  then have "err_word n \<noteq> 0" by (simp add: err_word_def div_eq_0_iff)
  then show ?thesis using n assms(2) by (auto simp: SET_ERR_def errset_wf_def)
qed

theorem set_err_out_of_bounds_witness:
  "(SET_ERR 32 RESET = Inl Out_Of_Bounds \<longleftrightarrow> (32 :: int) < 0 \<or> 32 \<le> (32 :: int)) \<and>
   (SET_ERR (-1) RESET = Inl Out_Of_Bounds \<longleftrightarrow> (-1 :: int) < 0 \<or> 32 \<le> (-1 :: int))"
  using set_err_out_of_bounds [of 32 RESET] set_err_out_of_bounds [of "-1" RESET] es.reset_inv
  by (simp add: int32_def)

end
