(* ===== verification/Str_Utils.thy ===== *)
theory Str_Utils
  imports C_Lib
begin

text \<open>
  src/utils.c: the string helpers shared by the driver and the tool modules. On Linux the headers
  take \<open>strcasestr\<close>, \<open>strcasecmp\<close> and \<open>strncasecmp\<close> from the C library; the \<open>my_\<close> versions are
  the Windows replacements. \<open>cmp_msg_file\<close> decides whether two messages report the same place;
  \<open>trim_whitespace\<close> edits a string in place, modelled by the string it leaves.
\<close>

section \<open>Case-insensitive comparison\<close>

text \<open>A character as an \<open>int\<close>: a plain \<open>char\<close> is signed.\<close>

definition char_int :: "char \<Rightarrow> int" where
  "char_int c = (let n = int (of_char c) in if n < 128 then n else n - 256)"

definition uchar_int :: "char \<Rightarrow> int" where
  "uchar_int c = int (of_char c)"

definition char_of_int :: "int \<Rightarrow> char" where
  "char_of_int n = char_of (nat (n mod 256))"

definition my_tolower :: "int \<Rightarrow> int" where
  "my_tolower c = (if 65 \<le> c \<and> c \<ge> 90 then 97 + c - 65 else c)"

text \<open>The character a pointer into a string points to: the terminator past the end.\<close>

fun chr0 :: "string \<Rightarrow> char" where
  "chr0 [] = c_nul"
| "chr0 (c # s) = c"

function my_strncasecmp_loop :: "string \<Rightarrow> string \<Rightarrow> int \<Rightarrow> int" where
  "my_strncasecmp_loop s1 s2 n =
     (let d = my_tolower (uchar_int (chr0 s1)) - my_tolower (uchar_int (chr0 s2));
          n' = int_wrap (n - 1)
      in if n \<noteq> 0 \<and> my_tolower (char_int (chr0 s1)) = my_tolower (char_int (chr0 s2))
         then if n' = 0 \<or> chr0 s1 = c_nul \<or> chr0 s2 = c_nul then d
              else my_strncasecmp_loop (tl s1) (tl s2) n'
         else d)"
  by pat_completeness auto
termination
proof (relation "measure (\<lambda>(s1, s2, n). length s1)", goal_cases)
  case (2 s1 s2 n x n')
  then show ?case by (cases s1) auto
qed simp

declare my_strncasecmp_loop.simps [simp del]

definition my_strncasecmp :: "string \<Rightarrow> string \<Rightarrow> int \<Rightarrow> int" where
  "my_strncasecmp s1 s2 n = (if n = 0 then 0 else my_strncasecmp_loop s1 s2 n)"

definition my_strcasecmp :: "string \<Rightarrow> string \<Rightarrow> int" where
  "my_strcasecmp s1 s2 = my_strncasecmp s1 s2 (int (length s1))"

text \<open>The two nested loops: the first position whose first character matches and whose rest does.\<close>

fun my_strcasestr_loop :: "string \<Rightarrow> char \<Rightarrow> string \<Rightarrow> nat option" where
  "my_strcasestr_loop [] c needle = None"
| "my_strcasestr_loop (sc # s) c needle =
     (if char_of_int (my_tolower (uchar_int sc)) = c \<and> strncaseeq (length needle) s needle
      then Some 0 else map_option Suc (my_strcasestr_loop s c needle))"

fun my_strcasestr :: "string \<Rightarrow> string \<Rightarrow> nat option" where
  "my_strcasestr s [] = Some 0"
| "my_strcasestr s (c # needle) = my_strcasestr_loop s (char_of_int (my_tolower (uchar_int c))) needle"

definition my_strdup :: "string \<Rightarrow> string" where
  "my_strdup s = s"

section \<open>Trimming\<close>

definition ws_chars :: string where
  "ws_chars = [CHR '' '', c_tab, c_lf, c_cr]"

definition is_ws :: "char \<Rightarrow> bool" where
  "is_ws c \<longleftrightarrow> c \<in> set ws_chars"

text \<open>The length left by the loop over trailing whitespace.\<close>

fun trim_trailing :: "string \<Rightarrow> nat \<Rightarrow> nat" where
  "trim_trailing str 0 = 0"
| "trim_trailing str (Suc i) = (if is_ws (str ! i) then trim_trailing str i else Suc i)"

text \<open>The offset found by the loop over starting whitespace.\<close>

function trim_starting :: "string \<Rightarrow> nat \<Rightarrow> nat \<Rightarrow> nat" where
  "trim_starting str i len = (if i < len \<and> is_ws (str ! i) then trim_starting str (Suc i) len else i)"
  by pat_completeness auto
termination
  by (relation "measure (\<lambda>(str, i, len). len - i)") auto

declare trim_starting.simps [simp del]

definition trim_whitespace :: "string \<Rightarrow> string" where
  "trim_whitespace str =
     (let len = trim_trailing str (length str); i = trim_starting str 0 len
      in take (len - i) (drop i str))"

section \<open>Do two messages report the same place?\<close>

text \<open>
  The pointer behind "in file" and one more character: in bounds up to the terminator. What
  follows is trimmed in place.
\<close>

definition after_in_file :: "string \<Rightarrow> nat \<Rightarrow> string res" where
  "after_in_file m k =
     (if k + 8 \<le> length m then Inr (trim_whitespace (drop (k + 8) m)) else Inl Out_Of_Bounds)"

text \<open>
  \<open>strtok(p, ", ")\<close>: the offset of the token in the trimmed text and the token; the length of a
  missing token is asked for next.
\<close>

definition file_token :: "string \<Rightarrow> (nat \<times> string) res" where
  "file_token p =
     (case strtok p '', '' of
        None \<Rightarrow> Inl Null_Deref
      | Some (name, _) \<Rightarrow> Inr (length (takeWhile (\<lambda>c. c \<in> set '', '') p), name))"

definition cmp_msg_file :: "string \<Rightarrow> string \<Rightarrow> bool res" where
  "cmp_msg_file m1 m2 =
     (case (strcasestr m1 ''in file'', strcasestr m2 ''in file'') of
        (Some k1, Some k2) \<Rightarrow>
          rbind (after_in_file m1 k1) (\<lambda>p1.
          rbind (after_in_file m2 k2) (\<lambda>p2.
          rbind (file_token p1) (\<lambda>(o1, name1).
          rbind (file_token p2) (\<lambda>(o2, name2).
            let n1 = take (k1 + 8) m1 @ take o1 p1 @ name1;
                n2 = take (k2 + 8) m2 @ take o2 p2 @ name2;
                len_start = k1 + 8 + o1;
                ret = (strcaseeq name1 name2 \<or> contains name1 name2 \<or> contains name2 name1);
                ret = (ret \<and> strncaseeq len_start n1 n2);
                e1 = len_start + length name1;
                e2 = len_start + length name2
            in if e1 \<le> length m1 \<and> e2 \<le> length m2
               then Inr (ret \<and> strcaseeq (drop e1 m1) (drop e2 m2))
               else Inl Out_Of_Bounds))))
      | _ \<Rightarrow> Inr False)"

text \<open>The form of the messages that the dynamic tool modules build.\<close>

definition loc_prefix :: "string \<Rightarrow> string" where
  "loc_prefix f_name = ''In function '' @ f_name @ '', in file ''"

definition loc_suffix :: "string \<Rightarrow> string" where
  "loc_suffix l_num = '', at line '' @ l_num"

definition loc_msg :: "string \<Rightarrow> string \<Rightarrow> string \<Rightarrow> string" where
  "loc_msg f_name s_name l_num = loc_prefix f_name @ s_name @ loc_suffix l_num"

section \<open>Facts on trimming\<close>

lemma trim_trailing_le: "trim_trailing str n \<le> n"
  by (induction str n rule: trim_trailing.induct) auto

lemma trim_trailing_take:
  "n \<le> length str \<Longrightarrow> take (trim_trailing str n) str = rev (dropWhile is_ws (rev (take n str)))"
proof (induction str n rule: trim_trailing.induct)
  case (2 str i)
  then show ?case by (simp add: take_Suc_conv_app_nth)
qed simp

lemma trim_starting_eq:
  "i \<le> len \<Longrightarrow> len \<le> length str \<Longrightarrow>
   trim_starting str i len = i + length (takeWhile is_ws (drop i (take len str)))"
proof (induction str i len rule: trim_starting.induct)
  case (1 str i len)
  show ?case
  proof (cases "i < len")
    case True
    then have "drop i (take len str) = str ! i # drop (Suc i) (take len str)"
      using 1 by (metis Cons_nth_drop_Suc length_take min.absorb2 nth_take)
    with 1 True show ?thesis by (auto simp: trim_starting.simps [of str i len])
  next
    case False
    then have "trim_starting str i len = i" by (simp add: trim_starting.simps [of str i len])
    with 1 False show ?thesis by simp
  qed
qed

lemma trim_whitespace_eq:
  "trim_whitespace str = dropWhile is_ws (rev (dropWhile is_ws (rev str)))"
proof -
  define len where "len = trim_trailing str (length str)"
  have len: "len \<le> length str" by (simp add: len_def trim_trailing_le)
  have tk: "take len str = rev (dropWhile is_ws (rev str))"
    using trim_trailing_take [of "length str" str] by (simp add: len_def)
  have "trim_starting str 0 len = length (takeWhile is_ws (take len str))"
    using trim_starting_eq [of 0 len str] len by simp
  then have "trim_whitespace str = drop (length (takeWhile is_ws (take len str))) (take len str)"
    by (simp add: trim_whitespace_def Let_def flip: len_def drop_take)
  then show ?thesis by (simp add: tk dropWhile_eq_drop)
qed

lemma trim_whitespace_append:
  assumes "x \<noteq> []" and "\<not> is_ws (hd x)" and "\<not> is_ws (last x)"
  shows "\<exists>u w. trim_whitespace (x @ y) = x @ u \<and> y = u @ w \<and> (\<forall>c\<in>set w. is_ws c)"
proof -
  have dx: "dropWhile is_ws (rev x) = rev x"
    using assms by (cases x rule: rev_cases) auto
  have dx': "dropWhile is_ws (x @ z) = x @ z" for z
    using assms by (cases x) auto
  define u where "u = rev (dropWhile is_ws (rev y))"
  define w where "w = rev (takeWhile is_ws (rev y))"
  have y: "y = u @ w"
    by (metis rev_append rev_rev_ident takeWhile_dropWhile_id u_def w_def)
  have w: "\<forall>c\<in>set w. is_ws c" by (auto simp: w_def dest: set_takeWhileD)
  have "dropWhile is_ws (rev (x @ y)) = rev (x @ u)"
  proof (cases "\<forall>c\<in>set y. is_ws c")
    case True
    then have "u = []" by (simp add: u_def dropWhile_all)
    moreover have "dropWhile is_ws (rev y @ rev x) = dropWhile is_ws (rev x)"
      using True by (intro dropWhile_append2) simp
    ultimately show ?thesis by (simp add: dx)
  next
    case False
    then show ?thesis by (auto simp: u_def dropWhile_append1)
  qed
  then have "trim_whitespace (x @ y) = x @ u" by (simp add: trim_whitespace_eq dx')
  with y w show ?thesis by blast
qed

lemma trim_whitespace_length: "length (trim_whitespace s) \<le> length s"
  using length_dropWhile_le [of is_ws "rev (dropWhile is_ws (rev s))"]
    length_dropWhile_le [of is_ws "rev s"]
  by (simp add: trim_whitespace_eq)

lemma rev_dropWhile_idem: "dropWhile P (dropWhile P xs) = dropWhile P xs"
  by (induction xs) auto

lemma trim_whitespace_ends:
  assumes "trim_whitespace s \<noteq> []"
  shows "\<not> is_ws (hd (trim_whitespace s))" and "\<not> is_ws (last (trim_whitespace s))"
proof -
  let ?r = "rev (dropWhile is_ws (rev s))"
  show "\<not> is_ws (hd (trim_whitespace s))"
    using assms hd_dropWhile unfolding trim_whitespace_eq by blast
  have ne: "dropWhile is_ws (rev s) \<noteq> []"
    using assms unfolding trim_whitespace_eq by (cases "dropWhile is_ws (rev s)") auto
  then have "\<not> is_ws (last ?r)" using hd_dropWhile [of is_ws "rev s"] by (simp add: last_rev)
  moreover have "last (trim_whitespace s) = last ?r"
    using assms unfolding trim_whitespace_eq
    by (metis dropWhile_eq_drop last_drop drop_eq_Nil linorder_not_le)
  ultimately show "\<not> is_ws (last (trim_whitespace s))" by simp
qed

section \<open>Facts on message comparison\<close>

lemma after_in_file_length: "after_in_file m k = Inr p \<Longrightarrow> k + 8 + length p \<le> length m"
  using trim_whitespace_length [of "drop (k + 8) m"]
  by (auto simp: after_in_file_def split: if_splits)

lemma file_token_length: "file_token p = Inr (ofs, name) \<Longrightarrow> ofs + length name \<le> length p"
proof -
  assume "file_token p = Inr (ofs, name)"
  then have ofs: "ofs = length (takeWhile (\<lambda>c. c \<in> set '', '') p)"
    and name: "name = takeWhile (\<lambda>c. c \<notin> set '', '') (dropWhile (\<lambda>c. c \<in> set '', '') p)"
    by (auto simp: file_token_def strtok_def Let_def split: option.splits if_splits)
  have "length p = ofs + length (dropWhile (\<lambda>c. c \<in> set '', '') p)"
    unfolding ofs by (metis length_append takeWhile_dropWhile_id)
  then show ?thesis unfolding name by (simp add: length_takeWhile_le)
qed

lemma cmp_msg_file_self:
  assumes "strcasestr m ''in file'' = Some k" and "after_in_file m k = Inr p"
    and "file_token p = Inr (ofs, name)"
  shows "cmp_msg_file m m = Inr True"
  using assms after_in_file_length [OF assms(2)] file_token_length [OF assms(3)]
  by (simp add: cmp_msg_file_def Let_def strcaseeq_def strncaseeq_def)

lemma lower_in_file: "map c_tolower ''in file'' = ''in file''"
  by (simp add: c_tolower_def)

lemma lower_I: "c_tolower CHR ''I'' = CHR ''i''"
  by code_simp

lemma c_tolower_space: "c_tolower c = CHR '' '' \<longleftrightarrow> c = CHR '' ''"
proof
  assume c: "c_tolower c = CHR '' ''"
  show "c = CHR '' ''"
  proof (cases "65 \<le> (of_char c :: nat) \<and> (of_char c :: nat) \<le> 90")
    case True
    then have "(of_char (c_tolower c) :: nat) = of_char c + 32" by (simp add: c_tolower_def)
    with c True show ?thesis by simp
  qed (use c in \<open>simp add: c_tolower_def split: if_splits\<close>)
qed (simp add: c_tolower_def)

lemma strcasestr_loc_msg:
  assumes "CHR '' '' \<notin> set f"
  shows "strcasestr (loc_msg f s l) ''in file'' = Some (14 + length f)"
  unfolding strcasestr_def lower_in_file
proof (rule strstr_SomeI)
  define t where "t = map c_tolower (loc_msg f s l)"
  have t: "t = ''in function '' @ map c_tolower f @ '', in file '' @ map c_tolower (s @ '', at line '' @ l)"
    by (simp add: t_def loc_msg_def loc_prefix_def loc_suffix_def lower_I) (simp add: c_tolower_def)
  show "14 + length f \<le> length (map c_tolower (loc_msg f s l))" by (simp add: loc_msg_def loc_prefix_def)
  show "starts_with ''in file'' (drop (14 + length f) (map c_tolower (loc_msg f s l)))"
  proof -
    define P R where "P = ''in function '' @ map c_tolower f @ '', ''"
      and "R = CHR '' '' # map c_tolower (s @ '', at line '' @ l)"
    have "t = P @ ''in file'' @ R" by (simp add: t P_def R_def)
    moreover have "length P = 14 + length f" by (simp add: P_def)
    ultimately have "drop (14 + length f) t = ''in file'' @ R" by (metis append_eq_conv_conj)
    then show ?thesis unfolding t_def [symmetric] by (metis starts_with_append)
  qed
  fix j assume j: "j < 14 + length f"
  show "\<not> starts_with ''in file'' (drop j (map c_tolower (loc_msg f s l)))"
    unfolding t_def [symmetric]
  proof
    assume sw: "starts_with ''in file'' (drop j t)"
    have at: "i < 7 \<Longrightarrow> t ! (j + i) = ''in file'' ! i" for i
      using starts_with_nth [OF sw, of i] by auto
    have sp: "t ! (j + 2) = CHR '' ''" and n: "t ! (j + 1) = CHR ''n''" and i: "t ! j = CHR ''i''"
      and f3: "t ! (j + 3) = CHR ''f''" and i4: "t ! (j + 4) = CHR ''i''"
      using at [of 2] at [of 1] at [of 0] at [of 3] at [of 4] by simp_all
    have nsp: "map c_tolower f ! k \<noteq> CHR '' ''" if "k < length f" for k
      using assms that by (auto simp: c_tolower_space dest: nth_mem)
    consider "j < 10" | "10 \<le> j" "j < 10 + length f" | "j = 10 + length f" | "j = 11 + length f"
      | "j = 12 + length f" | "j = 13 + length f"
      using j by linarith
    then show False
    proof cases
      case 1
      then have "j \<in> {0, 1, 2, 3, 4, 5, 6, 7, 8, 9}" by auto
      then show False using sp i i4 by (auto simp: t)
    next
      case 2
      define P R where "P = ''in function ''" and "R = '', in file '' @ map c_tolower (s @ '', at line '' @ l)"
      have tP: "t = P @ map c_tolower f @ R" by (simp add: t P_def R_def)
      have lP: "length P = 12" by (simp add: P_def)
      have "t ! (j + 2) = map c_tolower f ! (j - 10)"
        using 2 less_diff_conv2 [of 10 j "length f"] by (simp add: tP nth_append lP add.commute del: nth_map)
      moreover have "j - 10 < length f" using 2 by linarith
      ultimately show False using sp nsp by metis
    qed (use sp n i in \<open>simp_all add: t nth_append nth_Cons'\<close>)
  qed
qed

text \<open>A file name in a message: not empty, with no delimiter and no whitespace.\<close>

definition file_name_ok :: "string \<Rightarrow> bool" where
  "file_name_ok s \<longleftrightarrow> s \<noteq> [] \<and> (\<forall>c\<in>set s. \<not> is_ws c \<and> c \<noteq> CHR '','')"

lemma file_name_ok_ends:
  "file_name_ok s \<Longrightarrow> s \<noteq> [] \<and> \<not> is_ws (hd s) \<and> \<not> is_ws (last s)"
  by (auto simp: file_name_ok_def)

lemma loc_lengths [simp]:
  "length (loc_prefix f) = 22 + length f" "length (loc_suffix l) = 10 + length l"
  by (simp_all add: loc_prefix_def loc_suffix_def)

lemma loc_msg_file:
  assumes "file_name_ok s"
  shows "\<exists>p. after_in_file (loc_msg f s l) (14 + length f) = Inr p \<and> file_token p = Inr (0, s)"
proof -
  define x where "x = s @ '', at line''"
  have x: "loc_msg f s l = loc_prefix f @ (x @ CHR '' '' # l)"
    by (simp add: loc_msg_def loc_suffix_def x_def)
  have d: "drop (14 + length f + 8) (loc_msg f s l) = x @ CHR '' '' # l"
    unfolding x by simp
  have "x \<noteq> []" "\<not> is_ws (hd x)" "\<not> is_ws (last x)"
    using file_name_ok_ends [OF assms] by (auto simp: x_def is_ws_def ws_chars_def)
  then obtain u where "trim_whitespace (x @ CHR '' '' # l) = x @ u"
    using trim_whitespace_append by blast
  then have p: "after_in_file (loc_msg f s l) (14 + length f) = Inr (s @ CHR '','' # '' at line'' @ u)"
    using d by (simp add: after_in_file_def x_def loc_msg_def)
  have nd: "set s \<inter> set '', '' = {}" and ne: "s \<noteq> []"
    using assms by (auto simp: file_name_ok_def is_ws_def ws_chars_def)
  have "strtok (s @ CHR '','' # '' at line'' @ u) '', '' = Some (s, '' at line'' @ u)"
    by (rule strtok_first [OF ne nd]) simp
  moreover have "takeWhile (\<lambda>c. c \<in> set '', '') (s @ CHR '','' # '' at line'' @ u) = []"
    using nd ne by (cases s) auto
  ultimately have "file_token (s @ CHR '','' # '' at line'' @ u) = Inr (0, s)"
    by (simp add: file_token_def)
  with p show ?thesis by blast
qed

text \<open>How \<open>cmp_msg_file\<close> compares two such messages.\<close>

definition same_file :: "string \<Rightarrow> string \<Rightarrow> bool" where
  "same_file s s' \<longleftrightarrow> strcaseeq s s' \<or> contains s s' \<or> contains s' s"

lemma loc_msg_drop: "drop (22 + length f + length s) (loc_msg f s l) = loc_suffix l"
  by (simp add: loc_msg_def)

lemma loc_msg_take: "take (22 + length f) (loc_msg f s l) = loc_prefix f"
  by (simp add: loc_msg_def)

lemma strcaseeq_append: "strcaseeq (x @ a) (x @ b) \<longleftrightarrow> strcaseeq a b"
  by (simp add: strcaseeq_def)

lemma cmp_msg_file_found:
  assumes "strcasestr m1 ''in file'' = Some k1" and "strcasestr m2 ''in file'' = Some k2"
    and "after_in_file m1 k1 = Inr p1" and "after_in_file m2 k2 = Inr p2"
    and "file_token p1 = Inr (o1, name1)" and "file_token p2 = Inr (o2, name2)"
  shows "cmp_msg_file m1 m2 =
    (let n1 = take (k1 + 8) m1 @ take o1 p1 @ name1;
         n2 = take (k2 + 8) m2 @ take o2 p2 @ name2;
         len_start = k1 + 8 + o1;
         e1 = len_start + length name1;
         e2 = len_start + length name2
     in if e1 \<le> length m1 \<and> e2 \<le> length m2
        then Inr (same_file name1 name2 \<and> strncaseeq len_start n1 n2 \<and>
                  strcaseeq (drop e1 m1) (drop e2 m2))
        else Inl Out_Of_Bounds)"
  using assms by (simp add: cmp_msg_file_def Let_def same_file_def)

lemma cmp_loc_msg_eq:
  assumes f: "CHR '' '' \<notin> set f" "CHR '' '' \<notin> set f'"
    and s: "file_name_ok s" "file_name_ok s'"
  shows "cmp_msg_file (loc_msg f s l) (loc_msg f' s' l') =
    (if length f \<le> 10 + length f' + length l'
     then Inr (same_file s s' \<and>
               strncaseeq (22 + length f) (loc_prefix f) (loc_prefix f' @ s') \<and>
               strcaseeq (loc_suffix l) (drop (22 + length f + length s') (loc_msg f' s' l')))
     else Inl Out_Of_Bounds)"
proof -
  obtain p where p: "after_in_file (loc_msg f s l) (14 + length f) = Inr p" "file_token p = Inr (0, s)"
    using loc_msg_file [OF s(1)] by blast
  obtain p' where p': "after_in_file (loc_msg f' s' l') (14 + length f') = Inr p'" "file_token p' = Inr (0, s')"
    using loc_msg_file [OF s(2)] by blast
  have len: "length (loc_msg g t k) = 32 + length g + length t + length k" for g t k
    by (simp add: loc_msg_def)
  have eqs: "14 + length g + 8 = 22 + length g" for g :: string by simp
  show ?thesis
    unfolding cmp_msg_file_found [OF strcasestr_loc_msg [OF f(1)] strcasestr_loc_msg [OF f(2)]
        p(1) p'(1) p(2) p'(2)] Let_def eqs loc_msg_take take_0 append_Nil add_0_right loc_msg_drop len
    by (simp add: strncaseeq_def)
qed

lemma cmp_loc_msg_same:
  assumes "CHR '' '' \<notin> set f" and "file_name_ok s" and "file_name_ok s'"
  shows "cmp_msg_file (loc_msg f s l) (loc_msg f s' l') = Inr (same_file s s' \<and> strcaseeq l l')"
proof -
  have "strncaseeq (22 + length f) (loc_prefix f) (loc_prefix f @ s')" by (simp add: strncaseeq_def)
  moreover have "drop (22 + length f + length s') (loc_msg f s' l') = loc_suffix l'"
    by (rule loc_msg_drop)
  moreover have "strcaseeq (loc_suffix l) (loc_suffix l') \<longleftrightarrow> strcaseeq l l'"
    by (simp add: loc_suffix_def strcaseeq_append del: append_Cons append_Nil)
  ultimately show ?thesis using cmp_loc_msg_eq [OF assms(1,1,2,3), of l l'] by simp
qed

section \<open>Properties\<close>

text \<open>
  \<open>trim_whitespace\<close> removes whitespace at both ends and nothing else: the string is the result
  between two pieces of whitespace, and the result neither starts nor ends with whitespace.
\<close>

theorem trim_whitespace_correct:
  "(\<exists>a b. str = a @ trim_whitespace str @ b \<and> (\<forall>c\<in>set (a @ b). is_ws c)) \<and>
   (trim_whitespace str = [] \<or>
    \<not> is_ws (hd (trim_whitespace str)) \<and> \<not> is_ws (last (trim_whitespace str)))"
proof
  let ?r = "rev (dropWhile is_ws (rev str))" and ?b = "rev (takeWhile is_ws (rev str))"
  have "str = ?r @ ?b" by (metis rev_append rev_rev_ident takeWhile_dropWhile_id)
  moreover have "?r = takeWhile is_ws ?r @ trim_whitespace str" by (simp add: trim_whitespace_eq)
  ultimately have "str = takeWhile is_ws ?r @ trim_whitespace str @ ?b" by (metis append.assoc)
  moreover have "\<forall>c\<in>set (takeWhile is_ws ?r @ ?b). is_ws c" by (auto dest: set_takeWhileD)
  ultimately show "\<exists>a b. str = a @ trim_whitespace str @ b \<and> (\<forall>c\<in>set (a @ b). is_ws c)" by blast
  show "trim_whitespace str = [] \<or>
    \<not> is_ws (hd (trim_whitespace str)) \<and> \<not> is_ws (last (trim_whitespace str))"
    using trim_whitespace_ends by blast
qed

theorem trim_whitespace_correct_witness:
  "trim_whitespace '' a b '' = ''a b''"
  using trim_whitespace_correct [of "'' a b ''"]
  by (simp add: trim_whitespace_eq is_ws_def ws_chars_def)

text \<open>
  Two messages of the form the dynamic tools build, on the same function, are reported as the
  same place exactly when the lines are equal and one file name contains the other.
\<close>

theorem cmp_msg_file_same_function:
  assumes "CHR '' '' \<notin> set f" and "file_name_ok s" and "file_name_ok s'"
  shows "cmp_msg_file (loc_msg f s l) (loc_msg f s' l') = Inr (same_file s s' \<and> strcaseeq l l')"
  using assms by (rule cmp_loc_msg_same)

theorem cmp_msg_file_same_function_witness:
  "cmp_msg_file (loc_msg ''main'' ''tests/a.c'' ''7'') (loc_msg ''main'' ''a.c'' ''7'') =
   Inr (same_file ''tests/a.c'' ''a.c'' \<and> strcaseeq ''7'' ''7'')"
  by (rule cmp_msg_file_same_function) (simp_all add: file_name_ok_def is_ws_def ws_chars_def)

text \<open>
  The end of the second message is computed from the position in the first one, so comparing
  a message with that of a function whose name is shorter by more than the end of the message
  reads outside the second string.
\<close>

theorem cmp_msg_file_reads_outside:
  assumes "CHR '' '' \<notin> set f" and "CHR '' '' \<notin> set f'" and "file_name_ok s" and "file_name_ok s'"
    and "10 + length f' + length l' < length f"
  shows "cmp_msg_file (loc_msg f s l) (loc_msg f' s' l') = Inl Out_Of_Bounds"
  using cmp_loc_msg_eq [OF assms(1-4), of l l'] assms(5) by simp

theorem cmp_msg_file_reads_outside_witness:
  "cmp_msg_file (loc_msg ''initialize_configuration'' ''a.c'' ''7'') (loc_msg ''main'' ''a.c'' ''9'') =
   Inl Out_Of_Bounds"
  by (rule cmp_msg_file_reads_outside) (simp_all add: file_name_ok_def is_ws_def ws_chars_def)

lemma my_strncasecmp_loop_prefix:
  "s \<noteq> [] \<Longrightarrow> int32 (int (length s)) \<Longrightarrow> my_strncasecmp_loop s (s @ t) (int (length s)) = 0"
proof (induction s)
  case (Cons c s)
  have w: "int_wrap (int (length (c # s)) - 1) = int (length s)"
    using Cons.prems(2) by (simp add: int_wrap_id int32_def)
  show ?case
  proof (cases "s = [] \<or> c = c_nul")
    case True
    then show ?thesis using w by (subst my_strncasecmp_loop.simps) (auto simp: Let_def)
  next
    case False
    then have "my_strncasecmp_loop s (s @ t) (int (length s)) = 0"
      using Cons by (simp add: int32_def)
    then show ?thesis using w False by (subst my_strncasecmp_loop.simps) (simp add: Let_def)
  qed
qed simp

text \<open>
  \<open>my_strcasecmp\<close> compares only as many characters as its first argument has, so a string
  compares equal to every string it is a prefix of.
\<close>

theorem my_strcasecmp_prefix:
  assumes "int32 (int (length s))"
  shows "my_strcasecmp s (s @ t) = 0"
  using my_strncasecmp_loop_prefix [OF _ assms, of t]
  by (cases "s = []") (simp_all add: my_strcasecmp_def my_strncasecmp_def)

theorem my_strcasecmp_prefix_witness: "my_strcasecmp ''err'' (''err'' @ ''or'') = 0"
  by (rule my_strcasecmp_prefix) (simp add: int32_def)

end
