(* ===== verification/C_Float.thy ===== *)
theory C_Float
  imports C_Lib Complex_Main
begin

text \<open>
  The single precision numbers of the penalty module (IEEE 754 binary32 with rounding to nearest,
  ties to even): reading with \<open>sscanf("%f")\<close>, the product of an \<open>int\<close> and a \<open>float\<close>, the value of
  32 bits read as a \<open>float\<close>, and printing with \<open>%.2f\<close>. A finite value is its sign and its
  magnitude, a rational number; the magnitudes that occur are multiples of \<open>2\<close> to the power
  \<open>-149\<close>.
\<close>

datatype c_float = Fin (negative: bool) (mag: rat) | Infinite bool | NaN

text \<open>Rounding a rational number to an integer, ties to even.\<close>

definition round_even :: "rat \<Rightarrow> int" where
  "round_even x =
     (let f = floor x; d = x - of_int f
      in if d < 1/2 then f else if 1/2 < d then f + 1 else if even f then f else f + 1)"

definition f_unit :: rat where
  "f_unit = 2 ^ 149"

text \<open>
  The least exponent at which 24 bits hold the magnitude; none at or above \<open>2\<close> to the power
  \<open>128\<close>. Rounding up at the largest exponent overflows to infinity.
\<close>

definition f_round :: "bool \<Rightarrow> rat \<Rightarrow> c_float" where
  "f_round s q =
     (let x = q * f_unit
      in case find (\<lambda>k. x < 2 ^ (24 + k)) [0..<254] of
           None \<Rightarrow> Infinite s
         | Some k \<Rightarrow> (let r = of_int (round_even (x / 2 ^ k)) * 2 ^ k
                     in if r < 2 ^ 277 then Fin s (r / f_unit) else Infinite s))"

definition f_of_int :: "int \<Rightarrow> c_float" where
  "f_of_int n = f_round (n < 0) (of_int \<bar>n\<bar>)"

fun f_mul :: "c_float \<Rightarrow> c_float \<Rightarrow> c_float" where
  "f_mul (Fin s a) (Fin t b) = f_round (s \<noteq> t) (a * b)"
| "f_mul (Fin s a) (Infinite t) = (if a = 0 then NaN else Infinite (s \<noteq> t))"
| "f_mul (Infinite s) (Fin t b) = (if b = 0 then NaN else Infinite (s \<noteq> t))"
| "f_mul (Infinite s) (Infinite t) = Infinite (s \<noteq> t)"
| "f_mul _ _ = NaN"

text \<open>The bits of an \<open>int\<close> read as a \<open>float\<close> (the two members of the union share their storage).\<close>

definition f_of_bits :: "int \<Rightarrow> c_float" where
  "f_of_bits n =
     (let b = n mod 2 ^ 32; s = (2 ^ 31 \<le> b); ex = nat (b div 2 ^ 23 mod 2 ^ 8); fr = b mod 2 ^ 23
      in if ex = 255 then (if fr = 0 then Infinite s else NaN)
         else if ex = 0 then Fin s (of_int fr / f_unit)
         else Fin s (of_int (2 ^ 23 + fr) * 2 ^ (ex - 1) / f_unit))"

section \<open>Reading\<close>

definition hex_val :: "char \<Rightarrow> int option" where
  "hex_val c =
     (if c_isdigit c then Some (digit_val c)
      else let l = (of_char (c_tolower c) :: nat)
           in if 97 \<le> l \<and> l \<le> 102 then Some (int l - 87) else None)"

definition is_base_digit :: "bool \<Rightarrow> char \<Rightarrow> bool" where
  "is_base_digit hex c \<longleftrightarrow> (if hex then hex_val c \<noteq> None else c_isdigit c)"

definition base_value :: "bool \<Rightarrow> string \<Rightarrow> int" where
  "base_value hex ds =
     foldl (\<lambda>a c. (if hex then 16 else 10) * a + (case hex_val c of Some v \<Rightarrow> v | None \<Rightarrow> 0)) 0 ds"

text \<open>An optional sign.\<close>

fun scan_sign :: "string \<Rightarrow> bool \<times> string" where
  "scan_sign (c # s) = (if c = CHR ''-'' then (True, s) else if c = CHR ''+'' then (False, s) else (False, c # s))"
| "scan_sign [] = (False, [])"

text \<open>
  An exponent, if its letter follows: \<open>None\<close> is a matching failure (a letter without digits),
  otherwise the exponent.
\<close>

definition scan_exponent :: "bool \<Rightarrow> string \<Rightarrow> int option" where
  "scan_exponent hex s =
     (if s \<noteq> [] \<and> c_tolower (hd s) = (if hex then CHR ''p'' else CHR ''e'')
      then let (neg, r) = scan_sign (tl s); ds = takeWhile c_isdigit r
           in if ds = [] then None else Some (if neg then - dec_value ds else dec_value ds)
      else Some 0)"

definition pow_int :: "rat \<Rightarrow> int \<Rightarrow> rat" where
  "pow_int b e = (if 0 \<le> e then b ^ nat e else 1 / b ^ nat (- e))"

text \<open>\<open>sscanf(s, "%f", &x)\<close>: \<open>None\<close> when nothing is stored.\<close>

definition scan_f :: "string \<Rightarrow> c_float option" where
  "scan_f s =
     (let (neg, s1) = scan_sign (dropWhile c_isspace s)
      in if strncaseeq 3 s1 ''inf'' then Some (Infinite neg)
         else if strncaseeq 3 s1 ''nan'' then Some NaN
         else let hex = (strncaseeq 2 s1 ''0x'');
                  s2 = (if hex then drop 2 s1 else s1);
                  ip = takeWhile (is_base_digit hex) s2;
                  s3 = dropWhile (is_base_digit hex) s2;
                  (fp, s4) = (if s3 \<noteq> [] \<and> hd s3 = CHR ''.''
                              then (takeWhile (is_base_digit hex) (tl s3), dropWhile (is_base_digit hex) (tl s3))
                              else ([], s3))
              in if ip = [] \<and> fp = [] then None
                 else case scan_exponent hex s4 of
                        None \<Rightarrow> None
                      | Some e \<Rightarrow>
                          Some (f_round neg
                            (of_int (base_value hex (ip @ fp)) / (if hex then 16 else 10) ^ length fp
                               * pow_int (if hex then 2 else 10) e)))"

text \<open>\<open>sscanf(s, "%d", &n)\<close>.\<close>

definition scan_d :: "string \<Rightarrow> int option" where
  "scan_d s =
     (let (neg, s1) = scan_sign (dropWhile c_isspace s)
      in if takeWhile c_isdigit s1 = [] then None else Some (atoi s))"

section \<open>Printing\<close>

text \<open>\<open>%.2f\<close>: the value is exact as a \<open>double\<close>, and is rounded to hundredths.\<close>

fun fmt_2f :: "c_float \<Rightarrow> string" where
  "fmt_2f (Fin s m) =
     (let n = nat (round_even (m * 100))
      in (if s then ''-'' else '''') @ nat_digits (n div 100) @ ''.'' @
         [digit_char (n div 10 mod 10), digit_char (n mod 10)])"
| "fmt_2f (Infinite s) = (if s then ''-inf'' else ''inf'')"
| "fmt_2f NaN = ''nan''"

section \<open>Facts\<close>

lemma round_even_of_int [simp]: "round_even (of_int n) = n"
  by (simp add: round_even_def Let_def)

lemma f_of_bits_small:
  "0 \<le> n \<Longrightarrow> n < 2 ^ 23 \<Longrightarrow> f_of_bits n = Fin False (of_int n / f_unit)"
  by (simp add: f_of_bits_def Let_def)

lemma f_unit_pos [simp]: "0 < f_unit"
  by (simp add: f_unit_def)

lemma round_even_small: "0 \<le> x \<Longrightarrow> x < 1/2 \<Longrightarrow> round_even x = 0"
proof -
  assume x: "0 \<le> x" "x < 1/2"
  then have "floor x = 0" by (simp add: floor_eq_iff)
  with x show ?thesis by (simp add: round_even_def)
qed

lemma fmt_2f_tiny: "0 \<le> m \<Longrightarrow> m < 1/200 \<Longrightarrow> fmt_2f (Fin False m) = ''0.00''"
  by (simp add: round_even_small nat_digits.simps [of 0]) code_simp

end
