(* ===== verification/Tool.thy ===== *)
theory Tool
  imports Rbc_Api Errset Str_Utils C_Float
begin

text \<open>
  lib/tool.h, lib/common_types.h and include/{static,dynamic}_tool.h: the structures exchanged
  between the driver and the tool modules, and \<open>add\<close>, with which a module builds the list of the
  errors it found. A linked list of \<open>struct rbc_output\<close> is a list of records, the first one being
  the head, whose \<open>size\<close> field counts the list; fields that are not set are \<open>Uninit\<close> or \<open>None\<close>.
\<close>

section \<open>Structures\<close>

datatype EN_tool_type = INVALID_TOOL | STATIC_TOOL | DYNAMIC_TOOL

datatype EN_data_type =
    RBC_NONE | RBC_INT | RBC_SHORT | RBC_LONG | RBC_FLOAT | RBC_DOUBLE | RBC_CHAR | RBC_PCHAR
  | RBC_TYPE_MAX

record rbc_static_input =
  file_names :: "string option list option"
  file_count :: "int option"

record rbc_dynamic_input =
  exec_name :: "string slot"
  params :: "string option list option"
  params_count :: "int option"
  sources :: "string option list slot"
  source_count :: "int option"

text \<open>\<open>input_ptr\<close> is a \<open>void *\<close> to one of the two inputs.\<close>

datatype in_ptr = In_Static rbc_static_input | In_Dynamic rbc_dynamic_input

record rbc_input =
  tool_args :: "string option list slot"
  args_count :: "int option"
  tool_type :: EN_tool_type
  input_ptr :: "in_ptr slot"

record rbc_out_info =
  msg :: "string option"
  penalty :: "string option"
  penalty_value :: c_float

record rbc_output =
  err_msg :: "string option"
  err_type :: EN_err_type
  aux_info :: "rbc_out_info slot"
  out_size :: "int option"

section \<open>The list of detected errors\<close>

text \<open>The condition of \<open>add\<close> and of \<open>check_for_duplicates\<close>.\<close>

definition same_report :: "rbc_output \<Rightarrow> rbc_output \<Rightarrow> bool res" where
  "same_report p node =
     (if err_type p = err_type node
      then (case (err_msg p, err_msg node) of (Some m1, Some m2) \<Rightarrow> cmp_msg_file m1 m2 | _ \<Rightarrow> Inr False)
      else Inr False)"

text \<open>The nodes before the first one that reports the same: \<open>q\<close> is the last of them.\<close>

fun add_scan :: "rbc_output list \<Rightarrow> rbc_output \<Rightarrow> rbc_output list res" where
  "add_scan [] node = Inr []"
| "add_scan (p # ps) node =
     rbind (same_report p node) (\<lambda>d.
       if d then Inr [] else rbind (add_scan ps node) (\<lambda>qs. Inr (p # qs)))"

definition add_node :: "rbc_output \<Rightarrow> int option \<Rightarrow> rbc_output" where
  "add_node node n = \<lparr>err_msg = err_msg node, err_type = err_type node, aux_info = Uninit, out_size = n\<rparr>"

text \<open>
  The new node is linked after \<open>q\<close>, so the nodes from the first duplicate on are unlinked; without
  a \<open>q\<close> it becomes the whole list.
\<close>

definition add :: "rbc_output list \<Rightarrow> rbc_output \<Rightarrow> rbc_output list res" where
  "add list node =
     rbind (add_scan list node) (\<lambda>kept.
       case kept of
         [] \<Rightarrow> Inr [add_node node (Some 1)]
       | h # t \<Rightarrow>
           rbind (read_var (out_size h)) (\<lambda>n.
             Inr (h\<lparr>out_size := Some (n + 1)\<rparr> # t @ [add_node node None])))"

section \<open>Facts\<close>

text \<open>What a node reports, and the lists without two reports of the same place.\<close>

definition report :: "rbc_output \<Rightarrow> string option \<times> EN_err_type" where
  "report p = (err_msg p, err_type p)"

lemma same_report_cong: "report p = report p' \<Longrightarrow> report q = report q' \<Longrightarrow> same_report p q = same_report p' q'"
  by (simp add: report_def same_report_def)

lemma report_simps [simp]:
  "report (add_node node n) = report node" "report (p\<lparr>out_size := m\<rparr>) = report p"
  by (simp_all add: add_node_def report_def)

fun no_repeat :: "rbc_output list \<Rightarrow> bool" where
  "no_repeat [] \<longleftrightarrow> True"
| "no_repeat (p # ps) \<longleftrightarrow> (\<forall>q\<in>set ps. same_report p q = Inr False) \<and> no_repeat ps"

lemma no_repeat_append:
  "no_repeat (ps @ qs) \<longleftrightarrow>
   no_repeat ps \<and> no_repeat qs \<and> (\<forall>p\<in>set ps. \<forall>q\<in>set qs. same_report p q = Inr False)"
  by (induction ps) auto

lemma no_repeat_cong: "map report ps = map report qs \<Longrightarrow> no_repeat ps \<longleftrightarrow> no_repeat qs"
proof (induction ps arbitrary: qs)
  case (Cons p ps)
  then obtain q qs' where qs: "qs = q # qs'" and r: "report p = report q" "map report ps = map report qs'"
    by (cases qs) auto
  have *: "(\<forall>x\<in>set xs. same_report p x = Inr False) \<longleftrightarrow>
            (\<forall>x\<in>set xs'. same_report q x = Inr False)" if "map report xs = map report xs'" for xs xs'
    using that
  proof (induction xs arbitrary: xs')
    case (Cons y ys)
    then obtain y' ys' where xs': "xs' = y' # ys'" by (cases xs') auto
    with Cons.prems have "same_report p y = same_report q y'" using r(1) by (intro same_report_cong) auto
    then show ?case using Cons xs' by auto
  qed simp
  show ?case using Cons.IH [OF r(2)] * [OF r(2)] by (simp add: qs)
qed simp

lemma add_scan_split:
  assumes "add_scan ps node = Inr ks"
  shows "(\<forall>p\<in>set ks. same_report p node = Inr False) \<and>
         (ks = ps \<or> (\<exists>p r. ps = ks @ p # r \<and> same_report p node = Inr True))"
  using assms
proof (induction ps arbitrary: ks)
  case (Cons p ps)
  then obtain d where d: "same_report p node = Inr d" by (auto simp: rbind_Inr_iff)
  show ?case
  proof (cases d)
    case True
    then show ?thesis using Cons.prems d by auto
  next
    case False
    then obtain ks' where "ks = p # ks'" "add_scan ps node = Inr ks'"
      using Cons.prems d by (auto simp: rbind_Inr_iff)
    then show ?thesis using Cons.IH [of ks'] d False by auto
  qed
qed simp

lemma add_scan_unique:
  "\<forall>p\<in>set ps. same_report p node = Inr False \<Longrightarrow> add_scan ps node = Inr ps"
  by (induction ps) auto

lemma add_scan_dup:
  "\<forall>p\<in>set ks. same_report p node = Inr False \<Longrightarrow> same_report d node = Inr True \<Longrightarrow>
   add_scan (ks @ d # r) node = Inr ks"
  by (induction ks) auto

lemma add_reports:
  assumes "add list node = Inr list'"
  obtains ks where "add_scan list node = Inr ks" and "map report list' = map report ks @ [report node]"
proof -
  obtain ks where ks: "add_scan list node = Inr ks" using assms by (auto simp: add_def rbind_Inr_iff)
  moreover have "map report list' = map report ks @ [report node]"
    using assms ks by (cases ks) (auto simp: add_def rbind_Inr_iff)
  ultimately show thesis by (rule that)
qed

lemma add_no_repeat:
  assumes "no_repeat list" and "add list node = Inr list'"
  shows "no_repeat list'"
proof -
  obtain ks where ks: "add_scan list node = Inr ks" and r: "map report list' = map report (ks @ [node])"
    using add_reports [OF assms(2)] by auto
  note split = add_scan_split [OF ks]
  have "no_repeat ks"
    using assms(1) split by (auto simp: no_repeat_append)
  then have "no_repeat (ks @ [node])" using split by (simp add: no_repeat_append)
  then show ?thesis using no_repeat_cong [OF r] by simp
qed

text \<open>The head of a list built by \<open>add\<close> counts it as long as no report is repeated.\<close>

definition counted :: "rbc_output list \<Rightarrow> bool" where
  "counted list \<longleftrightarrow> list = [] \<or> out_size (hd list) = Some (int (length list))"

lemma add_unique:
  assumes "counted list" and "\<forall>p\<in>set list. same_report p node = Inr False"
  shows "\<exists>list'. add list node = Inr list' \<and> counted list' \<and>
                 map report list' = map report list @ [report node]"
proof (cases list)
  case Nil
  then show ?thesis by (simp add: add_def counted_def add_node_def report_def)
next
  case (Cons h t)
  then show ?thesis using assms add_scan_unique [OF assms(2)] by (simp add: add_def counted_def)
qed

lemma add_err_types:
  "add list node = Inr list' \<Longrightarrow> err_type ` set list' \<subseteq> insert (err_type node) (err_type ` set list)"
proof -
  assume a: "add list node = Inr list'"
  obtain ks where ks: "add_scan list node = Inr ks" and r: "map report list' = map report ks @ [report node]"
    using add_reports [OF a] by auto
  have sub: "set ks \<subseteq> set list" using add_scan_split [OF ks] by auto
  have "map snd (map report list') = map snd (map report ks @ [report node])" using r by simp
  then have "map err_type list' = map err_type ks @ [err_type node]" by (simp add: comp_def report_def)
  then have "err_type ` set list' = set (map err_type ks @ [err_type node])"
    by (metis list.set_map)
  then show ?thesis using sub by auto
qed

section \<open>Properties\<close>

definition sample_out :: "string \<Rightarrow> EN_err_type \<Rightarrow> rbc_output" where
  "sample_out m e = \<lparr>err_msg = Some m, err_type = e, aux_info = Uninit, out_size = Some 1\<rparr>"

text \<open>
  A report that no node of the list repeats is appended, nothing else changes in what the list
  reports, and the head still counts the list.
\<close>

theorem add_new_report:
  assumes "counted list" and "\<forall>p\<in>set list. same_report p node = Inr False"
  shows "\<exists>list'. add list node = Inr list' \<and> counted list' \<and>
                 map report list' = map report list @ [report node]"
  using assms by (rule add_unique)

theorem add_new_report_witness:
  "\<exists>list'. add [sample_out ''in file a.c'' ERR_MEMORY_LEAK] (sample_out ''in file b.c'' ERR_MEMORY_LEAK) = Inr list' \<and>
           counted list' \<and>
           map report list' = [(Some ''in file a.c'', ERR_MEMORY_LEAK), (Some ''in file b.c'', ERR_MEMORY_LEAK)]"
proof -
  have "same_report (sample_out ''in file a.c'' ERR_MEMORY_LEAK) (sample_out ''in file b.c'' ERR_MEMORY_LEAK) = Inr False"
    by code_simp
  then show ?thesis
    using add_new_report [of "[sample_out ''in file a.c'' ERR_MEMORY_LEAK]" "sample_out ''in file b.c'' ERR_MEMORY_LEAK"]
    by (simp add: counted_def report_def sample_out_def)
qed

text \<open>
  A report that the list already has is not left out: the list is cut off before the first
  node that reports the same and the new node is put there, so the later nodes are lost, while
  the count of the head still goes up.
\<close>

theorem add_repeated_report:
  assumes "list = h # ks @ d # r" and "\<forall>p\<in>set (h # ks). same_report p node = Inr False"
    and "same_report d node = Inr True" and "out_size h = Some n"
  shows "\<exists>list'. add list node = Inr list' \<and> map report list' = map report (h # ks) @ [report node] \<and>
                 out_size (hd list') = Some (n + 1)"
  using add_scan_dup [OF assms(2,3), of r] assms(4) by (simp add: assms(1) add_def)

theorem add_repeated_report_witness:
  "\<exists>list'. add [sample_out ''in file a.c'' ERR_MEMORY_LEAK, sample_out ''in file b.c'' ERR_MEMORY_LEAK,
               sample_out ''in file c.c'' ERR_MEMORY_LEAK] (sample_out ''in file b.c'' ERR_MEMORY_LEAK) = Inr list' \<and>
           map report list' = [(Some ''in file a.c'', ERR_MEMORY_LEAK), (Some ''in file b.c'', ERR_MEMORY_LEAK)] \<and>
           out_size (hd list') = Some 2"
proof -
  have "same_report (sample_out ''in file a.c'' ERR_MEMORY_LEAK) (sample_out ''in file b.c'' ERR_MEMORY_LEAK) = Inr False"
    "same_report (sample_out ''in file b.c'' ERR_MEMORY_LEAK) (sample_out ''in file b.c'' ERR_MEMORY_LEAK) = Inr True"
    by code_simp+
  then show ?thesis
    using add_repeated_report [of _ "sample_out ''in file a.c'' ERR_MEMORY_LEAK" "[]"
        "sample_out ''in file b.c'' ERR_MEMORY_LEAK" "[sample_out ''in file c.c'' ERR_MEMORY_LEAK]"
        "sample_out ''in file b.c'' ERR_MEMORY_LEAK" 1]
    by (simp add: report_def sample_out_def)
qed

lemma add_scan_takeWhile: "add_scan ps node = Inr ks \<Longrightarrow> ks = takeWhile (\<lambda>p. same_report p node = Inr False) ps"
  by (induction ps arbitrary: ks) (auto simp: rbind_Inr_iff split: if_splits)

text \<open>
  C30: on a list without repeated reports \<open>add\<close> keeps exactly the nodes before the first one that
  reports the same as the new node (all of them when there is none), in their order, and puts the new
  node after them; the count of the head goes up by one, or is 1 when no node is kept; and no node of
  the new list repeats an earlier one.
\<close>

theorem add_keeps_before_repeat:
  assumes "no_repeat list" and "add list node = Inr list'"
    and "kept = takeWhile (\<lambda>p. same_report p node = Inr False) list"
  shows "map report list' = map report kept @ [report node] \<and>
         out_size (hd list') = (if kept = [] then Some 1 else map_option (\<lambda>n. n + 1) (out_size (hd list))) \<and>
         no_repeat list'"
proof -
  obtain ks where ks: "add_scan list node = Inr ks" and r: "map report list' = map report ks @ [report node]"
    using add_reports [OF assms(2)] by auto
  have k: "ks = kept" using add_scan_takeWhile [OF ks] assms(3) by simp
  have "hd list = hd kept" if "kept \<noteq> []"
    using that assms(3) by (cases list) (auto split: if_splits)
  then have "out_size (hd list') = (if kept = [] then Some 1 else map_option (\<lambda>n. n + 1) (out_size (hd list)))"
    using assms(2) ks k by (cases kept) (auto simp: add_def rbind_Inr_iff add_node_def)
  with r k add_no_repeat [OF assms(1,2)] show ?thesis by simp
qed

text \<open>Three reports of one kind of error, to which a fourth and a repetition of the second are added.\<close>

definition sample_list :: "rbc_output list" where
  "sample_list =
     [(sample_out ''in file a.c'' ERR_MEMORY_LEAK)\<lparr>out_size := Some 3\<rparr>, sample_out ''in file b.c'' ERR_MEMORY_LEAK,
      sample_out ''in file c.c'' ERR_MEMORY_LEAK]"

theorem add_keeps_before_repeat_witness:
  "\<exists>l1 l2. add sample_list (sample_out ''in file d.c'' ERR_MEMORY_LEAK) = Inr l1 \<and>
     add sample_list (sample_out ''in file b.c'' ERR_MEMORY_LEAK) = Inr l2 \<and>
     map err_msg l1 = [Some ''in file a.c'', Some ''in file b.c'', Some ''in file c.c'', Some ''in file d.c''] \<and>
     map err_msg l2 = [Some ''in file a.c'', Some ''in file b.c''] \<and>
     out_size (hd l1) = Some 4 \<and> out_size (hd l2) = Some 4 \<and> no_repeat l1 \<and> no_repeat l2"
proof -
  let ?d = "sample_out ''in file d.c'' ERR_MEMORY_LEAK" and ?b = "sample_out ''in file b.c'' ERR_MEMORY_LEAK"
  have "\<not> isl (add sample_list ?d)" "\<not> isl (add sample_list ?b)" by code_simp+
  then obtain l1 l2 where l: "add sample_list ?d = Inr l1" "add sample_list ?b = Inr l2"
    by (metis sum.collapse(2))
  have n: "no_repeat sample_list" by code_simp
  have k: "takeWhile (\<lambda>p. same_report p ?d = Inr False) sample_list = sample_list"
    "takeWhile (\<lambda>p. same_report p ?b = Inr False) sample_list = take 1 sample_list" by code_simp+
  have e: "map err_msg ls = map fst (map report ls)" for ls by (simp add: report_def comp_def)
  note r1 = add_keeps_before_repeat [OF n l(1) k(1) [symmetric]]
    and r2 = add_keeps_before_repeat [OF n l(2) k(2) [symmetric]]
  have m1: "map err_msg l1 = [Some ''in file a.c'', Some ''in file b.c'', Some ''in file c.c'', Some ''in file d.c'']"
    unfolding e using r1 by (simp add: sample_list_def sample_out_def report_def)
  have m2: "map err_msg l2 = [Some ''in file a.c'', Some ''in file b.c'']"
    unfolding e using r2 by (simp add: sample_list_def sample_out_def report_def)
  have c: "out_size (hd l1) = Some 4" "out_size (hd l2) = Some 4" "no_repeat l1" "no_repeat l2"
    using r1 r2 by (simp_all add: sample_list_def)
  show ?thesis by (intro exI conjI) (rule l m1 m2 c)+
qed

end
