(* ===== verification/Xml_Tree.thy ===== *)
theory Xml_Tree
  imports C_Lib
begin

text \<open>
  config/rbc_xml_parser.{h,c}: reading and editing the configuration document. A document is the
  list of its top-level nodes (\<open>doc->children\<close> and the siblings after it), a node has a type, a
  name, its attributes, its children and the contents of a text. A node pointer is NULL or the path of the node: the index
  of the node among its siblings, followed by the path of its parent; \<open>next\<close>, \<open>children\<close> and the
  dereferencing of a pointer are functions of the document and the path, so a pointer keeps its
  meaning when the document is edited elsewhere. The loops \<open>while (node != NULL)\<close> over siblings are
  functions over the pointers \<open>node_seq\<close> visits, whose termination is proved once.
\<close>

section \<open>The structures of the library\<close>

datatype xmlElementType =
    XML_ELEMENT_NODE
  | XML_TEXT_NODE
  | XML_CDATA_SECTION_NODE
  | XML_PI_NODE
  | XML_COMMENT_NODE

text \<open>
  The value of an attribute: \<open>None\<close> when the attribute has no child, \<open>Some None\<close> when the content
  of the child is NULL.
\<close>

record xml_attr =
  a_name :: string
  a_value :: "string option option"

datatype xml_node =
  Node (n_type: xmlElementType) (n_name: string) (properties: "xml_attr list") (n_children: "xml_node list")
    (n_content: "string option")

text \<open>An element; the contents are those of a text node.\<close>

abbreviation element :: "string \<Rightarrow> xml_attr list \<Rightarrow> xml_node list \<Rightarrow> xml_node" where
  "element n ps ks \<equiv> Node XML_ELEMENT_NODE n ps ks None"

type_synonym rbc_xml_doc = "xml_node list"
type_synonym rbc_xml_node = "nat list option"

text \<open>The children of the node at a path; the path \<open>[]\<close> stands for the document.\<close>

primrec kids :: "rbc_xml_doc \<Rightarrow> nat list \<Rightarrow> xml_node list" where
  "kids doc [] = doc"
| "kids doc (i # p) = (if i < length (kids doc p) then n_children (kids doc p ! i) else [])"

fun node_at :: "rbc_xml_doc \<Rightarrow> nat list \<Rightarrow> xml_node option" where
  "node_at doc [] = None"
| "node_at doc (i # p) = (if i < length (kids doc p) then Some (kids doc p ! i) else None)"

text \<open>A pointer to a path, NULL when there is no node there.\<close>

definition node_ptr :: "rbc_xml_doc \<Rightarrow> nat list \<Rightarrow> rbc_xml_node" where
  "node_ptr doc p = (if node_at doc p = None then None else Some p)"

definition node_of :: "rbc_xml_doc \<Rightarrow> rbc_xml_node \<Rightarrow> xml_node option" where
  "node_of doc node = (case node of None \<Rightarrow> None | Some p \<Rightarrow> node_at doc p)"

text \<open>\<open>doc->children\<close>, \<open>node->next\<close> and \<open>node->children\<close>.\<close>

definition doc_children :: "rbc_xml_doc \<Rightarrow> rbc_xml_node" where
  "doc_children doc = node_ptr doc [0]"

fun next_ptr :: "rbc_xml_doc \<Rightarrow> nat list \<Rightarrow> rbc_xml_node" where
  "next_ptr doc [] = None"
| "next_ptr doc (i # p) = node_ptr doc (Suc i # p)"

text \<open>Replacing the children of the node at a path read from the root, and the node at a path.\<close>

fun set_kids_fwd :: "nat list \<Rightarrow> (xml_node list \<Rightarrow> xml_node list) \<Rightarrow> xml_node list \<Rightarrow> xml_node list" where
  "set_kids_fwd [] g ks = g ks"
| "set_kids_fwd (i # is) g ks =
     (if i < length ks
      then ks[i := Node (n_type (ks ! i)) (n_name (ks ! i)) (properties (ks ! i))
                        (set_kids_fwd is g (n_children (ks ! i))) (n_content (ks ! i))]
      else ks)"

definition set_kids :: "nat list \<Rightarrow> (xml_node list \<Rightarrow> xml_node list) \<Rightarrow> rbc_xml_doc \<Rightarrow> rbc_xml_doc" where
  "set_kids p g doc = set_kids_fwd (rev p) g doc"

definition upd_nth :: "nat \<Rightarrow> ('a \<Rightarrow> 'a) \<Rightarrow> 'a list \<Rightarrow> 'a list" where
  "upd_nth i f ks = (if i < length ks then ks[i := f (ks ! i)] else ks)"

fun set_node :: "nat list \<Rightarrow> (xml_node \<Rightarrow> xml_node) \<Rightarrow> rbc_xml_doc \<Rightarrow> rbc_xml_doc" where
  "set_node [] f doc = doc"
| "set_node (i # p) f doc = set_kids p (upd_nth i f) doc"

section \<open>Moving through the document\<close>

definition is_text :: "rbc_xml_doc \<Rightarrow> nat list \<Rightarrow> bool" where
  "is_text doc p \<longleftrightarrow> map_option n_type (node_at doc p) = Some XML_TEXT_NODE"

definition get_next_node :: "rbc_xml_doc \<Rightarrow> rbc_xml_node \<Rightarrow> rbc_xml_node" where
  "get_next_node doc node =
     (case node of None \<Rightarrow> None
      | Some p \<Rightarrow> (case next_ptr doc p of None \<Rightarrow> None
                  | Some q \<Rightarrow> if is_text doc q then next_ptr doc q else Some q))"

definition get_child :: "rbc_xml_doc \<Rightarrow> rbc_xml_node \<Rightarrow> rbc_xml_node" where
  "get_child doc node = (case node of None \<Rightarrow> None | Some p \<Rightarrow> node_ptr doc (0 # p))"

text \<open>The siblings that are left after a node.\<close>

fun sibs_left :: "rbc_xml_doc \<Rightarrow> nat list \<Rightarrow> nat" where
  "sibs_left doc [] = 0"
| "sibs_left doc (i # p) = length (kids doc p) - i"

lemma next_ptr_Some:
  "next_ptr doc p = Some q \<Longrightarrow> \<exists>i r. p = i # r \<and> q = Suc i # r \<and> Suc i < length (kids doc r)"
  by (cases p) (auto simp: node_ptr_def split: if_splits)

lemma get_next_node_sibs_left:
  "get_next_node doc (Some p) = Some q \<Longrightarrow> sibs_left doc q < sibs_left doc p"
  by (auto simp: get_next_node_def split: option.splits if_splits dest!: next_ptr_Some)

text \<open>The nodes visited by \<open>while (node != NULL) { ...; node = get_next_node(node); }\<close>.\<close>

function node_seq :: "rbc_xml_doc \<Rightarrow> rbc_xml_node \<Rightarrow> nat list list" where
  "node_seq doc None = []"
| "node_seq doc (Some p) = p # node_seq doc (get_next_node doc (Some p))"
  by pat_completeness auto
termination
proof (relation "measure (\<lambda>(doc, node). case node of None \<Rightarrow> 0 | Some p \<Rightarrow> Suc (sibs_left doc p))", goal_cases)
  case (2 doc p)
  then show ?case
    by (cases "get_next_node doc (Some p)") (auto dest: get_next_node_sibs_left)
qed simp

section \<open>Filters\<close>

datatype rbc_xml_filter_t =
    TAG_NAME (tag: "string option")
  | PROPERTY_NAME (pr_name: "string option") (pr_value: "string option")

abbreviation tag_path :: "string list \<Rightarrow> rbc_xml_filter_t list" where
  "tag_path ts \<equiv> map (\<lambda>t. TAG_NAME (Some t)) ts"

definition check_node_name :: "rbc_xml_doc \<Rightarrow> rbc_xml_node \<Rightarrow> rbc_xml_filter_t \<Rightarrow> int" where
  "check_node_name doc node flt =
     (case (node_of doc node, flt) of
        (Some n, TAG_NAME (Some t)) \<Rightarrow> strcmp (n_name n) t
      | _ \<Rightarrow> -1)"

text \<open>The loop over the attributes: the result of the last comparison, stopping at 0.\<close>

fun check_props :: "xml_attr list \<Rightarrow> string \<Rightarrow> string \<Rightarrow> int \<Rightarrow> int" where
  "check_props [] name val ret = ret"
| "check_props (a # as) name val ret =
     (if strcmp (a_name a) name = 0
      then (case a_value a of
              Some (Some v) \<Rightarrow> if strcmp v val = 0 then 0 else check_props as name val (strcmp v val)
            | _ \<Rightarrow> check_props as name val ret)
      else check_props as name val ret)"

definition check_node_property :: "rbc_xml_doc \<Rightarrow> rbc_xml_node \<Rightarrow> rbc_xml_filter_t \<Rightarrow> int" where
  "check_node_property doc node flt =
     (case (node_of doc node, flt) of
        (Some n, PROPERTY_NAME (Some name) (Some val)) \<Rightarrow> check_props (properties n) name val (-1)
      | _ \<Rightarrow> -1)"

text \<open>\<open>function_handles[path[i].filter]\<close>\<close>

fun filter_match :: "rbc_xml_doc \<Rightarrow> rbc_xml_filter_t \<Rightarrow> nat list \<Rightarrow> bool" where
  "filter_match doc (TAG_NAME t) p \<longleftrightarrow> check_node_name doc (Some p) (TAG_NAME t) = 0"
| "filter_match doc (PROPERTY_NAME n v) p \<longleftrightarrow> check_node_property doc (Some p) (PROPERTY_NAME n v) = 0"

text \<open>One level: the first visited child that matches.\<close>

definition lookup_step :: "rbc_xml_doc \<Rightarrow> rbc_xml_filter_t \<Rightarrow> rbc_xml_node \<Rightarrow> rbc_xml_node" where
  "lookup_step doc flt node =
     List.find (filter_match doc flt) (node_seq doc (get_next_node doc (get_child doc node)))"

fun lookup_node :: "rbc_xml_doc \<Rightarrow> rbc_xml_node \<Rightarrow> rbc_xml_filter_t list \<Rightarrow> rbc_xml_node" where
  "lookup_node doc root [] = root"
| "lookup_node doc root (f # fs) =
     (case lookup_step doc f root of None \<Rightarrow> None | Some p \<Rightarrow> lookup_node doc (Some p) fs)"

section \<open>Attributes\<close>

fun find_prop :: "xml_attr list \<Rightarrow> string \<Rightarrow> string option" where
  "find_prop [] name = None"
| "find_prop (a # as) name =
     (if strcmp (a_name a) name = 0 then (case a_value a of None \<Rightarrow> None | Some c \<Rightarrow> c)
      else find_prop as name)"

definition get_node_property :: "rbc_xml_doc \<Rightarrow> rbc_xml_node \<Rightarrow> string \<Rightarrow> string option" where
  "get_node_property doc node name =
     (case node_of doc node of None \<Rightarrow> None | Some n \<Rightarrow> find_prop (properties n) name)"

text \<open>The new attribute list, \<open>None\<close> when there is no such attribute (the result -1).\<close>

fun set_prop :: "xml_attr list \<Rightarrow> string \<Rightarrow> string \<Rightarrow> xml_attr list option res" where
  "set_prop [] name v = Inr None"
| "set_prop (a # as) name v =
     (if strcmp (a_name a) name = 0
      then (if a_value a = None then Inl Null_Deref else Inr (Some (a\<lparr>a_value := Some (Some v)\<rparr> # as)))
      else rbind (set_prop as name v) (\<lambda>r. Inr (map_option (\<lambda>as'. a # as') r)))"

definition set_node_property_value ::
  "rbc_xml_doc \<Rightarrow> rbc_xml_node \<Rightarrow> string option \<Rightarrow> string option \<Rightarrow> (int \<times> rbc_xml_doc) res" where
  "set_node_property_value doc node property val =
     (case (property, val, node) of
        (Some pr, Some v, Some p) \<Rightarrow>
          (case node_at doc p of
             None \<Rightarrow> Inr (-1, doc)
           | Some n \<Rightarrow>
               rbind (set_prop (properties n) pr v) (\<lambda>r.
                 case r of None \<Rightarrow> Inr (-1, doc)
                 | Some ps \<Rightarrow> Inr (0, set_node p (\<lambda>n. Node (n_type n) (n_name n) ps (n_children n) (n_content n)) doc)))
      | _ \<Rightarrow> Inr (-1, doc))"

section \<open>Printing\<close>

text \<open>The display functions write to standard output; they are modelled by the text they write.\<close>

fun attr_text :: "xml_attr \<Rightarrow> string option" where
  "attr_text a = (case a_value a of Some (Some v) \<Rightarrow> Some v | _ \<Rightarrow> None)"

definition display_name :: "rbc_xml_doc \<Rightarrow> rbc_xml_node \<Rightarrow> string" where
  "display_name doc node = (case node_of doc node of None \<Rightarrow> [] | Some n \<Rightarrow> n_name n @ [c_lf])"

definition show_attr :: "string \<Rightarrow> xml_attr \<Rightarrow> string" where
  "show_attr sep a = (case attr_text a of None \<Rightarrow> [] | Some v \<Rightarrow> a_name a @ ''='' @ v @ sep)"

definition display_err_info :: "rbc_xml_doc \<Rightarrow> rbc_xml_node \<Rightarrow> string" where
  "display_err_info doc node =
     (case node_of doc node of None \<Rightarrow> []
      | Some n \<Rightarrow> (case properties n of
            [] \<Rightarrow> []
          | [a] \<Rightarrow> show_attr [c_tab] a
          | a # b # _ \<Rightarrow> show_attr [c_tab] a @ show_attr [c_lf] b))"

definition display_first_attr :: "rbc_xml_doc \<Rightarrow> rbc_xml_node \<Rightarrow> string" where
  "display_first_attr doc node =
     (case node_of doc node of None \<Rightarrow> []
      | Some n \<Rightarrow> (case properties n of
            [] \<Rightarrow> []
          | a # _ \<Rightarrow> (case attr_text a of None \<Rightarrow> [] | Some v \<Rightarrow> v @ [c_lf])))"

definition display_tool_info :: "rbc_xml_doc \<Rightarrow> rbc_xml_node \<Rightarrow> string" where
  "display_tool_info doc node =
     (if node = None then []
      else display_name doc node @
           concat (map (\<lambda>p. [c_tab, c_tab] @ display_first_attr doc (Some p))
                       (node_seq doc (get_next_node doc (get_child doc node)))))"

text \<open>\<open>printf("%s")\<close> of a NULL pointer is undefined.\<close>

definition display_err_header :: "rbc_xml_doc \<Rightarrow> rbc_xml_node \<Rightarrow> string res" where
  "display_err_header doc node =
     (case node_of doc node of None \<Rightarrow> Inr []
      | Some n \<Rightarrow> (case properties n of
            [] \<Rightarrow> Inr []
          | a # as \<Rightarrow>
              rbind (deref (case as of [] \<Rightarrow> None | b # _ \<Rightarrow> attr_text b)) (\<lambda>err_name.
              rbind (deref (attr_text a)) (\<lambda>err_id.
                Inr ([c_tab, c_tab] @ '' Error name: '' @ err_name @ '' - [id = '' @ err_id @ '']'')))))"

definition display_attr_list :: "rbc_xml_doc \<Rightarrow> rbc_xml_node \<Rightarrow> string" where
  "display_attr_list doc node =
     (case node_of doc node of None \<Rightarrow> []
      | Some n \<Rightarrow> concat (map (\<lambda>a. case attr_text a of None \<Rightarrow> []
                                    | Some v \<Rightarrow> a_name a @ '' - '' @ v @ '' '') (properties n)))"

definition display_err_sumary :: "rbc_xml_doc \<Rightarrow> rbc_xml_node \<Rightarrow> string" where
  "display_err_sumary doc node =
     (if node = None then []
      else display_name doc node @
           concat (map (\<lambda>p. [c_tab, c_tab] @ display_attr_list doc (Some p) @ [c_lf])
                       (node_seq doc (get_next_node doc (get_child doc node)))))"

text \<open>The numbered list; the counter starts at 1.\<close>

fun numbered :: "(rbc_xml_node \<Rightarrow> string) \<Rightarrow> nat \<Rightarrow> nat list list \<Rightarrow> string" where
  "numbered display i [] = []"
| "numbered display i (p # ps) = nat_digits i @ ''.'' @ [c_tab] @ display (Some p) @ numbered display (Suc i) ps"

definition list_nodes ::
  "rbc_xml_doc option \<Rightarrow> rbc_xml_filter_t list \<Rightarrow> (rbc_xml_doc \<Rightarrow> rbc_xml_node \<Rightarrow> string) option \<Rightarrow>
   (rbc_xml_doc \<Rightarrow> rbc_xml_node \<Rightarrow> string res) option \<Rightarrow> string res" where
  "list_nodes doc_ptr vec display_f display_root =
     (case (display_f, doc_ptr) of
        (Some f, Some doc) \<Rightarrow>
          (if doc_children doc = None then Inr []
           else
             let root = lookup_node doc (doc_children doc) vec
             in rbind (case display_root of None \<Rightarrow> Inr []
                       | Some g \<Rightarrow> rbind (g doc root) (\<lambda>t. Inr (t @ [c_lf]))) (\<lambda>head.
                  Inr (head @ numbered (f doc) 1 (node_seq doc (get_next_node doc (get_child doc root))))))
      | _ \<Rightarrow> Inr [])"

section \<open>Facts on the traversal\<close>

text \<open>The siblings from a node on, and the traversal on such a list.\<close>

fun sibs_from :: "rbc_xml_doc \<Rightarrow> rbc_xml_node \<Rightarrow> xml_node list" where
  "sibs_from doc (Some (i # p)) = drop i (kids doc p)"
| "sibs_from doc _ = []"

fun next_sibs :: "xml_node list \<Rightarrow> xml_node list" where
  "next_sibs (n # m # r) = (if n_type m = XML_TEXT_NODE then r else m # r)"
| "next_sibs _ = []"

lemma next_sibs_shorter: "length (next_sibs (n # r)) \<le> length r"
  by (cases r) auto

function visited :: "xml_node list \<Rightarrow> xml_node list" where
  "visited [] = []"
| "visited (n # r) = n # visited (next_sibs (n # r))"
  by pat_completeness auto
termination
  by (relation "measure length") (auto simp: next_sibs_shorter le_imp_less_Suc)

definition valid_ptr :: "rbc_xml_doc \<Rightarrow> rbc_xml_node \<Rightarrow> bool" where
  "valid_ptr doc node \<longleftrightarrow> (\<forall>p. node = Some p \<longrightarrow> node_at doc p \<noteq> None)"

lemma valid_ptr_simps [simp]:
  "valid_ptr doc None" "valid_ptr doc (Some p) \<longleftrightarrow> node_at doc p \<noteq> None"
  by (simp_all add: valid_ptr_def)

lemma valid_ptr_node_ptr [simp]: "valid_ptr doc (node_ptr doc p)"
  by (simp add: valid_ptr_def node_ptr_def)

lemma valid_next_ptr [simp]: "valid_ptr doc (next_ptr doc p)"
  by (cases p) simp_all

lemma valid_get_next_node [simp]: "valid_ptr doc (get_next_node doc node)"
  using valid_next_ptr [of doc] by (auto simp: get_next_node_def valid_ptr_def split: option.splits if_splits)

lemma valid_get_child [simp]: "valid_ptr doc (get_child doc node)"
  by (auto simp: get_child_def split: option.splits)

lemma sibs_from_node_ptr: "sibs_from doc (node_ptr doc (i # p)) = drop i (kids doc p)"
  by (simp add: node_ptr_def)

lemma sibs_from_Nil_iff: "valid_ptr doc node \<Longrightarrow> sibs_from doc node = [] \<longleftrightarrow> node = None"
  by (induction doc node rule: sibs_from.induct) (auto split: if_splits)

lemma node_at_sibs: "node_at doc p = Some n \<Longrightarrow> \<exists>r. sibs_from doc (Some p) = n # r"
  by (cases p) (auto simp: Cons_nth_drop_Suc [symmetric] split: if_splits)

lemma sibs_next:
  assumes "node_at doc p \<noteq> None"
  shows "sibs_from doc (get_next_node doc (Some p)) = next_sibs (sibs_from doc (Some p))"
proof -
  from assms obtain i r where p: "p = i # r" and i: "i < length (kids doc r)"
    by (cases p) (auto split: if_splits)
  define ks where "ks = kids doc r"
  have d: "drop i ks = ks ! i # drop (Suc i) ks"
    using i by (simp add: ks_def Cons_nth_drop_Suc)
  show ?thesis
  proof (cases "Suc i < length ks")
    case True
    have d': "drop (Suc i) ks = ks ! Suc i # drop (Suc (Suc i)) ks"
      using True by (simp add: Cons_nth_drop_Suc)
    show ?thesis
      using True d d' sibs_from_node_ptr [of doc "Suc (Suc i)" r]
      by (simp add: p get_next_node_def node_ptr_def is_text_def flip: ks_def)
  next
    case False
    then show ?thesis
      using i d by (simp add: p get_next_node_def node_ptr_def flip: ks_def)
  qed
qed

lemma node_seq_visited:
  "valid_ptr doc node \<Longrightarrow> map (\<lambda>p. node_at doc p) (node_seq doc node) = map Some (visited (sibs_from doc node))"
proof (induction doc node rule: node_seq.induct)
  case (2 doc p)
  then obtain n where n: "node_at doc p = Some n" by auto
  then obtain r where r: "sibs_from doc (Some p) = n # r" using node_at_sibs by blast
  have "sibs_from doc (get_next_node doc (Some p)) = next_sibs (n # r)"
    using sibs_next [of doc p] n r by simp
  then show ?case using 2 n r by simp
qed simp

text \<open>
  An indented list of siblings: text nodes alternate with the others, and a text node comes first
  and last. An empty list and a single text node are such lists.
\<close>

definition no_text :: "xml_node \<Rightarrow> bool" where
  "no_text n \<longleftrightarrow> n_type n \<noteq> XML_TEXT_NODE"

fun indented :: "xml_node list \<Rightarrow> bool" where
  "indented [] \<longleftrightarrow> True"
| "indented [t] \<longleftrightarrow> \<not> no_text t"
| "indented (t # e # r) \<longleftrightarrow> \<not> no_text t \<and> no_text e \<and> r \<noteq> [] \<and> indented r"

lemma visited_indented: "no_text e \<Longrightarrow> indented r \<Longrightarrow> visited (e # r) = e # filter no_text r"
proof (induction r arbitrary: e rule: indented.induct)
  case (2 t)
  then show ?case by (simp add: no_text_def)
next
  case (3 t e' r)
  then show ?case by (simp add: no_text_def)
qed simp

lemma next_sibs_indented: "indented ks \<Longrightarrow> visited (next_sibs ks) = filter no_text ks"
proof (cases ks rule: indented.cases)
  case (3 t e r)
  moreover assume "indented ks"
  ultimately show ?thesis
    using visited_indented [of e r] by (simp add: no_text_def)
qed auto

lemma visited_compact: "\<forall>n\<in>set ks. no_text n \<Longrightarrow> visited ks = ks"
proof (induction ks rule: visited.induct)
  case (2 n r)
  show ?case
  proof (cases r)
    case (Cons m r')
    with "2.prems" have "next_sibs (n # r) = r" by (simp add: no_text_def)
    with 2 show ?thesis by simp
  qed simp
qed simp

lemma children_visited:
  assumes "node_at doc p \<noteq> None"
  shows "map (node_at doc) (node_seq doc (get_next_node doc (get_child doc (Some p)))) =
         map Some (visited (next_sibs (kids doc p)))"
proof (cases "kids doc p")
  case Nil
  then have "get_child doc (Some p) = None" by (simp add: get_child_def node_ptr_def)
  then show ?thesis using Nil by (simp add: get_next_node_def)
next
  case (Cons n r)
  then have c: "get_child doc (Some p) = Some (0 # p)" and at: "node_at doc (0 # p) \<noteq> None"
    by (simp_all add: get_child_def node_ptr_def)
  show ?thesis
    using node_seq_visited [of doc "get_next_node doc (Some (0 # p))"] sibs_next [OF at]
    by (simp add: c)
qed

section \<open>Looking a path of tags up\<close>

fun all_indented :: "xml_node \<Rightarrow> bool" where
  "all_indented (Node t n ps ks c) \<longleftrightarrow> indented ks \<and> (\<forall>k\<in>set ks. all_indented k)"

fun spec_lookup :: "xml_node \<Rightarrow> string list \<Rightarrow> xml_node option" where
  "spec_lookup n [] = Some n"
| "spec_lookup n (t # ts) =
     (case List.find (\<lambda>m. no_text m \<and> n_name m = t) (n_children n) of
        None \<Rightarrow> None | Some m \<Rightarrow> spec_lookup m ts)"

lemma kids_children: "node_at doc p = Some n \<Longrightarrow> kids doc p = n_children n"
  by (cases p) (auto split: if_splits)

lemma find_map_cong:
  "map f ps = map Some ns \<Longrightarrow> (\<And>p n. f p = Some n \<Longrightarrow> P p \<longleftrightarrow> Q n) \<Longrightarrow>
   (case List.find P ps of None \<Rightarrow> None | Some p \<Rightarrow> f p) = List.find Q ns"
proof (induction ps arbitrary: ns)
  case (Cons p ps)
  then show ?case by (cases ns) auto
qed simp

lemma find_filter: "List.find Q (filter P xs) = List.find (\<lambda>x. P x \<and> Q x) xs"
  by (induction xs) auto

lemma lookup_step_spec:
  assumes "node_at doc p = Some n" and "indented (n_children n)"
  shows "(case lookup_step doc (TAG_NAME (Some t)) (Some p) of None \<Rightarrow> None | Some q \<Rightarrow> node_at doc q) =
         List.find (\<lambda>m. no_text m \<and> n_name m = t) (n_children n)"
  unfolding lookup_step_def
proof (rule trans [OF find_map_cong])
  show "map (node_at doc) (node_seq doc (get_next_node doc (get_child doc (Some p)))) =
        map Some (filter no_text (n_children n))"
    using assms children_visited [of doc p] next_sibs_indented [of "n_children n"]
    by (simp add: kids_children)
  show "filter_match doc (TAG_NAME (Some t)) q \<longleftrightarrow> n_name m = t" if "node_at doc q = Some m" for q m
    using that by (simp add: check_node_name_def node_of_def)
  show "List.find (\<lambda>m. n_name m = t) (filter no_text (n_children n)) =
        List.find (\<lambda>m. no_text m \<and> n_name m = t) (n_children n)"
    by (rule find_filter)
qed

lemma node_seq_valid: "q \<in> set (node_seq doc node) \<Longrightarrow> valid_ptr doc node \<Longrightarrow> node_at doc q \<noteq> None"
  by (induction doc node rule: node_seq.induct) auto

lemma lookup_step_valid: "valid_ptr doc (lookup_step doc f node)"
proof (cases "lookup_step doc f node")
  case (Some q)
  then have "q \<in> set (node_seq doc (get_next_node doc (get_child doc node)))"
    by (auto simp: lookup_step_def find_Some_iff)
  then have "node_at doc q \<noteq> None" by (rule node_seq_valid) simp
  with Some show ?thesis by simp
qed simp

lemma all_indented_find:
  "all_indented n \<Longrightarrow> List.find P (n_children n) = Some m \<Longrightarrow> all_indented m"
  by (cases n) (auto simp: find_Some_iff)

lemma lookup_node_spec:
  assumes "node_at doc p = Some n" and "all_indented n"
  shows "node_of doc (lookup_node doc (Some p) (map (\<lambda>t. TAG_NAME (Some t)) ts)) = spec_lookup n ts"
  using assms
proof (induction ts arbitrary: p n)
  case Nil
  then show ?case by (simp add: node_of_def)
next
  case (Cons t ts)
  have ind: "indented (n_children n)" using Cons.prems(2) by (cases n) simp
  note step = lookup_step_spec [OF Cons.prems(1) ind, of t]
  show ?case
  proof (cases "lookup_step doc (TAG_NAME (Some t)) (Some p)")
    case None
    then show ?thesis using step by (simp add: node_of_def)
  next
    case (Some q)
    moreover obtain m where m: "node_at doc q = Some m"
      using lookup_step_valid [of doc "TAG_NAME (Some t)" "Some p"] Some by auto
    ultimately have f: "List.find (\<lambda>m. no_text m \<and> n_name m = t) (n_children n) = Some m"
      using step by simp
    then have "all_indented m" using all_indented_find Cons.prems(2) by blast
    then show ?thesis using Cons.IH [OF m] Some f by simp
  qed
qed

section \<open>Facts on editing\<close>

text \<open>What a node shows besides its children.\<close>

definition shallow :: "xml_node \<Rightarrow> xmlElementType \<times> string \<times> xml_attr list" where
  "shallow n = (n_type n, n_name n, properties n)"

primrec kids_fwd :: "nat list \<Rightarrow> xml_node list \<Rightarrow> xml_node list" where
  "kids_fwd [] ks = ks"
| "kids_fwd (i # is) ks = (if i < length ks then kids_fwd is (n_children (ks ! i)) else [])"

lemma kids_fwd_snoc:
  "kids_fwd (is @ [i]) ks = (if i < length (kids_fwd is ks) then n_children (kids_fwd is ks ! i) else [])"
  by (induction "is" arbitrary: ks) simp_all

lemma kids_fwd: "kids doc p = kids_fwd (rev p) doc"
  by (induction p) (simp_all add: kids_fwd_snoc)

lemma upd_nth_children:
  "(\<And>n. n_children (f n) = n_children n) \<Longrightarrow> map n_children (upd_nth i f ks) = map n_children ks"
  by (auto simp: upd_nth_def map_update intro: nth_equalityI simp: nth_list_update)

lemma nth_children_eq:
  "map n_children ks' = map n_children ks \<Longrightarrow> j < length ks \<Longrightarrow> n_children (ks' ! j) = n_children (ks ! j)"
  by (metis length_map nth_map)

lemma kids_set_kids_fwd:
  assumes "\<And>ks. map n_children (g ks) = map n_children ks"
  shows "map shallow (kids_fwd js (set_kids_fwd is g ks)) =
         (if js = is then map shallow (g (kids_fwd js ks)) else map shallow (kids_fwd js ks))"
proof (induction "is" arbitrary: js ks)
  case Nil
  have len: "length (g ks) = length ks" using assms by (metis length_map)
  show ?case
    using nth_children_eq [OF assms] by (cases js) (auto simp: len)
next
  case (Cons i "is")
  show ?case
  proof (cases js)
    case Nil
    then show ?thesis by (auto simp: map_update shallow_def intro: nth_equalityI simp: nth_list_update)
  next
    case (Cons j js')
    then show ?thesis using Cons.IH assms [of "[]"] by (auto simp: nth_list_update)
  qed
qed

lemma kids_set_kids:
  assumes "\<And>ks. map n_children (g ks) = map n_children ks"
  shows "map shallow (kids (set_kids p g doc) q) =
         (if q = p then map shallow (g (kids doc q)) else map shallow (kids doc q))"
  using kids_set_kids_fwd [of g "rev q" "rev p" doc, OF assms]
  by (simp add: kids_fwd set_kids_def)

text \<open>The view of a document that the reading functions have: what each path shows.\<close>

definition look :: "rbc_xml_doc \<Rightarrow> nat list \<Rightarrow> (xmlElementType \<times> string \<times> xml_attr list) option" where
  "look doc p = map_option shallow (node_at doc p)"

lemma look_Cons: "look doc (i # p) = (if i < length (kids doc p) then Some (map shallow (kids doc p) ! i) else None)"
  by (simp add: look_def)

lemma look_set_node:
  assumes "node_at doc p = Some n" and "\<And>n. n_children (f n) = n_children n"
  shows "look (set_node p f doc) q = (if q = p then Some (shallow (f n)) else look doc q)"
proof -
  obtain i r where p: "p = i # r" and i: "i < length (kids doc r)" and n: "n = kids doc r ! i"
    using assms(1) by (cases p) (auto split: if_splits)
  show ?thesis
  proof (cases q)
    case Nil
    then show ?thesis by (simp add: p look_def)
  next
    case (Cons j s)
    have m: "map shallow (kids (set_node p f doc) s) =
             (if s = r then map shallow (upd_nth i f (kids doc s)) else map shallow (kids doc s))"
      unfolding p set_node.simps by (rule kids_set_kids) (rule upd_nth_children, rule assms(2))
    have len: "length (kids (set_node p f doc) s) = length (kids doc s)"
      using arg_cong [OF m, of length] by (simp add: upd_nth_def split: if_splits)
    have "look (set_node p f doc) q =
          (if j < length (kids doc s) then Some (map shallow (kids (set_node p f doc) s) ! j) else None)"
      unfolding Cons look_Cons len ..
    then have "look (set_node p f doc) q =
          (if j < length (kids doc s)
           then Some ((if s = r then map shallow (upd_nth i f (kids doc s)) else map shallow (kids doc s)) ! j)
           else None)"
      by (simp only: m)
    moreover have "q = p \<longleftrightarrow> j = i \<and> s = r" by (simp add: p Cons)
    ultimately show ?thesis
      using i n by (auto simp: Cons look_Cons upd_nth_def nth_list_update)
  qed
qed

lemma look_shape:
  "node_at doc p = None \<longleftrightarrow> look doc p = None"
  "map_option n_type (node_at doc p) = map_option fst (look doc p)"
  "map_option n_name (node_at doc p) = map_option (fst \<circ> snd) (look doc p)"
  "map_option properties (node_at doc p) = map_option (snd \<circ> snd) (look doc p)"
  by (simp_all add: look_def shallow_def option.map_comp comp_def)

lemma get_node_property_look:
  "get_node_property doc (Some p) name =
   (case look doc p of None \<Rightarrow> None | Some (t, n, ps) \<Rightarrow> find_prop ps name)"
  by (auto simp: get_node_property_def node_of_def look_def shallow_def split: option.splits)

lemma set_prop_Some:
  assumes "set_prop as name v = Inr (Some as')"
  shows "find_prop as' name = Some v" and "m \<noteq> name \<Longrightarrow> find_prop as' m = find_prop as m"
  using assms by (induction as arbitrary: as') (auto simp: rbind_Inr_iff split: if_splits)

lemma set_node_property_value_effect:
  assumes "set_node_property_value doc (Some p) (Some name) (Some v) = Inr (0, doc')"
  shows "get_node_property doc' (Some p) name = Some v"
    and "q \<noteq> p \<or> m \<noteq> name \<Longrightarrow> get_node_property doc' (Some q) m = get_node_property doc (Some q) m"
proof -
  from assms obtain n ps where n: "node_at doc p = Some n"
    and ps: "set_prop (properties n) name v = Inr (Some ps)"
    and doc': "doc' = set_node p (\<lambda>n. Node (n_type n) (n_name n) ps (n_children n) (n_content n)) doc"
    by (auto simp: set_node_property_value_def rbind_Inr_iff split: option.splits)
  have look': "look doc' q = (if q = p then Some (n_type n, n_name n, ps) else look doc q)" for q
    unfolding doc' by (subst look_set_node [OF n]) (auto simp: shallow_def)
  have look: "look doc p = Some (n_type n, n_name n, properties n)"
    using n by (simp add: look_def shallow_def)
  show "get_node_property doc' (Some p) name = Some v"
    using look' set_prop_Some(1) [OF ps] by (simp add: get_node_property_look)
  show "q \<noteq> p \<or> m \<noteq> name \<Longrightarrow> get_node_property doc' (Some q) m = get_node_property doc (Some q) m"
    using look' look set_prop_Some(2) [OF ps, of m] by (auto simp: get_node_property_look)
qed

section \<open>Properties\<close>

text \<open>
  C20: in an indented document \<open>lookup_node\<close> finds the node that a path of tags describes: at each
  level the first child that is not text and has the tag.
\<close>

theorem lookup_node_indented:
  assumes "node_at doc p = Some n" and "all_indented n"
  shows "node_of doc (lookup_node doc (Some p) (map (\<lambda>t. TAG_NAME (Some t)) ts)) = spec_lookup n ts"
  using assms by (rule lookup_node_spec)

definition sample_text :: xml_node where
  "sample_text = Node XML_TEXT_NODE ''text'' [] [] (Some [c_lf])"

definition sample_doc :: rbc_xml_doc where
  "sample_doc = [element ''appSettings'' []
     [sample_text,
      element ''init'' []
        [sample_text, element ''err_count'' [\<lparr>a_name = ''value'', a_value = Some (Some ''19'')\<rparr>] [],
         sample_text],
      sample_text]]"

theorem lookup_node_indented_witness:
  "node_of sample_doc (lookup_node sample_doc (Some [0]) (map (\<lambda>t. TAG_NAME (Some t)) [''init'', ''err_count''])) =
   Some (element ''err_count'' [\<lparr>a_name = ''value'', a_value = Some (Some ''19'')\<rparr>] [])"
  using lookup_node_indented [of sample_doc "[0]" "hd sample_doc" "[''init'', ''err_count'']"]
  by (simp add: sample_doc_def sample_text_def no_text_def)

text \<open>
  In a document without indentation the traversal of the children of a node misses the first
  one.
\<close>

theorem compact_children_miss_first:
  assumes "node_at doc p = Some n" and "\<forall>m\<in>set (n_children n). no_text m"
  shows "map (node_at doc) (node_seq doc (get_next_node doc (get_child doc (Some p)))) =
         map Some (tl (n_children n))"
proof -
  have "next_sibs (n_children n) = tl (n_children n)"
    using assms(2) by (cases "n_children n" rule: next_sibs.cases) (auto simp: no_text_def)
  moreover have "\<forall>m\<in>set (tl (n_children n)). no_text m"
    using assms(2) by (cases "n_children n") auto
  ultimately show ?thesis
    using children_visited [of doc p] assms(1) by (simp add: kids_children visited_compact)
qed

theorem compact_children_miss_first_witness:
  "map (node_at [element ''tools'' [] [element ''add'' [] []]])
       (node_seq [element ''tools'' [] [element ''add'' [] []]]
          (get_next_node [element ''tools'' [] [element ''add'' [] []]]
             (get_child [element ''tools'' [] [element ''add'' [] []]] (Some [0])))) = []"
  using compact_children_miss_first
    [of "[element ''tools'' [] [element ''add'' [] []]]" "[0]"
        "element ''tools'' [] [element ''add'' [] []]"]
  by (simp add: no_text_def)

text \<open>
  When \<open>set_node_property_value\<close> reports success, the attribute of the node has the new value,
  and every other attribute of every node is what it was.
\<close>

theorem set_then_get_property:
  assumes "set_node_property_value doc (Some p) (Some name) (Some v) = Inr (0, doc')"
  shows "get_node_property doc' (Some q) m =
         (if q = p \<and> m = name then Some v else get_node_property doc (Some q) m)"
  using set_node_property_value_effect [OF assms] by auto

theorem set_then_get_property_witness:
  "\<exists>doc'. set_node_property_value sample_doc (Some [1, 1, 0]) (Some ''value'') (Some ''20'') = Inr (0, doc') \<and>
          get_node_property doc' (Some [1, 1, 0]) ''value'' = Some ''20''"
proof -
  obtain doc' where "set_node_property_value sample_doc (Some [1, 1, 0]) (Some ''value'') (Some ''20'') = Inr (0, doc')"
    by (simp add: sample_doc_def sample_text_def set_node_property_value_def set_kids_def upd_nth_def)
  then show ?thesis using set_then_get_property [of sample_doc "[1, 1, 0]" "''value''" "''20''" doc' "[1, 1, 0]" "''value''"]
    by auto
qed

end
