(* ===== verification/Penalty.thy ===== *)
theory Penalty
  imports Tool Xml_Tree
begin

text \<open>
  src/penalty.c: the penalty library. It keeps the document and an array of pointers to the
  penalty of each error, which it fills from the \<open>errors\<close> element, and computes what a number of
  errors of one type costs. The array is allocated with the size of the structure instead of the
  size of a pointer, so it has room for four times as many pointers as it needs; only the first
  \<open>PENALTY_COUNT\<close> are initialised.
\<close>

section \<open>State\<close>

text \<open>The members \<open>int_value\<close> and \<open>float_value\<close> of the union share their storage.\<close>

datatype rbc_value = V_Uninit | V_Int int | V_Float c_float

record rbc_penalty_t =
  pen_type :: "EN_data_type option"
  step :: int
  pen_msg :: "string option"
  err_penalty_msg :: "string option"
  pen_val :: rbc_value

record penalty_state = io_state +
  pen_doc :: "rbc_xml_doc option"
  penalties :: "rbc_penalty_t slot list option"
  pen_freed :: bool

definition PENALTY_COUNT :: nat where
  "PENALTY_COUNT = err_code ERR_MAX"

definition penalty_slots :: nat where
  "penalty_slots = PENALTY_COUNT * 32 div 8"

definition INT32_MAX :: int where
  "INT32_MAX = 2147483647"

fun float_value :: "rbc_value \<Rightarrow> c_float res" where
  "float_value V_Uninit = Inl Uninit_Read"
| "float_value (V_Int n) = Inr (f_of_bits n)"
| "float_value (V_Float f) = Inr f"

section \<open>Reading a penalty\<close>

definition get_data_type :: "string \<Rightarrow> EN_data_type" where
  "get_data_type type =
     (if type = ''int'' then RBC_INT
      else if type = ''short'' then RBC_SHORT
      else if type = ''long'' then RBC_LONG
      else if type = ''float'' then RBC_FLOAT
      else if type = ''double'' then RBC_DOUBLE
      else RBC_NONE)"

definition set_rbc_value :: "rbc_penalty_t \<Rightarrow> string option \<Rightarrow> string option \<Rightarrow> rbc_penalty_t" where
  "set_rbc_value pen type val =
     (case (type, val) of
        (Some t, Some v) \<Rightarrow>
          (let pen = pen\<lparr>pen_type := Some (get_data_type t)\<rparr>
           in case get_data_type t of
                RBC_INT \<Rightarrow> (case scan_d v of None \<Rightarrow> pen | Some n \<Rightarrow> pen\<lparr>pen_val := V_Int n\<rparr>)
              | RBC_DOUBLE \<Rightarrow> (case scan_f v of None \<Rightarrow> pen | Some f \<Rightarrow> pen\<lparr>pen_val := V_Float f\<rparr>)
              | RBC_FLOAT \<Rightarrow> (case scan_f v of None \<Rightarrow> pen | Some f \<Rightarrow> pen\<lparr>pen_val := V_Float f\<rparr>)
              | _ \<Rightarrow> pen)
      | _ \<Rightarrow> pen)"

definition complete_err_info :: "rbc_xml_doc \<Rightarrow> rbc_penalty_t \<Rightarrow> rbc_xml_node \<Rightarrow> rbc_penalty_t" where
  "complete_err_info doc pen node =
     (if node = None then pen
      else set_rbc_value pen (get_node_property doc node ''type'') (get_node_property doc node ''value''))"

definition penalty_step :: "string option \<Rightarrow> int" where
  "penalty_step count_str =
     (case count_str of None \<Rightarrow> INT32_MAX | Some c \<Rightarrow> if strcmp c ''INF'' \<noteq> 0 then atoi c else INT32_MAX)"

definition penalty_id :: "string option \<Rightarrow> int" where
  "penalty_id err_id_str = (case err_id_str of None \<Rightarrow> 0 | Some s \<Rightarrow> atoi s)"

text \<open>The structure that \<open>create_err_mapping\<close> fills, from an error node and its first child.\<close>

definition err_mapping :: "rbc_xml_doc \<Rightarrow> rbc_xml_node \<Rightarrow> rbc_xml_node \<Rightarrow> rbc_penalty_t" where
  "err_mapping doc node child_node =
     complete_err_info doc
       \<lparr>pen_type = None, step = penalty_step (get_node_property doc child_node ''count''),
        pen_msg = get_node_property doc node ''name'',
        err_penalty_msg = get_node_property doc child_node ''key'', pen_val = V_Uninit\<rparr>
       child_node"

definition put_penalty :: "int \<Rightarrow> rbc_penalty_t \<Rightarrow> 'a penalty_state_scheme \<Rightarrow> 'a penalty_state_scheme res" where
  "put_penalty i pen st =
     rbind (deref (penalties st)) (\<lambda>ps.
       if 0 \<le> i \<and> nat i < length ps then Inr (st\<lparr>penalties := Some (ps[nat i := Ptr pen])\<rparr>)
       else Inl Out_Of_Bounds)"

definition create_err_mapping ::
  "rbc_xml_doc \<Rightarrow> rbc_xml_node \<Rightarrow> 'a penalty_state_scheme \<Rightarrow> 'a penalty_state_scheme res" where
  "create_err_mapping doc node st =
     (if node = None then Inr st
      else let child_node = get_next_node doc (get_child doc node)
           in if child_node = None then Inr st
              else let (ok, st1) = alloc st
                   in if ok
                      then put_penalty (penalty_id (get_node_property doc node ''id''))
                             (err_mapping doc node child_node) st1
                      else log_to NOMEM_ERR None st1)"

section \<open>Filling the array\<close>

definition get_xml_err_count :: "'a penalty_state_scheme \<Rightarrow> (int \<times> 'a penalty_state_scheme) res" where
  "get_xml_err_count st =
     (case pen_doc st of
        None \<Rightarrow> Inr (-1, st)
      | Some doc \<Rightarrow>
          (let node = lookup_node doc (doc_children doc) [TAG_NAME (Some ''init''), TAG_NAME (Some ''err_count'')]
           in if node = None
              then rbind (log_to ''Invalid XML format. Cannot detect error count.'' None st) (\<lambda>st1. Inr (-1, st1))
              else Inr (case get_node_property doc node ''value'' of None \<Rightarrow> -1 | Some s \<Rightarrow> atoi s, st)))"

fun fill_loop ::
  "nat \<Rightarrow> rbc_xml_doc \<Rightarrow> rbc_xml_node \<Rightarrow> 'a penalty_state_scheme \<Rightarrow> 'a penalty_state_scheme res" where
  "fill_loop 0 doc node st = Inr st"
| "fill_loop (Suc i) doc node st =
     rbind (if node \<noteq> None then create_err_mapping doc node st else Inr st) (\<lambda>st1.
       fill_loop i doc (get_next_node doc node) st1)"

definition fill_penalty_array :: "'a penalty_state_scheme \<Rightarrow> (int \<times> 'a penalty_state_scheme) res" where
  "fill_penalty_array st =
     (case pen_doc st of
        None \<Rightarrow> Inr (-1, st)
      | Some doc \<Rightarrow>
          rbind (get_xml_err_count st) (\<lambda>(xml_err_count, st1).
            if xml_err_count = -1 then Inr (-1, st1)
            else let node = lookup_node doc (doc_children doc) [TAG_NAME (Some ''errors'')]
                 in if node = None
                    then rbind (log_to (''Invalid XML format. Cannot find any '' @ [c_dquote] @ ''errors'' @
                                        [c_dquote] @ '' node.'') None st1) (\<lambda>st2. Inr (-1, st2))
                    else rbind (fill_loop (nat xml_err_count) doc (get_next_node doc (get_child doc node)) st1)
                           (\<lambda>st2. Inr (0, st2))))"

section \<open>The interface of the library\<close>

definition init_penalties ::
  "rbc_xml_doc option \<Rightarrow> 'a penalty_state_scheme \<Rightarrow> (int \<times> 'a penalty_state_scheme) res" where
  "init_penalties doc st =
     (case doc of
        None \<Rightarrow> rbind (log_to ''Invalid XML document openend.'' None st) (\<lambda>st1. Inr (-1, st1))
      | Some d \<Rightarrow>
          (let (ok, st1) = alloc (st\<lparr>pen_doc := Some d\<rparr>)
           in if \<not> ok
              then rbind (log_to NOMEM_ERR None (st1\<lparr>penalties := None\<rparr>)) (\<lambda>st2. Inr (-1, st2))
              else fill_penalty_array
                     (st1\<lparr>penalties := Some (replicate PENALTY_COUNT Null @
                                            replicate (penalty_slots - PENALTY_COUNT) Uninit),
                          pen_freed := False\<rparr>)))"

text \<open>The array and the structures are freed, but the pointer to the array is kept.\<close>

definition free_penalties :: "'a penalty_state_scheme \<Rightarrow> 'a penalty_state_scheme res" where
  "free_penalties st =
     (if pen_doc st = None \<or> penalties st = None then Inr st
      else if pen_freed st then Inl Use_After_Free
      else Inr (st\<lparr>pen_freed := True\<rparr>))"

text \<open>Division of C: truncation towards zero.\<close>

definition c_div :: "int \<Rightarrow> int \<Rightarrow> int res" where
  "c_div a b = (if b = 0 then Inl Div_By_Zero else Inr (sgn a * sgn b * (\<bar>a\<bar> div \<bar>b\<bar>)))"

definition penalty_amount :: "rbc_penalty_t \<Rightarrow> int \<Rightarrow> c_float res" where
  "penalty_amount pen cnt =
     (if step pen = INT32_MAX then float_value (pen_val pen)
      else rbind (c_div cnt (step pen)) (\<lambda>n.
           rbind (float_value (pen_val pen)) (\<lambda>f. Inr (f_mul (f_of_int n) f))))"

definition apply_penalty ::
  "EN_err_type \<Rightarrow> int \<Rightarrow> 'a penalty_state_scheme \<Rightarrow> (rbc_out_info option \<times> 'a penalty_state_scheme) res" where
  "apply_penalty error_type cnt st =
     (let index = err_code error_type
      in case (pen_doc st, penalties st) of
           (Some doc, Some ps) \<Rightarrow>
             (if cnt > 0 \<and> index < PENALTY_COUNT
              then let (ok, st1) = alloc st
                   in if \<not> ok then rbind (log_to NOMEM_ERR None st1) (\<lambda>st2. Inr (None, st2))
                      else if pen_freed st then Inl Use_After_Free
                      else rbind (deref_slot (ps ! index)) (\<lambda>pen.
                           rbind (penalty_amount pen cnt) (\<lambda>amount.
                             Inr (Some \<lparr>msg = pen_msg pen, penalty = err_penalty_msg pen,
                                        penalty_value = amount\<rparr>, st1)))
              else Inr (None, st))
         | _ \<Rightarrow> Inr (None, st))"

section \<open>Facts\<close>

lemma penalty_sizes [simp]: "PENALTY_COUNT = 20" "penalty_slots = 80"
  by (simp_all add: PENALTY_COUNT_def penalty_slots_def)

definition penalties_wf :: "'a penalty_state_scheme \<Rightarrow> bool" where
  "penalties_wf st \<longleftrightarrow>
     (\<forall>ps. penalties st = Some ps \<longrightarrow> length ps = penalty_slots \<and> (\<forall>i < PENALTY_COUNT. ps ! i \<noteq> Uninit))"

text \<open>An error element as the library reads it: its identifier and its penalty, if it has a child.\<close>

definition err_entry :: "rbc_xml_doc \<Rightarrow> nat list \<Rightarrow> (int \<times> rbc_penalty_t) option" where
  "err_entry doc p =
     (let child_node = get_next_node doc (get_child doc (Some p))
      in if child_node = None then None
         else Some (penalty_id (get_node_property doc (Some p) ''id''), err_mapping doc (Some p) child_node))"

text \<open>The elements the loop of \<open>fill_penalty_array\<close> reads.\<close>

definition err_entries :: "rbc_xml_doc \<Rightarrow> nat \<Rightarrow> rbc_xml_node \<Rightarrow> (int \<times> rbc_penalty_t) list" where
  "err_entries doc n node = List.map_filter (err_entry doc) (take n (node_seq doc node))"

fun put_all :: "(int \<times> rbc_penalty_t) list \<Rightarrow> rbc_penalty_t slot list \<Rightarrow> rbc_penalty_t slot list res" where
  "put_all [] ps = Inr ps"
| "put_all ((i, pen) # es) ps =
     (if 0 \<le> i \<and> nat i < length ps then put_all es (ps[nat i := Ptr pen]) else Inl Out_Of_Bounds)"

lemma create_err_mapping_entry:
  assumes "allocs st = []" and "penalties st = Some ps"
  shows "create_err_mapping doc (Some p) st =
         (case err_entry doc p of None \<Rightarrow> Inr st
          | Some e \<Rightarrow> rbind (put_all [e] ps) (\<lambda>ps'. Inr (st\<lparr>penalties := Some ps'\<rparr>)))"
  using assms by (simp add: create_err_mapping_def err_entry_def Let_def alloc_def put_penalty_def)

lemma fill_loop_None: "fill_loop n doc None st = Inr st"
  by (induction n) (simp_all add: get_next_node_def)

lemma put_all_Cons: "put_all (e # es) ps = rbind (put_all [e] ps) (put_all es)"
  by (cases e) simp

lemma fill_loop_entries:
  assumes "allocs st = []" and "penalties st = Some ps"
  shows "fill_loop n doc node st =
         rbind (put_all (err_entries doc n node) ps) (\<lambda>ps'. Inr (st\<lparr>penalties := Some ps'\<rparr>))"
  using assms
proof (induction n arbitrary: node st ps)
  case 0
  then show ?case by (simp add: err_entries_def map_filter_simps)
next
  case (Suc n)
  show ?case
  proof (cases node)
    case None
    then show ?thesis using Suc.prems by (simp add: fill_loop_None err_entries_def map_filter_simps)
  next
    case (Some p)
    have es: "err_entries doc (Suc n) (Some p) =
              (case err_entry doc p of None \<Rightarrow> [] | Some e \<Rightarrow> [e]) @ err_entries doc n (get_next_node doc (Some p))"
      by (simp add: err_entries_def map_filter_simps split: option.splits)
    show ?thesis
    proof (cases "err_entry doc p")
      case None
      then show ?thesis
        using Suc Some es by (simp add: create_err_mapping_entry)
    next
      case (Some e)
      then have step: "fill_loop (Suc n) doc node st =
            rbind (put_all [e] ps) (\<lambda>ps'. fill_loop n doc (get_next_node doc (Some p)) (st\<lparr>penalties := Some ps'\<rparr>))"
        using Suc.prems \<open>node = Some p\<close> by (simp add: create_err_mapping_entry rbind_assoc)
      have "put_all (err_entries doc (Suc n) node) ps =
            rbind (put_all [e] ps) (put_all (err_entries doc n (get_next_node doc (Some p))))"
        using put_all_Cons [of e "err_entries doc n (get_next_node doc (Some p))" ps]
        by (simp add: \<open>node = Some p\<close> es Some)
      then show ?thesis
        unfolding step using Suc.IH Suc.prems by (simp add: rbind_assoc)
    qed
  qed
qed

text \<open>The array that a list of entries asks for: the last entry of an identifier counts.\<close>

lemma put_all_ok:
  assumes "\<forall>(i, pen)\<in>set es. 0 \<le> i \<and> nat i < length ps"
  shows "\<exists>ps'. put_all es ps = Inr ps' \<and> length ps' = length ps \<and>
    (\<forall>k < length ps. ps' ! k = (case map_of (rev es) (int k) of None \<Rightarrow> ps ! k | Some pen \<Rightarrow> Ptr pen))"
  using assms
proof (induction es arbitrary: ps)
  case (Cons e es)
  obtain i pen where e: "e = (i, pen)" by force
  with Cons.prems have i: "0 \<le> i" "nat i < length ps" by auto
  obtain ps' where ps': "put_all es (ps[nat i := Ptr pen]) = Inr ps'" "length ps' = length ps"
    "\<forall>k < length ps. ps' ! k =
       (case map_of (rev es) (int k) of None \<Rightarrow> ps[nat i := Ptr pen] ! k | Some pen \<Rightarrow> Ptr pen)"
    using Cons.IH [of "ps[nat i := Ptr pen]"] Cons.prems by auto
  then show ?case
    using i by (auto simp: e nth_list_update map_add_def split: option.splits)
qed simp

section \<open>Properties\<close>

lemma init_penalties_array:
  assumes "allocs st = []"
    and "lookup_node doc (doc_children doc) [TAG_NAME (Some ''init''), TAG_NAME (Some ''err_count'')] = Some cn"
    and "get_node_property doc (Some cn) ''value'' = Some cs" and "0 \<le> atoi cs"
    and "lookup_node doc (doc_children doc) [TAG_NAME (Some ''errors'')] = Some en"
    and "put_all (err_entries doc (nat (atoi cs)) (get_next_node doc (get_child doc (Some en))))
           (replicate 20 Null @ replicate 60 Uninit) = Inr ps"
  shows "init_penalties (Some doc) st = Inr (0, st\<lparr>pen_doc := Some doc, penalties := Some ps, pen_freed := False\<rparr>)"
  using assms
  by (simp add: init_penalties_def alloc_def fill_penalty_array_def get_xml_err_count_def fill_loop_entries)

text \<open>
  C19: after \<open>init_penalties\<close> on a document whose error identifiers are inside the array,
  \<open>apply_penalty\<close> charges a type by the last entry with its identifier, and dereferences NULL for a
  type that has none.
\<close>

theorem init_then_apply_penalty:
  assumes "allocs st = []"
    and "lookup_node doc (doc_children doc) [TAG_NAME (Some ''init''), TAG_NAME (Some ''err_count'')] = Some cn"
    and "get_node_property doc (Some cn) ''value'' = Some cs" and "0 \<le> atoi cs"
    and "lookup_node doc (doc_children doc) [TAG_NAME (Some ''errors'')] = Some en"
    and "es = err_entries doc (nat (atoi cs)) (get_next_node doc (get_child doc (Some en)))"
    and "\<forall>(i, pen)\<in>set es. 0 \<le> i \<and> i < 80"
  shows "\<exists>st'. init_penalties (Some doc) st = Inr (0, st') \<and>
    (\<forall>t c. err_code t < 20 \<longrightarrow> 0 < c \<longrightarrow>
       apply_penalty t c st' =
         (case map_of (rev es) (int (err_code t)) of
            None \<Rightarrow> Inl Null_Deref
          | Some pen \<Rightarrow> rbind (penalty_amount pen c) (\<lambda>amount.
              Inr (Some \<lparr>msg = pen_msg pen, penalty = err_penalty_msg pen, penalty_value = amount\<rparr>, st'))))"
proof -
  let ?ps = "replicate 20 Null @ replicate 60 Uninit :: rbc_penalty_t slot list"
  have "\<forall>(i, pen)\<in>set es. 0 \<le> i \<and> nat i < length ?ps" using assms(7) by auto
  from put_all_ok [OF this] obtain ps' where ps': "put_all es ?ps = Inr ps'"
    "\<forall>k < 80. ps' ! k = (case map_of (rev es) (int k) of None \<Rightarrow> ?ps ! k | Some pen \<Rightarrow> Ptr pen)"
    by auto
  let ?st = "st\<lparr>pen_doc := Some doc, penalties := Some ps', pen_freed := False\<rparr>"
  have "init_penalties (Some doc) st = Inr (0, ?st)"
    using init_penalties_array [OF assms(1-5)] ps'(1) assms(6) by simp
  moreover have "ps' ! err_code t = (case map_of (rev es) (int (err_code t)) of None \<Rightarrow> Null | Some pen \<Rightarrow> Ptr pen)"
    if "err_code t < 20" for t
    using ps'(2) that by (simp add: nth_append split: option.split)
  ultimately show ?thesis
    using assms(1) by (auto simp: apply_penalty_def alloc_def split: option.splits)
qed

definition sample_penalty_doc :: rbc_xml_doc where
  "sample_penalty_doc = [element ''appSettings'' []
     [sample_text,
      element ''init'' []
        [sample_text, element ''err_count'' [\<lparr>a_name = ''value'', a_value = Some (Some ''1'')\<rparr>] [],
         sample_text],
      sample_text,
      element ''errors'' []
        [sample_text,
         element ''err_1''
           [\<lparr>a_name = ''id'', a_value = Some (Some ''1'')\<rparr>, \<lparr>a_name = ''name'', a_value = Some (Some ''Memory leak'')\<rparr>]
           [sample_text,
            element ''add''
              [\<lparr>a_name = ''key'', a_value = Some (Some ''leaks'')\<rparr>, \<lparr>a_name = ''count'', a_value = Some (Some ''INF'')\<rparr>,
               \<lparr>a_name = ''value'', a_value = Some (Some ''2'')\<rparr>, \<lparr>a_name = ''type'', a_value = Some (Some ''int'')\<rparr>] [],
            sample_text],
         sample_text],
      sample_text]]"

definition sample_penalty :: rbc_penalty_t where
  "sample_penalty = \<lparr>pen_type = Some RBC_INT, step = INT32_MAX, pen_msg = Some ''Memory leak'',
                     err_penalty_msg = Some ''leaks'', pen_val = V_Int 2\<rparr>"

definition sample_penalty_state :: penalty_state where
  "sample_penalty_state = io_state.extend (sample_io RBC_TAG)
     \<lparr>penalty_state.pen_doc = None, penalties = None, pen_freed = False\<rparr>"

theorem init_then_apply_penalty_witness:
  "\<exists>st' info. init_penalties (Some sample_penalty_doc) sample_penalty_state = Inr (0, st') \<and>
         apply_penalty ERR_MEMORY_LEAK 3 st' = Inr (Some info, st') \<and> msg info = Some ''Memory leak'' \<and>
         penalty info = Some ''leaks'' \<and> apply_penalty ERR_DATA_RACE 3 st' = Inl Null_Deref"
proof -
  let ?d = sample_penalty_doc
  have h: "lookup_node ?d (doc_children ?d) [TAG_NAME (Some ''init''), TAG_NAME (Some ''err_count'')] = Some [1, 1, 0]"
    "get_node_property ?d (Some [1, 1, 0]) ''value'' = Some ''1''"
    "0 \<le> atoi ''1''"
    "lookup_node ?d (doc_children ?d) [TAG_NAME (Some ''errors'')] = Some [3, 0]"
    "[(1, sample_penalty)] = err_entries ?d (nat (atoi ''1'')) (get_next_node ?d (get_child ?d (Some [3, 0])))"
    by code_simp+
  have "allocs sample_penalty_state = []"
    by (simp add: sample_penalty_state_def sample_io_def io_state.extend_def)
  from init_then_apply_penalty [OF this h]
  obtain st' where st': "init_penalties (Some ?d) sample_penalty_state = Inr (0, st')"
    "apply_penalty t 3 st' =
         (case map_of (rev [(1, sample_penalty)]) (int (err_code t)) of
            None \<Rightarrow> Inl Null_Deref
          | Some pen \<Rightarrow> rbind (penalty_amount pen 3) (\<lambda>amount.
              Inr (Some \<lparr>msg = pen_msg pen, penalty = err_penalty_msg pen, penalty_value = amount\<rparr>, st')))"
    if "err_code t < 20" for t
    by fastforce
  obtain x where "penalty_amount sample_penalty 3 = Inr x" by (auto simp: sample_penalty_def penalty_amount_def)
  then show ?thesis using st'(1) [of ERR_DATA_RACE] st'(2) [of ERR_MEMORY_LEAK] st'(2) [of ERR_DATA_RACE]
    by (intro exI [of _ st'] exI [of _ "\<lparr>msg = Some ''Memory leak'', penalty = Some ''leaks'', penalty_value = x\<rparr>"])
       (simp add: sample_penalty_def)
qed

lemma scan_d_fmt_d: "0 \<le> n \<Longrightarrow> int32 n \<Longrightarrow> scan_d (fmt_d n) = Some n"
proof -
  assume n: "0 \<le> n" "int32 n"
  obtain c ds where eq: "nat_digits (nat n) = c # ds" by (cases "nat_digits (nat n)") auto
  then have c: "c_isdigit c" using nat_digits_digits [of "nat n"] by simp
  have "fmt_d n = c # ds" using n eq by (simp add: fmt_d_def)
  moreover have "scan_sign (dropWhile c_isspace (c # ds)) = (False, c # ds)"
    using c c_isdigit_not_space c_isdigit_not_sign by simp
  ultimately show ?thesis using c atoi_fmt_d [OF n(2)] by (simp add: scan_d_def)
qed

text \<open>
  A penalty of type \<open>int\<close> costs nothing: its value is written as an \<open>int\<close> and read as a
  \<open>float\<close>, so every amount below \<open>2 ^ 23\<close> is printed as 0.00.
\<close>

theorem int_penalty_is_lost:
  assumes "0 \<le> n" and "n < 2 ^ 23" and "step pen = INT32_MAX"
  shows "\<exists>f. penalty_amount (set_rbc_value pen (Some ''int'') (Some (fmt_d n))) c = Inr f \<and>
             fmt_2f f = ''0.00''"
proof -
  have "scan_d (fmt_d n) = Some n" using assms(1,2) by (intro scan_d_fmt_d) (simp_all add: int32_def)
  then have "penalty_amount (set_rbc_value pen (Some ''int'') (Some (fmt_d n))) c = Inr (f_of_bits n)"
    using assms(3) by (simp add: set_rbc_value_def get_data_type_def penalty_amount_def)
  moreover have "f_of_bits n = Fin False (of_int n / f_unit)"
    using assms(1,2) by (rule f_of_bits_small)
  moreover have "fmt_2f (Fin False (of_int n / f_unit)) = ''0.00''"
  proof (rule fmt_2f_tiny)
    show "0 \<le> of_int n / f_unit" using assms(1) by (simp add: f_unit_def)
    have "(of_int n :: rat) \<le> of_int (2 ^ 23)" using assms(2) by (intro of_int_le_iff [THEN iffD2]) simp
    then have "of_int n * 200 < f_unit" by (simp add: f_unit_def)
    then show "of_int n / f_unit < 1 / 200" by (simp add: field_simps)
  qed
  ultimately show ?thesis by simp
qed

theorem int_penalty_is_lost_witness:
  "\<exists>f. penalty_amount (set_rbc_value sample_penalty (Some ''int'') (Some (fmt_d 2))) 5 = Inr f \<and>
       fmt_2f f = ''0.00''"
  by (rule int_penalty_is_lost) (simp_all add: sample_penalty_def)

end
