(* ===== verification/Rbc_Input.thy ===== *)
theory Rbc_Input
  imports Penalty
begin

text \<open>
  The globals of the driver (include/librobocheck.h, the static variables of src/librobocheck.c)
  and the part of src/librobocheck.c that reads the configuration document: the error count, the
  static and the dynamic input, and the error set, type and parameters of a tool. The state
  extends that of the penalty library, so that the library works on the part it knows.
\<close>

section \<open>State\<close>

text \<open>
  \<open>output_vec\<close> is the array \<open>__output\<close>, one slot for each pointer it has room for; \<open>freed\<close> says that
  \<open>close_robocheck\<close> released the document and the inputs, whose pointers it keeps. A handle of
  \<open>dlopen\<close> is the path of its library and whether it is still open.
\<close>

record rbc_state = penalty_state +
  root :: "rbc_xml_doc option"
  dynamic_ptr :: "rbc_dynamic_input option"
  static_ptr :: "rbc_static_input option"
  rbc_err_count :: int
  lib_handlers :: "(string \<times> bool) list"
  libpenalty :: "(string \<times> bool) option"
  apply_penalty_ptr :: bool
  output_vec :: "rbc_output slot list option"
  output_size :: nat
  output_inc_count :: nat
  freed :: bool

text \<open>\<open>lookup_node(__root->children, vec, n)\<close>\<close>

definition root_lookup :: "rbc_state \<Rightarrow> string list \<Rightarrow> (rbc_xml_doc \<times> rbc_xml_node) res" where
  "root_lookup st ts =
     rbind (deref (root st)) (\<lambda>doc. Inr (doc, lookup_node doc (doc_children doc) (tag_path ts)))"

text \<open>\<open>(s != NULL) ? atoi(s) : 0\<close>\<close>

definition atoi_or_0 :: "string option \<Rightarrow> int" where
  "atoi_or_0 s = (case s of None \<Rightarrow> 0 | Some t \<Rightarrow> atoi t)"

text \<open>The loops that read the attribute \<open>value\<close> of \<open>n\<close> consecutive nodes; past the last one it is NULL.\<close>

fun take_values :: "rbc_xml_doc \<Rightarrow> rbc_xml_node \<Rightarrow> nat \<Rightarrow> string option list" where
  "take_values doc node 0 = []"
| "take_values doc node (Suc n) =
     get_node_property doc node ''value'' # take_values doc (get_next_node doc node) n"

section \<open>The inputs\<close>

definition extract_static_input ::
  "rbc_xml_doc option \<Rightarrow> rbc_state \<Rightarrow> (rbc_static_input option \<times> rbc_state) res" where
  "extract_static_input doc_ptr st =
     (if static_ptr st \<noteq> None \<or> doc_ptr = None then Inr (static_ptr st, st)
      else let (ok, st1) = alloc st
           in if \<not> ok
              then rbind (log_to (''Insufficient memory alocating 'static input'.'' @ [c_lf]) None st1)
                     (\<lambda>st2. Inr (static_ptr st2, st2))
              else let st1 = st1\<lparr>static_ptr := Some \<lparr>file_names = None, file_count = None\<rparr>\<rparr>
                   in rbind (root_lookup st1 [''init'', ''input'', ''static'']) (\<lambda>(doc, node).
                        if node = None
                        then rbind (log_to (''Invalid format for XML config file.'' @ [c_lf]) None st1)
                               (\<lambda>st2. Inr (static_ptr st2, st2))
                        else let f_count = atoi_or_0 (get_node_property doc node ''file_count'');
                                 s1 = \<lparr>file_names = None, file_count = Some f_count\<rparr>
                             in if f_count \<le> 0 then Inr (Some s1, st1\<lparr>static_ptr := Some s1\<rparr>)
                                else let (ok, st2) = alloc (st1\<lparr>static_ptr := Some s1\<rparr>)
                                     in if \<not> ok
                                        then rbind (log_to (''Insufficient memory for tested file sources.'' @ [c_lf]) None st2)
                                               (\<lambda>st3. Inr (static_ptr st3, st3))
                                        else let s2 = s1\<lparr>file_names := Some (take_values doc
                                                 (get_next_node doc (get_child doc node)) (nat f_count))\<rparr>
                                             in Inr (Some s2, st2\<lparr>static_ptr := Some s2\<rparr>)))"

definition extract_error_count :: "rbc_xml_doc option \<Rightarrow> rbc_state \<Rightarrow> (int \<times> rbc_state) res" where
  "extract_error_count doc_ptr st =
     (if doc_ptr \<noteq> None \<and> rbc_err_count st < 0
      then rbind (root_lookup st [''init'', ''err_count'']) (\<lambda>(doc, node).
             if node = None
             then rbind (log_to (''Invalid format for XML config file.'' @ [c_lf]) None st)
                    (\<lambda>st1. Inr (rbc_err_count st1, st1))
             else case get_node_property doc node ''value'' of
                    None \<Rightarrow> Inr (rbc_err_count st, st)
                  | Some v \<Rightarrow> Inr (atoi v, st\<lparr>rbc_err_count := atoi v\<rparr>))
      else Inr (rbc_err_count st, st))"

definition dynamic_start :: rbc_dynamic_input where
  "dynamic_start = \<lparr>exec_name = Uninit, params = None, params_count = None,
                    sources = Uninit, source_count = None\<rparr>"

definition ptr_of :: "'a option \<Rightarrow> 'a slot" where
  "ptr_of p = (case p of None \<Rightarrow> Null | Some x \<Rightarrow> Ptr x)"

text \<open>The fields that are set before the arguments are read.\<close>

definition dynamic_head ::
  "rbc_xml_doc \<Rightarrow> rbc_xml_node \<Rightarrow> rbc_static_input option \<Rightarrow> rbc_dynamic_input" where
  "dynamic_head doc node static =
     (let d = dynamic_start\<lparr>exec_name := ptr_of (get_node_property doc node ''value'')\<rparr>;
          d = (case static of None \<Rightarrow> d
               | Some s \<Rightarrow> d\<lparr>sources := ptr_of (file_names s), source_count := file_count s\<rparr>)
      in d\<lparr>params_count := Some (atoi_or_0 (get_node_property doc node ''arg_count''))\<rparr>)"

definition extract_dynamic_input ::
  "rbc_xml_doc option \<Rightarrow> rbc_state \<Rightarrow> (rbc_dynamic_input option \<times> rbc_state) res" where
  "extract_dynamic_input doc_ptr st =
     (if dynamic_ptr st \<noteq> None \<or> doc_ptr = None then Inr (dynamic_ptr st, st)
      else let (ok, st1) = alloc st
           in if \<not> ok
              then rbind (log_to (''Insufficient memory alocating 'dynamic input'.'' @ [c_lf]) None st1)
                     (\<lambda>st2. Inr (dynamic_ptr st2, st2))
              else let st1 = st1\<lparr>dynamic_ptr := Some dynamic_start\<rparr>
                   in rbind (root_lookup st1 [''init'', ''input'', ''dynamic'']) (\<lambda>(doc, node).
                        if node = None
                        then rbind (log_to (''Invalid format for XML config file.'' @ [c_lf]) None st1)
                               (\<lambda>st2. Inr (dynamic_ptr st2, st2))
                        else let d1 = dynamic_head doc node (static_ptr st1);
                                 argc = atoi_or_0 (get_node_property doc node ''arg_count'')
                             in if argc \<le> 0 then Inr (Some d1, st1\<lparr>dynamic_ptr := Some d1\<rparr>)
                                else let (ok, st2) = alloc (st1\<lparr>dynamic_ptr := Some d1\<rparr>)
                                     in if \<not> ok
                                        then rbind (log_to (''Insufficient memory for tested program arguments.'' @ [c_lf]) None st2)
                                               (\<lambda>st3. Inr (dynamic_ptr st3, st3))
                                        else let d2 = d1\<lparr>params := Some (take_values doc
                                                 (get_next_node doc (get_child doc node)) (nat argc))\<rparr>
                                             in Inr (Some d2, st2\<lparr>dynamic_ptr := Some d2\<rparr>)))"

text \<open>\<open>xmlParseFile\<close> is the parameter \<open>parse\<close>.\<close>

definition read_startup_info :: "(string \<Rightarrow> rbc_xml_doc option) \<Rightarrow> rbc_state \<Rightarrow> rbc_state res" where
  "read_startup_info parse st =
     (let st = st\<lparr>root := parse ''rbc_config.xml''\<rparr>
      in if root st = None then log_to (''Error opening config file.'' @ [c_lf]) None st
         else rbind (extract_error_count (root st) st) (\<lambda>(_, st1).
              rbind (extract_static_input (root st1) st1) (\<lambda>(_, st2).
              rbind (extract_dynamic_input (root st2) st2) (\<lambda>(_, st3). Inr st3))))"

section \<open>The description of a tool\<close>

fun get_type :: "string option \<Rightarrow> EN_tool_type" where
  "get_type None = INVALID_TOOL"
| "get_type (Some t) =
     (if strcmp t ''dynamic'' = 0 then DYNAMIC_TOOL
      else if strcmp t ''static'' = 0 then STATIC_TOOL
      else INVALID_TOOL)"

text \<open>The loop over the identifiers: 0 is left out.\<close>

fun errset_loop :: "nat \<Rightarrow> rbc_xml_doc \<Rightarrow> rbc_xml_node \<Rightarrow> rbc_errset_t \<Rightarrow> rbc_errset_t res" where
  "errset_loop 0 doc err_node es = Inr es"
| "errset_loop (Suc i) doc err_node es =
     (let err_id = atoi_or_0 (get_node_property doc err_node ''value'')
      in rbind (if err_id \<noteq> 0 then SET_ERR err_id es else Inr es)
               (errset_loop i doc (get_next_node doc err_node)))"

text \<open>Without a document or a name, the structure that is returned was never set.\<close>

definition extract_tool_errset ::
  "rbc_xml_doc option \<Rightarrow> string option \<Rightarrow> rbc_state \<Rightarrow> (rbc_errset_t option \<times> rbc_state) res" where
  "extract_tool_errset doc_ptr tool_name st =
     (case (doc_ptr, tool_name) of
        (Some _, Some name) \<Rightarrow>
          rbind (root_lookup st [''installed_tools'', name, ''errors'']) (\<lambda>(doc, tool_node).
            if tool_node = None
            then rbind (store 256 (''Invalid XML config format. No '' @ [c_quote] @ name @ [c_quote] @ '' tool installed.'' @ [c_lf])) (\<lambda>buff.
                 rbind (log_to buff None st) (\<lambda>st1. Inr (Some RESET, st1)))
            else rbind (errset_loop (nat (atoi_or_0 (get_node_property doc tool_node ''err_count''))) doc
                          (get_next_node doc (get_child doc tool_node)) RESET) (\<lambda>es. Inr (Some es, st)))
      | _ \<Rightarrow> Inr (None, st))"

definition input_head :: "EN_tool_type \<Rightarrow> rbc_state \<Rightarrow> rbc_input" where
  "input_head t st =
     \<lparr>tool_args = Uninit, args_count = None, tool_type = t,
      input_ptr = (case t of DYNAMIC_TOOL \<Rightarrow> ptr_of (map_option In_Dynamic (dynamic_ptr st))
                   | STATIC_TOOL \<Rightarrow> ptr_of (map_option In_Static (static_ptr st))
                   | INVALID_TOOL \<Rightarrow> Uninit)\<rparr>"

text \<open>\<open>malloc\<close> of a negative number of pointers is a request for most of the address space and fails.\<close>

definition extract_tool_input ::
  "string \<Rightarrow> EN_tool_type \<Rightarrow> rbc_state \<Rightarrow> (rbc_input option \<times> rbc_state) res" where
  "extract_tool_input name t st =
     (let (ok, st1) = alloc st
      in if \<not> ok
         then rbind (log_to (''Insufficient memory for alocating input pointer'' @ [c_lf]) None st1)
                (\<lambda>st2. Inr (None, st2))
         else rbind (root_lookup st1 [''installed_tools'', name, ''parameters'']) (\<lambda>(doc, param_node).
                let inp = input_head t st1
                in if param_node = None
                   then rbind (store 256 (''Invalid XML format for tool '' @ name @ ''.'' @ [c_lf])) (\<lambda>buff.
                        rbind (log_to buff None st1) (\<lambda>st2. Inr (Some inp, st2)))
                   else let param_count = atoi_or_0 (get_node_property doc param_node ''param_count'');
                            (ok, st2) = alloc st1
                        in if \<not> ok \<or> param_count < 0
                           then rbind (log_to (''Insufficient memory alocating parameter vector.'' @ [c_lf]) None st2)
                                  (\<lambda>st3. Inr (Some (inp\<lparr>tool_args := Null, args_count := Some 0\<rparr>), st3))
                           else Inr (Some (inp\<lparr>tool_args := Ptr (take_values doc
                                      (get_next_node doc (get_child doc param_node)) (nat param_count)),
                                    args_count := Some param_count\<rparr>), st2)))"

section \<open>Facts\<close>

lemma length_take_values [simp]: "length (take_values doc node n) = n"
  by (induction n arbitrary: node) simp_all

lemma take_values_None: "take_values doc None n = replicate n None"
  by (induction n) (simp_all add: get_node_property_def node_of_def get_next_node_def)

text \<open>The values of the visited nodes, filled up with NULL.\<close>

lemma take_values_seq:
  "take_values doc node n =
   (let vs = map (\<lambda>p. get_node_property doc (Some p) ''value'') (take n (node_seq doc node))
    in vs @ replicate (n - length vs) None)"
proof (induction n arbitrary: node)
  case (Suc n)
  show ?case
  proof (cases node)
    case None
    then show ?thesis by (simp add: take_values_None del: take_values.simps)
  next
    case (Some p)
    then show ?thesis using Suc [of "get_next_node doc node"] by (simp add: Let_def)
  qed
qed simp

text \<open>The identifiers a tool is configured for.\<close>

definition tool_ids :: "rbc_xml_doc \<Rightarrow> rbc_xml_node \<Rightarrow> nat \<Rightarrow> int list" where
  "tool_ids doc node n = filter (\<lambda>i. i \<noteq> 0) (map atoi_or_0 (take_values doc node n))"

lemma errset_loop_ids: "errset_loop n doc node es = rfold SET_ERR (tool_ids doc node n) es"
proof (induction n arbitrary: node es)
  case (Suc n)
  then have "errset_loop n doc node' = rfold SET_ERR (tool_ids doc node' n)" for node' by (rule ext)
  then show ?case by (simp add: tool_ids_def Let_def)
qed (simp add: tool_ids_def)

lemma errset_loop_members:
  assumes "\<forall>i\<in>set (tool_ids doc node n). has_bit i"
  shows "\<exists>es. errset_loop n doc node RESET = Inr es \<and> errset_wf es \<and>
              es.members es = set (tool_ids doc node n)"
  using es.set_all [OF es.reset_inv assms] by (simp add: errset_loop_ids es.members_reset)

section \<open>Properties\<close>

text \<open>
  C29: the error set of an installed tool has exactly the nonzero identifiers of its \<open>errors\<close>
  element, as far as its \<open>err_count\<close> reaches, when they all have a bit.
\<close>

theorem extract_tool_errset_configured:
  assumes "root st = Some doc"
    and "lookup_node doc (doc_children doc) (tag_path [''installed_tools'', name, ''errors'']) = Some p"
    and "ids = tool_ids doc (get_next_node doc (get_child doc (Some p)))
                 (nat (atoi_or_0 (get_node_property doc (Some p) ''err_count'')))"
    and "\<forall>i\<in>set ids. has_bit i"
  shows "\<exists>es. extract_tool_errset (root st) (Some name) st = Inr (Some es, st) \<and>
              (\<forall>e. isset e es \<longleftrightarrow> int (err_code e) \<in> set ids)"
proof -
  obtain es where es: "errset_loop (nat (atoi_or_0 (get_node_property doc (Some p) ''err_count''))) doc
      (get_next_node doc (get_child doc (Some p))) RESET = Inr es" "errset_wf es" "es.members es = set ids"
    using errset_loop_members assms(3,4) by blast
  then have "extract_tool_errset (root st) (Some name) st = Inr (Some es, st)"
    using assms(1,2) by (simp add: extract_tool_errset_def root_lookup_def del: lookup_node.simps)
  then show ?thesis using es isset_members [OF es(2)] by auto
qed

abbreviation sattr :: "string \<Rightarrow> string \<Rightarrow> xml_attr" where
  "sattr n v \<equiv> \<lparr>a_name = n, a_value = Some (Some v)\<rparr>"

abbreviation selem :: "string \<Rightarrow> xml_attr list \<Rightarrow> xml_node list \<Rightarrow> xml_node" where
  "selem n as ks \<equiv> element n as
     (if ks = [] then [] else sample_text # concat (map (\<lambda>k. [k, sample_text]) ks))"

text \<open>A small configuration: one installed tool, one source file, no penalty library.\<close>

definition sample_config :: rbc_xml_doc where
  "sample_config =
     [selem ''appSettings'' []
        [selem ''init'' [sattr ''output'' ''NULL'']
           [selem ''tools'' [sattr ''count'' ''1''] [selem ''add'' [sattr ''value'' ''simian''] []],
            selem ''input'' []
              [selem ''dynamic'' [sattr ''value'' ''./a.out'', sattr ''arg_count'' ''0''] [],
               selem ''static'' [sattr ''file_count'' ''2'']
                 [selem ''add'' [sattr ''value'' ''a.c''] [], selem ''add'' [sattr ''value'' ''b.c''] []]],
            selem ''penalty'' [sattr ''load'' ''false''] [],
            selem ''err_count'' [sattr ''value'' ''19''] []],
         selem ''installed_tools'' [sattr ''count'' ''1'']
           [selem ''simian'' [sattr ''lib_path'' ''./libsimian.so'', sattr ''type'' ''static'']
              [selem ''parameters'' [sattr ''param_count'' ''1''] [selem ''add'' [sattr ''value'' ''-threshold=4''] []],
               selem ''errors'' [sattr ''err_count'' ''2'']
                 [selem ''add'' [sattr ''value'' ''11''] [], selem ''add'' [sattr ''value'' ''1''] []]]]]]"

definition sample_state :: rbc_state where
  "sample_state =
     \<lparr>FileLogger = Some STDERR_HANDLER, OutputStream = Some STDOUT_HANDLER, LoggerBuff = [],
      CurrentModule = RBC_TAG, text_of = (\<lambda>_. []), closed_streams = [],
      clock = (\<lambda>_. Some ''01-06-2013 10:00:00 - ''), now = 0, allocs = [],
      pen_doc = None, penalties = None, pen_freed = False,
      root = Some sample_config, dynamic_ptr = None, static_ptr = None, rbc_err_count = -1, lib_handlers = [],
      libpenalty = None, apply_penalty_ptr = False, output_vec = None, output_size = 0,
      output_inc_count = 0, freed = False\<rparr>"

theorem extract_tool_errset_configured_witness:
  "\<exists>es. extract_tool_errset (root sample_state) (Some ''simian'') sample_state = Inr (Some es, sample_state) \<and>
        (\<forall>e. isset e es \<longleftrightarrow> int (err_code e) \<in> set [11, 1])"
proof (rule extract_tool_errset_configured)
  show "root sample_state = Some sample_config" by (simp add: sample_state_def)
  show "lookup_node sample_config (doc_children sample_config)
          (tag_path [''installed_tools'', ''simian'', ''errors'']) = Some [3, 1, 3, 0]"
    by code_simp
  show "[11, 1] = tool_ids sample_config (get_next_node sample_config (get_child sample_config (Some [3, 1, 3, 0])))
                 (nat (atoi_or_0 (get_node_property sample_config (Some [3, 1, 3, 0]) ''err_count'')))"
    by code_simp
  show "\<forall>i\<in>set [11, 1]. has_bit i" by (simp add: has_bit_def)
qed

text \<open>
  The static input has the values of the \<open>file_count\<close> first children of the \<open>static\<close> element,
  and NULL for each child that is missing.
\<close>

theorem extract_static_input_files:
  assumes "root st = Some doc" and "static_ptr st = None" and "allocs st = []"
    and "lookup_node doc (doc_children doc) (tag_path [''init'', ''input'', ''static'']) = Some p"
    and "n = atoi_or_0 (get_node_property doc (Some p) ''file_count'')" and "0 < n"
    and "vs = map (\<lambda>q. get_node_property doc (Some q) ''value'')
                  (take (nat n) (node_seq doc (get_next_node doc (get_child doc (Some p)))))"
  shows "\<exists>st'. extract_static_input (root st) st =
           Inr (Some \<lparr>file_names = Some (vs @ replicate (nat n - length vs) None), file_count = Some n\<rparr>, st') \<and>
           static_ptr st' = Some \<lparr>file_names = Some (vs @ replicate (nat n - length vs) None), file_count = Some n\<rparr>"
  using assms
  by (simp add: extract_static_input_def alloc_def root_lookup_def Let_def take_values_seq del: lookup_node.simps)

theorem extract_static_input_files_witness:
  "\<exists>st'. extract_static_input (root sample_state) sample_state =
           Inr (Some \<lparr>file_names = Some [Some ''a.c'', Some ''b.c''], file_count = Some 2\<rparr>, st') \<and>
         static_ptr st' = Some \<lparr>file_names = Some [Some ''a.c'', Some ''b.c''], file_count = Some 2\<rparr>"
proof -
  let ?d = sample_config
  have h: "lookup_node ?d (doc_children ?d) (tag_path [''init'', ''input'', ''static'']) = Some [3, 3, 1, 0]"
    "2 = atoi_or_0 (get_node_property ?d (Some [3, 3, 1, 0]) ''file_count'')" "0 < (2 :: int)"
    "[Some ''a.c'', Some ''b.c''] = map (\<lambda>q. get_node_property ?d (Some q) ''value'')
       (take (nat 2) (node_seq ?d (get_next_node ?d (get_child ?d (Some [3, 3, 1, 0])))))"
    by code_simp+
  show ?thesis
    using extract_static_input_files [OF _ _ _ h, of sample_state] by (simp add: sample_state_def)
qed

end
