(* ===== verification/Rbc_Output.thy ===== *)
theory Rbc_Output
  imports Rbc_Input
begin

text \<open>
  The part of src/librobocheck.c that collects and prints the results: the array \<open>__output\<close> with
  the errors of all the tools, its sorting by error type, and the JSON document with the penalties.
  The array is modelled with the number of pointers it has room for, so that an access outside it
  or of a pointer that was never written is visible.
\<close>

section \<open>The output vector\<close>

text \<open>Reading \<open>__output[i]\<close>, and what it points to.\<close>

definition out_slot :: "rbc_output slot list \<Rightarrow> nat \<Rightarrow> rbc_output option res" where
  "out_slot vec i = (if i < length vec then read_slot (vec ! i) else Inl Out_Of_Bounds)"

definition out_at :: "rbc_output slot list \<Rightarrow> nat \<Rightarrow> rbc_output res" where
  "out_at vec i = rbind (out_slot vec i) deref"

text \<open>The loop of \<open>check_for_duplicates\<close> from index \<open>i\<close> on, \<open>n\<close> entries.\<close>

fun dup_loop :: "nat \<Rightarrow> nat \<Rightarrow> rbc_output slot list \<Rightarrow> rbc_output \<Rightarrow> bool res" where
  "dup_loop 0 i vec out = Inr False"
| "dup_loop (Suc n) i vec out =
     rbind (out_at vec i) (\<lambda>p.
     rbind (same_report out p) (\<lambda>d. if d then Inr True else dup_loop n (Suc i) vec out))"

definition check_for_duplicates :: "rbc_output \<Rightarrow> rbc_state \<Rightarrow> bool res" where
  "check_for_duplicates out st =
     (if output_size st = 0 then Inr False
      else rbind (deref (output_vec st)) (\<lambda>vec. dup_loop (output_size st) 0 vec out))"

definition dup_rbc_output :: "rbc_output option \<Rightarrow> rbc_state \<Rightarrow> (rbc_output slot \<times> rbc_state) res" where
  "dup_rbc_output node st =
     (case node of
        None \<Rightarrow> Inr (Null, st)
      | Some p \<Rightarrow>
          (let (ok, st1) = alloc st
           in if \<not> ok then rbind (log_to NOMEM_ERR None st1) (\<lambda>st2. Inr (Null, st2))
              else Inr (Ptr \<lparr>err_msg = err_msg p, err_type = err_type p, aux_info = Null, out_size = None\<rparr>, st1)))"

definition out_write :: "nat \<Rightarrow> rbc_output slot \<Rightarrow> rbc_state \<Rightarrow> rbc_state res" where
  "out_write i x st =
     rbind (deref (output_vec st)) (\<lambda>vec.
       if i < length vec then Inr (st\<lparr>output_vec := Some (vec[i := x])\<rparr>) else Inl Out_Of_Bounds)"

text \<open>
  \<open>realloc\<close> to \<open>__output_inc_count\<close> pointers: the entries that fit are kept. The result says
  whether the loop goes on.
\<close>

definition resize :: "nat \<Rightarrow> rbc_output slot list \<Rightarrow> rbc_output slot list" where
  "resize n vec = take n vec @ replicate (n - length vec) Uninit"

definition out_grow :: "rbc_state \<Rightarrow> (bool \<times> rbc_state) res" where
  "out_grow st =
     (if (output_size st + 1) mod ALLOC_INC = 0
      then let n = output_inc_count st + 1;
               (ok, st1) = alloc (st\<lparr>output_inc_count := n\<rparr>)
           in if ok then rbind (deref (output_vec st1)) (\<lambda>vec.
                           Inr (True, st1\<lparr>output_vec := Some (resize n vec)\<rparr>))
              else rbind (log_to NOMEM_ERR (Some STDERR_HANDLER) (st1\<lparr>output_vec := None\<rparr>))
                     (\<lambda>st2. Inr (False, st2))
      else Inr (True, st))"

fun add_loop :: "rbc_output list \<Rightarrow> rbc_state \<Rightarrow> rbc_state res" where
  "add_loop [] st = Inr st"
| "add_loop (crs # rest) st =
     rbind (out_grow st) (\<lambda>(go, st1).
       if \<not> go then Inr st1
       else rbind (check_for_duplicates crs st1) (\<lambda>d.
              if d then add_loop rest st1
              else rbind (dup_rbc_output (Some crs) st1) (\<lambda>(p, st2).
                   rbind (out_write (output_size st2) p st2) (\<lambda>st3.
                     add_loop rest (st3\<lparr>output_size := output_size st3 + 1\<rparr>)))))"

definition add_range :: "rbc_output list \<Rightarrow> rbc_state \<Rightarrow> rbc_state res" where
  "add_range outs st =
     rbind (if output_vec st = None
            then let (ok, st1) = alloc st
                 in if ok then Inr (True, st1\<lparr>output_vec := Some (replicate ALLOC_INC Uninit), output_inc_count := 1\<rparr>)
                    else rbind (log_to NOMEM_ERR (Some STDERR_HANDLER) st1) (\<lambda>st2. Inr (False, st2))
            else Inr (True, st)) (\<lambda>(go, st1).
       if \<not> go then Inr st1
       else case outs of
              [] \<Rightarrow> Inr st1
            | h # _ \<Rightarrow> rbind (read_var (out_size h)) (\<lambda>n.
                         if n > 0 then add_loop outs st1 else Inr st1))"

definition free_output_vector :: "rbc_state \<Rightarrow> rbc_state res" where
  "free_output_vector st =
     (case output_vec st of
        None \<Rightarrow> Inr st
      | Some vec \<Rightarrow>
          rbind (rfold (\<lambda>i u. rbind (out_slot vec i) (\<lambda>_. Inr u)) [0..<output_size st] ()) (\<lambda>_.
            Inr (st\<lparr>output_vec := None, output_size := 0, output_inc_count := 0\<rparr>)))"

section \<open>Sorting\<close>

text \<open>\<open>p->err_type > q->err_type\<close>, with the tests for NULL in the order of the code.\<close>

definition sort_step :: "nat \<Rightarrow> nat \<Rightarrow> rbc_output slot list \<Rightarrow> rbc_output slot list res" where
  "sort_step i j vec =
     rbind (out_slot vec i) (\<lambda>p. case p of None \<Rightarrow> Inr vec
       | Some x \<Rightarrow> rbind (out_slot vec j) (\<lambda>q. case q of None \<Rightarrow> Inr vec
           | Some y \<Rightarrow> if err_code (err_type y) < err_code (err_type x)
                      then Inr (vec[i := vec ! j, j := vec ! i]) else Inr vec))"

definition sort_vec :: "nat \<Rightarrow> rbc_output slot list \<Rightarrow> rbc_output slot list res" where
  "sort_vec n vec = rfold (\<lambda>i. rfold (\<lambda>j. sort_step i j) [Suc i..<n]) [0..<n] vec"

definition sort_output_vector :: "rbc_state \<Rightarrow> rbc_state res" where
  "sort_output_vector st =
     (case output_vec st of None \<Rightarrow> Inr st
      | Some vec \<Rightarrow> rbind (sort_vec (output_size st) vec) (\<lambda>vec'. Inr (st\<lparr>output_vec := Some vec'\<rparr>)))"

section \<open>File names\<close>

text \<open>
  \<open>contains_file_name\<close>: after the first match \<open>len\<close> is \<open>aux - p = 0\<close>. The function is not called.
\<close>

fun contains_loop :: "string option list \<Rightarrow> string \<Rightarrow> nat \<Rightarrow> nat option \<Rightarrow> nat option res" where
  "contains_loop [] m len p = Inr p"
| "contains_loop (name # names) m len p =
     rbind (deref name) (\<lambda>f.
       case strstr m f of
         Some aux \<Rightarrow> if aux < len then contains_loop names m 0 (Some aux) else contains_loop names m len p
       | None \<Rightarrow> contains_loop names m len p)"

definition contains_file_name :: "string \<Rightarrow> rbc_state \<Rightarrow> nat option res" where
  "contains_file_name m st =
     rbind (deref (static_ptr st)) (\<lambda>s.
     rbind (read_var (file_count s)) (\<lambda>n.
       if n \<le> 0 then Inr None
       else rbind (deref (file_names s)) (\<lambda>names.
              if nat n \<le> length names then contains_loop (take (nat n) names) m 1000 None
              else Inl Out_Of_Bounds)))"

text \<open>
  The loop of \<open>transform_file_name\<close> on the characters of the message, whose number does not change
  until the loop ends: an occurrence of the directory is overwritten by what follows it, the last
  characters are kept. \<open>file\<close> is the offset from which the next search starts. The loop may not end.
\<close>

partial_function (option) transform_loop :: "string \<Rightarrow> string \<Rightarrow> nat \<Rightarrow> nat \<Rightarrow> string res option" where
  "transform_loop pwd s file zero =
     (case strstr (drop file s) pwd of
        None \<Rightarrow> Some (if zero \<le> length s then Inr (take (length s - zero) s) else Inl Out_Of_Bounds)
      | Some k \<Rightarrow>
          (let f = file + k
           in transform_loop pwd
                (take f s @ drop (f + length pwd) s @ drop (length s - length pwd) s) f (zero + length pwd)))"

declare transform_loop.simps [code]

text \<open>
  \<open>fscanf(pwd_cmd, "%s", pwd)\<close> reads the output of \<open>pwd\<close> up to a space; the slash and the
  terminator have to fit into the array as well.
\<close>

definition read_pwd :: "string option \<Rightarrow> string res" where
  "read_pwd pwd_out =
     rbind (deref pwd_out) (\<lambda>t.
       store MAX_BUFF_SIZE (takeWhile (\<lambda>c. \<not> c_isspace c) (dropWhile c_isspace t) @ ''/''))"

definition transform_file_name :: "string option \<Rightarrow> string \<Rightarrow> string res option" where
  "transform_file_name pwd_out m =
     (case read_pwd pwd_out of Inl u \<Rightarrow> Some (Inl u) | Inr pwd \<Rightarrow> transform_loop pwd m 0 0)"

section \<open>The JSON document\<close>

definition tabs :: "nat \<Rightarrow> string" where
  "tabs n = replicate n c_tab"

definition quoted :: "string \<Rightarrow> string" where
  "quoted s = [c_dquote] @ s @ [c_dquote]"

definition json_output_start :: "rbc_state \<Rightarrow> rbc_state res" where
  "json_output_start st =
     fprintf STDOUT_HANDLER (''{'' @ [c_lf] @ tabs 1 @ quoted ''result'' @ '':'' @ [c_lf] @ tabs 1 @ ''['' @ [c_lf]) st"

definition json_error_text :: "string \<Rightarrow> string \<Rightarrow> c_float \<Rightarrow> string" where
  "json_error_text name key amount =
     tabs 2 @ ''{'' @ [c_lf] @
     tabs 3 @ quoted ''name'' @ '' : '' @ quoted name @ '','' @ [c_lf] @
     tabs 3 @ quoted ''key'' @ '' : '' @ quoted key @ '','' @ [c_lf] @
     tabs 3 @ quoted ''value'' @ '' : '' @ quoted (fmt_2f amount) @ '','' @ [c_lf] @
     tabs 3 @ quoted ''where'' @ '' :'' @ [c_lf] @ tabs 3 @ ''['' @ [c_lf]"

definition json_output_error :: "rbc_out_info \<Rightarrow> rbc_state \<Rightarrow> rbc_state res" where
  "json_output_error info st =
     rbind (deref (msg info)) (\<lambda>name.
     rbind (deref (penalty info)) (\<lambda>key.
       fprintf STDOUT_HANDLER (json_error_text name key (penalty_value info)) st))"

definition json_line :: "string \<Rightarrow> bool \<Rightarrow> string" where
  "json_line m code =
     tabs 4 @ ''{ '' @ quoted ''line'' @ '' : '' @ quoted m @ '' }'' @ (if \<not> code then '','' else []) @ [c_lf]"

text \<open>\<open>None\<close>: the rewriting of the message does not end.\<close>

definition json_output_error_message ::
  "string option \<Rightarrow> string option \<Rightarrow> bool \<Rightarrow> rbc_state \<Rightarrow> rbc_state res option" where
  "json_output_error_message pwd_out m code st =
     (case m of None \<Rightarrow> Some (Inl Null_Deref)
      | Some s \<Rightarrow>
          (case transform_file_name pwd_out (trim_whitespace s) of
             None \<Rightarrow> None
           | Some r \<Rightarrow> Some (rbind r (\<lambda>t. fprintf STDOUT_HANDLER (json_line t code) st))))"

definition json_end_text :: "bool \<Rightarrow> string" where
  "json_end_text code = tabs 3 @ '']'' @ [c_lf] @ tabs 2 @ ''}'' @ (if \<not> code then '','' else []) @ [c_lf]"

definition json_output_error_end :: "bool \<Rightarrow> rbc_state \<Rightarrow> rbc_state res" where
  "json_output_error_end code st = fprintf STDOUT_HANDLER (json_end_text code) st"

definition json_output_end :: "rbc_state \<Rightarrow> rbc_state res" where
  "json_output_end st = fprintf STDOUT_HANDLER (tabs 1 @ '']'' @ [c_lf] @ ''}'' @ [c_lf]) st"

section \<open>Reporting\<close>

text \<open>One error of a group: the log line, the JSON line and the penalty stored in the entry.\<close>

definition report_error ::
  "string option \<Rightarrow> rbc_out_info \<Rightarrow> nat \<Rightarrow> bool \<Rightarrow> rbc_state \<Rightarrow> rbc_state res option" where
  "report_error pwd_out aux j last_one st =
     obind (Some (rbind (deref (output_vec st)) (\<lambda>vec. out_at vec j))) (\<lambda>p.
     obind (Some (rbind (deref (err_msg p)) (\<lambda>m. store MAX_BUFF_SIZE (tabs 2 @ m)))) (\<lambda>buff.
     obind (Some (log_to buff (Some STDERR_HANDLER) st)) (\<lambda>st1.
     obind (json_output_error_message pwd_out (err_msg p) last_one st1) (\<lambda>st2.
       Some (out_write j (Ptr (p\<lparr>aux_info := Ptr aux\<rparr>)) st2)))))"

fun report_errors ::
  "string option \<Rightarrow> rbc_out_info \<Rightarrow> nat \<Rightarrow> nat list \<Rightarrow> rbc_state \<Rightarrow> rbc_state res option" where
  "report_errors pwd_out aux end [] st = Some (Inr st)"
| "report_errors pwd_out aux end (j # js) st =
     obind (report_error pwd_out aux j (j + 1 = end) st) (report_errors pwd_out aux end js)"

definition penalty_line :: "rbc_out_info \<Rightarrow> string res" where
  "penalty_line aux =
     rbind (deref (msg aux)) (\<lambda>name.
     rbind (deref (penalty aux)) (\<lambda>key.
       store MAX_BUFF_SIZE (''- '' @ fmt_2f (penalty_value aux) @ '' p  | '' @ name @ '' | '' @ key)))"

text \<open>The group of the errors \<open>start\<close>, ..., \<open>i - 1\<close>.\<close>

definition report_group :: "string option \<Rightarrow> nat \<Rightarrow> nat \<Rightarrow> rbc_state \<Rightarrow> rbc_state res option" where
  "report_group pwd_out start i st =
     obind (Some (rbind (deref (output_vec st)) (\<lambda>vec. out_at vec start))) (\<lambda>p.
     obind (Some (apply_penalty (err_type p) (int i - 1 - int start + 1) st)) (\<lambda>(aux, st1).
       case aux of
         None \<Rightarrow> Some (Inr st1)
       | Some info \<Rightarrow>
           obind (Some (penalty_line info)) (\<lambda>buff.
           obind (Some (log_to buff (Some STDERR_HANDLER) st1)) (\<lambda>st2.
           obind (Some (json_output_error info st2)) (\<lambda>st3.
           obind (report_errors pwd_out info i [start..<i] st3) (\<lambda>st4.
             Some (json_output_error_end (i = output_size st4) st4)))))))"

fun group_loop :: "string option \<Rightarrow> nat list \<Rightarrow> nat \<Rightarrow> rbc_state \<Rightarrow> rbc_state res option" where
  "group_loop pwd_out [] start st = Some (Inr st)"
| "group_loop pwd_out (i # is) start st =
     obind (Some (if i = output_size st then Inr True
                  else rbind (deref (output_vec st)) (\<lambda>vec.
                       rbind (out_at vec i) (\<lambda>p.
                       rbind (out_at vec start) (\<lambda>q. Inr (err_type p \<noteq> err_type q)))))) (\<lambda>boundary.
       if boundary then obind (report_group pwd_out start i st) (group_loop pwd_out is i)
       else group_loop pwd_out is start st)"

definition update_errors :: "string option \<Rightarrow> rbc_state \<Rightarrow> rbc_state res option" where
  "update_errors pwd_out st =
     (if libpenalty st = None \<or> \<not> apply_penalty_ptr st \<or> output_vec st = None then Some (Inr st)
      else obind (Some (sort_output_vector st)) (\<lambda>st1.
           obind (Some (log_to ''Penalty results: '' (Some STDERR_HANDLER) st1)) (\<lambda>st2.
           obind (Some (json_output_start st2)) (\<lambda>st3.
           obind (group_loop pwd_out [0..<Suc (output_size st3)] 0 st3) (\<lambda>st4.
             Some (json_output_end st4))))))"

end
