(* ===== verification/Robocheck.thy ===== *)
theory Robocheck
  imports Rbc_Output
begin

text \<open>
  The driver of src/librobocheck.c and main.c: loading the penalty library, running the tools in
  the order of the configuration, reporting, and closing down. What the program takes from its
  environment is a record: the document that \<open>xmlParseFile\<close> returns, the results of \<open>dlopen\<close> and
  \<open>dlsym\<close> (an error message, or \<open>None\<close> when they succeed), the function \<open>run_tool\<close> of a module, and
  the output of the command \<open>pwd\<close>.
\<close>

section \<open>Environment\<close>

record rbc_env =
  xml_parse :: "string \<Rightarrow> rbc_xml_doc option"
  dl_open :: "string \<Rightarrow> string option"
  dl_sym :: "string \<Rightarrow> string \<Rightarrow> string option"
  dl_tool :: "string \<Rightarrow> rbc_input option \<Rightarrow> rbc_errset_t \<Rightarrow> rbc_state \<Rightarrow> (rbc_output list \<times> rbc_state) res"
  pwd_text :: "string option"

section \<open>The penalty library\<close>

definition check_libpenalty :: "rbc_state \<Rightarrow> (int \<times> string option \<times> rbc_state) res" where
  "check_libpenalty st =
     (if root st = None then Inr (-1, None, st)
      else rbind (root_lookup st [''init'', ''penalty'']) (\<lambda>(doc, node).
             if node = None
             then rbind (log_to ''Invalid XML format. Cannot extract details regarding the penalty module.'' None st)
                    (\<lambda>st1. Inr (-1, None, st1))
             else rbind (deref (get_node_property doc node ''load'')) (\<lambda>load.
                    Inr (0, if strcmp load ''true'' = 0 then get_node_property doc node ''lib_path'' else None, st))))"

definition load_libpenalty :: "rbc_env \<Rightarrow> rbc_state \<Rightarrow> (int \<times> rbc_state) res" where
  "load_libpenalty env st =
     rbind (check_libpenalty st) (\<lambda>(open_status, lib_path, st0).
     rbind (log_to ''Attempting to load penalty module'' (Some STDERR_HANDLER) st0) (\<lambda>st1.
     rbind
       (case (open_status = 0, lib_path) of
          (True, Some lib) \<Rightarrow>
            (case dl_open env lib of
               Some err \<Rightarrow> rbind (log_to err (Some STDERR_HANDLER) (st1\<lparr>libpenalty := None\<rparr>)) (\<lambda>st2. Inr (-1, st2))
             | None \<Rightarrow>
                 (let st2 = st1\<lparr>libpenalty := Some (lib, True)\<rparr>
                  in case dl_sym env lib ''init_penalties'' of
                       Some err \<Rightarrow> rbind (log_to err (Some STDERR_HANDLER) st2) (\<lambda>st3. Inr (-1, st3))
                     | None \<Rightarrow>
                         rbind (init_penalties (root st2) st2) (\<lambda>(r, st3).
                           if r \<noteq> 0 then Inr (-1, st3)
                           else case dl_sym env lib ''apply_penalty'' of
                                  Some err \<Rightarrow>
                                    rbind (log_to err (Some STDERR_HANDLER) (st3\<lparr>apply_penalty_ptr := False\<rparr>))
                                      (\<lambda>st4. Inr (0, st4))
                                | None \<Rightarrow> Inr (0, st3\<lparr>apply_penalty_ptr := True\<rparr>))))
        | _ \<Rightarrow> Inr (-1, st1)) (\<lambda>(ret_status, st2).
     rbind (log_to (if ret_status \<noteq> 0 then ''Penalty module not loaded.'' else ''Penalty module loaded succesfully'')
              (Some STDERR_HANDLER) st2) (\<lambda>st3. Inr (ret_status, st3)))))"

definition close_libpenalty :: "rbc_env \<Rightarrow> rbc_state \<Rightarrow> rbc_state res" where
  "close_libpenalty env st =
     (case libpenalty st of
        None \<Rightarrow> Inr st
      | Some (lib, is_open) \<Rightarrow>
          (if \<not> is_open then Inl Use_After_Free
           else case dl_sym env lib ''free_penalties'' of
                  Some err \<Rightarrow> log_to err None st
                | None \<Rightarrow>
                    rbind (free_penalties st) (\<lambda>st1.
                      log_to ''Penalty module unloaded succesfully'' None (st1\<lparr>libpenalty := Some (lib, False)\<rparr>))))"

section \<open>Running a tool\<close>

text \<open>The end of \<open>load_module\<close>.\<close>

definition finish_module :: "string \<Rightarrow> rbc_output list \<Rightarrow> rbc_state \<Rightarrow> (rbc_output list \<times> rbc_state) res" where
  "finish_module lib out st =
     (if out = []
      then rbind (store 1024 (''Running shared object '' @ [c_quote] @ lib @ [c_quote] @ '' returned NULL output.'' @ [c_lf])) (\<lambda>buff.
           rbind (log_to buff (Some STDERR_HANDLER) st) (\<lambda>st1. Inr (out, st1)))
      else Inr (out, st))"

text \<open>From \<open>dlopen\<close> on.\<close>

definition run_library ::
  "rbc_env \<Rightarrow> rbc_input option \<Rightarrow> rbc_errset_t \<Rightarrow> string \<Rightarrow> string \<Rightarrow> string \<Rightarrow> rbc_state \<Rightarrow>
   (rbc_output list \<times> rbc_state) res" where
  "run_library env inp flags lib tool_name func_name st1 =
     (case dl_open env lib of
        Some err \<Rightarrow>
          rbind (log_to err (Some STDERR_HANDLER) st1) (\<lambda>st2.
          rbind (fprintf STDERR_HANDLER (''Failed loading module '' @ lib @ ''.'' @ [c_lf]) st2) (\<lambda>st3.
            finish_module lib [] st3))
      | None \<Rightarrow>
          (let (ok, st2) = alloc st1
           in if \<not> ok then Inl Null_Deref
              else let st3 = st2\<lparr>lib_handlers := lib_handlers st2 @ [(lib, True)]\<rparr>
                   in case dl_sym env lib func_name of
                        Some err \<Rightarrow>
                          rbind (log_to err (Some STDERR_HANDLER) st3) (\<lambda>st4.
                          rbind (fprintf STDERR_HANDLER (''Failed loading symbol '' @ func_name @ '' from module '' @
                                   lib @ ''.'' @ [c_lf]) st4) (\<lambda>st5.
                            finish_module lib [] st5))
                      | None \<Rightarrow>
                          rbind (set_running_module (Some tool_name) st3) (\<lambda>st4.
                          rbind (dl_tool env lib inp flags st4) (\<lambda>(out, st5).
                            finish_module lib out (set_robocheck_module st5)))))"

definition load_module ::
  "rbc_env \<Rightarrow> rbc_input option \<Rightarrow> rbc_errset_t \<Rightarrow> string option \<Rightarrow> string \<Rightarrow> rbc_state \<Rightarrow>
   (rbc_output list \<times> rbc_state) res" where
  "load_module env inp flags libmodule func_name st =
     rbind (deref libmodule) (\<lambda>lib.
     let tool_name = (case strrchr lib c_backslash of Some k \<Rightarrow> drop (k + 1) lib | None \<Rightarrow> lib)
     in rbind (store 1024 (''Attempting to run tool: '' @ [c_quote] @ tool_name @ [c_quote])) (\<lambda>buff.
        rbind (log_to buff (Some STDERR_HANDLER) st) (\<lambda>st1.
          run_library env inp flags lib tool_name func_name st1)))"

text \<open>
  One pass of the loop of \<open>run_robocheck\<close> for the tool at a node; \<open>None\<close> is \<open>continue\<close>, which leaves
  \<open>current_tool_node\<close> where it is.
\<close>

definition run_one :: "rbc_env \<Rightarrow> rbc_xml_doc \<Rightarrow> rbc_xml_node \<Rightarrow> rbc_state \<Rightarrow> rbc_state option res" where
  "run_one env doc node st =
     (case get_node_property doc node ''value'' of
        None \<Rightarrow> Inr None
      | Some name \<Rightarrow>
          rbind (root_lookup st [''installed_tools'', name]) (\<lambda>(d, tool).
            if tool = None then Inr None
            else let lib_path = get_node_property d tool ''lib_path'';
                     type = get_node_property d tool ''type''
                 in rbind (extract_tool_errset (root st) (Some name) st) (\<lambda>(es, st1).
                    rbind (read_var es) (\<lambda>errset.
                    rbind (extract_tool_input name (get_type type) st1) (\<lambda>(inp, st2).
                    rbind (load_module env inp errset lib_path ''run_tool'' st2) (\<lambda>(out, st3).
                    rbind (add_range out st3) (\<lambda>st4. Inr (Some st4))))))))"

fun run_loop :: "rbc_env \<Rightarrow> nat \<Rightarrow> rbc_xml_doc \<Rightarrow> rbc_xml_node \<Rightarrow> rbc_state \<Rightarrow> rbc_state res" where
  "run_loop env 0 doc node st = Inr st"
| "run_loop env (Suc i) doc node st =
     rbind (run_one env doc node st) (\<lambda>r.
       case r of None \<Rightarrow> run_loop env i doc node st
       | Some st1 \<Rightarrow> run_loop env i doc (get_next_node doc node) st1)"

definition run_tools :: "rbc_env \<Rightarrow> rbc_state \<Rightarrow> (bool \<times> rbc_state) res" where
  "run_tools env st =
     rbind (root_lookup st [''init'', ''tools'']) (\<lambda>(doc, tool_node).
       if tool_node = None then rbind (log_to ''Invalid XML format'' None st) (\<lambda>st1. Inr (False, st1))
       else rbind (run_loop env (nat (atoi_or_0 (get_node_property doc tool_node ''count''))) doc
                     (get_next_node doc (get_child doc tool_node)) st) (\<lambda>st1. Inr (True, st1)))"

definition run_robocheck :: "rbc_env \<Rightarrow> rbc_state \<Rightarrow> rbc_state res option" where
  "run_robocheck env st =
     obind (Some (run_tools env st)) (\<lambda>(go, st1).
       if go then update_errors (pwd_text env) st1 else Some (Inr st1))"

section \<open>Starting and closing\<close>

definition init_robocheck :: "rbc_env \<Rightarrow> stream option \<Rightarrow> stream option \<Rightarrow> rbc_state \<Rightarrow> (int \<times> rbc_state) res" where
  "init_robocheck env logger out st =
     rbind (read_startup_info (xml_parse env) (st\<lparr>FileLogger := logger, OutputStream := out\<rparr>)) (\<lambda>st1.
     rbind (load_libpenalty env (set_robocheck_module st1)) (\<lambda>(_, st2). Inr (0, st2)))"

definition close_library_handlers :: "rbc_state \<Rightarrow> rbc_state res" where
  "close_library_handlers st =
     (if \<exists>h\<in>set (lib_handlers st). \<not> snd h then Inl Use_After_Free
      else Inr (st\<lparr>lib_handlers := map (\<lambda>h. (fst h, False)) (lib_handlers st)\<rparr>))"

text \<open>The two inputs are freed, then the message is logged, then the document is freed.\<close>

definition close_robocheck :: "rbc_env \<Rightarrow> rbc_state \<Rightarrow> rbc_state res" where
  "close_robocheck env st =
     rbind (close_libpenalty env st) (\<lambda>st1.
     rbind (case FileLogger st1 of
              Some f \<Rightarrow> if is_internal_stream (Some f) then fclose f st1 else Inr st1
            | None \<Rightarrow> Inr st1) (\<lambda>st2.
     rbind (if freed st2 \<and> (dynamic_ptr st2 \<noteq> None \<or> static_ptr st2 \<noteq> None) then Inl Use_After_Free
            else log_to ''Freed static and dinamic input'' None st2) (\<lambda>st3.
     rbind (if freed st3 \<and> root st3 \<noteq> None then Inl Use_After_Free else Inr (st3\<lparr>freed := True\<rparr>)) (\<lambda>st4.
     rbind (free_output_vector st4) close_library_handlers))))"

definition start_state :: "(nat \<Rightarrow> string option) \<Rightarrow> bool list \<Rightarrow> rbc_state" where
  "start_state ck al =
     \<lparr>FileLogger = None, OutputStream = None, LoggerBuff = [], CurrentModule = [],
      text_of = (\<lambda>_. []), closed_streams = [], clock = ck, now = 0, allocs = al,
      pen_doc = None, penalties = None, pen_freed = False,
      root = None, dynamic_ptr = None, static_ptr = None, rbc_err_count = -1, lib_handlers = [],
      libpenalty = None, apply_penalty_ptr = False, output_vec = None, output_size = 0,
      output_inc_count = 0, freed = False\<rparr>"

text \<open>\<open>main\<close>: the state before closing, and the whole program.\<close>

definition main_run :: "rbc_env \<Rightarrow> rbc_state \<Rightarrow> rbc_state res option" where
  "main_run env st =
     obind (Some (init_robocheck env (Some STDERR_HANDLER) (Some STDOUT_HANDLER) st)) (\<lambda>(_, st1).
       run_robocheck env st1)"

definition main_prog :: "rbc_env \<Rightarrow> rbc_state \<Rightarrow> (int \<times> rbc_state) res option" where
  "main_prog env st =
     obind (main_run env st) (\<lambda>st1. Some (rbind (close_robocheck env st1) (\<lambda>st2. Inr (0, st2))))"

end
