(* ===== verification/Rbc_Output_Facts.thy ===== *)
theory Rbc_Output_Facts
  imports Rbc_Output
begin

text \<open>
  What the collection and the report guarantee: the sort is correct (through the interface of an
  array with compare-and-exchange), collecting merges the reports of the tools without repetition
  as long as the array is not resized, and the rewriting of a message removes the working
  directory.
\<close>

section \<open>Sorting with compare-and-exchange\<close>

text \<open>
  The interface of the sort: a store that holds a list and a step that exchanges two of its
  elements when they are in the wrong order.
\<close>

locale exchange_store =
  fixes key :: "'a \<Rightarrow> nat"
    and holds :: "'v \<Rightarrow> 'a list \<Rightarrow> bool"
    and step :: "nat \<Rightarrow> nat \<Rightarrow> 'v \<Rightarrow> 'v res"
  assumes step_exchange: "holds v xs \<Longrightarrow> i < j \<Longrightarrow> j < length xs \<Longrightarrow>
    \<exists>v'. step i j v = Inr v' \<and>
         holds v' (if key (xs ! j) < key (xs ! i) then xs[i := xs ! j, j := xs ! i] else xs)"
begin

definition low :: "nat \<Rightarrow> 'a list \<Rightarrow> bool" where
  "low i xs \<longleftrightarrow> (\<forall>a b. a < i \<longrightarrow> a < b \<longrightarrow> b < length xs \<longrightarrow> key (xs ! a) \<le> key (xs ! b))"

definition low_at :: "nat \<Rightarrow> nat \<Rightarrow> 'a list \<Rightarrow> bool" where
  "low_at i j xs \<longleftrightarrow> (\<forall>b. i < b \<longrightarrow> b < j \<longrightarrow> b < length xs \<longrightarrow> key (xs ! i) \<le> key (xs ! b))"

lemma low_exchange:
  assumes "low i xs" and "i < j" and "j < length xs"
  shows "low i (xs[i := xs ! j, j := xs ! i])"
  unfolding low_def
proof (intro allI impI)
  fix a b assume ab: "a < i" "a < b" "b < length (xs[i := xs ! j, j := xs ! i])"
  then have "key (xs ! a) \<le> key (xs ! b)" "key (xs ! a) \<le> key (xs ! i)" "key (xs ! a) \<le> key (xs ! j)"
    using assms by (simp_all add: low_def)
  then show "key (xs[i := xs ! j, j := xs ! i] ! a) \<le> key (xs[i := xs ! j, j := xs ! i] ! b)"
    using ab assms by (simp add: nth_list_update)
qed

lemma low_at_exchange:
  assumes "low_at i j xs" and "i < j" and "j < length xs" and "key (xs ! j) < key (xs ! i)"
  shows "low_at i (Suc j) (xs[i := xs ! j, j := xs ! i])"
  unfolding low_at_def
proof (intro allI impI)
  fix b assume b: "i < b" "b < Suc j" "b < length (xs[i := xs ! j, j := xs ! i])"
  have "key (xs ! i) \<le> key (xs ! b)" if "b < j" using assms(1) b that by (simp add: low_at_def)
  then show "key (xs[i := xs ! j, j := xs ! i] ! i) \<le> key (xs[i := xs ! j, j := xs ! i] ! b)"
    using b assms by (auto simp: nth_list_update less_Suc_eq)
qed

lemma low_at_keep:
  "low_at i j xs \<Longrightarrow> \<not> key (xs ! j) < key (xs ! i) \<Longrightarrow> low_at i (Suc j) xs"
  by (auto simp: low_at_def less_Suc_eq)

lemma low_Suc: "low i xs \<Longrightarrow> low_at i (length xs) xs \<Longrightarrow> low (Suc i) xs"
  by (auto simp: low_def low_at_def less_Suc_eq)

lemma low_sorted: "low (length xs) xs \<Longrightarrow> sorted (map key xs)"
  by (auto simp: low_def sorted_iff_nth_mono_less)

lemma inner_loop:
  assumes "holds v xs" and "length xs = n" and "low i xs" and "i < n"
  shows "\<exists>v' ys. rfold (\<lambda>j. step i j) [Suc i..<n] v = Inr v' \<and> holds v' ys \<and> mset ys = mset xs \<and> low (Suc i) ys"
proof -
  let ?P = "\<lambda>j v. \<exists>ys. holds v ys \<and> mset ys = mset xs \<and> low i ys \<and> low_at i j ys"
  have "\<exists>v'. rfold (\<lambda>j. step i j) [Suc i..<n] v = Inr v' \<and> ?P n v'"
  proof (rule rfold_upt)
    show "Suc i \<le> n" using assms(4) by simp
    show "?P (Suc i) v" using assms by (auto simp: low_at_def)
    fix j v assume j: "Suc i \<le> j" "j < n" and "?P j v"
    then obtain ys where ys: "holds v ys" "mset ys = mset xs" "low i ys" "low_at i j ys" by blast
    have len: "length ys = n" using ys(2) assms(2) by (metis mset_eq_length)
    then obtain v' where v': "step i j v = Inr v'"
      "holds v' (if key (ys ! j) < key (ys ! i) then ys[i := ys ! j, j := ys ! i] else ys)"
      using step_exchange [OF ys(1), of i j] j by auto
    show "\<exists>v'. step i j v = Inr v' \<and> ?P (Suc j) v'"
    proof (cases "key (ys ! j) < key (ys ! i)")
      case True
      have "mset (ys[i := ys ! j, j := ys ! i]) = mset xs"
        using mset_swap_nth [of i ys j] ys(2) len j by simp
      then show ?thesis
        using True v' low_exchange [OF ys(3)] low_at_exchange [OF ys(4)] len j
        by (metis Suc_le_lessD)
    next
      case False
      then show ?thesis using v' ys low_at_keep by auto
    qed
  qed
  then obtain v' ys where "rfold (\<lambda>j. step i j) [Suc i..<n] v = Inr v'" "holds v' ys" "mset ys = mset xs"
    "low i ys" "low_at i n ys" by blast
  moreover have "length ys = n" using calculation(3) assms(2) by (metis mset_eq_length)
  ultimately show ?thesis using low_Suc by blast
qed

lemma sorts:
  assumes "holds v xs" and "length xs = n"
  shows "\<exists>v' ys. rfold (\<lambda>i. rfold (\<lambda>j. step i j) [Suc i..<n]) [0..<n] v = Inr v' \<and> holds v' ys \<and>
                 mset ys = mset xs \<and> sorted (map key ys)"
proof -
  let ?P = "\<lambda>i v. \<exists>ys. holds v ys \<and> mset ys = mset xs \<and> low i ys"
  have "\<exists>v'. rfold (\<lambda>i. rfold (\<lambda>j. step i j) [Suc i..<n]) [0..<n] v = Inr v' \<and> ?P n v'"
  proof (rule rfold_upt)
    show "?P 0 v" using assms by (auto simp: low_def)
    fix i v assume i: "i < n" and "?P i v"
    then obtain ys where ys: "holds v ys" "mset ys = mset xs" "low i ys" by blast
    have "length ys = n" using ys(2) assms(2) by (metis mset_eq_length)
    from inner_loop [OF ys(1) this ys(3) i] ys(2)
    show "\<exists>v'. rfold (\<lambda>j. step i j) [Suc i..<n] v = Inr v' \<and> ?P (Suc i) v'" by auto
  qed simp
  then show ?thesis using assms(2) low_sorted by (metis mset_eq_length)
qed

end

section \<open>The output vector\<close>

definition out_holds :: "rbc_output slot list \<Rightarrow> rbc_output list \<Rightarrow> bool" where
  "out_holds vec xs \<longleftrightarrow> (\<exists>rest. vec = map Ptr xs @ rest)"

lemma out_holds_nth:
  "out_holds vec xs \<Longrightarrow> i < length xs \<Longrightarrow> i < length vec \<and> vec ! i = Ptr (xs ! i)"
  by (auto simp: out_holds_def nth_append)

lemma out_slot_holds [simp]: "out_holds vec xs \<Longrightarrow> i < length xs \<Longrightarrow> out_slot vec i = Inr (Some (xs ! i))"
  by (auto simp: out_slot_def dest: out_holds_nth)

lemma out_at_holds [simp]: "out_holds vec xs \<Longrightarrow> i < length xs \<Longrightarrow> out_at vec i = Inr (xs ! i)"
  by (simp add: out_at_def)

lemma out_holds_update: "out_holds vec xs \<Longrightarrow> i < length xs \<Longrightarrow> out_holds (vec[i := Ptr x]) (xs[i := x])"
  by (auto simp: out_holds_def list_update_append map_update)

interpretation ov: exchange_store "\<lambda>p. err_code (err_type p)" out_holds sort_step
proof
  fix vec :: "rbc_output slot list" and xs i j
  assume h: "out_holds vec xs" and ij: "i < j" "j < length xs"
  let ?c = "err_code (err_type (xs ! j)) < err_code (err_type (xs ! i))"
  have e: "vec ! i = Ptr (xs ! i)" "vec ! j = Ptr (xs ! j)"
    using out_holds_nth [OF h] ij by auto
  have "out_holds (vec[i := Ptr (xs ! j), j := Ptr (xs ! i)]) (xs[i := xs ! j, j := xs ! i])"
    using h ij by (intro out_holds_update) auto
  moreover have "sort_step i j vec = Inr (if ?c then vec[i := Ptr (xs ! j), j := Ptr (xs ! i)] else vec)"
    using h ij e by (simp add: sort_step_def)
  ultimately show "\<exists>v'. sort_step i j vec = Inr v' \<and>
      out_holds v' (if ?c then xs[i := xs ! j, j := xs ! i] else xs)"
    using h by simp
qed

lemma sort_vec_sorts:
  assumes "out_holds vec xs" and "length xs = n"
  shows "\<exists>vec' ys. sort_vec n vec = Inr vec' \<and> out_holds vec' ys \<and> mset ys = mset xs \<and>
                   sorted (map err_type ys)"
proof -
  obtain vec' ys where *: "sort_vec n vec = Inr vec'" "out_holds vec' ys" "mset ys = mset xs"
    "sorted (map (\<lambda>p. err_code (err_type p)) ys)"
    using ov.sorts [OF assms] unfolding sort_vec_def by blast
  moreover from *(4) have "sorted (map err_type ys)"
    by (simp add: sorted_map sorted_wrt_iff_nth_less less_eq_EN_err_type_def)
  ultimately show ?thesis by blast
qed

lemma sort_step_length: "sort_step i j vec = Inr vec' \<Longrightarrow> length vec' = length vec"
  by (auto simp: sort_step_def elim!: rbindE split: option.splits if_splits)

lemma sort_vec_length: "sort_vec n vec = Inr vec' \<Longrightarrow> length vec' = length vec"
  unfolding sort_vec_def
proof (rule rfold_invariant [where P = "\<lambda>v. length v = length vec"])
  fix i s s' assume "length s = length vec" "rfold (\<lambda>j. sort_step i j) [Suc i..<n] s = Inr s'"
  then show "length s' = length vec"
    using rfold_invariant [where P = "\<lambda>v. length v = length vec" and f = "\<lambda>j. sort_step i j"] sort_step_length
    by metis
qed auto

section \<open>Merging the reports of the tools\<close>

text \<open>The entry made of a report.\<close>

definition entry :: "rbc_output \<Rightarrow> rbc_output" where
  "entry p = \<lparr>err_msg = err_msg p, err_type = err_type p, aux_info = Null, out_size = None\<rparr>"

text \<open>The specification: a report is appended unless an entry reports the same.\<close>

fun any_same :: "rbc_output list \<Rightarrow> rbc_output \<Rightarrow> bool res" where
  "any_same [] x = Inr False"
| "any_same (p # ps) x = rbind (same_report x p) (\<lambda>d. if d then Inr True else any_same ps x)"

fun merge :: "rbc_output list \<Rightarrow> rbc_output list \<Rightarrow> rbc_output list res" where
  "merge acc [] = Inr acc"
| "merge acc (x # xs) = rbind (any_same acc x) (\<lambda>d. merge (if d then acc else acc @ [entry x]) xs)"

lemma dup_loop_any_same:
  "out_holds vec xs \<Longrightarrow> i + n = length xs \<Longrightarrow> dup_loop n i vec x = any_same (drop i xs) x"
proof (induction n arbitrary: i)
  case (Suc n)
  then have i: "i < length xs" by simp
  then have "drop i xs = xs ! i # drop (Suc i) xs" by (simp add: Cons_nth_drop_Suc)
  moreover have "dup_loop n (Suc i) vec x = any_same (drop (Suc i) xs) x" using Suc by simp
  ultimately show ?case using Suc.prems(1) i by (simp cong: if_cong)
qed simp

lemma check_for_duplicates_any_same:
  "output_vec st = Some vec \<Longrightarrow> out_holds vec xs \<Longrightarrow> output_size st = length xs \<Longrightarrow>
   check_for_duplicates x st = any_same xs x"
  using dup_loop_any_same [of vec xs 0 "length xs" x] by (simp add: check_for_duplicates_def)

text \<open>The states before the array is resized.\<close>

definition vec_ok :: "rbc_state \<Rightarrow> rbc_output list \<Rightarrow> bool" where
  "vec_ok st xs \<longleftrightarrow> (\<exists>vec. output_vec st = Some vec \<and> out_holds vec xs \<and> length vec = ALLOC_INC) \<and>
                     output_size st = length xs \<and> allocs st = []"

lemma out_holds_snoc:
  assumes "out_holds vec xs" and "length xs < length vec"
  shows "out_holds (vec[length xs := Ptr x]) (xs @ [x])"
proof -
  obtain rest where v: "vec = map Ptr xs @ rest" using assms(1) by (auto simp: out_holds_def)
  then obtain y ys where "rest = y # ys" using assms(2) by (cases rest) auto
  then show ?thesis using v by (simp add: out_holds_def list_update_append)
qed

lemma add_loop_merge:
  assumes "vec_ok st acc" and "length acc + length xs < ALLOC_INC" and "merge acc xs = Inr acc'"
  shows "\<exists>st'. add_loop xs st = Inr st' \<and> vec_ok st' acc' \<and>
               st' = st\<lparr>output_vec := output_vec st', output_size := output_size st'\<rparr>"
  using assms
proof (induction xs arbitrary: acc st)
  case Nil
  then show ?case by simp
next
  case (Cons x xs)
  obtain vec where vec: "output_vec st = Some vec" "out_holds vec acc" "length vec = 128"
    and sz: "output_size st = length acc" and al: "allocs st = []"
    using Cons.prems(1) by (auto simp: vec_ok_def)
  obtain d where d: "any_same acc x = Inr d" "merge (if d then acc else acc @ [entry x]) xs = Inr acc'"
    using Cons.prems(3) by (auto simp: rbind_Inr_iff)
  have grow: "out_grow st = Inr (True, st)"
    using Cons.prems(2) sz by (simp add: out_grow_def)
  have chk: "check_for_duplicates x st = Inr d"
    using check_for_duplicates_any_same [OF vec(1,2) sz] d(1) by simp
  show ?case
  proof (cases d)
    case True
    then show ?thesis using Cons.IH [OF Cons.prems(1)] Cons.prems(2) d(2) grow chk by simp
  next
    case False
    let ?st = "st\<lparr>output_vec := Some (vec[length acc := Ptr (entry x)]), output_size := length acc + 1\<rparr>"
    have len: "length acc < length vec" using Cons.prems(2) vec(3) by simp
    have "vec_ok ?st (acc @ [entry x])"
      using out_holds_snoc [OF vec(2) len] al vec(3) by (simp add: vec_ok_def)
    moreover have "length (acc @ [entry x]) + length xs < ALLOC_INC" using Cons.prems(2) by simp
    moreover have "merge (acc @ [entry x]) xs = Inr acc'" using False d(2) by simp
    ultimately obtain st' where st': "add_loop xs ?st = Inr st'" "vec_ok st' acc'"
      "st' = ?st\<lparr>output_vec := output_vec st', output_size := output_size st'\<rparr>"
      using Cons.IH by blast
    have "add_loop (x # xs) st = add_loop xs ?st"
      using grow chk False al vec(1) sz len
      by (simp add: dup_rbc_output_def alloc_def out_write_def entry_def)
    then show ?thesis using st' by simp
  qed
qed

text \<open>What the merged list is made of.\<close>

lemma any_same_False: "any_same ps x = Inr False \<Longrightarrow> p \<in> set ps \<Longrightarrow> same_report x p = Inr False"
  by (induction ps) (auto simp: rbind_Inr_iff split: if_splits)

lemma merge_prefix:
  "merge acc xs = Inr acc' \<Longrightarrow> \<exists>ys. acc' = acc @ map entry ys \<and> set ys \<subseteq> set xs"
proof (induction acc xs rule: merge.induct)
  case (2 acc x xs)
  obtain d where d: "any_same acc x = Inr d" "merge (if d then acc else acc @ [entry x]) xs = Inr acc'"
    using "2.prems" by (auto simp: rbind_Inr_iff)
  then obtain ys where ys: "acc' = (if d then acc else acc @ [entry x]) @ map entry ys" "set ys \<subseteq> set xs"
    using "2.IH" by blast
  show ?case
  proof (cases d)
    case True
    then show ?thesis using ys by auto
  next
    case False
    then have "acc' = acc @ map entry (x # ys)" using ys by simp
    moreover have "set (x # ys) \<subseteq> set (x # xs)" using ys by auto
    ultimately show ?thesis by blast
  qed
qed simp

text \<open>No entry repeats an earlier one.\<close>

definition all_new :: "rbc_output list \<Rightarrow> bool" where
  "all_new ps \<longleftrightarrow> (\<forall>i j. i < j \<longrightarrow> j < length ps \<longrightarrow> same_report (ps ! j) (ps ! i) = Inr False)"

lemma all_new_snoc:
  "all_new (ps @ [x]) \<longleftrightarrow> all_new ps \<and> (\<forall>p\<in>set ps. same_report x p = Inr False)"
proof
  assume a: "all_new (ps @ [x])"
  have "same_report (ps ! j) (ps ! i) = Inr False" if "i < j" "j < length ps" for i j
    using a [unfolded all_new_def, rule_format, of i j] that by (simp add: nth_append)
  moreover have "same_report x (ps ! i) = Inr False" if "i < length ps" for i
    using a [unfolded all_new_def, rule_format, of i "length ps"] that by (simp add: nth_append)
  ultimately show "all_new ps \<and> (\<forall>p\<in>set ps. same_report x p = Inr False)"
    by (auto simp: all_new_def in_set_conv_nth)
next
  assume a: "all_new ps \<and> (\<forall>p\<in>set ps. same_report x p = Inr False)"
  show "all_new (ps @ [x])"
    unfolding all_new_def
  proof (intro allI impI)
    fix i j assume "i < j" "j < length (ps @ [x])"
    then show "same_report ((ps @ [x]) ! j) ((ps @ [x]) ! i) = Inr False"
      using a by (cases "j = length ps") (auto simp: nth_append all_new_def)
  qed
qed

lemma entry_report [simp]: "report (entry p) = report p"
  by (simp add: entry_def report_def)

lemma merge_all_new: "merge acc xs = Inr acc' \<Longrightarrow> all_new acc \<Longrightarrow> all_new acc'"
proof (induction acc xs rule: merge.induct)
  case (2 acc x xs)
  obtain d where d: "any_same acc x = Inr d" "merge (if d then acc else acc @ [entry x]) xs = Inr acc'"
    using "2.prems" by (auto simp: rbind_Inr_iff)
  have "same_report (entry x) p = Inr False" if "\<not> d" "p \<in> set acc" for p
    using any_same_False [of acc x p] d(1) that same_report_cong [of "entry x" x p p] by simp
  then have "all_new (if d then acc else acc @ [entry x])"
    using "2.prems"(2) by (simp add: all_new_snoc)
  then show ?case using "2.IH" d by blast
qed simp

text \<open>Collecting the output of one tool, from an array that holds \<open>acc\<close> or was not allocated yet.\<close>

definition collected :: "rbc_state \<Rightarrow> rbc_output list \<Rightarrow> bool" where
  "collected st acc \<longleftrightarrow> vec_ok st acc \<or>
     (output_vec st = None \<and> output_size st = 0 \<and> acc = [] \<and> allocs st = [])"

lemma add_range_merge:
  assumes "collected st acc" and "length acc + length xs < ALLOC_INC" and "merge acc xs = Inr acc'"
    and "xs = [] \<or> (\<exists>n > 0. out_size (hd xs) = Some n)"
  shows "\<exists>st'. add_range xs st = Inr st' \<and> collected st' acc' \<and>
               st' = st\<lparr>output_vec := output_vec st', output_size := output_size st',
                        output_inc_count := output_inc_count st'\<rparr>"
proof -
  obtain st1 where st1: "vec_ok st1 acc"
    "st1 = st\<lparr>output_vec := output_vec st1, output_inc_count := output_inc_count st1\<rparr>"
    and eq: "add_range xs st = (case xs of [] \<Rightarrow> Inr st1
            | h # _ \<Rightarrow> rbind (read_var (out_size h)) (\<lambda>n. if n > 0 then add_loop xs st1 else Inr st1))"
  proof (cases "output_vec st = None")
    case True
    with assms(1) have "output_size st = 0" "acc = []" "allocs st = []"
      by (auto simp: collected_def vec_ok_def)
    with True show thesis
      by (intro that [of "st\<lparr>output_vec := Some (replicate 128 Uninit), output_inc_count := Suc 0\<rparr>"])
         (simp_all add: vec_ok_def out_holds_def add_range_def alloc_def)
  next
    case False
    with assms(1) show thesis
      by (intro that [of st]) (auto simp: collected_def add_range_def)
  qed
  show ?thesis
  proof (cases xs)
    case Nil
    have "st1 = st\<lparr>output_vec := output_vec st1, output_size := output_size st1,
                       output_inc_count := output_inc_count st1\<rparr>"
      by (subst st1(2)) (simp add: arg_cong [OF st1(2), of output_size])
    then show ?thesis using Nil eq st1(1) assms(3) by (auto simp: collected_def)
  next
    case (Cons h t)
    obtain st' where st': "add_loop xs st1 = Inr st'" "vec_ok st' acc'"
      "st' = st1\<lparr>output_vec := output_vec st', output_size := output_size st'\<rparr>"
      using add_loop_merge [OF st1(1) assms(2,3)] by blast
    have "add_range xs st = Inr st'"
      using eq st'(1) assms(4) Cons by auto
    moreover have "st' = st\<lparr>output_vec := output_vec st', output_size := output_size st',
                        output_inc_count := output_inc_count st'\<rparr>"
      by (subst st'(3), subst st1(2)) (simp add: arg_cong [OF st'(3), of output_inc_count])
    ultimately show ?thesis using st'(2) by (auto simp: collected_def)
  qed
qed

section \<open>Rewriting a message\<close>

text \<open>Removing the occurrences of a text, from left to right.\<close>

function remove_all :: "string \<Rightarrow> string \<Rightarrow> string" where
  "remove_all w s =
     (if w = [] then s
      else case strstr s w of None \<Rightarrow> s | Some k \<Rightarrow> take k s @ remove_all w (drop (k + length w) s))"
  by pat_completeness auto
termination
proof (relation "measure (\<lambda>(w, s). length s)", goal_cases)
  case (2 w s k)
  then have "k + length w \<le> length s" using strstr_Some_bound by simp
  then show ?case using 2 by (cases w) auto
qed simp

declare remove_all.simps [simp del]

lemma starts_with_take: "starts_with w (take m s) \<Longrightarrow> starts_with w s"
  by (metis append.assoc append_take_drop_id starts_with_iff)

lemma strstr_take_Some:
  assumes "strstr s w = Some k" and "k + length w \<le> m"
  shows "strstr (take m s) w = Some k"
proof (rule strstr_SomeI)
  have b: "k + length w \<le> length s" by (rule strstr_Some_bound [OF assms(1)])
  then show "k \<le> length (take m s)" using assms(2) by simp
  obtain r where "drop k s = w @ r" using strstr_Some_starts [OF assms(1)] by (auto simp: starts_with_iff)
  then show "starts_with w (drop k (take m s))" using assms(2) by (simp add: drop_take)
  show "\<not> starts_with w (drop j (take m s))" if "j < k" for j
    using strstr_Some_minimal [OF assms(1) that] starts_with_take [of w "m - j" "drop j s"]
    by (auto simp: drop_take)
qed

lemma strstr_take_None: "strstr s w = None \<Longrightarrow> strstr (take m s) w = None"
proof (rule ccontr)
  assume n: "strstr s w = None" and "strstr (take m s) w \<noteq> None"
  then obtain a b where "take m s = a @ w @ b" using contains_iff [of "take m s" w] by (auto simp: contains_def)
  then have "s = a @ w @ (b @ drop m s)" by (metis append.assoc append_take_drop_id)
  then show False using n strstr_append_Some by metis
qed

lemma transform_loop_removes:
  assumes "w = v @ ''/''" and "zero \<le> length s" and "pos \<le> length s - zero"
    and "CHR ''/'' \<notin> set (drop (length s - zero - length w) s)"
  shows "transform_loop w s pos zero =
         Some (Inr (take pos s @ remove_all w (take (length s - zero - pos) (drop pos s))))"
  using assms(2-)
proof (induction "length s - zero - pos" arbitrary: s pos zero rule: less_induct)
  case less
  define L where "L = length s"
  define n where "n = length w"
  define real where "real = take (L - zero - pos) (drop pos s)"
  have n: "0 < n" "w \<noteq> []" using assms(1) by (auto simp: n_def)
  show ?case
  proof (cases "strstr (drop pos s) w")
    case None
    then have "strstr real w = None" unfolding real_def by (rule strstr_take_None)
    moreover have "take (L - zero) s = take pos s @ real"
      using less.prems(2) by (metis L_def le_add_diff_inverse real_def take_add)
    moreover have "remove_all w real = real" using calculation(1) by (simp add: remove_all.simps)
    ultimately show ?thesis
      using None less.prems(1) unfolding real_def L_def by (subst transform_loop.simps) simp
  next
    case (Some k)
    define f where "f = pos + k"
    define s' where "s' = take f s @ drop (f + n) s @ drop (L - n) s"
    have fb: "f + n \<le> L" using strstr_Some_bound [OF Some] less.prems by (simp add: f_def n_def L_def)
    have slash: "s ! (f + n - 1) = CHR ''/''"
    proof -
      have "starts_with w (drop f s)" using strstr_Some_starts [OF Some] by (simp add: f_def add.commute)
      then have "drop f s ! (n - 1) = w ! (n - 1)"
        using starts_with_nth [of w "drop f s" "n - 1"] n by (simp add: n_def)
      then show ?thesis using fb n assms(1) by (simp add: L_def n_def)
    qed
    have fit: "f + n \<le> L - zero - n"
    proof (rule ccontr)
      assume "\<not> f + n \<le> L - zero - n"
      then have "s ! (f + n - 1) \<in> set (drop (L - zero - n) s)"
        using fb n(1) in_set_conv_nth [of "s ! (f + n - 1)" "drop (L - zero - n) s"]
        by (intro in_set_conv_nth [THEN iffD2] exI [of _ "f + n - 1 - (L - zero - n)"]) (auto simp: L_def)
      then show False using less.prems(3) slash by (simp add: L_def n_def)
    qed
    have L': "length s' = L" using fb by (simp add: s'_def L_def)
    have "L - (zero + n + n + f) + (f + n) = L - (zero + n)" using fit n(1) by linarith
    then have "drop (L - (zero + n) - n) s' = drop (L - zero - n) s @ drop (L - n) s"
      using fit fb by (simp add: s'_def L_def)
    moreover have "set (drop (L - n) s) \<subseteq> set (drop (L - zero - n) s)"
      by (rule set_drop_subset_set_drop) simp
    ultimately have ns: "CHR ''/'' \<notin> set (drop (L - (zero + n) - n) s')"
      using less.prems(3) by (auto simp: L_def n_def)
    have IH: "transform_loop w s' f (zero + n) =
        Some (Inr (take f s' @ remove_all w (take (L - (zero + n) - f) (drop f s'))))"
      using less.hyps [of s' "zero + n" f] L' fit n(1) ns fb unfolding n_def [symmetric] L_def [symmetric]
      by (simp add: f_def)
    have step: "transform_loop w s pos zero = transform_loop w s' f (zero + n)"
      by (subst transform_loop.simps) (simp add: Some Let_def f_def s'_def L_def n_def)
    have tk: "take f s' = take f s" using fb by (simp add: s'_def L_def)
    have rest: "take (L - (zero + n) - f) (drop f s') = drop (k + n) real"
    proof -
      have "take (L - (zero + n) - f) (drop f s') = take (L - (zero + n) - f) (drop (f + n) s)"
        using fb by (simp add: s'_def L_def)
      also have "\<dots> = drop (k + n) real"
        by (simp add: real_def drop_take f_def add.commute add.left_commute)
      finally show ?thesis .
    qed
    have "strstr real w = Some k"
      unfolding real_def using fit by (intro strstr_take_Some [OF Some]) (simp add: f_def n_def)
    then have "remove_all w real = take k real @ remove_all w (drop (k + n) real)"
      using n(2) by (subst remove_all.simps) (simp add: n_def)
    moreover have "take f s = take pos s @ take k real"
      using fit by (simp add: real_def f_def take_add min_def)
    ultimately show ?thesis
      unfolding L_def [symmetric] real_def [symmetric] step IH tk rest by simp
  qed
qed

text \<open>A message that ends with the directory: the loop finds it again and again.\<close>

lemma transform_loop_diverges:
  assumes "drop pos s = w" and "w \<noteq> []"
  shows "transform_loop w s pos zero = None"
proof (rule ccontr)
  assume "transform_loop w s pos zero \<noteq> None"
  then obtain y where "transform_loop w s pos zero = Some y" by blast
  then have "\<not> (drop pos s = w \<and> w \<noteq> [])"
  proof (rule transform_loop.raw_induct [rotated])
    fix tl pwd s pos zero and y :: "string res"
    assume IH: "\<And>pwd s pos zero y. tl pwd s pos zero = Some y \<Longrightarrow> \<not> (drop pos s = pwd \<and> pwd \<noteq> [])"
      and y: "(case strstr (drop pos s) pwd of
        None \<Rightarrow> Some (if zero \<le> length s then Inr (take (length s - zero) s) else Inl Out_Of_Bounds)
      | Some k \<Rightarrow> (let f = pos + k in tl pwd
                (take f s @ drop (f + length pwd) s @ drop (length s - length pwd) s) f (zero + length pwd))) = Some y"
    show "\<not> (drop pos s = pwd \<and> pwd \<noteq> [])"
    proof
      assume d: "drop pos s = pwd \<and> pwd \<noteq> []"
      then have f: "pos < length s" and len: "length s - length pwd = pos" by auto
      have "strstr (drop pos s) pwd = Some 0"
        using d by (intro strstr_SomeI) (auto simp: starts_with_def)
      moreover have "take pos s @ drop (pos + length pwd) s @ drop (length s - length pwd) s = s"
        using d len append_take_drop_id [of pos s] by simp
      ultimately have "tl pwd s pos (zero + length pwd) = Some y" using y by (simp add: Let_def)
      with IH d show False by blast
    qed
  qed
  then show False using assms by blast
qed

section \<open>Properties\<close>

text \<open>
  C21: sorting never leaves the array, permutes the collected errors, and puts them in the order of
  their types.
\<close>

theorem sort_output_vector_sorts:
  assumes "output_vec st = Some vec" and "out_holds vec xs" and "output_size st = length xs"
  shows "\<exists>vec' ys. sort_output_vector st = Inr (st\<lparr>output_vec := Some vec'\<rparr>) \<and> length vec' = length vec \<and>
           out_holds vec' ys \<and> mset ys = mset xs \<and> sorted (map err_type ys)"
proof -
  obtain vec' ys where "sort_vec (length xs) vec = Inr vec'" "out_holds vec' ys" "mset ys = mset xs"
    "sorted (map err_type ys)"
    using sort_vec_sorts [OF assms(2)] by blast
  then show ?thesis using assms(1,3) sort_vec_length by (auto simp: sort_output_vector_def)
qed

definition sample_vec :: "rbc_output list \<Rightarrow> rbc_state" where
  "sample_vec xs = sample_state\<lparr>output_vec := Some (map Ptr xs @ replicate (128 - length xs) Uninit),
                                output_size := length xs, output_inc_count := 1\<rparr>"

theorem sort_output_vector_sorts_witness:
  "\<exists>vec' ys. sort_output_vector (sample_vec [sample_out ''a'' ERR_DATA_RACE, sample_out ''b'' ERR_MEMORY_LEAK]) =
       Inr (sample_vec [sample_out ''a'' ERR_DATA_RACE, sample_out ''b'' ERR_MEMORY_LEAK]\<lparr>output_vec := Some vec'\<rparr>) \<and>
     length vec' = 128 \<and> out_holds vec' ys \<and>
     mset ys = {#sample_out ''a'' ERR_DATA_RACE, sample_out ''b'' ERR_MEMORY_LEAK#} \<and> sorted (map err_type ys)"
  using sort_output_vector_sorts [of "sample_vec [sample_out ''a'' ERR_DATA_RACE, sample_out ''b'' ERR_MEMORY_LEAK]" _
      "[sample_out ''a'' ERR_DATA_RACE, sample_out ''b'' ERR_MEMORY_LEAK]"]
  by (simp add: sample_vec_def sample_state_def out_holds_def add_mset_commute)

text \<open>
  C16: as long as fewer than \<open>ALLOC_INC\<close> reports come together, \<open>add_range\<close> stays inside the array,
  keeps what was collected, and appends, in order, the reports of the tool that repeat no entry.
\<close>

theorem add_range_collects:
  assumes "collected st acc" and "all_new acc" and "length acc + length xs < ALLOC_INC"
    and "merge acc xs = Inr acc'" and "xs = [] \<or> (\<exists>n > 0. out_size (hd xs) = Some n)"
  shows "\<exists>st'. add_range xs st = Inr st' \<and> collected st' acc' \<and> all_new acc' \<and>
               (\<exists>ys. acc' = acc @ map entry ys \<and> set ys \<subseteq> set xs)"
  using add_range_merge [OF assms(1,3,4,5)] merge_all_new [OF assms(4,2)] merge_prefix [OF assms(4)] by blast

theorem add_range_collects_witness:
  "\<exists>st'. add_range [sample_out ''in file a.c'' ERR_DATA_RACE, sample_out ''in file a.c'' ERR_DATA_RACE] sample_state = Inr st' \<and>
         collected st' [entry (sample_out ''in file a.c'' ERR_DATA_RACE)]"
proof -
  let ?x = "sample_out ''in file a.c'' ERR_DATA_RACE"
  have "merge [] [?x, ?x] = Inr [entry ?x]"
    by code_simp
  then show ?thesis
    using add_range_collects [of sample_state "[]" "[?x, ?x]" "[entry ?x]"]
    by (auto simp: collected_def sample_state_def all_new_def sample_out_def)
qed

text \<open>
  C34: when the array is full up to its last slot, the reallocation asks for
  \<open>__output_inc_count\<close> pointers instead of \<open>__output_inc_count * ALLOC_INC\<close>: the array shrinks to
  two slots and the next report that does not repeat one of the first two reads outside it.
\<close>

theorem add_range_overflow:
  assumes "vec_ok st xs" and "length xs = 127" and "output_inc_count st = 1"
    and "out_size h = Some n" and "0 < n"
    and "same_report h (xs ! 0) = Inr False" and "same_report h (xs ! 1) = Inr False"
  shows "add_range (h # r) st = Inl Out_Of_Bounds"
proof -
  obtain vec where vec: "output_vec st = Some vec" "out_holds vec xs" "length vec = 128"
    and sz: "output_size st = 127" and al: "allocs st = []"
    using assms(1,2) by (auto simp: vec_ok_def)
  have "vec ! 0 = Ptr (xs ! 0)" "vec ! 1 = Ptr (xs ! 1)"
    using out_holds_nth [OF vec(2)] assms(2) by auto
  moreover obtain a b w where "vec = a # b # w"
    using vec(3) by (metis (no_types) One_nat_def Suc_length_conv numeral_eq_Suc pred_numeral_simps(2,3))
  ultimately have r: "resize 2 vec = [Ptr (xs ! 0), Ptr (xs ! 1)]" by (simp add: resize_def numeral_2_eq_2)
  have d: "dup_loop 127 0 [Ptr (xs ! 0), Ptr (xs ! 1)] h = Inl Out_Of_Bounds"
    using assms(6,7) by (simp add: numeral_eq_Suc out_at_def out_slot_def)
  show ?thesis
    using assms(3-5) vec(1) sz al r d
    by (simp add: add_range_def out_grow_def alloc_def check_for_duplicates_def numeral_2_eq_2 [symmetric] del: dup_loop.simps)
qed

theorem add_range_overflow_witness:
  "add_range [sample_out ''a'' ERR_DATA_RACE]
     (sample_vec (replicate 127 (sample_out ''b'' ERR_MEMORY_LEAK))) = Inl Out_Of_Bounds"
proof (rule add_range_overflow [where n = 1])
  show "vec_ok (sample_vec (replicate 127 (sample_out ''b'' ERR_MEMORY_LEAK)))
          (replicate 127 (sample_out ''b'' ERR_MEMORY_LEAK))"
    by (simp add: vec_ok_def sample_vec_def sample_state_def out_holds_def)
qed (simp_all add: sample_vec_def sample_out_def same_report_def)

text \<open>
  C22: when the last characters of the message, as many as the directory has with its slash, have no
  slash, \<open>transform_file_name\<close> ends and removes exactly the occurrences of the working directory.
\<close>

theorem transform_file_name_removes:
  assumes "\<forall>c\<in>set v. \<not> c_isspace c" and "v \<noteq> []" and "length v < 511"
    and "CHR ''/'' \<notin> set (drop (length m - length (v @ ''/'')) m)"
  shows "transform_file_name (Some (v @ [c_lf])) m = Some (Inr (remove_all (v @ ''/'') m))"
proof -
  have nl: "c_isspace c_lf" by (simp add: c_isspace_def)
  have "dropWhile c_isspace (v @ [c_lf]) = v @ [c_lf]" using assms(1,2) by (cases v) auto
  moreover have "takeWhile (\<lambda>c. \<not> c_isspace c) (v @ [c_lf]) = v"
    using takeWhile_append_stop [of v "\<lambda>c. \<not> c_isspace c" c_lf "[]"] assms(1) nl by simp
  ultimately have "read_pwd (Some (v @ [c_lf])) = Inr (v @ ''/'')"
    using assms(3) by (simp add: read_pwd_def)
  then show ?thesis
    using transform_loop_removes [of "v @ ''/''" v 0 m 0] assms(4) by (simp add: transform_file_name_def)
qed

theorem transform_file_name_removes_witness:
  "transform_file_name (Some (''/w/x'' @ [c_lf])) ''in /w/x/a.c, at line 7'' = Some (Inr ''in a.c, at line 7'')"
proof -
  have "transform_file_name (Some (''/w/x'' @ [c_lf])) ''in /w/x/a.c, at line 7'' =
        Some (Inr (remove_all (''/w/x'' @ ''/'') ''in /w/x/a.c, at line 7''))"
    by (rule transform_file_name_removes) (simp_all add: c_isspace_def)
  moreover have "remove_all (''/w/x'' @ ''/'') ''in /w/x/a.c, at line 7'' = ''in a.c, at line 7''"
    by code_simp
  ultimately show ?thesis by simp
qed

text \<open>
  C35: for a message that ends with the working directory and its slash the loop never ends: the
  last characters are not moved, so the same occurrence is found again.
\<close>

theorem transform_file_name_diverges:
  assumes "read_pwd pwd_out = Inr w" and "w \<noteq> []" and "strstr (a @ w) w = Some (length a)"
  shows "transform_file_name pwd_out (a @ w) = None"
proof -
  let ?s = "take (length a) (a @ w) @ drop (length a + length w) (a @ w) @ drop (length (a @ w) - length w) (a @ w)"
  have "transform_file_name pwd_out (a @ w) = transform_loop w ?s (length a) (length w)"
    using assms by (simp add: transform_file_name_def transform_loop.simps [of w "a @ w" 0 0])
  then show ?thesis using transform_loop_diverges [of "length a" "a @ w" w "length w"] assms(2) by simp
qed

theorem transform_file_name_diverges_witness:
  "transform_file_name (Some ''/w'') ''leak in /w/'' = None"
proof -
  have "read_pwd (Some ''/w'') = Inr ''/w/''" "strstr (''leak in '' @ ''/w/'') ''/w/'' = Some (length ''leak in '')"
    by code_simp+
  then show ?thesis using transform_file_name_diverges [of "Some ''/w''" "''/w/''" "''leak in ''"] by simp
qed

end
