(* ===== verification/Report_Facts.thy ===== *)
theory Report_Facts
  imports Rbc_Output_Facts
begin

text \<open>
  The report: the JSON document that \<open>update_errors\<close> writes, as a function of the collected errors.
  The errors are grouped by type in the order of the types, each group has the penalty of its type
  and its size, and the messages are printed without the working directory.
\<close>

section \<open>The document\<close>

text \<open>The text a message is printed as; \<open>None\<close> when rewriting it fails or does not end.\<close>

definition shown :: "string option \<Rightarrow> string \<Rightarrow> string option" where
  "shown pwd_out m =
     (case transform_file_name pwd_out (trim_whitespace m) of Some (Inr t) \<Rightarrow> Some t | _ \<Rightarrow> None)"

fun json_lines :: "string list \<Rightarrow> string" where
  "json_lines [] = []"
| "json_lines (m # ms) = json_line m (ms = []) @ json_lines ms"

type_synonym rep = "string \<times> EN_err_type"

function groups :: "rep list \<Rightarrow> (EN_err_type \<times> string list) list" where
  "groups [] = []"
| "groups ((m, t) # rs) =
     (t, m # map fst (takeWhile (\<lambda>r. snd r = t) rs)) # groups (dropWhile (\<lambda>r. snd r = t) rs)"
  by pat_completeness auto
termination
  by (relation "measure length") (auto simp: le_imp_less_Suc length_dropWhile_le)

text \<open>Name, key and amount of the penalty for a number of errors of a type.\<close>

definition group_info ::
  "rbc_penalty_t slot list \<Rightarrow> EN_err_type \<Rightarrow> nat \<Rightarrow> (string \<times> string \<times> c_float) option" where
  "group_info ps t c =
     (if err_code t < PENALTY_COUNT
      then (case ps ! err_code t of
              Ptr pen \<Rightarrow> (case (pen_msg pen, err_penalty_msg pen, penalty_amount pen (int c)) of
                           (Some n, Some k, Inr a) \<Rightarrow> Some (n, k, a) | _ \<Rightarrow> None)
            | _ \<Rightarrow> None)
      else None)"

definition json_group ::
  "rbc_penalty_t slot list \<Rightarrow> string option \<Rightarrow> EN_err_type \<times> string list \<Rightarrow> bool \<Rightarrow> string" where
  "json_group ps pwd_out g last_one =
     (case group_info ps (fst g) (length (snd g)) of
        None \<Rightarrow> []
      | Some (n, k, a) \<Rightarrow>
          json_error_text n k a @ json_lines (map (\<lambda>m. the (shown pwd_out m)) (snd g)) @ json_end_text last_one)"

fun json_groups ::
  "rbc_penalty_t slot list \<Rightarrow> string option \<Rightarrow> (EN_err_type \<times> string list) list \<Rightarrow> string" where
  "json_groups ps pwd_out [] = []"
| "json_groups ps pwd_out (g # gs) = json_group ps pwd_out g (gs = []) @ json_groups ps pwd_out gs"

definition json_document :: "rbc_penalty_t slot list \<Rightarrow> string option \<Rightarrow> rep list \<Rightarrow> string" where
  "json_document ps pwd_out rs =
     ''{'' @ [c_lf] @ tabs 1 @ quoted ''result'' @ '':'' @ [c_lf] @ tabs 1 @ ''['' @ [c_lf] @
     json_groups ps pwd_out (groups rs) @
     tabs 1 @ '']'' @ [c_lf] @ ''}'' @ [c_lf]"

text \<open>The errors that can be reported: the messages and the penalty lines fit their buffers.\<close>

definition msg_ok :: "string option \<Rightarrow> string \<Rightarrow> bool" where
  "msg_ok pwd_out m \<longleftrightarrow> length m < 510 \<and> shown pwd_out m \<noteq> None"

definition info_ok :: "rbc_penalty_t slot list \<Rightarrow> EN_err_type \<Rightarrow> nat \<Rightarrow> bool" where
  "info_ok ps t c \<longleftrightarrow>
     (case group_info ps t c of
        None \<Rightarrow> False
      | Some (n, k, a) \<Rightarrow> length (''- '' @ fmt_2f a @ '' p  | '' @ n @ '' | '' @ k) < MAX_BUFF_SIZE)"

section \<open>The states during the report\<close>

definition report_inv :: "rbc_penalty_t slot list \<Rightarrow> rep list \<Rightarrow> rbc_state \<Rightarrow> bool" where
  "report_inv ps rs st \<longleftrightarrow>
     io_wf st \<and> allocs st = [] \<and> STDOUT_HANDLER \<notin> set (closed_streams st) \<and> STDERR_HANDLER \<notin> set (closed_streams st) \<and>
     pen_doc st \<noteq> None \<and> penalties st = Some ps \<and> \<not> pen_freed st \<and> output_size st = length rs \<and>
     (\<exists>vec ys. output_vec st = Some vec \<and> out_holds vec ys \<and> map report ys = map (\<lambda>(m, t). (Some m, t)) rs)"

text \<open>A step that keeps the invariant and appends a text to standard output.\<close>

definition emits ::
  "rbc_penalty_t slot list \<Rightarrow> rep list \<Rightarrow> string \<Rightarrow> rbc_state \<Rightarrow> rbc_state \<Rightarrow> bool" where
  "emits ps rs t st st' \<longleftrightarrow>
     report_inv ps rs st' \<and> text_of st' STDOUT_HANDLER = text_of st STDOUT_HANDLER @ t"

lemma more_fields:
  fixes st st' :: rbc_state
  assumes "io_state.more st' = io_state.more st"
  shows "pen_doc st' = pen_doc st" "penalties st' = penalties st" "pen_freed st' = pen_freed st"
    "output_size st' = output_size st" "output_vec st' = output_vec st" "libpenalty st' = libpenalty st"
    "apply_penalty_ptr st' = apply_penalty_ptr st" "output_inc_count st' = output_inc_count st"
    "root st' = root st"
  using assms by (cases st; cases st'; simp)+

lemma report_inv_same:
  "same_but_log st st' \<Longrightarrow> report_inv ps rs st' \<longleftrightarrow> report_inv ps rs st"
proof -
  assume s: "same_but_log st st'"
  then have m: "io_state.more st' = io_state.more st" by (simp add: same_but_log_def)
  show ?thesis
    using s io_wf_same_but_log [OF s] more_fields(1-5) [OF m]
    by (simp add: report_inv_def same_but_log_def)
qed

lemma log_emits:
  assumes "report_inv ps rs st" and "length m < 1024"
  shows "\<exists>st'. log_to m (Some STDERR_HANDLER) st = Inr st' \<and> emits ps rs [] st st'"
proof -
  obtain st' where st': "log_to m (Some STDERR_HANDLER) st = Inr st'"
    using log_to_ok [of st m "Some STDERR_HANDLER"] assms by (auto simp: report_inv_def)
  then show ?thesis
    using log_to_frame(1) [OF st'] log_to_frame(2) [OF st', of STDOUT_HANDLER] assms(1) report_inv_same
    by (auto simp: emits_def)
qed

lemma fprintf_emits:
  assumes "report_inv ps rs st"
  shows "\<exists>st'. fprintf STDOUT_HANDLER t st = Inr st' \<and> emits ps rs t st st'"
proof -
  obtain st' where st': "fprintf STDOUT_HANDLER t st = Inr st'"
    using assms by (auto simp: fprintf_def report_inv_def)
  then show ?thesis
    using fprintf_frame [OF st'] report_inv_same [of st st'] assms by (auto simp: emits_def)
qed

lemma apply_penalty_info:
  assumes "report_inv ps rs st" and "group_info ps t c = Some (n, k, a)" and "0 < c"
  shows "apply_penalty t (int c) st = Inr (Some \<lparr>msg = Some n, penalty = Some k, penalty_value = a\<rparr>, st)"
proof -
  from assms(2) obtain pen where "err_code t < 20" "ps ! err_code t = Ptr pen"
    "pen_msg pen = Some n" "err_penalty_msg pen = Some k" "penalty_amount pen (int c) = Inr a"
    by (auto simp: group_info_def split: if_splits slot.splits option.splits sum.splits)
  then show ?thesis
    using assms by (auto simp: report_inv_def apply_penalty_def alloc_def)
qed

lemma report_inv_at:
  assumes "report_inv ps rs st" and "j < length rs"
  obtains vec p where "output_vec st = Some vec" and "out_at vec j = Inr p"
    and "err_msg p = Some (fst (rs ! j))" and "err_type p = snd (rs ! j)"
proof -
  obtain vec ys where v: "output_vec st = Some vec" "out_holds vec ys"
    and r: "map report ys = map (\<lambda>(m, t). (Some m, t)) rs"
    using assms(1) by (auto simp: report_inv_def)
  have j: "j < length ys" using assms(2) r by (metis length_map)
  have "report (ys ! j) = (Some (fst (rs ! j)), snd (rs ! j))"
    using arg_cong [OF r, of "\<lambda>l. l ! j"] j assms(2) by (simp add: case_prod_beta)
  then show thesis
    using that [OF v(1) out_at_holds [OF v(2) j]] by (simp add: report_def)
qed

lemma report_inv_write:
  assumes "report_inv ps rs st" and "j < length rs" and "output_vec st = Some vec" and "out_at vec j = Inr p"
  shows "\<exists>st'. out_write j (Ptr (p\<lparr>aux_info := x\<rparr>)) st = Inr st' \<and> emits ps rs [] st st'"
proof -
  obtain ys where ys: "out_holds vec ys" "map report ys = map (\<lambda>(m, t). (Some m, t)) rs"
    using assms(1,3) by (auto simp: report_inv_def)
  have j: "j < length ys" using assms(2) ys(2) by (metis length_map)
  then have p: "p = ys ! j" using out_at_holds [OF ys(1) j] assms(4) by simp
  have jv: "j < length vec" using out_holds_nth [OF ys(1) j] by simp
  have "map report (ys[j := p\<lparr>aux_info := x\<rparr>]) = map report ys"
    using j by (simp add: map_update p report_def list_update_same_conv)
  then show ?thesis
    using assms(1,3) jv out_holds_update [OF ys(1) j, of "p\<lparr>aux_info := x\<rparr>"] ys(2)
    by (auto simp: out_write_def emits_def report_inv_def io_wf_def)
qed

section \<open>The steps of the report\<close>

lemma emits_trans: "emits ps rs t st st1 \<Longrightarrow> emits ps rs u st1 st2 \<Longrightarrow> emits ps rs (t @ u) st st2"
  by (simp add: emits_def)

lemma emits_inv: "emits ps rs t st st' \<Longrightarrow> report_inv ps rs st'"
  by (simp add: emits_def)

lemma report_error_emits:
  assumes inv: "report_inv ps rs st" and j: "j < length rs" and ok: "msg_ok pwd_out (fst (rs ! j))"
  shows "\<exists>st'. report_error pwd_out aux j l st = Some (Inr st') \<and>
               emits ps rs (json_line (the (shown pwd_out (fst (rs ! j)))) l) st st'"
proof -
  let ?m = "fst (rs ! j)"
  obtain vec p where vp: "output_vec st = Some vec" "out_at vec j = Inr p" "err_msg p = Some ?m"
    using report_inv_at [OF inv j] by metis
  obtain s where s: "transform_file_name pwd_out (trim_whitespace ?m) = Some (Inr s)" "shown pwd_out ?m = Some s"
    using ok by (auto simp: msg_ok_def shown_def split: option.splits sum.splits)
  obtain st1 where st1: "log_to (tabs 2 @ ?m) (Some STDERR_HANDLER) st = Inr st1" "emits ps rs [] st st1"
    using log_emits [OF inv, of "tabs 2 @ ?m"] ok by (auto simp: msg_ok_def tabs_def)
  obtain st2 where st2: "fprintf STDOUT_HANDLER (json_line s l) st1 = Inr st2"
    "emits ps rs (json_line s l) st1 st2"
    using fprintf_emits [OF emits_inv [OF st1(2)]] by blast
  have "output_vec st2 = Some vec"
    using vp(1) log_to_frame(1) [OF st1(1)] fprintf_frame [OF st2(1)]
    by (metis more_fields(5) same_but_log_def)
  then obtain st3 where st3: "out_write j (Ptr (p\<lparr>aux_info := Ptr aux\<rparr>)) st2 = Inr st3" "emits ps rs [] st2 st3"
    using report_inv_write [OF emits_inv [OF st2(2)] j] vp(2) by blast
  have "store MAX_BUFF_SIZE (tabs 2 @ ?m) = Inr (tabs 2 @ ?m)"
    using ok by (simp add: msg_ok_def tabs_def)
  then have "report_error pwd_out aux j l st = Some (Inr st3)"
    using vp s st1 st2 st3 by (simp add: report_error_def json_output_error_message_def store_def)
  moreover have "emits ps rs (json_line s l) st st3"
    using emits_trans [OF emits_trans [OF st1(2) st2(2)] st3(2)] by simp
  ultimately show ?thesis using s(2) by simp
qed

definition part :: "'a list \<Rightarrow> nat \<Rightarrow> nat \<Rightarrow> 'a list" where
  "part xs a b = take (b - a) (drop a xs)"

lemma part_Cons: "a < b \<Longrightarrow> b \<le> length xs \<Longrightarrow> part xs a b = xs ! a # part xs (Suc a) b"
  by (simp add: part_def Cons_nth_drop_Suc [symmetric] take_Cons')

lemma part_length [simp]: "b \<le> length xs \<Longrightarrow> length (part xs a b) = b - a"
  by (simp add: part_def)

lemma report_errors_emits:
  assumes "report_inv ps rs st" and "a \<le> b" and "b \<le> length rs"
    and "\<forall>r\<in>set (part rs a b). msg_ok pwd_out (fst r)"
  shows "\<exists>st'. report_errors pwd_out aux b [a..<b] st = Some (Inr st') \<and>
               emits ps rs (json_lines (map (\<lambda>r. the (shown pwd_out (fst r))) (part rs a b))) st st'"
  using assms
proof (induction "b - a" arbitrary: a st)
  case 0
  then show ?case by (simp add: part_def emits_def)
next
  case (Suc n)
  then have ab: "a < b" by simp
  have sl: "part rs a b = rs ! a # part rs (Suc a) b" using part_Cons [OF ab Suc.prems(3)] .
  have last: "(a + 1 = b) \<longleftrightarrow> part rs (Suc a) b = []"
    using ab Suc.prems(3) by (auto simp: part_def)
  obtain st1 where st1: "report_error pwd_out aux a (a + 1 = b) st = Some (Inr st1)"
    "emits ps rs (json_line (the (shown pwd_out (fst (rs ! a)))) (a + 1 = b)) st st1"
    using report_error_emits [OF Suc.prems(1), of a pwd_out aux] ab Suc.prems(3,4) sl by force
  obtain st2 where st2: "report_errors pwd_out aux b [Suc a..<b] st1 = Some (Inr st2)"
    "emits ps rs (json_lines (map (\<lambda>r. the (shown pwd_out (fst r))) (part rs (Suc a) b))) st1 st2"
  proof -
    have "n = b - Suc a" using Suc.hyps(2) by simp
    from Suc.hyps(1) [OF this emits_inv [OF st1(2)]] show thesis
      using that ab Suc.prems(3,4) sl by auto
  qed
  show ?case
    using st1(1) st2(1) emits_trans [OF st1(2) st2(2)] ab last by (simp add: upt_conv_Cons sl)
qed

lemma report_group_emits:
  assumes inv: "report_inv ps rs st" and se: "s < e" "e \<le> length rs"
    and info: "info_ok ps (snd (rs ! s)) (e - s)"
    and msgs: "\<forall>r\<in>set (part rs s e). msg_ok pwd_out (fst r)"
  shows "\<exists>st'. report_group pwd_out s e st = Some (Inr st') \<and>
    emits ps rs (json_group ps pwd_out (snd (rs ! s), map fst (part rs s e)) (e = length rs)) st st'"
proof -
  let ?t = "snd (rs ! s)"
  obtain vec p where vp: "output_vec st = Some vec" "out_at vec s = Inr p" "err_type p = ?t"
    using report_inv_at [OF inv, of s] se by (metis order_less_le_trans)
  obtain n k a where gi: "group_info ps ?t (e - s) = Some (n, k, a)"
    and len: "length (''- '' @ fmt_2f a @ '' p  | '' @ n @ '' | '' @ k) < 512"
    using info by (auto simp: info_ok_def split: option.splits)
  let ?i = "\<lparr>msg = Some n, penalty = Some k, penalty_value = a\<rparr>"
  have cnt: "int e - 1 - int s + 1 = int (e - s)" using se by simp
  have ap: "apply_penalty ?t (int (e - s)) st = Inr (Some ?i, st)"
    using apply_penalty_info [OF inv gi] se by simp
  have line: "penalty_line ?i = Inr (''- '' @ fmt_2f a @ '' p  | '' @ n @ '' | '' @ k)"
    using len by (simp add: penalty_line_def)
  obtain st1 where st1: "log_to (''- '' @ fmt_2f a @ '' p  | '' @ n @ '' | '' @ k) (Some STDERR_HANDLER) st = Inr st1"
    "emits ps rs [] st st1"
    using log_emits [OF inv, of "''- '' @ fmt_2f a @ '' p  | '' @ n @ '' | '' @ k"] len by auto
  obtain st2 where st2: "fprintf STDOUT_HANDLER (json_error_text n k a) st1 = Inr st2"
    "emits ps rs (json_error_text n k a) st1 st2"
    using fprintf_emits [OF emits_inv [OF st1(2)]] by blast
  obtain st3 where st3: "report_errors pwd_out ?i e [s..<e] st2 = Some (Inr st3)"
    "emits ps rs (json_lines (map (\<lambda>r. the (shown pwd_out (fst r))) (part rs s e))) st2 st3"
    using report_errors_emits [OF emits_inv [OF st2(2)] _ se(2) msgs] se(1) by auto
  have sz: "output_size st3 = length rs" using emits_inv [OF st3(2)] by (simp add: report_inv_def)
  obtain st4 where st4: "fprintf STDOUT_HANDLER (json_end_text (e = length rs)) st3 = Inr st4"
    "emits ps rs (json_end_text (e = length rs)) st3 st4"
    using fprintf_emits [OF emits_inv [OF st3(2)]] by blast
  have "report_group pwd_out s e st = Some (Inr st4)"
    unfolding report_group_def cnt
    using vp ap line st1 st2 st3 st4 sz by (simp add: json_output_error_def json_output_error_end_def)
  moreover have "emits ps rs (json_group ps pwd_out (?t, map fst (part rs s e)) (e = length rs)) st st4"
    using emits_trans [OF emits_trans [OF emits_trans [OF st1(2) st2(2)] st3(2)] st4(2)] gi se
    by (simp add: json_group_def comp_def)
  ultimately show ?thesis by blast
qed

section \<open>The loop over the errors\<close>

lemma takeWhile_part:
  assumes "s < e" and "e \<le> length rs" and "\<forall>k. s \<le> k \<longrightarrow> k < e \<longrightarrow> snd (rs ! k) = t"
    and "e = length rs \<or> snd (rs ! e) \<noteq> t"
  shows "groups (drop s rs) = (t, map fst (part rs s e)) # groups (drop e rs)"
proof -
  have d: "drop s rs = part rs s e @ drop e rs"
    using assms(1,2) by (metis append_take_drop_id drop_drop le_add_diff_inverse2 less_imp_le_nat part_def)
  have all: "\<forall>r\<in>set (part rs s e). snd r = t"
  proof
    fix r assume "r \<in> set (part rs s e)"
    then obtain k where "k < e - s" "r = rs ! (s + k)"
      using assms(2) by (auto simp: part_def in_set_conv_nth)
    then show "snd r = t" using assms(3) by simp
  qed
  obtain m r where pr: "part rs s e = (m, t) # r"
    using part_Cons [OF assms(1,2)] assms(1,3) by (metis order_refl prod.collapse)
  have tw: "takeWhile (\<lambda>x. snd x = t) (r @ drop e rs) = r" and dw: "dropWhile (\<lambda>x. snd x = t) (r @ drop e rs) = drop e rs"
  proof -
    have r: "\<forall>x\<in>set r. snd x = t" using all pr by simp
    have "takeWhile (\<lambda>x. snd x = t) (r @ drop e rs) = r \<and>
          dropWhile (\<lambda>x. snd x = t) (r @ drop e rs) = drop e rs"
    proof (cases "e = length rs")
      case True
      then show ?thesis using r by (simp add: takeWhile_all dropWhile_all)
    next
      case False
      then have "drop e rs = rs ! e # drop (Suc e) rs" using assms(2) by (simp add: Cons_nth_drop_Suc)
      then show ?thesis
        using False assms(4) r takeWhile_append_stop [of r "\<lambda>x. snd x = t" "rs ! e" "drop (Suc e) rs"]
          dropWhile_append_stop [of r "\<lambda>x. snd x = t" "rs ! e" "drop (Suc e) rs"] by simp
    qed
    then show "takeWhile (\<lambda>x. snd x = t) (r @ drop e rs) = r"
      and "dropWhile (\<lambda>x. snd x = t) (r @ drop e rs) = drop e rs" by auto
  qed
  show ?thesis unfolding d pr by (simp add: tw dw)
qed

text \<open>Every group can be reported.\<close>

definition groups_ok :: "rbc_penalty_t slot list \<Rightarrow> string option \<Rightarrow> (EN_err_type \<times> string list) list \<Rightarrow> bool" where
  "groups_ok ps pwd_out gs \<longleftrightarrow>
     (\<forall>(t, ms)\<in>set gs. info_ok ps t (length ms) \<and> (\<forall>m\<in>set ms. msg_ok pwd_out m))"

lemma boundary_test:
  assumes "report_inv ps rs st" and "i < length rs" and "s < length rs"
  shows "rbind (deref (output_vec st)) (\<lambda>vec. rbind (out_at vec i) (\<lambda>p.
           rbind (out_at vec s) (\<lambda>q. Inr (err_type p \<noteq> err_type q)))) =
         Inr (snd (rs ! i) \<noteq> snd (rs ! s))"
proof -
  obtain vec p where p: "output_vec st = Some vec" "out_at vec i = Inr p" "err_type p = snd (rs ! i)"
    using report_inv_at [OF assms(1,2)] by metis
  obtain vec' q where q: "output_vec st = Some vec'" "out_at vec' s = Inr q" "err_type q = snd (rs ! s)"
    using report_inv_at [OF assms(1,3)] by metis
  show ?thesis using p q by simp
qed

lemma group_loop_emits:
  assumes "report_inv ps rs st" and "s < length rs" and "s \<le> i" and "i \<le> length rs"
    and "\<forall>k. s \<le> k \<longrightarrow> k < i \<longrightarrow> snd (rs ! k) = snd (rs ! s)"
    and "groups_ok ps pwd_out (groups (drop s rs))"
  shows "\<exists>st'. group_loop pwd_out [i..<Suc (length rs)] s st = Some (Inr st') \<and>
               emits ps rs (json_groups ps pwd_out (groups (drop s rs))) st st'"
  using assms
proof (induction "length rs - i" arbitrary: s i st)
  case 0
  then have i: "i = length rs" by simp
  have sz: "output_size st = length rs" using "0.prems"(1) by (simp add: report_inv_def)
  have g: "groups (drop s rs) = [(snd (rs ! s), map fst (part rs s i))]"
    using takeWhile_part [OF _ "0.prems"(4,5)] "0.prems"(2) unfolding i by simp
  obtain st' where "report_group pwd_out s i st = Some (Inr st')"
    "emits ps rs (json_group ps pwd_out (snd (rs ! s), map fst (part rs s i)) (i = length rs)) st st'"
  proof -
    have ok: "info_ok ps (snd (rs ! s)) (i - s)" "\<forall>r\<in>set (part rs s i). msg_ok pwd_out (fst r)"
      using "0.prems"(6) i unfolding g groups_ok_def by simp_all
    from report_group_emits [OF "0.prems"(1) _ "0.prems"(4) this] show thesis
      using that "0.prems"(2) i by blast
  qed
  then show ?case using i sz g by simp
next
  case (Suc n)
  then have i: "i < length rs" by simp
  have sz: "output_size st = length rs" using Suc.prems(1) by (simp add: report_inv_def)
  have upt: "[i..<Suc (length rs)] = i # [Suc i..<Suc (length rs)]" using i by (simp add: upt_conv_Cons del: upt_Suc)
  have n: "n = length rs - Suc i" using Suc.hyps(2) by simp
  show ?case
  proof (cases "snd (rs ! i) = snd (rs ! s)")
    case True
    have "\<forall>k. s \<le> k \<longrightarrow> k < Suc i \<longrightarrow> snd (rs ! k) = snd (rs ! s)"
      using Suc.prems(5) True by (metis less_Suc_eq)
    from Suc.hyps(1) [OF n Suc.prems(1,2) _ _ this Suc.prems(6)]
    have "\<exists>st'. group_loop pwd_out [Suc i..<Suc (length rs)] s st = Some (Inr st') \<and>
               emits ps rs (json_groups ps pwd_out (groups (drop s rs))) st st'"
      using i Suc.prems(3) by simp
    moreover have "group_loop pwd_out [i..<Suc (length rs)] s st = group_loop pwd_out [Suc i..<Suc (length rs)] s st"
      using boundary_test [OF Suc.prems(1) i Suc.prems(2)] True i sz unfolding upt by simp
    ultimately show ?thesis by simp
  next
    case False
    then have si: "s < i" using Suc.prems(3) by (cases "s = i") auto
    have g: "groups (drop s rs) = (snd (rs ! s), map fst (part rs s i)) # groups (drop i rs)"
      using takeWhile_part [OF si Suc.prems(4,5)] False by blast
    obtain st1 where st1: "report_group pwd_out s i st = Some (Inr st1)"
      "emits ps rs (json_group ps pwd_out (snd (rs ! s), map fst (part rs s i)) (i = length rs)) st st1"
      using report_group_emits [OF Suc.prems(1) si Suc.prems(4), of pwd_out] Suc.prems(6) g i
      by (auto simp: groups_ok_def)
    have ok: "groups_ok ps pwd_out (groups (drop i rs))" using Suc.prems(6) g by (simp add: groups_ok_def)
    have one: "\<forall>k. i \<le> k \<longrightarrow> k < Suc i \<longrightarrow> snd (rs ! k) = snd (rs ! i)" by (simp add: less_Suc_eq_le)
    obtain st2 where st2: "group_loop pwd_out [Suc i..<Suc (length rs)] i st1 = Some (Inr st2)"
      "emits ps rs (json_groups ps pwd_out (groups (drop i rs))) st1 st2"
      using Suc.hyps(1) [OF n emits_inv [OF st1(2)] i _ _ one ok] i by auto
    have ne: "groups (drop i rs) \<noteq> []"
      using i by (cases "drop i rs" rule: groups.cases) auto
    have "group_loop pwd_out [i..<Suc (length rs)] s st = Some (Inr st2)"
      using boundary_test [OF Suc.prems(1) i Suc.prems(2)] False i sz st1(1) st2(1) unfolding upt by simp
    moreover have "emits ps rs (json_groups ps pwd_out (groups (drop s rs))) st st2"
      using emits_trans [OF st1(2) st2(2)] i ne by (simp add: g)
    ultimately show ?thesis by blast
  qed
qed

section \<open>The whole report\<close>

lemma update_errors_document:
  assumes inv: "report_inv ps rs st" and lib: "libpenalty st \<noteq> None" "apply_penalty_ptr st" and ne: "rs \<noteq> []"
    and ok: "\<And>rs'. mset rs' = mset rs \<Longrightarrow> sorted (map snd rs') \<Longrightarrow> groups_ok ps pwd_out (groups rs')"
  shows "\<exists>st' rs'. update_errors pwd_out st = Some (Inr st') \<and> mset rs' = mset rs \<and> sorted (map snd rs') \<and>
           text_of st' STDOUT_HANDLER = text_of st STDOUT_HANDLER @ json_document ps pwd_out rs'"
proof -
  obtain vec ys where vec: "output_vec st = Some vec" "out_holds vec ys"
    and ys: "map report ys = map (\<lambda>(m, t). (Some m, t)) rs"
    using inv by (auto simp: report_inv_def)
  have sz: "output_size st = length rs" using inv by (simp add: report_inv_def)
  have len: "length ys = length rs" using ys by (metis length_map)
  obtain vec' zs where so: "sort_vec (length rs) vec = Inr vec'" "out_holds vec' zs" "mset zs = mset ys"
    "sorted (map err_type zs)"
    using sort_vec_sorts [OF vec(2) len] by blast
  define rs' where "rs' = map (\<lambda>p. (the (err_msg p), err_type p)) zs"
  have rep: "report p = (Some (the (err_msg p)), err_type p)" if "p \<in> set zs" for p
  proof -
    have "report p \<in> set (map (\<lambda>(m, t). (Some m, t)) rs)"
      using that so(3) ys by (metis image_eqI image_set set_mset_mset)
    then show ?thesis by (auto simp: report_def)
  qed
  have m: "mset rs' = mset rs"
  proof -
    have "mset rs' = image_mset (\<lambda>p. (the (err_msg p), err_type p)) (mset ys)"
      by (simp add: rs'_def flip: so(3))
    also have "\<dots> = mset (map (\<lambda>(m, t). (the m, t)) (map report ys))"
      by (simp add: report_def comp_def flip: mset_map)
    also have "\<dots> = mset rs" unfolding ys by (simp add: comp_def case_prod_beta)
    finally show ?thesis .
  qed
  have sorted: "sorted (map snd rs')" using so(4) by (simp add: rs'_def comp_def)
  have len': "length rs' = length rs" using m by (metis mset_eq_length)
  let ?st1 = "st\<lparr>output_vec := Some vec'\<rparr>"
  have "map report zs = map (\<lambda>(m, t). (Some m, t)) rs'"
    using rep by (simp add: rs'_def comp_def)
  then have inv1: "report_inv ps rs' ?st1"
    using inv so(2) len' by (auto simp: report_inv_def io_wf_def)
  obtain st2 where st2: "log_to ''Penalty results: '' (Some STDERR_HANDLER) ?st1 = Inr st2" "emits ps rs' [] ?st1 st2"
    using log_emits [OF inv1, of "''Penalty results: ''"] by auto
  obtain st3 where st3: "json_output_start st2 = Inr st3"
    "emits ps rs' (''{'' @ [c_lf] @ tabs 1 @ quoted ''result'' @ '':'' @ [c_lf] @ tabs 1 @ ''['' @ [c_lf]) st2 st3"
    unfolding json_output_start_def using fprintf_emits [OF emits_inv [OF st2(2)]] by blast
  have ne': "0 < length rs'" using ne len' by simp
  have sz3: "output_size st3 = length rs'" using emits_inv [OF st3(2)] by (simp add: report_inv_def)
  obtain st4 where st4: "group_loop pwd_out [0..<Suc (length rs')] 0 st3 = Some (Inr st4)"
    "emits ps rs' (json_groups ps pwd_out (groups rs')) st3 st4"
    using group_loop_emits [OF emits_inv [OF st3(2)] ne', of 0 pwd_out] ok [OF m sorted] by auto
  obtain st5 where st5: "json_output_end st4 = Inr st5"
    "emits ps rs' (tabs 1 @ '']'' @ [c_lf] @ ''}'' @ [c_lf]) st4 st5"
    unfolding json_output_end_def using fprintf_emits [OF emits_inv [OF st4(2)]] by blast
  have "update_errors pwd_out st = Some (Inr st5)"
    using lib vec(1) so(1) sz st2(1) st3(1) st4(1) st5(1) sz3
    by (auto simp: update_errors_def sort_output_vector_def simp del: upt_Suc)
  moreover have "text_of st5 STDOUT_HANDLER = text_of st STDOUT_HANDLER @ json_document ps pwd_out rs'"
    using st2(2) st3(2) st4(2) st5(2) by (simp add: emits_def json_document_def)
  ultimately show ?thesis using m sorted by blast
qed

section \<open>The groups of a sorted list\<close>

lemma sorted_takeWhile_filter:
  "sorted (t # map snd rs) \<Longrightarrow> takeWhile (\<lambda>r. snd r = t) rs = filter (\<lambda>r. snd r = t) rs"
proof (induction rs)
  case (Cons r rs)
  show ?case
  proof (cases "snd r = t")
    case True
    then show ?thesis using Cons by simp
  next
    case False
    have "\<forall>x\<in>set rs. snd x \<noteq> t" using Cons.prems False by fastforce
    then show ?thesis using False by (simp add: filter_empty_conv)
  qed
qed simp

lemma groups_sorted:
  "sorted (map snd rs) \<Longrightarrow> (t, ms) \<in> set (groups rs) \<Longrightarrow>
   t \<in> snd ` set rs \<and> ms = map fst (filter (\<lambda>r. snd r = t) rs)"
proof (induction rs rule: groups.induct)
  case (2 m t' rs)
  let ?tw = "takeWhile (\<lambda>r. snd r = t') rs" and ?dw = "dropWhile (\<lambda>r. snd r = t') rs"
  have tw: "?tw = filter (\<lambda>r. snd r = t') rs" using "2.prems"(1) by (intro sorted_takeWhile_filter) simp
  have rs: "rs = ?tw @ ?dw" by simp
  show ?case
  proof (cases "(t, ms) = (t', m # map fst ?tw)")
    case True
    then show ?thesis using tw by simp
  next
    case False
    then have mem: "(t, ms) \<in> set (groups ?dw)" using "2.prems"(2) by auto
    have "sorted (map snd rs)" using "2.prems"(1) by simp
    then have "sorted (map snd ?dw)" by (metis map_append rs sorted_append)
    then have IH: "t \<in> snd ` set ?dw" "ms = map fst (filter (\<lambda>r. snd r = t) ?dw)"
      using "2.IH" [OF _ mem] by auto
    have "filter (\<lambda>r. snd r = t') rs = filter (\<lambda>r. snd r = t') ?tw @ filter (\<lambda>r. snd r = t') ?dw"
      by (simp flip: filter_append)
    moreover have "filter (\<lambda>r. snd r = t') ?tw = ?tw" by (auto simp: filter_id_conv dest: set_takeWhileD)
    ultimately have "filter (\<lambda>r. snd r = t') ?dw = []" using tw by simp
    then have "\<forall>r\<in>set ?dw. snd r \<noteq> t'" unfolding filter_empty_conv .
    then have ne: "t \<noteq> t'" using IH(1) by blast
    have "filter (\<lambda>r. snd r = t) ?tw = []" using ne by (auto simp: filter_empty_conv dest: set_takeWhileD)
    moreover have "filter (\<lambda>r. snd r = t) rs = filter (\<lambda>r. snd r = t) ?tw @ filter (\<lambda>r. snd r = t) ?dw"
      by (simp flip: filter_append)
    ultimately have "filter (\<lambda>r. snd r = t) rs = filter (\<lambda>r. snd r = t) ?dw" by simp
    moreover have "t \<in> snd ` set rs" using IH(1) set_dropWhileD by fastforce
    ultimately show ?thesis using IH(2) ne by simp
  qed
qed simp

lemma groups_ok_sorted:
  assumes "mset rs' = mset rs" and "sorted (map snd rs')"
    and "\<forall>(m, t)\<in>set rs. msg_ok pwd_out m \<and> info_ok ps t (length (filter (\<lambda>r. snd r = t) rs))"
  shows "groups_ok ps pwd_out (groups rs')"
  unfolding groups_ok_def
proof (clarify)
  fix t ms assume "(t, ms) \<in> set (groups rs')"
  then have g: "t \<in> snd ` set rs'" "ms = map fst (filter (\<lambda>r. snd r = t) rs')"
    using groups_sorted [OF assms(2)] by auto
  have set: "set rs' = set rs" using assms(1) by (metis set_mset_mset)
  have "length ms = length (filter (\<lambda>r. snd r = t) rs)"
    using g(2) assms(1) by (metis length_map mset_filter size_mset)
  then show "info_ok ps t (length ms) \<and> (\<forall>m\<in>set ms. msg_ok pwd_out m)"
    using g set assms(3) by force
qed

section \<open>Properties\<close>

text \<open>
  C1: for collected errors whose types have a penalty and whose texts fit the buffers,
  \<open>update_errors\<close> ends and appends to standard output the JSON document of the errors, sorted by
  type and grouped, each group with the penalty for its number of errors.
\<close>

theorem update_errors_report:
  assumes "report_inv ps rs st" and "libpenalty st \<noteq> None" and "apply_penalty_ptr st" and "rs \<noteq> []"
    and "\<forall>(m, t)\<in>set rs. msg_ok pwd_out m \<and> info_ok ps t (length (filter (\<lambda>r. snd r = t) rs))"
  shows "\<exists>st' rs'. update_errors pwd_out st = Some (Inr st') \<and> mset rs' = mset rs \<and> sorted (map snd rs') \<and>
           text_of st' STDOUT_HANDLER = text_of st STDOUT_HANDLER @ json_document ps pwd_out rs'"
  using update_errors_document [OF assms(1-4)] groups_ok_sorted assms(5) by blast

definition sample_table :: "rbc_penalty_t slot list" where
  "sample_table = [Null, Ptr \<lparr>pen_type = Some RBC_FLOAT, step = INT32_MAX, pen_msg = Some ''Memory leak'',
                              err_penalty_msg = Some ''leaks'', pen_val = V_Float (Fin False 0)\<rparr>] @ replicate 18 Null"

definition sample_report :: "rbc_output list \<Rightarrow> rbc_state" where
  "sample_report xs = sample_vec xs\<lparr>pen_doc := Some sample_config, penalties := Some sample_table,
                                    libpenalty := Some (''libpenalty.so'', True), apply_penalty_ptr := True\<rparr>"

theorem update_errors_report_witness:
  "\<exists>st' rs'. update_errors (Some ''/w'') (sample_report [sample_out ''in file a.c'' ERR_MEMORY_LEAK]) = Some (Inr st') \<and>
     mset rs' = {#(''in file a.c'', ERR_MEMORY_LEAK)#} \<and> sorted (map snd rs') \<and>
     text_of st' STDOUT_HANDLER = json_document sample_table (Some ''/w'') rs'"
proof -
  let ?st = "sample_report [sample_out ''in file a.c'' ERR_MEMORY_LEAK]"
  let ?rs = "[(''in file a.c'', ERR_MEMORY_LEAK)]"
  have "out_holds (map Ptr [sample_out ''in file a.c'' ERR_MEMORY_LEAK] @ replicate 127 Uninit)
          [sample_out ''in file a.c'' ERR_MEMORY_LEAK]"
    unfolding out_holds_def by blast
  moreover have "map report [sample_out ''in file a.c'' ERR_MEMORY_LEAK] = [(Some ''in file a.c'', ERR_MEMORY_LEAK)]"
    by (simp add: report_def sample_out_def)
  ultimately have "report_inv sample_table ?rs ?st"
    unfolding report_inv_def
    by (force simp: sample_report_def sample_vec_def sample_state_def io_wf_def RBC_TAG_def)
  moreover have "msg_ok (Some ''/w'') ''in file a.c''" "info_ok sample_table ERR_MEMORY_LEAK 1"
    by code_simp+
  ultimately show ?thesis
    using update_errors_report [of sample_table ?rs ?st "Some ''/w''"]
    by (simp add: sample_report_def sample_vec_def sample_state_def)
qed

text \<open>
  C38: when the tools found no error at all, \<open>update_errors\<close> reads the first entry of the array, which
  was never written.
\<close>

theorem update_errors_without_errors:
  assumes "libpenalty st \<noteq> None" and "apply_penalty_ptr st" and "output_vec st = Some (replicate n Uninit)"
    and "0 < n" and "output_size st = 0" and "io_wf st"
    and "STDOUT_HANDLER \<notin> set (closed_streams st)" and "STDERR_HANDLER \<notin> set (closed_streams st)"
  shows "update_errors pwd_out st = Some (Inl Uninit_Read)"
proof -
  have so: "sort_output_vector st = Inr st"
    using assms(3,5) by (simp add: sort_output_vector_def sort_vec_def)
  obtain st1 where st1: "log_to ''Penalty results: '' (Some STDERR_HANDLER) st = Inr st1"
    using log_to_ok [of st "''Penalty results: ''" "Some STDERR_HANDLER"] assms(6,8) by auto
  note f1 = log_to_frame(1) [OF st1]
  obtain st2 where st2: "json_output_start st1 = Inr st2"
    using f1 assms(7) by (auto simp: json_output_start_def fprintf_def same_but_log_def)
  have "same_but_log st st2"
    using f1 fprintf_frame st2 same_but_log_trans unfolding json_output_start_def by blast
  then have "output_vec st2 = Some (replicate n Uninit)" "output_size st2 = 0"
    using more_fields [of st2 st] assms(3,5) by (auto simp: same_but_log_def)
  then have "group_loop pwd_out [0..<Suc (output_size st2)] 0 st2 = Some (Inl Uninit_Read)"
    using assms(4) by (simp add: report_group_def out_at_def out_slot_def)
  then show ?thesis
    using assms(1-3) so st1 st2 by (auto simp: update_errors_def simp del: upt_Suc)
qed

theorem update_errors_without_errors_witness:
  "update_errors (Some ''/w'') (sample_report []) = Some (Inl Uninit_Read)"
  by (rule update_errors_without_errors [where n = 128])
     (simp_all add: sample_report_def sample_vec_def sample_state_def io_wf_def RBC_TAG_def)

end
