(* ===== verification/Module_Api.thy ===== *)
theory Module_Api
  imports Rbc_Input
begin

text \<open>
  The contract between the driver and a tool module: lib/tool.h declares the function \<open>run_tool\<close> that
  every module defines and the driver looks up with \<open>dlsym\<close>. A module reports only errors of the
  types it was asked for, returns a list whose head counts it, and does not touch the state of the
  driver except for the log.
\<close>

section \<open>The interface of a tool module\<close>

locale rbc_module =
  fixes run_tool :: "rbc_input option \<Rightarrow> rbc_errset_t \<Rightarrow> rbc_state \<Rightarrow> (rbc_output list \<times> rbc_state) res"
  assumes only_enabled:
      "errset_wf flags \<Longrightarrow> run_tool inp flags st = Inr (out, st') \<Longrightarrow> p \<in> set out \<Longrightarrow> isset (err_type p) flags"
    and head_counts: "run_tool inp flags st = Inr (out, st') \<Longrightarrow> out \<noteq> [] \<Longrightarrow> \<exists>n > 0. out_size (hd out) = Some n"
    and keeps_state: "run_tool inp flags st = Inr (out, st') \<Longrightarrow> same_but_log st st'"
begin

lemma enabled_code:
  "errset_wf flags \<Longrightarrow> run_tool inp flags st = Inr (out, st') \<Longrightarrow> p \<in> set out \<Longrightarrow>
   int (err_code (err_type p)) \<in> es.members flags"
  using only_enabled isset_members by blast

end

end
