(* ===== verification/Robocheck_Facts.thy ===== *)
theory Robocheck_Facts
  imports Robocheck Report_Facts Module_Api
begin

text \<open>
  What the driver guarantees. A tool module is an implementation of the interface \<open>rbc_module\<close>: it
  reports only errors of the types it was asked for, returns a list whose head counts it, and does
  not touch the state of the driver except for the log. From that interface alone follows that
  everything the driver collects was enabled in the configuration.
\<close>

section \<open>What the steps of the driver keep\<close>

text \<open>The document and the collected errors.\<close>

definition keeps :: "rbc_state \<Rightarrow> rbc_state \<Rightarrow> bool" where
  "keeps st st' \<longleftrightarrow> root st' = root st \<and> output_vec st' = output_vec st \<and> output_size st' = output_size st \<and>
                  FileLogger st' = FileLogger st \<and> closed_streams st' = closed_streams st"

lemma keeps_refl [simp]: "keeps st st"
  by (simp add: keeps_def)

lemma keeps_trans: "keeps a b \<Longrightarrow> keeps b c \<Longrightarrow> keeps a c"
  by (simp add: keeps_def)

lemma keeps_same_but_log: "same_but_log st st' \<Longrightarrow> keeps st st'"
  using more_fields [of st' st] by (simp add: keeps_def same_but_log_def)

lemma keeps_log: "log_to m f st = Inr st' \<Longrightarrow> keeps st st'"
  using log_to_frame(1) keeps_same_but_log by blast

lemma keeps_alloc: "alloc st = (ok, st') \<Longrightarrow> keeps st st'"
  by (auto simp: alloc_def keeps_def split: list.splits)

lemma keeps_fprintf: "fprintf f s st = Inr st' \<Longrightarrow> keeps st st'"
  using fprintf_frame keeps_same_but_log by blast

lemmas keeps_steps = keeps_log keeps_alloc keeps_fprintf

lemma keeps_set_running_module: "set_running_module l st = Inr st' \<Longrightarrow> keeps st st'"
proof (cases "alloc st")
  case (Pair ok st1)
  assume "set_running_module l st = Inr st'"
  then show ?thesis
    using keeps_alloc [OF Pair] Pair
    by (auto simp: set_running_module_def keeps_def elim!: rbindE split: option.splits if_splits)
qed

lemma keeps_extract_tool_errset: "extract_tool_errset d n st = Inr (es, st') \<Longrightarrow> keeps st st'"
  by (auto simp: extract_tool_errset_def elim!: rbindE split: option.splits if_splits prod.splits dest: keeps_log)

lemma keeps_finish_module: "finish_module l out st = Inr (out', st') \<Longrightarrow> keeps st st' \<and> out' = out"
  by (auto simp: finish_module_def elim!: rbindE split: if_splits dest: keeps_log)

lemma keeps_extract_tool_input: "extract_tool_input n t st = Inr (inp, st') \<Longrightarrow> keeps st st'"
proof -
  assume a: "extract_tool_input n t st = Inr (inp, st')"
  obtain ok st1 where st1: "alloc st = (ok, st1)" by force
  obtain ok2 st2 where st2: "alloc st1 = (ok2, st2)" by force
  have k: "keeps st st1" "keeps st1 st2" using keeps_alloc st1 st2 by blast+
  then have k2: "keeps st st2" by (rule keeps_trans)
  show ?thesis
    using a k k2 st1 st2
    by (auto simp: extract_tool_input_def Let_def elim!: rbindE split: if_splits prod.splits
        dest!: keeps_log intro: keeps_trans)
qed

section \<open>Only enabled errors are collected\<close>

definition all_entries :: "(EN_err_type \<Rightarrow> bool) \<Rightarrow> rbc_state \<Rightarrow> bool" where
  "all_entries P st \<longleftrightarrow> (\<forall>vec p. output_vec st = Some vec \<longrightarrow> Ptr p \<in> set vec \<longrightarrow> P (err_type p))"

lemma all_entries_keeps: "keeps st st' \<Longrightarrow> all_entries P st' \<longleftrightarrow> all_entries P st"
  by (simp add: all_entries_def keeps_def)

lemma set_resize: "Ptr p \<in> set (resize n vec) \<Longrightarrow> Ptr p \<in> set vec"
  by (auto simp: resize_def dest: in_set_takeD)

lemma out_grow_entries:
  assumes "out_grow st = Inr (go, st')" and "all_entries P st"
  shows "all_entries P st' \<and> root st' = root st"
proof (cases "(output_size st + 1) mod ALLOC_INC = 0")
  case True
  let ?st = "st\<lparr>output_inc_count := output_inc_count st + 1\<rparr>"
  obtain ok st1 where st1: "alloc ?st = (ok, st1)" by force
  then have k: "root st1 = root st" "output_vec st1 = output_vec st"
    using keeps_alloc [OF st1] by (simp_all add: keeps_def)
  show ?thesis
  proof (cases ok)
    case True
    then obtain vec where "output_vec st = Some vec"
      "st' = st1\<lparr>output_vec := Some (resize (output_inc_count st + 1) vec)\<rparr>"
      using assms(1) st1 k unfolding out_grow_def if_P [OF \<open>(output_size st + 1) mod ALLOC_INC = 0\<close>] Let_def
      by (cases "output_vec st") simp_all
    moreover have "P (err_type p)" if "Ptr p \<in> set (resize m vec)" for p m
      using set_resize [OF that] assms(2) \<open>output_vec st = Some vec\<close> unfolding all_entries_def by blast
    ultimately show ?thesis
      using k(1) by (simp add: all_entries_def)
  next
    case False
    then obtain st2 where "log_to NOMEM_ERR (Some STDERR_HANDLER) (st1\<lparr>output_vec := None\<rparr>) = Inr st2" "st' = st2"
      using assms(1) st1 \<open>(output_size st + 1) mod ALLOC_INC = 0\<close> by (auto simp: out_grow_def elim!: rbindE)
    then have "keeps (st1\<lparr>output_vec := None\<rparr>) st'" using keeps_log by blast
    then show ?thesis using k by (simp add: keeps_def all_entries_def)
  qed
next
  case False
  then show ?thesis using assms by (simp add: out_grow_def)
qed

lemma dup_rbc_output_entries:
  assumes "dup_rbc_output (Some x) st = Inr (s, st')"
  shows "keeps st st' \<and> (\<forall>p. s = Ptr p \<longrightarrow> err_type p = err_type x)"
proof -
  obtain ok st1 where st1: "alloc st = (ok, st1)" by force
  show ?thesis
    using assms keeps_alloc [OF st1] st1
    by (auto simp: dup_rbc_output_def elim!: rbindE split: if_splits dest!: keeps_log intro: keeps_trans)
qed

lemma out_write_entries:
  "out_write i s st = Inr st' \<Longrightarrow> all_entries P st \<Longrightarrow> (\<forall>p. s = Ptr p \<longrightarrow> P (err_type p)) \<Longrightarrow>
   all_entries P st' \<and> root st' = root st"
  by (auto simp: out_write_def all_entries_def elim!: rbindE split: if_splits dest!: set_update_subset_insert [THEN subsetD])

lemma add_loop_entries:
  "add_loop xs st = Inr st' \<Longrightarrow> all_entries P st \<Longrightarrow> \<forall>x\<in>set xs. P (err_type x) \<Longrightarrow>
   all_entries P st' \<and> root st' = root st"
proof (induction xs arbitrary: st)
  case (Cons x xs)
  obtain go st1 where g: "out_grow st = Inr (go, st1)"
    using Cons.prems(1) by (auto elim!: rbindE)
  note e1 = out_grow_entries [OF g Cons.prems(2)]
  show ?case
  proof (cases go)
    case False
    then show ?thesis using Cons.prems(1) g e1 by simp
  next
    case True
    then obtain d where d: "check_for_duplicates x st1 = Inr d"
      using Cons.prems(1) g by (auto elim!: rbindE)
    show ?thesis
    proof (cases d)
      case True
      then show ?thesis using Cons.IH [of st1] Cons.prems g \<open>go\<close> d e1 by simp
    next
      case False
      then obtain s st2 st3 where st2: "dup_rbc_output (Some x) st1 = Inr (s, st2)"
        and st3: "out_write (output_size st2) s st2 = Inr st3"
        and rest: "add_loop xs (st3\<lparr>output_size := output_size st3 + 1\<rparr>) = Inr st'"
        using Cons.prems(1) g \<open>go\<close> d by (auto elim!: rbindE)
      have d2: "keeps st1 st2" "\<forall>p. s = Ptr p \<longrightarrow> P (err_type p)"
        using dup_rbc_output_entries [OF st2] Cons.prems(3) by auto
      then have "all_entries P st3 \<and> root st3 = root st2"
        using out_write_entries [OF st3] e1 all_entries_keeps by blast
      moreover have "root st2 = root st" using d2(1) e1 by (simp add: keeps_def)
      moreover have "all_entries P (st3\<lparr>output_size := n\<rparr>) \<longleftrightarrow> all_entries P st3" for n
        by (simp add: all_entries_def)
      ultimately show ?thesis using Cons.IH [OF rest] Cons.prems(3) by simp
    qed
  qed
qed simp

lemma add_range_entries:
  assumes "add_range xs st = Inr st'" and "all_entries P st" and "\<forall>x\<in>set xs. P (err_type x)"
  shows "all_entries P st' \<and> root st' = root st"
proof -
  obtain go st1 where st1: "all_entries P st1" "root st1 = root st"
    and rest: "(if \<not> go then Inr st1 else case xs of [] \<Rightarrow> Inr st1
                | h # _ \<Rightarrow> rbind (read_var (out_size h)) (\<lambda>n. if n > 0 then add_loop xs st1 else Inr st1)) = Inr st'"
  proof (cases "output_vec st = None")
    case True
    obtain ok st1 where a: "alloc st = (ok, st1)" by force
    show thesis
    proof (cases ok)
      case True
      show thesis
        by (rule that [of "st1\<lparr>output_vec := Some (replicate 128 Uninit), output_inc_count := Suc 0\<rparr>" True])
           (use assms(1) a True \<open>output_vec st = None\<close> keeps_alloc [OF a] in
             \<open>auto simp: all_entries_def add_range_def keeps_def\<close>)
    next
      case False
      then obtain st2 where st2: "log_to NOMEM_ERR (Some STDERR_HANDLER) st1 = Inr st2" "st' = st2"
        using assms(1) a \<open>output_vec st = None\<close> by (auto simp: add_range_def elim!: rbindE)
      have k: "keeps st st2" using keeps_trans [OF keeps_alloc [OF a] keeps_log [OF st2(1)]] .
      have "all_entries P st2" using assms(2) all_entries_keeps [OF k] by blast
      moreover have "root st2 = root st" using k by (simp add: keeps_def)
      ultimately show thesis using that [of st2 False] st2(2) by simp
    qed
  next
    case False
    then show thesis using that [of st True] assms(1,2) by (auto simp: add_range_def)
  qed
  show ?thesis
    using rest st1 add_loop_entries [OF _ st1(1) assms(3)]
    by (auto split: if_splits list.splits elim!: rbindE)
qed

text \<open>The error set the configuration gives to a tool.\<close>

definition tool_errset :: "rbc_xml_doc \<Rightarrow> string \<Rightarrow> rbc_errset_t res" where
  "tool_errset doc name =
     (let tool_node = lookup_node doc (doc_children doc) (tag_path [''installed_tools'', name, ''errors''])
      in if tool_node = None then Inr RESET
         else errset_loop (nat (atoi_or_0 (get_node_property doc tool_node ''err_count''))) doc
                (get_next_node doc (get_child doc tool_node)) RESET)"

lemma extract_tool_errset_tool:
  assumes "root st = Some doc" and "extract_tool_errset (root st) (Some name) st = Inr (r, st')"
  shows "\<exists>es. r = Some es \<and> tool_errset doc name = Inr es"
  using assms
  by (auto simp: extract_tool_errset_def tool_errset_def root_lookup_def Let_def elim!: rbindE
      split: if_splits)

lemma errset_loop_wf: "errset_loop n doc node es = Inr es' \<Longrightarrow> errset_wf es \<Longrightarrow> errset_wf es'"
  unfolding errset_loop_ids by (rule rfold_invariant [where P = errset_wf]) (auto dest: errset_wf_ops)

lemma tool_errset_wf: "tool_errset doc name = Inr es \<Longrightarrow> errset_wf es"
  using errset_loop_wf es.reset_inv by (auto simp: tool_errset_def Let_def split: if_splits)

definition enabled :: "rbc_xml_doc \<Rightarrow> EN_err_type \<Rightarrow> bool" where
  "enabled doc e \<longleftrightarrow> (\<exists>name es. tool_errset doc name = Inr es \<and> isset e es)"

lemma run_library_enabled:
  assumes mods: "\<And>lib. rbc_module (dl_tool env lib)" and wf: "errset_wf flags"
    and run: "run_library env inp flags l tool_name f st = Inr (out, st')"
  shows "keeps st st' \<and> (\<forall>p\<in>set out. isset (err_type p) flags)"
proof (cases "dl_open env l")
  case (Some err)
  then obtain st2 st3 where "log_to err (Some STDERR_HANDLER) st = Inr st2"
    "fprintf STDERR_HANDLER (''Failed loading module '' @ l @ ''.'' @ [c_lf]) st2 = Inr st3"
    "finish_module l [] st3 = Inr (out, st')"
    using run by (auto simp: run_library_def elim!: rbindE)
  then show ?thesis
    using keeps_trans [OF keeps_log keeps_trans [OF keeps_fprintf]] keeps_finish_module by fastforce
next
  case None
  obtain ok st2 where a: "alloc st = (ok, st2)" by force
  let ?st3 = "st2\<lparr>lib_handlers := lib_handlers st2 @ [(l, True)]\<rparr>"
  have ok: ok using run None a by (simp add: run_library_def split: if_splits)
  have k3: "keeps st ?st3" using keeps_alloc [OF a] by (simp add: keeps_def)
  show ?thesis
  proof (cases "dl_sym env l f")
    case (Some err)
    then obtain st4 st5 where "log_to err (Some STDERR_HANDLER) ?st3 = Inr st4"
      "fprintf STDERR_HANDLER (''Failed loading symbol '' @ f @ '' from module '' @ l @ ''.'' @ [c_lf]) st4 = Inr st5"
      "finish_module l [] st5 = Inr (out, st')"
      using run None a ok by (auto simp: run_library_def elim!: rbindE)
    then show ?thesis
      using keeps_trans [OF k3 keeps_trans [OF keeps_log keeps_trans [OF keeps_fprintf]]] keeps_finish_module
      by fastforce
  next
    case None
    then obtain st4 o5 st5 where st4: "set_running_module (Some tool_name) ?st3 = Inr st4"
      and st5: "dl_tool env l inp flags st4 = Inr (o5, st5)"
      and fin: "finish_module l o5 (set_robocheck_module st5) = Inr (out, st')"
      using run \<open>dl_open env l = None\<close> a ok by (auto simp: run_library_def elim!: rbindE)
    have k: "keeps st5 (set_robocheck_module st5)" by (simp add: keeps_def set_robocheck_module_def)
    have k5: "keeps st4 st5" using rbc_module.keeps_state [OF mods st5] keeps_same_but_log by blast
    have o: "out = o5" "keeps (set_robocheck_module st5) st'" using keeps_finish_module [OF fin] by auto
    have "keeps st st'"
      using k3 keeps_set_running_module [OF st4] k5 k o(2) keeps_trans by blast
    moreover have "\<forall>p\<in>set out. isset (err_type p) flags"
      using rbc_module.only_enabled [OF mods wf st5] o(1) by blast
    ultimately show ?thesis by blast
  qed
qed

lemma load_module_enabled:
  assumes mods: "\<And>lib. rbc_module (dl_tool env lib)" and wf: "errset_wf flags"
    and run: "load_module env inp flags lib f st = Inr (out, st')"
  shows "keeps st st' \<and> (\<forall>p\<in>set out. isset (err_type p) flags)"
proof -
  from run obtain l tool_name buff st1 where "log_to buff (Some STDERR_HANDLER) st = Inr st1"
    "run_library env inp flags l tool_name f st1 = Inr (out, st')"
    by (auto simp: load_module_def Let_def elim!: rbindE)
  then show ?thesis
    using run_library_enabled [OF mods wf] keeps_log keeps_trans by blast
qed

lemma run_one_entries:
  assumes mods: "\<And>lib. rbc_module (dl_tool env lib)" and root: "root st = Some doc"
    and run: "run_one env doc node st = Inr (Some st')" and ent: "all_entries (enabled doc) st"
  shows "all_entries (enabled doc) st' \<and> root st' = Some doc"
proof -
  from run obtain name es st1 flags inp st2 out st3 lp t where
    e: "extract_tool_errset (root st) (Some name) st = Inr (es, st1)" and fl: "es = Some flags"
    and i: "extract_tool_input name t st1 = Inr (inp, st2)"
    and l: "load_module env inp flags lp ''run_tool'' st2 = Inr (out, st3)"
    and a: "add_range out st3 = Inr st'"
    by (auto simp: run_one_def Let_def elim!: rbindE split: option.splits if_splits prod.splits)
  have te: "tool_errset doc name = Inr flags" using extract_tool_errset_tool [OF root e] fl by simp
  have lm: "keeps st2 st3" "\<forall>p\<in>set out. isset (err_type p) flags"
    using load_module_enabled [OF mods tool_errset_wf [OF te] l] by auto
  have k: "keeps st st3"
    using keeps_extract_tool_errset [OF e] keeps_extract_tool_input [OF i] lm(1) keeps_trans by blast
  then have "all_entries (enabled doc) st3" using ent all_entries_keeps by blast
  moreover have "root st3 = Some doc" using k root by (simp add: keeps_def)
  moreover have "\<forall>x\<in>set out. enabled doc (err_type x)" using lm(2) te by (auto simp: enabled_def)
  ultimately show ?thesis using add_range_entries [OF a] by simp
qed

lemma run_loop_entries:
  assumes "\<And>lib. rbc_module (dl_tool env lib)"
  shows "root st = Some doc \<Longrightarrow> run_loop env n doc node st = Inr st' \<Longrightarrow> all_entries (enabled doc) st \<Longrightarrow>
         all_entries (enabled doc) st'"
proof (induction n arbitrary: node st)
  case (Suc n)
  then obtain r where r: "run_one env doc node st = Inr r" by (auto elim!: rbindE)
  show ?case
  proof (cases r)
    case None
    then show ?thesis using Suc r by simp
  next
    case (Some st1)
    then show ?thesis
      using Suc.IH [of st1 "get_next_node doc node"] Suc.prems r run_one_entries [OF assms, of st doc node st1] by simp
  qed
qed simp

lemma run_tools_enabled:
  assumes "\<And>lib. rbc_module (dl_tool env lib)" and "root st = Some doc" and "output_vec st = None"
    and "run_tools env st = Inr (go, st')"
  shows "all_entries (enabled doc) st'"
proof -
  have e: "all_entries (enabled doc) st" using assms(3) by (simp add: all_entries_def)
  show ?thesis
    using assms(2,4) e run_loop_entries [OF assms(1,2)]
    by (auto simp: run_tools_def root_lookup_def elim!: rbindE split: if_splits
        dest!: keeps_log simp: all_entries_keeps)
qed

section \<open>A tool that is not installed\<close>

lemma run_loop_stuck: "run_one env doc node st = Inr None \<Longrightarrow> run_loop env n doc node st = Inr st"
  by (induction n) simp_all

section \<open>Closing\<close>

lemma close_libpenalty_logger: "close_libpenalty env st = Inr st' \<Longrightarrow> FileLogger st' = FileLogger st"
  by (auto simp: close_libpenalty_def free_penalties_def elim!: rbindE split: option.splits if_splits
      dest!: keeps_log simp: keeps_def)

lemma log_to_closed: "FileLogger st = Some f \<Longrightarrow> f \<in> set (closed_streams st) \<Longrightarrow> \<not> res_ok (log_to m None st)"
proof
  assume f: "FileLogger st = Some f" "f \<in> set (closed_streams st)" and ok: "res_ok (log_to m None st)"
  then obtain st1 where st1: "create_log_message (Some m) st = Inr st1"
    by (auto simp: log_to_def log_message_def res_ok_iff elim!: rbindE)
  have "FileLogger st1 = Some f" "f \<in> set (closed_streams st1)"
    using create_log_message_frame [OF st1] f by (simp_all add: same_but_log_def)
  then show False using ok st1 by (simp add: log_to_def log_message_def fprintf_def)
qed

lemma close_robocheck_internal:
  assumes "is_internal_stream (FileLogger st)"
  shows "\<not> res_ok (close_robocheck env st)"
proof
  assume "res_ok (close_robocheck env st)"
  then obtain st1 st2 where st1: "close_libpenalty env st = Inr st1"
    and st2: "(case FileLogger st1 of Some f \<Rightarrow> if is_internal_stream (Some f) then fclose f st1 else Inr st1
               | None \<Rightarrow> Inr st1) = Inr st2"
    and lg: "res_ok (log_to ''Freed static and dinamic input'' None st2)"
    by (auto simp: close_robocheck_def res_ok_iff simp del: is_internal_stream.simps elim!: rbindE split: if_splits)
  obtain f where f: "FileLogger st = Some f" using assms by (cases "FileLogger st") auto
  then have "FileLogger st1 = Some f" using close_libpenalty_logger [OF st1] by simp
  then have "fclose f st1 = Inr st2" using st2 assms f by (simp del: is_internal_stream.simps)
  then have "FileLogger st2 = Some f" "f \<in> set (closed_streams st2)"
    using \<open>FileLogger st1 = Some f\<close> by (auto simp: fclose_def split: if_splits)
  then show False using log_to_closed lg by blast
qed

section \<open>Properties\<close>

text \<open>
  C15: with modules that keep to their interface, every error the driver collects has a type that
  the configuration enables for some installed tool.
\<close>

theorem only_enabled_errors_collected:
  assumes "\<forall>lib. rbc_module (dl_tool env lib)" and "root st = Some doc" and "output_vec st = None"
    and "run_tools env st = Inr (go, st')" and "output_vec st' = Some vec" and "Ptr p \<in> set vec"
  shows "\<exists>name es. tool_errset doc name = Inr es \<and> isset (err_type p) es"
  using run_tools_enabled [of env st doc go st'] assms by (auto simp: all_entries_def enabled_def)

text \<open>A module that reports one error of each type it is asked for among two.\<close>

definition sample_tool ::
  "rbc_input option \<Rightarrow> rbc_errset_t \<Rightarrow> rbc_state \<Rightarrow> (rbc_output list \<times> rbc_state) res" where
  "sample_tool inp flags st =
     Inr (if isset ERR_DUPLICATE_CODE flags then [sample_out ''in file a.c'' ERR_DUPLICATE_CODE] else [], st)"

lemma sample_tool_module: "rbc_module sample_tool"
  by unfold_locales (auto simp: sample_tool_def sample_out_def split: if_splits)

definition sample_env :: rbc_env where
  "sample_env = \<lparr>xml_parse = (\<lambda>_. None), dl_open = (\<lambda>_. None), dl_sym = (\<lambda>_ _. None),
                 dl_tool = (\<lambda>_. sample_tool), pwd_text = Some ''/w''\<rparr>"

text \<open>The first entry the driver collects, if the run of the tools ends.\<close>

definition first_collected :: "(bool \<times> rbc_state) res \<Rightarrow> rbc_output option" where
  "first_collected r =
     (case r of Inr (go, st') \<Rightarrow> (case output_vec st' of Some (Ptr p # _) \<Rightarrow> Some p | _ \<Rightarrow> None) | Inl u \<Rightarrow> None)"

theorem only_enabled_errors_collected_witness:
  "\<exists>name es. tool_errset sample_config name = Inr es \<and> isset ERR_DUPLICATE_CODE es"
proof -
  have "map_option err_type (first_collected (run_tools sample_env sample_state)) = Some ERR_DUPLICATE_CODE"
    by code_simp
  then obtain go st' p vec where "run_tools sample_env sample_state = Inr (go, st')"
    "output_vec st' = Some (Ptr p # vec)" "err_type p = ERR_DUPLICATE_CODE"
    by (auto simp: first_collected_def split: sum.splits option.splits list.splits slot.splits)
  then show ?thesis
    using only_enabled_errors_collected [of sample_env sample_state sample_config go st' "Ptr p # vec" p] sample_tool_module
    by (simp add: sample_env_def sample_state_def)
qed

text \<open>
  When a tool of the \<open>tools\<close> element is not installed, \<open>current_tool_node\<close> is not moved on, so no
  later tool is run either: the rest of the loop changes nothing.
\<close>

theorem missing_tool_ends_run:
  assumes "root st = Some doc" and "get_node_property doc node ''value'' = Some name"
    and "lookup_node doc (doc_children doc) (tag_path [''installed_tools'', name]) = None"
  shows "run_loop env n doc node st = Inr st"
  using assms by (intro run_loop_stuck) (simp add: run_one_def root_lookup_def del: lookup_node.simps)

definition missing_config :: rbc_xml_doc where
  "missing_config =
     [selem ''appSettings'' []
        [selem ''init'' []
           [selem ''tools'' [sattr ''count'' ''2'']
              [selem ''add'' [sattr ''value'' ''lint''] [], selem ''add'' [sattr ''value'' ''simian''] []]],
         selem ''installed_tools'' [sattr ''count'' ''1'']
           [selem ''simian'' [sattr ''lib_path'' ''./libsimian.so'', sattr ''type'' ''static''] []]]]"

theorem missing_tool_ends_run_witness:
  "run_loop sample_env 2 missing_config (Some [1, 1, 1, 0]) (sample_state\<lparr>root := Some missing_config\<rparr>) =
   Inr (sample_state\<lparr>root := Some missing_config\<rparr>)"
proof (rule missing_tool_ends_run)
  show "get_node_property missing_config (Some [1, 1, 1, 0]) ''value'' = Some ''lint''" by code_simp
  show "lookup_node missing_config (doc_children missing_config) (tag_path [''installed_tools'', ''lint'']) = None"
    by code_simp
qed simp

text \<open>
  \<open>close_robocheck\<close> closes the log stream only when it is one of the standard streams, and then
  logs to it: with a standard stream as logger, which is what \<open>main\<close> passes, it never ends well.
\<close>

theorem close_robocheck_uses_closed_stream:
  assumes "is_internal_stream (FileLogger st)"
  shows "\<not> res_ok (close_robocheck env st)"
  using assms by (rule close_robocheck_internal)

theorem close_robocheck_uses_closed_stream_witness:
  "\<not> res_ok (close_robocheck sample_env sample_state)"
  by (rule close_robocheck_uses_closed_stream) (simp add: sample_state_def)

text \<open>Without a configuration file, \<open>main\<close> dereferences the NULL document when it runs the tools.\<close>

theorem main_without_config:
  assumes "xml_parse env ''rbc_config.xml'' = None" and "\<forall>n. \<exists>t. ck n = Some t \<and> t \<noteq> [] \<and> length t \<le> 64"
  shows "main_run env (start_state ck []) = Some (Inl Null_Deref)"
proof -
  let ?s0 = "start_state ck []\<lparr>FileLogger := Some STDERR_HANDLER, OutputStream := Some STDOUT_HANDLER, root := None\<rparr>"
  have "io_wf ?s0" using assms(2) by (simp add: io_wf_def start_state_def)
  moreover have cl: "closed_streams ?s0 = []" "root ?s0 = None" by (simp_all add: start_state_def)
  ultimately obtain s1 where s1: "log_to (''Error opening config file.'' @ [c_lf]) None ?s0 = Inr s1"
    using log_to_ok [of ?s0 "''Error opening config file.'' @ [c_lf]" None] by auto
  let ?s1 = "set_robocheck_module s1"
  have f1: "same_but_log ?s0 s1" by (rule log_to_frame(1) [OF s1])
  have k1: "closed_streams ?s1 = []" "root ?s1 = None" "io_wf ?s1"
    using f1 keeps_same_but_log [OF f1] cl assms(2)
    by (auto simp: keeps_def set_robocheck_module_def io_wf_def same_but_log_def RBC_TAG_def start_state_def)
  obtain s2 where s2: "log_to ''Attempting to load penalty module'' (Some STDERR_HANDLER) ?s1 = Inr s2"
    using log_to_ok [of ?s1 "''Attempting to load penalty module''" "Some STDERR_HANDLER"] k1 by auto
  have f2: "same_but_log ?s1 s2" by (rule log_to_frame(1) [OF s2])
  have k2: "closed_streams s2 = []" "root s2 = None" "io_wf s2"
    using f2 keeps_same_but_log [OF f2] k1 io_wf_same_but_log [OF f2] by (auto simp: keeps_def)
  obtain s3 where s3: "log_to ''Penalty module not loaded.'' (Some STDERR_HANDLER) s2 = Inr s3"
    using log_to_ok [of s2 "''Penalty module not loaded.''" "Some STDERR_HANDLER"] k2 by auto
  have "root s3 = None" using keeps_log [OF s3] k2 by (simp add: keeps_def)
  moreover have "init_robocheck env (Some STDERR_HANDLER) (Some STDOUT_HANDLER) (start_state ck []) = Inr (0, s3)"
    using assms(1) s1 s2 s3 k1(2) by (simp add: init_robocheck_def read_startup_info_def load_libpenalty_def check_libpenalty_def)
  ultimately show ?thesis
    by (simp add: main_run_def run_robocheck_def run_tools_def root_lookup_def)
qed

theorem main_without_config_witness:
  "main_run sample_env (start_state (\<lambda>_. Some ''01-06-2013 10:00:00 - '') []) = Some (Inl Null_Deref)"
  by (rule main_without_config) (simp_all add: sample_env_def)

end
