(* ===== verification/Mod_Common.thy ===== *)
theory Mod_Common
  imports Module_Api
begin

text \<open>
  What the tool modules share: the environment they read (the output of the commands they start and
  the files they open), reading a file line by line, and the parts of \<open>run_tool\<close> that all of them
  have: the command line, formatted input and the list of the sources. Every access that the C code
  does not check is visible: an argument or source that is NULL, a count larger than its array, a
  command longer than its buffer.
\<close>

section \<open>Environment\<close>

text \<open>
  What a module reads depends on the commands that were run before: \<open>cmd_out h c\<close> is the output of
  the command \<open>c\<close> started with \<open>popen\<close> after the commands \<open>h\<close>, \<open>None\<close> when it cannot be started;
  \<open>file_text h n\<close> is the contents of the file \<open>n\<close> after the commands \<open>h\<close>; \<open>fuser_out\<close> are the answers
  of the polls until a file is no longer in use.
\<close>

record tool_env =
  cmd_out :: "string list \<Rightarrow> string \<Rightarrow> string option"
  file_text :: "string list \<Rightarrow> string \<Rightarrow> string option"
  fuser_out :: "string list"

definition LINE_MAX :: nat where "LINE_MAX = 512"

definition SPACE :: string where "SPACE = '' ''"

section \<open>Lines\<close>

text \<open>\<open>memset(line, 0, n); fgets(line, n, f)\<close>: an empty line when nothing is read.\<close>

definition read_line :: "nat \<Rightarrow> cfile \<Rightarrow> string \<times> cfile" where
  "read_line n f = (case fgets n f of (None, f') \<Rightarrow> ([], f') | (Some l, f') \<Rightarrow> (l, f'))"

text \<open>What is left of a file for a loop \<open>while (!feof(f))\<close>.\<close>

definition feof_left :: "cfile \<Rightarrow> nat" where
  "feof_left f = (if f_eof f then 0 else Suc (length (f_rest f)))"

lemma LINE_MAX_512 [simp]: "LINE_MAX = 512"
  by (simp add: LINE_MAX_def)

lemma read_line_feof_left:
  assumes "\<not> f_eof f" and "2 \<le> n"
  shows "feof_left (snd (read_line n f)) < feof_left f"
proof (cases "fgets n f")
  case (Pair l f')
  show ?thesis
  proof (cases l)
    case None
    then have "f_rest f = []" using fgets_None_iff [of n f] Pair by simp
    then have "f_eof f'" using Pair by (auto simp: fgets_def)
    then show ?thesis using assms(1) None Pair by (simp add: read_line_def feof_left_def)
  next
    case (Some t)
    then show ?thesis
      using fgets_progress [of n f t f'] assms Pair by (simp add: read_line_def feof_left_def)
  qed
qed

lemma read_line_decreases:
  "(l, f') = read_line n f \<Longrightarrow> \<not> f_eof f \<Longrightarrow> 2 \<le> n \<Longrightarrow> feof_left f' < feof_left f"
  using read_line_feof_left [of f n] by (metis snd_conv)

section \<open>The command line\<close>

text \<open>Appending to a buffer of \<open>n\<close> characters.\<close>

definition strcat :: "nat \<Rightarrow> string \<Rightarrow> string \<Rightarrow> string res" where
  "strcat n buf s = store n (buf @ s)"

definition strcat_all :: "nat \<Rightarrow> string \<Rightarrow> string list \<Rightarrow> string res" where
  "strcat_all n buf ss = rfold (\<lambda>s b. strcat n b s) ss buf"

text \<open>The loop over an array of strings; \<open>form\<close> are the pieces appended for one of them.\<close>

fun cat_args :: "nat \<Rightarrow> (string \<Rightarrow> string list) \<Rightarrow> nat \<Rightarrow> string option list \<Rightarrow> string \<Rightarrow> string res" where
  "cat_args n form 0 as cmd = Inr cmd"
| "cat_args n form (Suc k) [] cmd = Inl Out_Of_Bounds"
| "cat_args n form (Suc k) (None # as) cmd = Inl Null_Deref"
| "cat_args n form (Suc k) (Some a # as) cmd = rbind (strcat_all n cmd (form a)) (cat_args n form k as)"

text \<open>The loop over \<open>tool_args\<close>.\<close>

definition add_args :: "nat \<Rightarrow> (string \<Rightarrow> string list) \<Rightarrow> rbc_input \<Rightarrow> string \<Rightarrow> string res" where
  "add_args n form inp cmd =
     rbind (read_var (args_count inp)) (\<lambda>k.
       if k \<le> 0 then Inr cmd
       else rbind (deref_slot (tool_args inp)) (\<lambda>as. cat_args n form (nat k) as cmd))"

text \<open>The loop over the files of a static tool.\<close>

definition add_files :: "nat \<Rightarrow> rbc_static_input \<Rightarrow> string \<Rightarrow> string res" where
  "add_files n s cmd =
     rbind (read_var (file_count s)) (\<lambda>k.
       if k \<le> 0 then Inr cmd
       else rbind (deref (file_names s)) (\<lambda>fs. cat_args n (\<lambda>a. [SPACE, a]) (nat k) fs cmd))"

text \<open>The command line of a static tool: its name, the arguments, the files and the redirection.\<close>

definition static_command :: "nat \<Rightarrow> string \<Rightarrow> string \<Rightarrow> rbc_input \<Rightarrow> rbc_static_input \<Rightarrow> string res" where
  "static_command n tool redirect inp s =
     rbind (add_args n (\<lambda>a. [SPACE, a]) inp tool) (\<lambda>c1.
     rbind (add_files n s c1) (\<lambda>c2. strcat n c2 redirect))"

section \<open>Formatted input\<close>

text \<open>
  The directives of the formats of \<open>sscanf\<close>: text, in which a white-space character skips any white
  space; \<open>%d\<close>; \<open>%s\<close>. \<open>None\<close> is a matching failure, after which \<open>sscanf\<close> stores nothing more.
\<close>

fun scan_lit :: "string \<Rightarrow> string \<Rightarrow> string option" where
  "scan_lit [] s = Some s"
| "scan_lit (c # fmt) s =
     (if c_isspace c then scan_lit fmt (dropWhile c_isspace s)
      else case s of [] \<Rightarrow> None | d # r \<Rightarrow> if d = c then scan_lit fmt r else None)"

definition scan_int :: "string \<Rightarrow> (int \<times> string) option" where
  "scan_int s =
     (case scan_d s of
        None \<Rightarrow> None
      | Some n \<Rightarrow> Some (n, dropWhile c_isdigit (snd (scan_sign (dropWhile c_isspace s)))))"

definition scan_word :: "string \<Rightarrow> (string \<times> string) option" where
  "scan_word s =
     (let t = dropWhile c_isspace s
      in if t = [] then None else Some (takeWhile (\<lambda>c. \<not> c_isspace c) t, dropWhile (\<lambda>c. \<not> c_isspace c) t))"

section \<open>The sources\<close>

text \<open>The first source that passes a test, in the loops of the functions \<open>is_source\<close>.\<close>

fun source_loop :: "(string \<Rightarrow> bool) \<Rightarrow> nat \<Rightarrow> string option list \<Rightarrow> bool res" where
  "source_loop test 0 ss = Inr False"
| "source_loop test (Suc n) [] = Inl Out_Of_Bounds"
| "source_loop test (Suc n) (None # ss) = Inl Null_Deref"
| "source_loop test (Suc n) (Some s # ss) = (if test s then Inr True else source_loop test n ss)"

definition any_source :: "(string \<Rightarrow> bool) \<Rightarrow> rbc_dynamic_input \<Rightarrow> bool res" where
  "any_source test d =
     rbind (read_slot (sources d)) (\<lambda>srcs.
     rbind (read_var (source_count d)) (\<lambda>n.
       case srcs of None \<Rightarrow> Inr False | Some ss \<Rightarrow> source_loop test (nat n) ss))"

text \<open>The name after the last slash.\<close>

definition base_name :: "string \<Rightarrow> string" where
  "base_name s = (case strrchr s CHR ''/'' of Some k \<Rightarrow> drop (k + 1) s | None \<Rightarrow> s)"

section \<open>The interface of the modules\<close>

text \<open>The dynamic input of a call of \<open>run_tool\<close>; \<open>None\<close> when the module has nothing to do.\<close>

definition dynamic_of :: "rbc_input option \<Rightarrow> rbc_dynamic_input option res" where
  "dynamic_of inp =
     (case inp of None \<Rightarrow> Inr None
      | Some i \<Rightarrow>
          rbind (read_slot (input_ptr i)) (\<lambda>p.
            case p of
              Some (In_Dynamic d) \<Rightarrow> Inr (if tool_type i = DYNAMIC_TOOL then Some d else None)
            | _ \<Rightarrow> Inr None))"

definition static_of :: "rbc_input option \<Rightarrow> rbc_static_input option res" where
  "static_of inp =
     (case inp of None \<Rightarrow> Inr None
      | Some i \<Rightarrow>
          rbind (read_slot (input_ptr i)) (\<lambda>p.
            case p of
              Some (In_Static s) \<Rightarrow> Inr (if tool_type i = STATIC_TOOL then Some s else None)
            | _ \<Rightarrow> Inr None))"

definition new_report :: "EN_err_type \<Rightarrow> string \<Rightarrow> rbc_output" where
  "new_report e m = \<lparr>err_msg = Some m, err_type = e, aux_info = Uninit, out_size = None\<rparr>"

text \<open>The lists a module may return for an error set.\<close>

definition reports_ok :: "rbc_errset_t \<Rightarrow> rbc_output list \<Rightarrow> bool" where
  "reports_ok flags out \<longleftrightarrow>
     (\<forall>p\<in>set out. isset (err_type p) flags) \<and> (out \<noteq> [] \<longrightarrow> (\<exists>n > 0. out_size (hd out) = Some n))"

lemma reports_ok_Nil [simp]: "reports_ok flags []"
  by (simp add: reports_ok_def)

lemma reports_ok_add:
  assumes "reports_ok flags list" and "isset (err_type node) flags" and "add list node = Inr list'"
  shows "reports_ok flags list'"
proof -
  have "\<forall>p\<in>set list'. isset (err_type p) flags"
    using add_err_types [OF assms(3)] assms(1,2) by (auto simp: reports_ok_def)
  moreover have "\<exists>n > 0. out_size (hd list') = Some n"
  proof -
    obtain ks where ks: "add_scan list node = Inr ks" using assms(3) by (auto simp: add_def elim!: rbindE)
    show ?thesis
    proof (cases ks)
      case Nil
      then show ?thesis using assms(3) ks by (auto simp: add_def add_node_def)
    next
      case (Cons h t)
      then obtain n where n: "out_size h = Some n" "list' = h\<lparr>out_size := Some (n + 1)\<rparr> # t @ [add_node node None]"
        using assms(3) ks by (auto simp: add_def elim!: rbindE)
      obtain t' where "list = h # t'" using add_scan_split [OF ks] Cons by auto
      then have "0 < n" using assms(1) n(1) by (auto simp: reports_ok_def)
      then show ?thesis using n by simp
    qed
  qed
  ultimately show ?thesis by (auto simp: reports_ok_def)
qed

lemma reports_ok_new:
  "reports_ok flags list \<Longrightarrow> isset e flags \<Longrightarrow> add list (new_report e m) = Inr list' \<Longrightarrow> reports_ok flags list'"
  by (rule reports_ok_add) (simp_all add: new_report_def)

text \<open>A module that only computes its list, as the driver calls it.\<close>

definition list_tool ::
  "(rbc_input option \<Rightarrow> rbc_errset_t \<Rightarrow> rbc_output list res) \<Rightarrow>
   rbc_input option \<Rightarrow> rbc_errset_t \<Rightarrow> rbc_state \<Rightarrow> (rbc_output list \<times> rbc_state) res" where
  "list_tool run inp flags st = rbind (run inp flags) (\<lambda>out. Inr (out, st))"

text \<open>Such a module implements the interface the driver relies on.\<close>

locale parser_module =
  fixes run :: "rbc_input option \<Rightarrow> rbc_errset_t \<Rightarrow> rbc_output list res"
  assumes run_reports: "run inp flags = Inr out \<Longrightarrow> reports_ok flags out"

sublocale parser_module \<subseteq> tool: rbc_module "list_tool run"
  by unfold_locales (auto simp: list_tool_def reports_ok_def elim!: rbindE dest!: run_reports)

end
