(* ===== verification/Mod_Drmemory.thy ===== *)
theory Mod_Drmemory
  imports Mod_Common
begin

text \<open>
  modules/drmemory/rbc_drmemory.c: the parser of the reports of Dr. Memory. \<open>drm_parse_output\<close> looks
  for the lines that announce an error of an enabled type; \<open>drm_get_info\<close> then reads the call trace
  up to the first frame inside one of the sources. Names of static functions carry the prefix
  \<open>drm_\<close>, since several modules use the same ones.
\<close>

section \<open>Lines of the report\<close>

definition drm_default_cmd :: string where
  "drm_default_cmd = ''drmemory -show_reachable -redzone_size 0 -logdir . ''"

definition drm_details :: string where
  "drm_details = ''~~Dr.M~~ Details: ''"

text \<open>The name after the first exclamation mark, or the third word.\<close>

definition drm_get_function_name :: "string \<Rightarrow> string option res" where
  "drm_get_function_name name =
     (case strchr name CHR ''!'' of
        None \<Rightarrow>
          (case strtok_skip 2 name ('' '' @ [c_tab]) of
             None \<Rightarrow> Inr None
           | Some (p, _) \<Rightarrow> rbind (store (length name) p) (\<lambda>ret. Inr (Some (trim_whitespace ret))))
      | Some k \<Rightarrow>
          rbind (store (length name) (drop (k + 1) name)) (\<lambda>ret. Inr (Some (trim_whitespace ret))))"

definition drm_get_simple_filename :: "string \<Rightarrow> string" where
  "drm_get_simple_filename filename = base_name filename"

definition drm_is_source :: "rbc_dynamic_input \<Rightarrow> string \<Rightarrow> bool res" where
  "drm_is_source d source =
     any_source (\<lambda>s. strcmp (drm_get_simple_filename source) (drm_get_simple_filename s) = 0) d"

text \<open>
  The function (NULL when there is none), the source and the line number of a frame; \<open>None\<close> is the
  result 0. A location without a colon makes \<open>p\<close> NULL.
\<close>

definition drm_parse_line ::
  "string \<Rightarrow> rbc_dynamic_input \<Rightarrow> (string option \<times> string \<times> string) option res" where
  "drm_parse_line line d =
     (case strtok line ''[]'' of
        None \<Rightarrow> Inr None
      | Some (first, r) \<Rightarrow>
          (case strtok r ''[]'' of
             None \<Rightarrow> Inr None
           | Some (source, _) \<Rightarrow>
               (case strrchr source CHR '':'' of
                  None \<Rightarrow> Inl Out_Of_Bounds
                | Some k \<Rightarrow>
                    rbind (drm_is_source d (take k source)) (\<lambda>b.
                      if \<not> b then Inr None
                      else rbind (drm_get_function_name first) (\<lambda>f_name.
                             Inr (Some (f_name, take k source, drop (k + 1) source)))))))"

text \<open>The message, built in a buffer of \<open>LINE_MAX\<close> characters.\<close>

definition drm_message :: "string option \<times> string \<times> string \<Rightarrow> string res" where
  "drm_message x =
     (case x of (f_name, s_name, l_num) \<Rightarrow>
        rbind (deref f_name) (\<lambda>f. store LINE_MAX (loc_msg f s_name l_num)))"

function drm_get_info ::
  "rbc_dynamic_input \<Rightarrow> EN_err_type \<Rightarrow> cfile \<Rightarrow> rbc_output list \<Rightarrow> (cfile \<times> rbc_output list) res" where
  "drm_get_info d e f out =
     (if f_eof f then Inr (f, out)
      else let (l, f1) = read_line LINE_MAX f; line = trim_whitespace l
           in if line = [] \<or> hd line \<noteq> CHR ''#'' then Inr (f1, out)
              else rbind (drm_parse_line line d) (\<lambda>r.
                     case r of
                       None \<Rightarrow> drm_get_info d e f1 out
                     | Some x \<Rightarrow> rbind (drm_message x) (\<lambda>m.
                                 rbind (add out (new_report e m)) (\<lambda>out1. Inr (f1, out1)))))"
  by pat_completeness auto
termination
  by (relation "measure (\<lambda>(d, e, f, out). feof_left f)") (auto dest: read_line_decreases)

declare drm_get_info.simps [simp del]

text \<open>The type of the error that a line announces, in the order of the tests.\<close>

definition drm_err_of :: "rbc_errset_t \<Rightarrow> string \<Rightarrow> EN_err_type option" where
  "drm_err_of flags line =
     (if isset ERR_MEMORY_LEAK flags \<and> contains line ''LEAK'' then Some ERR_MEMORY_LEAK
      else if isset ERR_INVALID_ACCESS flags \<and> contains line ''UNADDRESSABLE ACCESS'' then Some ERR_INVALID_ACCESS
      else if isset ERR_UNINITIALIZED flags \<and> contains line ''UNINITIALIZED READ'' then Some ERR_UNINITIALIZED
      else if isset ERR_INVALID_FREE flags \<and> contains line ''INVALID HEAP ARGUMENT'' \<and> contains line ''free''
           then Some ERR_INVALID_FREE
      else None)"

lemma drm_get_info_left: "drm_get_info d e f out = Inr (f', out') \<Longrightarrow> feof_left f' \<le> feof_left f"
proof (induction d e f out rule: drm_get_info.induct)
  case (1 d e f out)
  show ?case
  proof (cases "f_eof f")
    case True
    then show ?thesis using "1.prems" by (simp add: drm_get_info.simps [of d e f])
  next
    case False
    obtain l f1 where r: "read_line LINE_MAX f = (l, f1)" by force
    have dec: "feof_left f1 < feof_left f" using read_line_decreases [of l f1 LINE_MAX f] r False by simp
    show ?thesis
    proof (cases "trim_whitespace l = [] \<or> hd (trim_whitespace l) \<noteq> CHR ''#''")
      case True
      then show ?thesis using "1.prems" False r dec by (simp add: drm_get_info.simps [of d e f])
    next
      case nb: False
      then obtain x where x: "drm_parse_line (trim_whitespace l) d = Inr x"
        using "1.prems" False r by (auto simp: drm_get_info.simps [of d e f] elim!: rbindE)
      show ?thesis
      proof (cases x)
        case None
        then have "drm_get_info d e f1 out = Inr (f', out')"
          using "1.prems" False nb r x by (simp add: drm_get_info.simps [of d e f])
        then show ?thesis
          using "1.IH" [OF False r [symmetric] _ refl nb x None] dec by fastforce
      next
        case (Some y)
        then have "f' = f1"
          using "1.prems" False nb r x by (auto simp: drm_get_info.simps [of d e f] elim!: rbindE)
        then show ?thesis using dec by simp
      qed
    qed
  qed
qed

function drm_parse_output ::
  "rbc_dynamic_input \<Rightarrow> rbc_errset_t \<Rightarrow> cfile \<Rightarrow> rbc_output list \<Rightarrow> rbc_output list res" where
  "drm_parse_output d flags f out =
     (if f_eof f then Inr out
      else let (line, f1) = read_line LINE_MAX f
           in if \<not> contains line ''Error'' then drm_parse_output d flags f1 out
              else case drm_err_of flags line of
                     None \<Rightarrow> drm_parse_output d flags f1 out
                   | Some e \<Rightarrow> rbind (drm_get_info d e f1 out) (\<lambda>x. drm_parse_output d flags (fst x) (snd x)))"
  by pat_completeness auto
termination
proof (relation "measure (\<lambda>(d, flags, f, out). feof_left f)", goal_cases)
  case 1
  show ?case by simp
next
  case (2 d flags f out x line f1)
  then show ?case by (auto dest: read_line_decreases)
next
  case (3 d flags f out x line f1)
  then show ?case by (auto dest: read_line_decreases)
next
  case (4 d flags f out x line f1 e y)
  have "feof_left f1 < feof_left f" using 4 by (auto dest: read_line_decreases)
  moreover have "feof_left (fst y) \<le> feof_left f1" using 4 drm_get_info_left [of d e f1 out "fst y" "snd y"] by simp
  ultimately show ?case by (simp add: case_prod_beta)
qed

declare drm_parse_output.simps [simp del]

section \<open>Running the tool\<close>

text \<open>The command that removes the output directory; without a slash in the name, \<open>slash\<close> is NULL.\<close>

definition drm_remove_output_dir :: "string \<Rightarrow> string res" where
  "drm_remove_output_dir name =
     (case strrchr name CHR ''/'' of
        None \<Rightarrow> Inl Out_Of_Bounds
      | Some k \<Rightarrow> rbind (store LINE_MAX (take k name)) (\<lambda>dir. strcat_all LINE_MAX [] [''rm -r '', dir]))"

text \<open>The polls until \<open>fuser\<close> prints nothing; the number of polls.\<close>

fun drm_poll :: "string list \<Rightarrow> nat" where
  "drm_poll [] = 1"
| "drm_poll (t # ts) = (if trim_whitespace (fst (read_line LINE_MAX (fopen_text t))) = [] then 1 else Suc (drm_poll ts))"

definition drm_wait_end_of_writing :: "tool_env \<Rightarrow> string \<Rightarrow> nat res" where
  "drm_wait_end_of_writing env filename =
     rbind (store LINE_MAX (''fuser '' @ filename @ '' 2> /dev/null'')) (\<lambda>_. Inr (drm_poll (fuser_out env)))"

text \<open>On Linux the function leaves the name alone.\<close>

definition modify_name_path :: "string \<Rightarrow> string" where
  "modify_name_path str = str"

text \<open>
  The name of the results file: the rest of the first line that starts with the prefix. The buffer
  keeps its contents when nothing is read, and is indeterminate before the first line.
\<close>

function drm_results_name :: "cfile \<Rightarrow> string option \<Rightarrow> string option res" where
  "drm_results_name f buf =
     (if f_eof f then Inr None
      else let (r, f1) = fgets LINE_MAX f; buf1 = (case r of Some l \<Rightarrow> Some l | None \<Rightarrow> buf)
           in rbind (read_var buf1) (\<lambda>line.
                if starts_with drm_details line
                then Inr (Some (trim_whitespace (drop (length drm_details) line)))
                else drm_results_name f1 buf1))"
  by pat_completeness auto
termination
proof (relation "measure (\<lambda>(f, buf). feof_left f)", goal_cases)
  case (2 f buf x r f1)
  then have "feof_left (snd (read_line LINE_MAX f)) < feof_left f" by (intro read_line_feof_left) auto
  moreover have "snd (read_line LINE_MAX f) = f1"
    using 2(2,3) by (auto simp: read_line_def split: prod.splits option.splits)
  ultimately show ?case by simp
qed simp

declare drm_results_name.simps [simp del]

definition drm_command :: "rbc_input \<Rightarrow> rbc_dynamic_input \<Rightarrow> string res" where
  "drm_command inp d =
     rbind (add_args LINE_MAX (\<lambda>a. [a, SPACE]) inp drm_default_cmd) (\<lambda>c1.
     rbind (strcat LINE_MAX c1 ''-- '') (\<lambda>c2.
     rbind (deref_slot (exec_name d)) (\<lambda>ex.
       strcat_all LINE_MAX c2 [ex, '' 2>&1 ''])))"

definition drm_run_tool :: "tool_env \<Rightarrow> rbc_input option \<Rightarrow> rbc_errset_t \<Rightarrow> rbc_output list res" where
  "drm_run_tool env inp flags =
     rbind (dynamic_of inp) (\<lambda>d_opt.
       case (inp, d_opt) of
         (Some i, Some d) \<Rightarrow>
           rbind (drm_command i d) (\<lambda>command.
             case cmd_out env [] command of
               None \<Rightarrow> Inr []
             | Some text \<Rightarrow>
                 rbind (drm_results_name (fopen_text text) None) (\<lambda>name_opt.
                   case name_opt of
                     None \<Rightarrow> Inr []
                   | Some n \<Rightarrow>
                       (let name = modify_name_path n
                        in rbind (drm_wait_end_of_writing env name) (\<lambda>_.
                             case file_text env [command] name of
                               None \<Rightarrow> Inr []
                             | Some results \<Rightarrow>
                                 rbind (drm_parse_output d flags (fopen_text results) []) (\<lambda>out.
                                 rbind (drm_remove_output_dir name) (\<lambda>_. Inr out))))))
       | _ \<Rightarrow> Inr [])"

section \<open>Facts\<close>

lemma drm_err_of_enabled: "drm_err_of flags line = Some e \<Longrightarrow> isset e flags"
  by (auto simp: drm_err_of_def split: if_splits)

lemma drm_get_info_reports:
  "drm_get_info d e f out = Inr (f', out') \<Longrightarrow> isset e flags \<Longrightarrow> reports_ok flags out \<Longrightarrow> reports_ok flags out'"
proof (induction d e f out rule: drm_get_info.induct)
  case (1 d e f out)
  show ?case
  proof (cases "f_eof f")
    case True
    then show ?thesis using "1.prems" by (simp add: drm_get_info.simps [of d e f])
  next
    case False
    obtain l f1 where r: "read_line LINE_MAX f = (l, f1)" by force
    show ?thesis
    proof (cases "trim_whitespace l = [] \<or> hd (trim_whitespace l) \<noteq> CHR ''#''")
      case True
      then show ?thesis using "1.prems" False r by (simp add: drm_get_info.simps [of d e f])
    next
      case nb: False
      then obtain x where x: "drm_parse_line (trim_whitespace l) d = Inr x"
        using "1.prems" False r by (auto simp: drm_get_info.simps [of d e f] elim!: rbindE)
      show ?thesis
      proof (cases x)
        case None
        then have "drm_get_info d e f1 out = Inr (f', out')"
          using "1.prems" False nb r x by (simp add: drm_get_info.simps [of d e f])
        then show ?thesis
          using "1.IH" [OF False r [symmetric] _ refl nb x None] "1.prems"(2,3) by fastforce
      next
        case (Some y)
        then obtain m where "add out (new_report e m) = Inr out'"
          using "1.prems" False nb r x by (auto simp: drm_get_info.simps [of d e f] elim!: rbindE)
        then show ?thesis using reports_ok_new "1.prems"(2,3) by blast
      qed
    qed
  qed
qed

lemma drm_parse_output_reports:
  "drm_parse_output d flags f out = Inr out' \<Longrightarrow> reports_ok flags out \<Longrightarrow> reports_ok flags out'"
proof (induction d flags f out rule: drm_parse_output.induct)
  case (1 d flags f out)
  show ?case
  proof (cases "f_eof f")
    case True
    then show ?thesis using "1.prems" by (simp add: drm_parse_output.simps [of d flags f])
  next
    case False
    obtain line f1 where r: "read_line LINE_MAX f = (line, f1)" by force
    note step = "1.prems"(1) [unfolded drm_parse_output.simps [of d flags f]]
    show ?thesis
    proof (cases "contains line ''Error''")
      case nc: False
      then show ?thesis using step "1.IH"(1) [OF False r [symmetric] refl nc] "1.prems"(2) False r by simp
    next
      case c: True
      show ?thesis
      proof (cases "drm_err_of flags line")
        case None
        then show ?thesis
          using step "1.IH"(2) [OF False r [symmetric] refl _ None] "1.prems"(2) False r c by simp
      next
        case (Some e)
        then obtain f2 out2 where g: "drm_get_info d e f1 out = Inr (f2, out2)"
          and rest: "drm_parse_output d flags f2 out2 = Inr out'"
          using step False r c by (auto elim!: rbindE)
        have "reports_ok flags out2"
          using drm_get_info_reports [OF g drm_err_of_enabled [OF Some] "1.prems"(2)] .
        then show ?thesis
          using "1.IH"(3) [OF False r [symmetric] refl _ Some g] c rest by simp
      qed
    qed
  qed
qed

interpretation drm: parser_module "drm_run_tool env" for env
  by unfold_locales
     (auto simp: drm_run_tool_def Let_def elim!: rbindE split: option.splits prod.splits dest!: drm_parse_output_reports)

end
