(* ===== verification/Mod_Valgrind.thy ===== *)
theory Mod_Valgrind
  imports Mod_Common
begin

text \<open>
  modules/valgrind/rbc_valgrind.c: the parser of the log files of Valgrind's memory checker. A line
  that announces an error of an enabled type is followed by the call trace, whose first frame inside
  one of the sources gives the message; the list of open file descriptors has a format of its own.
\<close>

section \<open>Lines of the log\<close>

definition vg_separators :: string where
  "vg_separators = '' :()'' @ [c_cr, c_lf, c_tab]"

definition vg_default_cmd :: string where
  "vg_default_cmd = ''valgrind --log-file=fil%p --leak-check=full''"

definition vg_is_source :: "rbc_dynamic_input \<Rightarrow> string \<Rightarrow> bool res" where
  "vg_is_source d source = any_source (\<lambda>s. strcmp source (base_name s) = 0) d"

text \<open>\<open>print_list\<close>, whose only call is commented out.\<close>

fun vg_print_list :: "rbc_output list \<Rightarrow> string res" where
  "vg_print_list [] = Inr []"
| "vg_print_list (p # ps) =
     rbind (deref (err_msg p)) (\<lambda>m.
     rbind (vg_print_list ps) (\<lambda>t.
       Inr ((case err_type p of
               ERR_MEMORY_LEAK \<Rightarrow> [c_lf] @ ''MEMORY LEAK:'' @ [c_lf]
             | ERR_INVALID_ACCESS \<Rightarrow> [c_lf] @ ''INVALID ACCESS:'' @ [c_lf]
             | ERR_UNINITIALIZED \<Rightarrow> [c_lf] @ ''UNINITIALIZED VARIABLE USAGE:'' @ [c_lf]
             | ERR_FILE_DESCRIPTORS \<Rightarrow> [c_lf] @ ''OPENED, BUT NOT CLOSED FILE DESCRIPTOR:'' @ [c_lf]
             | ERR_INVALID_FREE \<Rightarrow> [c_lf] @ ''INVALID_FREE'' @ [c_lf]
             | _ \<Rightarrow> []) @ m @ [c_lf] @ t)))"

definition vg_is_break_line :: "string \<Rightarrow> bool" where
  "vg_is_break_line line \<longleftrightarrow> strtok_skip 1 line vg_separators = None"

definition vg_is_detail_line :: "string \<Rightarrow> bool" where
  "vg_is_detail_line line =
     (case strtok_skip 1 line vg_separators of
        None \<Rightarrow> False | Some (p, _) \<Rightarrow> strcmp p ''at'' = 0 \<or> strcmp p ''by'' = 0)"

text \<open>Function, source and line number: the fourth and the two following words.\<close>

definition vg_parse_line :: "string \<Rightarrow> (string \<times> string \<times> string) option" where
  "vg_parse_line line =
     (case strtok_skip 3 line vg_separators of
        None \<Rightarrow> None
      | Some (f_name, r1) \<Rightarrow>
          (case strtok r1 vg_separators of
             None \<Rightarrow> None
           | Some (s_name, r2) \<Rightarrow>
               (case strtok r2 vg_separators of
                  None \<Rightarrow> None
                | Some (l_number, _) \<Rightarrow> Some (f_name, s_name, l_number))))"

section \<open>Call traces\<close>

function vg_get_info ::
  "rbc_dynamic_input \<Rightarrow> EN_err_type \<Rightarrow> cfile \<Rightarrow> rbc_output list \<Rightarrow> (cfile \<times> rbc_output list) res" where
  "vg_get_info d e g out =
     (case fgets LINE_MAX g of
        (None, g1) \<Rightarrow> Inr (g1, out)
      | (Some line, g1) \<Rightarrow>
          (if vg_is_break_line line \<or> \<not> vg_is_detail_line line then Inr (g1, out)
           else case vg_parse_line line of
                  None \<Rightarrow> Inr (g1, out)
                | Some (f_name, s_name, l_number) \<Rightarrow>
                    rbind (vg_is_source d s_name) (\<lambda>b.
                      if b then rbind (store LINE_MAX (loc_msg f_name s_name l_number)) (\<lambda>m.
                                rbind (add out (new_report e m)) (\<lambda>out1. Inr (g1, out1)))
                      else vg_get_info d e g1 out)))"
  by pat_completeness auto
termination
  by (relation "measure (\<lambda>(d, e, g, out). length (f_rest g))") (auto dest: fgets_decreases)

declare vg_get_info.simps [simp del]

section \<open>File descriptors\<close>

text \<open>The two inner loops: to the next line that is not a break, and past the next break line.\<close>

function vg_skip_breaks :: "cfile \<Rightarrow> string option \<times> cfile" where
  "vg_skip_breaks g =
     (case fgets LINE_MAX g of
        (None, g1) \<Rightarrow> (None, g1)
      | (Some line, g1) \<Rightarrow> if vg_is_break_line line then vg_skip_breaks g1 else (Some line, g1))"
  by pat_completeness auto
termination
  by (relation "measure (\<lambda>g. length (f_rest g))") (auto dest: fgets_decreases)

declare vg_skip_breaks.simps [simp del]

function vg_skip_block :: "cfile \<Rightarrow> bool \<times> cfile" where
  "vg_skip_block g =
     (case fgets LINE_MAX g of
        (None, g1) \<Rightarrow> (False, g1)
      | (Some line, g1) \<Rightarrow> if vg_is_break_line line then (True, g1) else vg_skip_block g1)"
  by pat_completeness auto
termination
  by (relation "measure (\<lambda>g. length (f_rest g))") (auto dest: fgets_decreases)

declare vg_skip_block.simps [simp del]

text \<open>One descriptor: the sixth word names it, unless the next line says it was inherited.\<close>

definition vg_one_fd :: "cfile \<Rightarrow> rbc_output list \<Rightarrow> (bool \<times> cfile \<times> rbc_output list) res" where
  "vg_one_fd g out =
     (case vg_skip_breaks g of
        (None, g1) \<Rightarrow> Inr (False, g1, out)
      | (Some line, g1) \<Rightarrow>
          (case strtok_skip 5 line vg_separators of
             None \<Rightarrow> (case vg_skip_block g1 of (go, g2) \<Rightarrow> Inr (go, g2, out))
           | Some (p, _) \<Rightarrow>
               (case fgets LINE_MAX g1 of
                  (None, g2) \<Rightarrow> Inr (False, g2, out)
                | (Some line2, g2) \<Rightarrow>
                    rbind (if contains line2 ''<inherited from parent>'' then Inr out
                           else add out (new_report ERR_FILE_DESCRIPTORS p)) (\<lambda>out1.
                      case vg_skip_block g2 of (go, g3) \<Rightarrow> Inr (go, g3, out1)))))"

fun vg_fd_loop :: "nat \<Rightarrow> cfile \<Rightarrow> rbc_output list \<Rightarrow> (cfile \<times> rbc_output list) res" where
  "vg_fd_loop 0 g out = Inr (g, out)"
| "vg_fd_loop (Suc i) g out =
     rbind (vg_one_fd g out) (\<lambda>(go, g1, out1). if go then vg_fd_loop i g1 out1 else Inr (g1, out1))"

definition vg_file_descriptors ::
  "string \<Rightarrow> cfile \<Rightarrow> rbc_output list \<Rightarrow> (cfile \<times> rbc_output list) res" where
  "vg_file_descriptors first_line g out =
     (case strtok_skip 3 first_line vg_separators of
        None \<Rightarrow> Inr (g, out)
      | Some (p, _) \<Rightarrow> vg_fd_loop (nat (atoi p)) g out)"

section \<open>One log file\<close>

definition vg_err_of :: "rbc_errset_t \<Rightarrow> string \<Rightarrow> EN_err_type option" where
  "vg_err_of flags line =
     (if isset ERR_MEMORY_LEAK flags \<and> contains line ''bytes in'' \<and>
         contains line ''blocks are definitely lost in loss record'' then Some ERR_MEMORY_LEAK
      else if isset ERR_INVALID_ACCESS flags \<and>
              (contains line ''Invalid write of size'' \<or> contains line ''Invalid read of size'')
           then Some ERR_INVALID_ACCESS
      else if isset ERR_UNINITIALIZED flags \<and> contains line ''Use of uninitialised value'' then Some ERR_UNINITIALIZED
      else if isset ERR_FILE_DESCRIPTORS flags \<and> contains line ''FILE DESCRIPTORS:'' then Some ERR_FILE_DESCRIPTORS
      else if isset ERR_INVALID_FREE flags \<and> contains line ''Invalid free()'' then Some ERR_INVALID_FREE
      else None)"

text \<open>The handler of an announced error.\<close>

definition vg_handle ::
  "rbc_dynamic_input \<Rightarrow> EN_err_type \<Rightarrow> string \<Rightarrow> cfile \<Rightarrow> rbc_output list \<Rightarrow> (cfile \<times> rbc_output list) res" where
  "vg_handle d e line g out =
     (if e = ERR_FILE_DESCRIPTORS then vg_file_descriptors line g out else vg_get_info d e g out)"

lemma vg_get_info_rest: "vg_get_info d e g out = Inr (g', out') \<Longrightarrow> length (f_rest g') \<le> length (f_rest g)"
proof (induction d e g out rule: vg_get_info.induct)
  case (1 d e g out)
  obtain r g1 where r: "fgets LINE_MAX g = (r, g1)" by force
  have le: "length (f_rest g1) \<le> length (f_rest g)" using fgets_rest_mono r by metis
  note step = "1.prems" [unfolded vg_get_info.simps [of d e g]]
  show ?case
  proof (cases "\<exists>line f s n. r = Some line \<and> \<not> (vg_is_break_line line \<or> \<not> vg_is_detail_line line) \<and>
                 vg_parse_line line = Some (f, s, n) \<and> vg_is_source d s = Inr False")
    case True
    then obtain line f s n where t: "r = Some line" "\<not> (vg_is_break_line line \<or> \<not> vg_is_detail_line line)"
      "vg_parse_line line = Some (f, s, n)" "vg_is_source d s = Inr False" by blast
    have "vg_get_info d e g1 out = Inr (g', out')" using step r t by simp
    then have "length (f_rest g') \<le> length (f_rest g1)"
      using "1.IH" [OF r [symmetric] t(1) t(2) t(3) refl refl t(4)] by simp
    then show ?thesis using le by simp
  next
    case False
    then have "g' = g1"
      using step r by (auto elim!: rbindE split: option.splits if_splits)
    then show ?thesis using le by simp
  qed
qed

lemma vg_skip_breaks_rest: "vg_skip_breaks g = (r, g') \<Longrightarrow> length (f_rest g') \<le> length (f_rest g)"
proof (induction g rule: vg_skip_breaks.induct)
  case (1 g)
  obtain l g1 where l: "fgets LINE_MAX g = (l, g1)" by force
  have le: "length (f_rest g1) \<le> length (f_rest g)" using fgets_rest_mono l by metis
  show ?case
  proof (cases "\<exists>line. l = Some line \<and> vg_is_break_line line")
    case True
    then show ?thesis
      using "1.IH" [OF l [symmetric]] "1.prems" l le by (auto simp: vg_skip_breaks.simps [of g])
  next
    case False
    then have "g' = g1" using "1.prems" l by (auto simp: vg_skip_breaks.simps [of g] split: option.splits if_splits)
    then show ?thesis using le by simp
  qed
qed

lemma vg_skip_block_rest: "vg_skip_block g = (r, g') \<Longrightarrow> length (f_rest g') \<le> length (f_rest g)"
proof (induction g rule: vg_skip_block.induct)
  case (1 g)
  obtain l g1 where l: "fgets LINE_MAX g = (l, g1)" by force
  have le: "length (f_rest g1) \<le> length (f_rest g)" using fgets_rest_mono l by metis
  show ?case
  proof (cases "\<exists>line. l = Some line \<and> \<not> vg_is_break_line line")
    case True
    then show ?thesis
      using "1.IH" [OF l [symmetric]] "1.prems" l le by (auto simp: vg_skip_block.simps [of g])
  next
    case False
    then have "g' = g1" using "1.prems" l by (auto simp: vg_skip_block.simps [of g] split: option.splits if_splits)
    then show ?thesis using le by simp
  qed
qed

lemma vg_one_fd_rest: "vg_one_fd g out = Inr (go, g', out') \<Longrightarrow> length (f_rest g') \<le> length (f_rest g)"
  unfolding vg_one_fd_def
  by (auto elim!: rbindE split: prod.splits option.splits if_splits
      dest!: vg_skip_breaks_rest vg_skip_block_rest fgets_rest_drop)

lemma vg_fd_loop_rest: "vg_fd_loop n g out = Inr (g', out') \<Longrightarrow> length (f_rest g') \<le> length (f_rest g)"
proof (induction n arbitrary: g out)
  case (Suc n)
  then obtain go g1 out1 where o: "vg_one_fd g out = Inr (go, g1, out1)" by (auto elim!: rbindE)
  then show ?case using Suc vg_one_fd_rest [OF o] by (fastforce split: if_splits)
qed simp

lemma vg_handle_rest: "vg_handle d e line g out = Inr (g', out') \<Longrightarrow> length (f_rest g') \<le> length (f_rest g)"
  using vg_get_info_rest vg_fd_loop_rest
  by (auto simp: vg_handle_def vg_file_descriptors_def split: if_splits option.splits)

function vg_parse_file ::
  "rbc_dynamic_input \<Rightarrow> rbc_errset_t \<Rightarrow> cfile \<Rightarrow> rbc_output list \<Rightarrow> rbc_output list res" where
  "vg_parse_file d flags g out =
     (case fgets LINE_MAX g of
        (None, g1) \<Rightarrow> Inr out
      | (Some line, g1) \<Rightarrow>
          (case vg_err_of flags line of
             None \<Rightarrow> vg_parse_file d flags g1 out
           | Some e \<Rightarrow> rbind (vg_handle d e line g1 out) (\<lambda>x. vg_parse_file d flags (fst x) (snd x))))"
  by pat_completeness auto
termination
proof (relation "measure (\<lambda>(d, flags, g, out). length (f_rest g))", goal_cases)
  case (2 d flags g out x1 g1 line)
  then show ?case by (auto dest: fgets_decreases)
next
  case (3 d flags g out x1 g1 line e y)
  have "length (f_rest g1) < length (f_rest g)" using 3 by (auto dest: fgets_decreases)
  moreover have "length (f_rest (fst y)) \<le> length (f_rest g1)"
    using 3 vg_handle_rest [of d e line g1 out "fst y" "snd y"] by simp
  ultimately show ?case by (simp add: case_prod_beta)
qed simp

declare vg_parse_file.simps [simp del]

section \<open>Running the tool\<close>

definition vg_command :: "rbc_input \<Rightarrow> rbc_dynamic_input \<Rightarrow> string res" where
  "vg_command inp d =
     rbind (add_args LINE_MAX (\<lambda>a. [SPACE, a]) inp vg_default_cmd) (\<lambda>c1.
     rbind (strcat LINE_MAX c1 SPACE) (\<lambda>c2.
     rbind (deref_slot (exec_name d)) (\<lambda>ex.
       strcat_all LINE_MAX c2 [ex, SPACE, '' > /dev/null''])))"

text \<open>
  The loop over the names that \<open>ls\<close> prints, with the loop \<open>parse\<close> over the lines of one file. A file
  that cannot be opened ends the function with NULL (\<open>None\<close>), a line without a name calls \<open>fopen\<close>
  with NULL.
\<close>

function vg_files ::
  "(string \<Rightarrow> string option) \<Rightarrow> (cfile \<Rightarrow> rbc_output list \<Rightarrow> rbc_output list res) \<Rightarrow> cfile \<Rightarrow> rbc_output list \<Rightarrow>
   rbc_output list option res" where
  "vg_files contents parse f out =
     (case fgets LINE_MAX f of
        (None, f1) \<Rightarrow> Inr (Some out)
      | (Some name, f1) \<Rightarrow>
          rbind (deref (strtok name ([c_lf, c_tab, c_cr] @ '' ''))) (\<lambda>aux.
            case contents (fst aux) of
              None \<Rightarrow> Inr None
            | Some g \<Rightarrow> rbind (parse (fopen_text g) out) (\<lambda>out1. vg_files contents parse f1 out1)))"
  by pat_completeness auto
termination
  by (relation "measure (\<lambda>(contents, parse, f, out). length (f_rest f))") (auto dest: fgets_decreases)

declare vg_files.simps [simp del]

definition vg_run_tool :: "tool_env \<Rightarrow> rbc_input option \<Rightarrow> rbc_errset_t \<Rightarrow> rbc_output list res" where
  "vg_run_tool env inp flags =
     rbind (dynamic_of inp) (\<lambda>d_opt.
       case (inp, d_opt) of
         (Some i, Some d) \<Rightarrow>
           rbind (vg_command i d) (\<lambda>command.
             case cmd_out env [command] ''ls fil*'' of
               None \<Rightarrow> Inr []
             | Some names \<Rightarrow>
                 rbind (vg_files (file_text env [command]) (vg_parse_file d flags) (fopen_text names) []) (\<lambda>r.
                   Inr (case r of None \<Rightarrow> [] | Some out \<Rightarrow> out)))
       | _ \<Rightarrow> Inr [])"

section \<open>Facts\<close>

lemma vg_err_of_enabled: "vg_err_of flags line = Some e \<Longrightarrow> isset e flags"
  by (auto simp: vg_err_of_def split: if_splits)

lemma vg_get_info_reports:
  "vg_get_info d e g out = Inr (g', out') \<Longrightarrow> isset e flags \<Longrightarrow> reports_ok flags out \<Longrightarrow> reports_ok flags out'"
proof (induction d e g out rule: vg_get_info.induct)
  case (1 d e g out)
  obtain r g1 where r: "fgets LINE_MAX g = (r, g1)" by force
  note step = "1.prems"(1) [unfolded vg_get_info.simps [of d e g]]
  show ?case
  proof (cases "\<exists>line f s n. r = Some line \<and> \<not> (vg_is_break_line line \<or> \<not> vg_is_detail_line line) \<and>
                 vg_parse_line line = Some (f, s, n) \<and> vg_is_source d s = Inr False")
    case True
    then obtain line f s n where t: "r = Some line" "\<not> (vg_is_break_line line \<or> \<not> vg_is_detail_line line)"
      "vg_parse_line line = Some (f, s, n)" "vg_is_source d s = Inr False" by blast
    have "vg_get_info d e g1 out = Inr (g', out')" using step r t by simp
    then show ?thesis
      using "1.IH" [OF r [symmetric] t(1) t(2) t(3) refl refl t(4)] "1.prems"(2,3) by simp
  next
    case False
    then have "out' = out \<or> (\<exists>m. add out (new_report e m) = Inr out')"
      using step r by (auto elim!: rbindE split: option.splits if_splits)
    then show ?thesis using reports_ok_new "1.prems"(2,3) by blast
  qed
qed

lemma vg_fd_loop_reports:
  "vg_fd_loop n g out = Inr (g', out') \<Longrightarrow> isset ERR_FILE_DESCRIPTORS flags \<Longrightarrow> reports_ok flags out \<Longrightarrow>
   reports_ok flags out'"
proof (induction n arbitrary: g out)
  case (Suc n)
  obtain go g1 out1 where o: "vg_one_fd g out = Inr (go, g1, out1)"
    using Suc.prems(1) by (auto elim!: rbindE)
  then have "out1 = out \<or> (\<exists>p. add out (new_report ERR_FILE_DESCRIPTORS p) = Inr out1)"
    unfolding vg_one_fd_def by (auto elim!: rbindE split: prod.splits option.splits if_splits)
  then have "reports_ok flags out1" using reports_ok_new Suc.prems(2,3) by blast
  then show ?case using Suc o by (auto split: if_splits)
qed simp

lemma vg_handle_reports:
  "vg_handle d e line g out = Inr (g', out') \<Longrightarrow> isset e flags \<Longrightarrow> reports_ok flags out \<Longrightarrow> reports_ok flags out'"
  using vg_get_info_reports vg_fd_loop_reports
  by (auto simp: vg_handle_def vg_file_descriptors_def split: if_splits option.splits)

lemma vg_parse_file_reports:
  "vg_parse_file d flags g out = Inr out' \<Longrightarrow> reports_ok flags out \<Longrightarrow> reports_ok flags out'"
proof (induction d flags g out rule: vg_parse_file.induct)
  case (1 d flags g out)
  obtain r g1 where r: "fgets LINE_MAX g = (r, g1)" by force
  note step = "1.prems"(1) [unfolded vg_parse_file.simps [of d flags g]]
  show ?case
  proof (cases r)
    case None
    then show ?thesis using step r "1.prems"(2) by simp
  next
    case (Some line)
    show ?thesis
    proof (cases "vg_err_of flags line")
      case None
      then show ?thesis using "1.IH"(1) [OF r [symmetric] Some None] step r Some "1.prems"(2) by simp
    next
      case e: (Some e)
      then obtain x where x: "vg_handle d e line g1 out = Inr x"
        and rest: "vg_parse_file d flags (fst x) (snd x) = Inr out'"
        using step r Some by (auto elim!: rbindE)
      have "reports_ok flags (snd x)"
        using vg_handle_reports [of d e line g1 out "fst x" "snd x"] vg_err_of_enabled [OF e] "1.prems"(2) x by simp
      then show ?thesis using "1.IH"(2) [OF r [symmetric] Some e x] rest by simp
    qed
  qed
qed

lemma vg_files_reports:
  assumes parse: "\<And>g out out'. parse g out = Inr out' \<Longrightarrow> reports_ok flags out \<Longrightarrow> reports_ok flags out'"
  shows "vg_files contents parse f out = Inr (Some out') \<Longrightarrow> reports_ok flags out \<Longrightarrow> reports_ok flags out'"
  using parse
proof (induction contents parse f out rule: vg_files.induct)
  case (1 contents parse f out)
  obtain r f1 where r: "fgets LINE_MAX f = (r, f1)" by force
  note step = "1.prems"(1) [unfolded vg_files.simps [of contents parse f]]
  show ?case
  proof (cases r)
    case None
    then show ?thesis using step r "1.prems"(2) by simp
  next
    case (Some name)
    then obtain aux g out1 where a: "deref (strtok name ([c_lf, c_tab, c_cr] @ '' '')) = Inr aux"
      and g: "contents (fst aux) = Some g"
      and o: "parse (fopen_text g) out = Inr out1"
      and rest: "vg_files contents parse f1 out1 = Inr (Some out')"
      using step r by (auto elim!: rbindE split: option.splits)
    show ?thesis
      using "1.IH" [OF r [symmetric] Some a g o rest "1.prems"(3) [OF o "1.prems"(2)] "1.prems"(3)] by simp
  qed
qed

lemma vg_run_reports:
  "vg_files contents (vg_parse_file d flags) f [] = Inr (Some out) \<Longrightarrow> reports_ok flags out"
  using vg_files_reports [where parse = "vg_parse_file d flags", OF vg_parse_file_reports] by force

interpretation vg: parser_module "vg_run_tool env" for env
  by unfold_locales
     (auto simp: vg_run_tool_def elim!: rbindE split: option.splits, rule vg_run_reports)

end
