(* ===== verification/Mod_Helgrind.thy ===== *)
theory Mod_Helgrind
  imports Mod_Valgrind
begin

text \<open>
  modules/helgrind/rbc_helgrind.c: the parser of the log files of Valgrind's thread checker. The file
  has its own copies of the line classifiers and of \<open>get_info\<close>, whose text is that of the memory
  checker's module; data races and locks held at the end of a thread have handlers of their own.
\<close>

section \<open>Lines of the log\<close>

definition hg_separators_sharp :: string where
  "hg_separators_sharp = '' #:()'' @ [c_cr, c_lf, c_tab]"

definition hg_default_cmd :: string where
  "hg_default_cmd = ''valgrind --log-file=fil%p --tool=helgrind ''"

definition hg_is_source :: "rbc_dynamic_input \<Rightarrow> string \<Rightarrow> bool res" where
  "hg_is_source d source = any_source (\<lambda>s. strcmp source (base_name s) = 0) d"

text \<open>\<open>print_list\<close>, whose only call is commented out: a data race is printed twice.\<close>

fun hg_print_list :: "rbc_output list \<Rightarrow> string res" where
  "hg_print_list [] = Inr []"
| "hg_print_list (p # ps) =
     rbind (deref (err_msg p)) (\<lambda>m.
     rbind (hg_print_list ps) (\<lambda>t.
       Inr ((case err_type p of
               ERR_DATA_RACE \<Rightarrow> [c_lf] @ ''ERR_DATA_RACE:'' @ [c_lf] @ m @ [c_lf]
             | ERR_DEAD_LOCK \<Rightarrow> [c_lf] @ ''ERR_DEAD_LOCK:'' @ [c_lf]
             | ERR_UNLOCK \<Rightarrow> [c_lf] @ ''ERR_UNLOCK:'' @ [c_lf]
             | ERR_DESTROY \<Rightarrow> [c_lf] @ ''ERR_DESTROY:'' @ [c_lf]
             | ERR_HOLD_LOCK \<Rightarrow> [c_lf] @ ''ERR_HOLD_LOCK:'' @ [c_lf]
             | ERR_CONDITION_VARIABLE \<Rightarrow> [c_lf] @ ''ERR_CONDITION_VARIABLE:'' @ [c_lf]
             | _ \<Rightarrow> []) @ m @ [c_lf] @ t)))"

definition hg_is_break_line :: "string \<Rightarrow> bool" where
  "hg_is_break_line line \<longleftrightarrow> strtok_skip 1 line vg_separators = None"

definition hg_is_detail_line :: "string \<Rightarrow> bool" where
  "hg_is_detail_line line =
     (case strtok_skip 1 line vg_separators of
        None \<Rightarrow> False | Some (p, _) \<Rightarrow> strcmp p ''at'' = 0 \<or> strcmp p ''by'' = 0)"

definition hg_parse_line :: "string \<Rightarrow> (string \<times> string \<times> string) option" where
  "hg_parse_line line =
     (case strtok_skip 3 line vg_separators of
        None \<Rightarrow> None
      | Some (f_name, r1) \<Rightarrow>
          (case strtok r1 vg_separators of
             None \<Rightarrow> None
           | Some (s_name, r2) \<Rightarrow>
               (case strtok r2 vg_separators of
                  None \<Rightarrow> None
                | Some (l_number, _) \<Rightarrow> Some (f_name, s_name, l_number))))"

lemma hg_copies:
  "hg_is_source = vg_is_source" "hg_is_break_line = vg_is_break_line"
  "hg_is_detail_line = vg_is_detail_line" "hg_parse_line = vg_parse_line"
  by (simp_all add: fun_eq_iff hg_is_source_def vg_is_source_def hg_is_break_line_def vg_is_break_line_def
      hg_is_detail_line_def vg_is_detail_line_def hg_parse_line_def vg_parse_line_def)

section \<open>Call traces\<close>

function hg_get_info ::
  "rbc_dynamic_input \<Rightarrow> EN_err_type \<Rightarrow> cfile \<Rightarrow> rbc_output list \<Rightarrow> (cfile \<times> rbc_output list) res" where
  "hg_get_info d e g out =
     (case fgets LINE_MAX g of
        (None, g1) \<Rightarrow> Inr (g1, out)
      | (Some line, g1) \<Rightarrow>
          (if hg_is_break_line line \<or> \<not> hg_is_detail_line line then Inr (g1, out)
           else case hg_parse_line line of
                  None \<Rightarrow> Inr (g1, out)
                | Some (f_name, s_name, l_number) \<Rightarrow>
                    rbind (hg_is_source d s_name) (\<lambda>b.
                      if b then rbind (store LINE_MAX (loc_msg f_name s_name l_number)) (\<lambda>m.
                                rbind (add out (new_report e m)) (\<lambda>out1. Inr (g1, out1)))
                      else hg_get_info d e g1 out)))"
  by pat_completeness auto
termination
  by (relation "measure (\<lambda>(d, e, g, out). length (f_rest g))") (auto dest: fgets_decreases)

declare hg_get_info.simps [simp del]

text \<open>
  The trace of a data race up to the line that announces the conflicting access: the first frame in
  a source fills \<open>error_message\<close>. The first component is False where the function returns.
\<close>

function hg_race_first ::
  "rbc_dynamic_input \<Rightarrow> cfile \<Rightarrow> string option \<Rightarrow> (bool \<times> cfile \<times> string option) res" where
  "hg_race_first d g em =
     (case fgets LINE_MAX g of
        (None, g1) \<Rightarrow> Inr (True, g1, em)
      | (Some line, g1) \<Rightarrow>
          (if hg_is_break_line line \<or> contains line ''This conflicts with a previous'' then Inr (True, g1, em)
           else if \<not> hg_is_detail_line line then Inr (False, g1, em)
           else case hg_parse_line line of
                  None \<Rightarrow> Inr (False, g1, em)
                | Some (f_name, s_name, l_number) \<Rightarrow>
                    rbind (if em = None then hg_is_source d s_name else Inr False) (\<lambda>b.
                      if b then rbind (store LINE_MAX (loc_msg f_name s_name l_number)) (\<lambda>m.
                                  hg_race_first d g1 (Some m))
                      else hg_race_first d g1 em)))"
  by pat_completeness auto
termination
  by (relation "measure (\<lambda>(d, g, em). length (f_rest g))") (auto dest: fgets_decreases)

declare hg_race_first.simps [simp del]

text \<open>
  The trace of the conflicting access. The text about the conflict is appended to \<open>error_message\<close>,
  which was never written when no frame was found before; the \<open>strcpy\<close> after it starts the message
  again, so that the first place and the word of the conflict are lost.
\<close>

function hg_race_second ::
  "rbc_dynamic_input \<Rightarrow> cfile \<Rightarrow> string option \<Rightarrow> rbc_output list \<Rightarrow> (cfile \<times> rbc_output list) res" where
  "hg_race_second d g em out =
     (case fgets LINE_MAX g of
        (None, g1) \<Rightarrow> Inr (g1, out)
      | (Some line, g1) \<Rightarrow>
          (if hg_is_break_line line \<or> \<not> hg_is_detail_line line then Inr (g1, out)
           else case hg_parse_line line of
                  None \<Rightarrow> Inr (g1, out)
                | Some (f_name, s_name, l_number) \<Rightarrow>
                    rbind (hg_is_source d s_name) (\<lambda>b.
                      if b then rbind (read_var em) (\<lambda>m.
                                rbind (store LINE_MAX (m @ [c_lf] @ ''Conflicts with data located in function '')) (\<lambda>_.
                                rbind (store LINE_MAX
                                        (f_name @ '', in file '' @ s_name @ '', at line '' @ l_number)) (\<lambda>m2.
                                rbind (add out (new_report ERR_DATA_RACE m2)) (\<lambda>out1. Inr (g1, out1)))))
                      else hg_race_second d g1 em out)))"
  by pat_completeness auto
termination
  by (relation "measure (\<lambda>(d, g, em, out). length (f_rest g))") (auto dest: fgets_decreases)

declare hg_race_second.simps [simp del]

definition hg_data_race ::
  "rbc_dynamic_input \<Rightarrow> cfile \<Rightarrow> rbc_output list \<Rightarrow> (cfile \<times> rbc_output list) res" where
  "hg_data_race d g out =
     rbind (hg_race_first d g None) (\<lambda>(go, g1, em).
       if go then hg_race_second d g1 em out else Inr (g1, out))"

section \<open>One log file\<close>

definition hg_err_of :: "rbc_errset_t \<Rightarrow> string \<Rightarrow> EN_err_type option" where
  "hg_err_of flags line =
     (if isset ERR_UNLOCK flags \<and>
         (contains line ''unlocked a not-locked lock'' \<or> contains line ''unlocked an invalid lock'' \<or>
          contains line ''unlocked'' \<and> contains line ''currently held by thread'') then Some ERR_UNLOCK
      else if isset ERR_DESTROY flags \<and>
              (contains line ''pthread_mutex_destroy of a locked mutex'' \<or>
               contains line ''pthread_mutex_destroy with invalid argument'') then Some ERR_DESTROY
      else if isset ERR_DEAD_LOCK flags \<and> contains line ''lock order'' \<and> contains line ''violated''
           then Some ERR_DEAD_LOCK
      else if isset ERR_CONDITION_VARIABLE flags \<and> contains line ''pthread_cond'' \<and>
              (contains line ''called with mutex held by a different thread'' \<or>
               contains line ''called with un-held mutex'' \<or> contains line ''called with invalid mutex'')
           then Some ERR_CONDITION_VARIABLE
      else if isset ERR_DATA_RACE flags \<and> contains line ''Possible data race during'' then Some ERR_DATA_RACE
      else if isset ERR_HOLD_LOCK flags \<and> contains line ''Exiting thread still holds'' then Some ERR_HOLD_LOCK
      else None)"

text \<open>
  A thread that ends with a lock: the third word of the line. A line with no word ends the loop over
  the file (\<open>None\<close>); with fewer than three words the inner \<open>break\<close> leaves only the \<open>for\<close> loop and
  \<open>strdup\<close> gets NULL.
\<close>

definition hg_hold_lock :: "string \<Rightarrow> rbc_output list \<Rightarrow> rbc_output list option res" where
  "hg_hold_lock line out =
     (case strtok line hg_separators_sharp of
        None \<Rightarrow> Inr None
      | Some _ \<Rightarrow>
          rbind (deref (strtok_skip 2 line hg_separators_sharp)) (\<lambda>p.
          rbind (add out (new_report ERR_HOLD_LOCK (fst p))) (\<lambda>out1. Inr (Some out1))))"

text \<open>The handlers; the first component is False where the loop over the file ends.\<close>

definition hg_handle ::
  "rbc_dynamic_input \<Rightarrow> EN_err_type \<Rightarrow> string \<Rightarrow> cfile \<Rightarrow> rbc_output list \<Rightarrow>
   (bool \<times> cfile \<times> rbc_output list) res" where
  "hg_handle d e line g out =
     (if e = ERR_HOLD_LOCK
      then rbind (hg_hold_lock line out) (\<lambda>r.
             Inr (case r of None \<Rightarrow> (False, g, out) | Some out1 \<Rightarrow> (True, g, out1)))
      else rbind (if e = ERR_DATA_RACE then hg_data_race d g out else hg_get_info d e g out) (\<lambda>x.
             Inr (True, x)))"

lemma hg_get_info_copy: "hg_get_info d e g out = vg_get_info d e g out"
proof (induction d e g out rule: hg_get_info.induct)
  case (1 d e g out)
  then show ?case
    by (simp add: hg_get_info.simps [of d e g] vg_get_info.simps [of d e g] hg_copies
        split: prod.splits option.splits cong: rbind_cong if_cong)
qed

lemma hg_race_first_rest: "hg_race_first d g em = Inr (go, g', em') \<Longrightarrow> length (f_rest g') \<le> length (f_rest g)"
proof (induction "length (f_rest g)" arbitrary: g em rule: less_induct)
  case less
  obtain r g1 where r: "fgets LINE_MAX g = (r, g1)" by force
  show ?case
  proof (cases r)
    case None
    then show ?thesis using less.prems r fgets_rest_drop [OF r] by (simp add: hg_race_first.simps [of d g])
  next
    case (Some line)
    then have lt: "length (f_rest g1) < length (f_rest g)" using r fgets_line_less [of LINE_MAX g line g1] by simp
    have "g' = g1 \<or> (\<exists>em1. hg_race_first d g1 em1 = Inr (go, g', em'))"
      using less.prems r Some unfolding hg_race_first.simps [of d g]
      by (auto elim!: rbindE split: option.splits if_splits)
    then show ?thesis using less.hyps [OF lt] lt by fastforce
  qed
qed

lemma hg_race_second_result:
  "hg_race_second d g em out = Inr (g', out') \<Longrightarrow>
   length (f_rest g') \<le> length (f_rest g) \<and>
   (out' = out \<or> (\<exists>m. add out (new_report ERR_DATA_RACE m) = Inr out'))"
proof (induction "length (f_rest g)" arbitrary: g rule: less_induct)
  case less
  obtain r g1 where r: "fgets LINE_MAX g = (r, g1)" by force
  show ?case
  proof (cases r)
    case None
    then show ?thesis using less.prems r fgets_rest_drop [OF r] by (simp add: hg_race_second.simps [of d g])
  next
    case (Some line)
    then have lt: "length (f_rest g1) < length (f_rest g)" using r fgets_line_less [of LINE_MAX g line g1] by simp
    have "g' = g1 \<and> (out' = out \<or> (\<exists>m. add out (new_report ERR_DATA_RACE m) = Inr out')) \<or>
          hg_race_second d g1 em out = Inr (g', out')"
      using less.prems r Some unfolding hg_race_second.simps [of d g]
      by (auto elim!: rbindE split: option.splits if_splits)
    then show ?thesis using less.hyps [OF lt] lt by fastforce
  qed
qed

lemma hg_data_race_result:
  assumes "hg_data_race d g out = Inr (g', out')"
  shows "length (f_rest g') \<le> length (f_rest g) \<and>
         (out' = out \<or> (\<exists>m. add out (new_report ERR_DATA_RACE m) = Inr out'))"
  using assms unfolding hg_data_race_def
  by (auto elim!: rbindE split: if_splits dest!: hg_race_first_rest hg_race_second_result)

lemma hg_handle_rest: "hg_handle d e line g out = Inr (go, g', out') \<Longrightarrow> length (f_rest g') \<le> length (f_rest g)"
  unfolding hg_handle_def
  by (auto simp: hg_get_info_copy elim!: rbindE split: if_splits option.splits
      dest!: hg_data_race_result vg_get_info_rest)

function hg_parse_file ::
  "rbc_dynamic_input \<Rightarrow> rbc_errset_t \<Rightarrow> cfile \<Rightarrow> rbc_output list \<Rightarrow> rbc_output list res" where
  "hg_parse_file d flags g out =
     (case fgets LINE_MAX g of
        (None, g1) \<Rightarrow> Inr out
      | (Some line, g1) \<Rightarrow>
          (case hg_err_of flags line of
             None \<Rightarrow> hg_parse_file d flags g1 out
           | Some e \<Rightarrow>
               rbind (hg_handle d e line g1 out) (\<lambda>x.
                 if fst x then hg_parse_file d flags (fst (snd x)) (snd (snd x)) else Inr (snd (snd x)))))"
  by pat_completeness auto
termination
proof (relation "measure (\<lambda>(d, flags, g, out). length (f_rest g))", goal_cases)
  case (2 d flags g out x1 g1 line)
  then show ?case by (auto dest: fgets_decreases)
next
  case (3 d flags g out x1 g1 line e y)
  have "length (f_rest g1) < length (f_rest g)" using 3 by (auto dest: fgets_decreases)
  moreover have "length (f_rest (fst (snd y))) \<le> length (f_rest g1)"
    using 3 hg_handle_rest [of d e line g1 out "fst y" "fst (snd y)" "snd (snd y)"] by (metis prod.collapse)
  ultimately show ?case by (simp add: case_prod_beta)
qed simp

declare hg_parse_file.simps [simp del]

section \<open>Running the tool\<close>

text \<open>The arguments of the tool are not used.\<close>

definition hg_run_tool :: "tool_env \<Rightarrow> rbc_input option \<Rightarrow> rbc_errset_t \<Rightarrow> rbc_output list res" where
  "hg_run_tool env inp flags =
     rbind (dynamic_of inp) (\<lambda>d_opt.
       case d_opt of
         Some d \<Rightarrow>
           rbind (deref_slot (exec_name d)) (\<lambda>ex.
           rbind (strcat_all LINE_MAX hg_default_cmd [ex, '' > /dev/null'']) (\<lambda>command.
             case cmd_out env [command] ''ls fil*'' of
               None \<Rightarrow> Inr []
             | Some names \<Rightarrow>
                 rbind (vg_files (file_text env [command]) (hg_parse_file d flags) (fopen_text names) []) (\<lambda>r.
                   Inr (case r of None \<Rightarrow> [] | Some out \<Rightarrow> out))))
       | None \<Rightarrow> Inr [])"

section \<open>Facts\<close>

lemma hg_err_of_enabled: "hg_err_of flags line = Some e \<Longrightarrow> isset e flags"
  by (auto simp: hg_err_of_def split: if_splits)

lemma hg_handle_reports:
  "hg_handle d e line g out = Inr (go, g', out') \<Longrightarrow> isset e flags \<Longrightarrow> reports_ok flags out \<Longrightarrow> reports_ok flags out'"
  unfolding hg_handle_def hg_hold_lock_def
  by (auto simp: hg_get_info_copy elim!: rbindE split: if_splits option.splits
      dest!: hg_data_race_result vg_get_info_reports dest: reports_ok_new)

lemma hg_parse_file_reports:
  "hg_parse_file d flags g out = Inr out' \<Longrightarrow> reports_ok flags out \<Longrightarrow> reports_ok flags out'"
proof (induction "length (f_rest g)" arbitrary: g out rule: less_induct)
  case less
  obtain r g1 where r: "fgets LINE_MAX g = (r, g1)" by force
  show ?case
  proof (cases r)
    case None
    then show ?thesis using less.prems r by (simp add: hg_parse_file.simps [of d flags g])
  next
    case (Some line)
    then have lt: "length (f_rest g1) < length (f_rest g)" using r fgets_line_less [of LINE_MAX g line g1] by simp
    show ?thesis
    proof (cases "hg_err_of flags line")
      case None
      then show ?thesis
        using less.hyps [OF lt] less.prems r Some by (simp add: hg_parse_file.simps [of d flags g])
    next
      case e: (Some e)
      then obtain go g2 out2 where h: "hg_handle d e line g1 out = Inr (go, g2, out2)"
        and rest: "go \<and> hg_parse_file d flags g2 out2 = Inr out' \<or> out' = out2"
        using less.prems(1) r Some
        by (auto simp: hg_parse_file.simps [of d flags g] elim!: rbindE split: if_splits)
      have "reports_ok flags out2"
        using hg_handle_reports [OF h hg_err_of_enabled [OF e] less.prems(2)] .
      moreover have "length (f_rest g2) < length (f_rest g)" using hg_handle_rest [OF h] lt by simp
      ultimately show ?thesis using less.hyps rest by blast
    qed
  qed
qed

lemma hg_run_reports:
  "vg_files contents (hg_parse_file d flags) f [] = Inr (Some out) \<Longrightarrow> reports_ok flags out"
  using vg_files_reports [where parse = "hg_parse_file d flags", OF hg_parse_file_reports] by force

interpretation hg: parser_module "hg_run_tool env" for env
  by unfold_locales
     (auto simp: hg_run_tool_def elim!: rbindE split: option.splits, rule hg_run_reports)

end
