(* ===== verification/Mod_Splint.thy ===== *)
theory Mod_Splint
  imports Mod_Common
begin

text \<open>
  modules/splint/rbc_splint.c: the parser of the output of Splint. The name of the function that the
  last heading named is kept in a static variable (\<open>fn\<close> below), the places are read from the lines
  themselves.
\<close>

section \<open>Lines\<close>

definition spl_separators :: string where
  "spl_separators = '' :()'' @ [c_cr, c_lf, c_tab]"

definition spl_assign_separators :: string where
  "spl_assign_separators = '' ,:'' @ [c_cr, c_lf] @ ''()''"

text \<open>The fourth word of a heading; the variable keeps its value when there is none.\<close>

definition spl_get_function :: "string \<Rightarrow> string option \<Rightarrow> string option" where
  "spl_get_function line fn =
     (case strtok_skip 3 line spl_separators of None \<Rightarrow> fn | Some (p, _) \<Rightarrow> Some p)"

text \<open>\<open>print_list\<close>, a debugging aid that is not called.\<close>

fun spl_print_list :: "rbc_output list \<Rightarrow> string res" where
  "spl_print_list [] = Inr []"
| "spl_print_list (p # ps) =
     rbind (deref (err_msg p)) (\<lambda>m.
     rbind (spl_print_list ps) (\<lambda>t.
       Inr ((case err_type p of
               ERR_MEMORY_LEAK \<Rightarrow> [c_lf] @ ''MEMORY LEAK:'' @ [c_lf]
             | ERR_INVALID_ACCESS \<Rightarrow> [c_lf] @ ''INVALID ACCESS:'' @ [c_lf]
             | ERR_UNINITIALIZED \<Rightarrow> [c_lf] @ ''UNINITIALIZED VARIABLE USAGE:'' @ [c_lf]
             | ERR_STATIC_VARIABLE \<Rightarrow> [c_lf] @ ''STATIC VARIABLE'' @ [c_lf]
             | ERR_SIGNED_UNSIGNED \<Rightarrow> [c_lf] @ ''ERR_SIGNED_UNSIGNED'' @ [c_lf]
             | _ \<Rightarrow> []) @ m @ [c_lf] @ t)))"

text \<open>The source and the line are the first two words.\<close>

definition spl_get_info ::
  "string \<Rightarrow> bool \<Rightarrow> string option \<Rightarrow> rbc_output list \<Rightarrow> EN_err_type \<Rightarrow> rbc_output list res" where
  "spl_get_info line case_static fn out e =
     (case strtok line spl_separators of
        None \<Rightarrow> Inr out
      | Some (s_name, r) \<Rightarrow>
          (case strtok r spl_separators of
             None \<Rightarrow> Inr out
           | Some (l_number, _) \<Rightarrow>
               rbind (store LINE_MAX
                        ((case fn of
                            Some f \<Rightarrow> if case_static then ''In file '' else ''In function '' @ f @ '', in file ''
                          | None \<Rightarrow> ''In file '') @ s_name @ '', at line '' @ l_number)) (\<lambda>m.
                 add out (new_report e m))))"

text \<open>
  A type of an assignment: one word, after the word \<open>unsigned\<close> if there is one. The result is the
  number of these words, the type and the rest.
\<close>

definition spl_type :: "nat \<Rightarrow> (string \<times> string) option \<Rightarrow> (nat \<times> string \<times> string) option" where
  "spl_type n tok =
     (case tok of
        None \<Rightarrow> None
      | Some (p, r) \<Rightarrow>
          if strcmp p ''unsigned'' = 0
          then (case strtok r spl_assign_separators of None \<Rightarrow> None | Some (q, r1) \<Rightarrow> Some (n + 1, q, r1))
          else Some (n, p, r))"

definition spl_is_signed_unsigned :: "string \<Rightarrow> bool" where
  "spl_is_signed_unsigned line =
     (let limit = (if contains line ''Assignment of'' then 5 else 8)
      in case spl_type 0 (strtok_skip limit line spl_assign_separators) of
           None \<Rightarrow> False
         | Some (n, left, r) \<Rightarrow>
             (case spl_type n (strtok_skip 1 r spl_assign_separators) of
                None \<Rightarrow> False
              | Some (n2, right, _) \<Rightarrow> strcmp right left \<noteq> 0 \<and> n2 = 1))"

section \<open>The output file\<close>

text \<open>The second line of an initialisation, which is read only then.\<close>

definition spl_assignments :: "string \<Rightarrow> cfile \<Rightarrow> string \<times> cfile" where
  "spl_assignments line f =
     (if contains line ''Assignment of'' then (line, f)
      else case fgets LINE_MAX f of
             (None, f1) \<Rightarrow> (line, f1)
           | (Some scd_line, f1) \<Rightarrow> (line @ scd_line, f1))"

text \<open>The error a line announces.\<close>

definition spl_err_of :: "rbc_errset_t \<Rightarrow> string \<Rightarrow> EN_err_type option" where
  "spl_err_of flags line =
     (if isset ERR_STATIC_VARIABLE flags \<and>
         (contains line ''Variable exported but not used'' \<or> contains line ''Function exported but not used'')
      then Some ERR_STATIC_VARIABLE
      else if isset ERR_MEMORY_LEAK flags \<and> contains line ''Fresh storage'' \<and> contains line ''created''
      then Some ERR_MEMORY_LEAK
      else if isset ERR_UNINITIALIZED flags \<and> contains line ''used before definition''
      then Some ERR_UNINITIALIZED
      else if isset ERR_INVALID_ACCESS flags \<and>
              (contains line ''Likely out-of-bounds'' \<or> contains line ''Possible out-of-bounds'')
      then Some ERR_INVALID_ACCESS
      else if isset ERR_SIGNED_UNSIGNED flags \<and>
              (contains line ''Assignment of'' \<or>
               contains line ''initialized to type'' \<and> contains line ''expects'')
      then Some ERR_SIGNED_UNSIGNED
      else None)"

text \<open>One line; the file, the static variable and the list after it.\<close>

definition spl_line ::
  "rbc_errset_t \<Rightarrow> string \<Rightarrow> cfile \<Rightarrow> string option \<Rightarrow> rbc_output list \<Rightarrow>
   (cfile \<times> string option \<times> rbc_output list) res" where
  "spl_line flags line f fn out =
     (if contains line ''(in function'' then Inr (f, spl_get_function line fn, out)
      else case spl_err_of flags line of
             None \<Rightarrow> Inr (f, fn, out)
           | Some e \<Rightarrow>
               if e = ERR_SIGNED_UNSIGNED
               then (case spl_assignments line f of
                       (text, f1) \<Rightarrow>
                         rbind (store (2 * LINE_MAX) text) (\<lambda>assignments.
                         rbind (if spl_is_signed_unsigned assignments then spl_get_info line False fn out e
                                else Inr out) (\<lambda>o1. Inr (f1, fn, o1))))
               else rbind (spl_get_info line (e = ERR_STATIC_VARIABLE) fn out e) (\<lambda>o1. Inr (f, fn, o1)))"

lemma spl_err_of_enabled: "spl_err_of flags line = Some e \<Longrightarrow> isset e flags"
  by (auto simp: spl_err_of_def split: if_splits)

lemma spl_get_info_result:
  "spl_get_info line cs fn out e = Inr o1 \<Longrightarrow> o1 = out \<or> (\<exists>m. add out (new_report e m) = Inr o1)"
  by (auto simp: spl_get_info_def elim!: rbindE split: option.splits)

lemma spl_assignments_rest: "spl_assignments line f = (t, f1) \<Longrightarrow> length (f_rest f1) \<le> length (f_rest f)"
  by (auto simp: spl_assignments_def split: if_splits prod.splits option.splits dest: fgets_rest_drop)

lemma spl_line_result:
  assumes "spl_line flags line f fn out = Inr (f', fn', out')"
  shows "length (f_rest f') \<le> length (f_rest f)"
    and "out' = out \<or> (\<exists>e m. isset e flags \<and> add out (new_report e m) = Inr out')"
proof -
  show "length (f_rest f') \<le> length (f_rest f)"
    using assms unfolding spl_line_def
    by (auto elim!: rbindE split: if_splits prod.splits option.splits dest: spl_assignments_rest)
  show "out' = out \<or> (\<exists>e m. isset e flags \<and> add out (new_report e m) = Inr out')"
  proof (cases "out' = out")
    case False
    then obtain e cs where e: "spl_err_of flags line = Some e" "spl_get_info line cs fn out e = Inr out'"
      using assms unfolding spl_line_def
      by (auto elim!: rbindE split: if_splits prod.splits option.splits)
    then show ?thesis using spl_get_info_result [OF e(2)] spl_err_of_enabled [OF e(1)] by blast
  qed simp
qed

function spl_lines ::
  "rbc_errset_t \<Rightarrow> cfile \<Rightarrow> string option \<Rightarrow> rbc_output list \<Rightarrow> (string option \<times> rbc_output list) res" where
  "spl_lines flags f fn out =
     (case fgets LINE_MAX f of
        (None, f1) \<Rightarrow> Inr (fn, out)
      | (Some line, f1) \<Rightarrow>
          rbind (spl_line flags line f1 fn out) (\<lambda>x. spl_lines flags (fst x) (fst (snd x)) (snd (snd x))))"
  by pat_completeness auto
termination
proof (relation "measure (\<lambda>(flags, f, fn, out). length (f_rest f))", goal_cases)
  case (2 flags f fn out x1 f1 line y)
  have "length (f_rest f1) < length (f_rest f)" using 2 by (auto dest: fgets_decreases)
  moreover have "length (f_rest (fst y)) \<le> length (f_rest f1)"
    using 2 spl_line_result(1) [of flags line f1 fn out "fst y" "fst (snd y)" "snd (snd y)"] by simp
  ultimately show ?case by (simp add: case_prod_beta)
qed simp

declare spl_lines.simps [simp del]

section \<open>Running the tool\<close>

text \<open>\<open>fn\<close> is the static variable when the function is called, the result has its new value.\<close>

definition spl_run_tool ::
  "tool_env \<Rightarrow> string option \<Rightarrow> rbc_input option \<Rightarrow> rbc_errset_t \<Rightarrow> (string option \<times> rbc_output list) res" where
  "spl_run_tool env fn inp flags =
     rbind (static_of inp) (\<lambda>s_opt.
       case (inp, s_opt) of
         (Some i, Some s) \<Rightarrow>
           rbind (static_command LINE_MAX ''splint'' '' > output'' i s) (\<lambda>command.
             case file_text env [command] ''output'' of
               None \<Rightarrow> Inr (fn, [])
             | Some g \<Rightarrow> spl_lines flags (fopen_text g) fn [])
       | _ \<Rightarrow> Inr (fn, []))"

section \<open>Facts\<close>

lemma spl_lines_reports:
  "spl_lines flags f fn out = Inr (fn', out') \<Longrightarrow> reports_ok flags out \<Longrightarrow> reports_ok flags out'"
proof (induction "length (f_rest f)" arbitrary: f fn out rule: less_induct)
  case less
  obtain r f1 where r: "fgets LINE_MAX f = (r, f1)" by force
  show ?case
  proof (cases r)
    case None
    then show ?thesis using less.prems r by (simp add: spl_lines.simps [of flags f])
  next
    case (Some line)
    then obtain f2 fn2 out2 where l: "spl_line flags line f1 fn out = Inr (f2, fn2, out2)"
      "spl_lines flags f2 fn2 out2 = Inr (fn', out')"
      using less.prems(1) r by (auto simp: spl_lines.simps [of flags f] elim!: rbindE)
    have "length (f_rest f2) < length (f_rest f)"
      using r Some fgets_line_less [of LINE_MAX f line f1] spl_line_result(1) [OF l(1)] by simp
    moreover have "reports_ok flags out2"
      using spl_line_result(2) [OF l(1)] reports_ok_new less.prems(2) by blast
    ultimately show ?thesis using less.hyps l(2) by blast
  qed
qed

interpretation spl: parser_module "\<lambda>inp flags. rbind (spl_run_tool env fn inp flags) (\<lambda>(_, out). Inr out)" for env fn
  by unfold_locales
     (auto simp: spl_run_tool_def elim!: rbindE split: option.splits dest!: spl_lines_reports)

end
