(* ===== verification/Mod_Simian.thy ===== *)
theory Mod_Simian
  imports Mod_Common
begin

text \<open>
  modules/simian/rbc_simian.c: the parser of the output of Simian, which finds duplicated code. A
  block starts with a line that announces duplicate lines and lists the places; it is reported when
  the next line with \<open>Found\<close> is read.
\<close>

section \<open>Lines\<close>

definition sim_MSG_SIZE :: nat where "sim_MSG_SIZE = 2048"

definition sim_default_cmd :: string where
  "sim_default_cmd = ''java -jar /lib/simian-2.3.32.jar''"

text \<open>\<open>print_list\<close>, whose only call is commented out.\<close>

fun sim_print_list :: "rbc_output list \<Rightarrow> string res" where
  "sim_print_list [] = Inr []"
| "sim_print_list (p # ps) =
     rbind (deref (err_msg p)) (\<lambda>m.
     rbind (sim_print_list ps) (\<lambda>t. Inr ([c_lf] @ ''ERR_DUPLICATE_CODE:'' @ [c_lf] @ m @ [c_lf] @ t)))"

text \<open>
  \<open>sscanf(line, " Between lines %d and %d in %s\n", &from, &to, name)\<close>: the two numbers are not
  initialised before, the name is cleared.
\<close>

definition sim_scan :: "string \<Rightarrow> int option \<times> int option \<times> string" where
  "sim_scan line =
     (case scan_lit '' Between lines '' line of
        None \<Rightarrow> (None, None, [])
      | Some r1 \<Rightarrow>
          (case scan_int r1 of
             None \<Rightarrow> (None, None, [])
           | Some (from, r2) \<Rightarrow>
               (case scan_lit '' and '' r2 of
                  None \<Rightarrow> (Some from, None, [])
                | Some r3 \<Rightarrow>
                    (case scan_int r3 of
                       None \<Rightarrow> (Some from, None, [])
                     | Some (to, r4) \<Rightarrow>
                         (case scan_lit '' in '' r4 of
                            None \<Rightarrow> (Some from, Some to, [])
                          | Some r5 \<Rightarrow>
                              (case scan_word r5 of
                                 None \<Rightarrow> (Some from, Some to, [])
                               | Some (name, _) \<Rightarrow> (Some from, Some to, name)))))))"

text \<open>
  The state of the loop: \<open>Some message\<close> inside a block (where \<open>node.err_msg\<close> is NULL), \<open>None\<close>
  outside (where it is the mark 0x01), and the list.
\<close>

definition sim_line :: "string \<Rightarrow> string option \<times> rbc_output list \<Rightarrow> (string option \<times> rbc_output list) res" where
  "sim_line line st =
     rbind (case st of
              (Some message, out) \<Rightarrow>
                if contains line ''Found''
                then rbind (add out (new_report ERR_DUPLICATE_CODE message)) (\<lambda>out1. Inr (None, out1))
                else Inr (Some message, out)
            | (None, out) \<Rightarrow> Inr (None, out)) (\<lambda>(block, out).
       case block of
         None \<Rightarrow>
           if contains line ''duplicate lines in the following files:'' then Inr (Some ''Duplicate lines:'', out)
           else Inr (None, out)
       | Some message \<Rightarrow>
           if contains line ''Between lines''
           then (case sim_scan line of
                   (from, to, name) \<Rightarrow>
                     rbind (read_var from) (\<lambda>a.
                     rbind (read_var to) (\<lambda>b.
                     rbind (store sim_MSG_SIZE
                              (message @ '' '' @ name @ ''['' @ fmt_d a @ ''-'' @ fmt_d b @ ''] '')) (\<lambda>m.
                       Inr (Some m, out)))))
           else Inr (Some message, out))"

function sim_lines ::
  "cfile \<Rightarrow> string option \<times> rbc_output list \<Rightarrow> (string option \<times> rbc_output list) res" where
  "sim_lines f st =
     (case fgets LINE_MAX f of
        (None, f1) \<Rightarrow> Inr st
      | (Some line, f1) \<Rightarrow> rbind (sim_line line st) (\<lambda>st1. sim_lines f1 st1))"
  by pat_completeness auto
termination
  by (relation "measure (\<lambda>(f, st). length (f_rest f))") (auto dest: fgets_decreases)

declare sim_lines.simps [simp del]

section \<open>Running the tool\<close>

definition sim_run_tool :: "tool_env \<Rightarrow> rbc_input option \<Rightarrow> rbc_errset_t \<Rightarrow> rbc_output list res" where
  "sim_run_tool env inp flags =
     (if \<not> isset ERR_DUPLICATE_CODE flags then Inr []
      else rbind (static_of inp) (\<lambda>s_opt.
        case (inp, s_opt) of
          (Some i, Some s) \<Rightarrow>
            rbind (static_command LINE_MAX sim_default_cmd '' > output'' i s) (\<lambda>command.
              case file_text env [command] ''output'' of
                None \<Rightarrow> Inr []
              | Some g \<Rightarrow> rbind (sim_lines (fopen_text g) (None, [])) (\<lambda>(_, out). Inr out))
        | _ \<Rightarrow> Inr []))"

section \<open>Facts\<close>

lemma sim_line_reports:
  assumes "sim_line line st = Inr st'" and "isset ERR_DUPLICATE_CODE flags" and "reports_ok flags (snd st)"
  shows "reports_ok flags (snd st')"
proof -
  have "snd st' = snd st \<or> (\<exists>m. add (snd st) (new_report ERR_DUPLICATE_CODE m) = Inr (snd st'))"
    using assms(1) unfolding sim_line_def
    by (auto elim!: rbindE split: prod.splits option.splits if_splits)
  then show ?thesis using assms(2,3) reports_ok_new by metis
qed

lemma sim_lines_reports:
  "sim_lines f st = Inr st' \<Longrightarrow> isset ERR_DUPLICATE_CODE flags \<Longrightarrow> reports_ok flags (snd st) \<Longrightarrow>
   reports_ok flags (snd st')"
proof (induction "length (f_rest f)" arbitrary: f st rule: less_induct)
  case less
  obtain r f1 where r: "fgets LINE_MAX f = (r, f1)" by force
  show ?case
  proof (cases r)
    case None
    then show ?thesis using less.prems r by (simp add: sim_lines.simps [of f])
  next
    case (Some line)
    then obtain st1 where st1: "sim_line line st = Inr st1" "sim_lines f1 st1 = Inr st'"
      using less.prems(1) r by (auto simp: sim_lines.simps [of f] elim!: rbindE)
    have "length (f_rest f1) < length (f_rest f)" using r Some fgets_line_less [of LINE_MAX f line f1] by simp
    then show ?thesis
      using less.hyps st1(2) less.prems(2) sim_line_reports [OF st1(1) less.prems(2,3)] by blast
  qed
qed

interpretation sim: parser_module "sim_run_tool env" for env
  by unfold_locales
     (auto simp: sim_run_tool_def elim!: rbindE split: option.splits if_splits dest!: sim_lines_reports)

end
