(* ===== verification/Mod_Sparse.thy ===== *)
theory Mod_Sparse
  imports Mod_Common
begin

text \<open>
  modules/sparse/libsparse.c: the module that runs the sparse front end and reads its report: for
  every file and every function, the lines between a heading and an end mark. The buffers are not
  initialised and the results of the reads are not checked, so their contents are kept: \<open>None\<close> is a
  buffer that was never written, and a read that finds the end of the file leaves the last line.
\<close>

section \<open>Reading the report\<close>

definition spa_BUFF :: nat where "spa_BUFF = 2 * MAX_BUFF_SIZE"

record spa_state =
  spa_in :: cfile
  spa_buff :: "string option"
  spa_file_name :: "string option"
  spa_func_name :: "string option"
  spa_output :: "rbc_output list"

definition spa_fgets :: "spa_state \<Rightarrow> bool \<times> spa_state" where
  "spa_fgets st =
     (case fgets spa_BUFF (spa_in st) of
        (None, f) \<Rightarrow> (False, st\<lparr>spa_in := f\<rparr>)
      | (Some l, f) \<Rightarrow> (True, st\<lparr>spa_in := f, spa_buff := Some l\<rparr>))"

text \<open>\<open>sscanf(buff, prefix "%s...", name)\<close> and the cut at the first \<open>#\<close>.\<close>

definition spa_scan :: "string \<Rightarrow> string \<Rightarrow> string option \<Rightarrow> string res" where
  "spa_scan prefix buff name =
     rbind (read_var (case scan_lit prefix buff of
                        None \<Rightarrow> name
                      | Some r \<Rightarrow> (case scan_word r of None \<Rightarrow> name | Some (w, _) \<Rightarrow> Some w))) (\<lambda>n.
       Inr (takeWhile (\<lambda>c. c \<noteq> CHR ''#'') n))"

definition spa_scan_file :: "spa_state \<Rightarrow> spa_state res" where
  "spa_scan_file st =
     rbind (read_var (spa_buff st)) (\<lambda>b.
     rbind (spa_scan ''####From file: '' b (spa_file_name st)) (\<lambda>n. Inr (st\<lparr>spa_file_name := Some n\<rparr>)))"

definition spa_scan_func :: "spa_state \<Rightarrow> spa_state res" where
  "spa_scan_func st =
     rbind (read_var (spa_buff st)) (\<lambda>b.
     rbind (spa_scan ([c_tab] @ ''#####parsing function: '') b (spa_func_name st)) (\<lambda>n.
       Inr (st\<lparr>spa_func_name := Some n\<rparr>)))"

text \<open>\<open>while (fgets(...)) if (strstr(buff, mark)) break;\<close>\<close>

function spa_skip_to :: "string \<Rightarrow> spa_state \<Rightarrow> spa_state" where
  "spa_skip_to mark st =
     (case spa_fgets st of
        (False, st1) \<Rightarrow> st1
      | (True, st1) \<Rightarrow> if contains (the (spa_buff st1)) mark then st1 else spa_skip_to mark st1)"
  by pat_completeness auto
termination
  by (relation "measure (\<lambda>(mark, st). length (f_rest (spa_in st)))")
     (auto simp: spa_fgets_def spa_BUFF_def MAX_BUFF_SIZE_def split: prod.splits option.splits dest: fgets_line_less)

declare spa_skip_to.simps [simp del]

section \<open>The reports\<close>

definition spa_message :: "string \<Rightarrow> string \<Rightarrow> string \<Rightarrow> string res" where
  "spa_message file_name func_name text =
     store (4 * MAX_BUFF_SIZE) (''From file: '' @ file_name @ '' at function: '' @ func_name @ '' error: '' @ text)"

definition spa_add :: "EN_err_type \<Rightarrow> string \<Rightarrow> spa_state \<Rightarrow> rbc_output list \<Rightarrow> rbc_output list res" where
  "spa_add e ending st out =
     rbind (read_var (spa_file_name st)) (\<lambda>fn.
     rbind (read_var (spa_func_name st)) (\<lambda>fu.
     rbind (read_var (spa_buff st)) (\<lambda>b.
     rbind (spa_message fn fu (b @ ending)) (\<lambda>m. add out (new_report e m)))))"

text \<open>The body of the inner loop of the first part: every line is an unverified call.\<close>

definition spa_emit_calls :: "spa_state \<Rightarrow> rbc_output list res" where
  "spa_emit_calls st = spa_add ERR_UNVERIFIED_FUNCTION [] st (spa_output st)"

text \<open>The body of the inner loop of the second part, by the text of the line.\<close>

definition spa_emit_if ::
  "rbc_errset_t \<Rightarrow> spa_state \<Rightarrow> EN_err_type \<Rightarrow> string \<Rightarrow> string \<Rightarrow> rbc_output list \<Rightarrow> rbc_output list res" where
  "spa_emit_if flags st e text ending out =
     (if isset e flags
      then rbind (read_var (spa_buff st)) (\<lambda>b. if contains b text then spa_add e ending st out else Inr out)
      else Inr out)"

definition spa_emit_style :: "rbc_errset_t \<Rightarrow> spa_state \<Rightarrow> rbc_output list res" where
  "spa_emit_style flags st =
     rbind (spa_emit_if flags st ERR_FUNCTION_LINE ''Function line count:'' [] (spa_output st)) (\<lambda>o1.
     rbind (spa_emit_if flags st ERR_FUNCTION_INDENTATION ''Indent level:'' [] o1) (\<lambda>o2.
     rbind (spa_emit_if flags st ERR_MIXED_TABS ''Mixed tabs with spaces'' [] o2) (\<lambda>o3.
       spa_emit_if flags st ERR_TRAILING_WHITESPACE ''Trailing white space'' ''.'' o3)))"

text \<open>The three nested loops, with the body \<open>emit\<close>.\<close>

function spa_function :: "(spa_state \<Rightarrow> rbc_output list res) \<Rightarrow> spa_state \<Rightarrow> spa_state res" where
  "spa_function emit st =
     (case spa_fgets st of
        (False, st1) \<Rightarrow> Inr st1
      | (True, st1) \<Rightarrow>
          if contains (the (spa_buff st1)) ''#end parsing function#'' then Inr st1
          else rbind (emit st1) (\<lambda>o1. spa_function emit (st1\<lparr>spa_output := o1\<rparr>)))"
  by pat_completeness auto
termination
  by (relation "measure (\<lambda>(emit, st). length (f_rest (spa_in st)))")
     (auto simp: spa_fgets_def spa_BUFF_def MAX_BUFF_SIZE_def split: prod.splits option.splits dest: fgets_line_less)

declare spa_function.simps [simp del]

lemma spa_fgets_less:
  "spa_fgets st = (True, st') \<Longrightarrow> length (f_rest (spa_in st')) < length (f_rest (spa_in st))"
  by (auto simp: spa_fgets_def spa_BUFF_def MAX_BUFF_SIZE_def split: prod.splits option.splits dest: fgets_line_less)

lemma spa_fgets_drop: "spa_fgets st = (b, st') \<Longrightarrow> length (f_rest (spa_in st')) \<le> length (f_rest (spa_in st))"
  by (auto simp: spa_fgets_def split: prod.splits option.splits dest: fgets_rest_drop)

lemma spa_scan_func_in: "spa_scan_func st = Inr st' \<Longrightarrow> spa_in st' = spa_in st \<and> spa_output st' = spa_output st"
  by (auto simp: spa_scan_func_def elim!: rbindE)

lemma spa_function_drop:
  "spa_function emit st = Inr st' \<Longrightarrow> length (f_rest (spa_in st')) \<le> length (f_rest (spa_in st))"
proof (induction "length (f_rest (spa_in st))" arbitrary: st rule: less_induct)
  case less
  obtain b st1 where b: "spa_fgets st = (b, st1)" by force
  have "st' = st1 \<or> b \<and> (\<exists>o1. spa_function emit (st1\<lparr>spa_output := o1\<rparr>) = Inr st')"
    using less.prems b by (auto simp: spa_function.simps [of emit st] elim!: rbindE split: bool.splits if_splits)
  then show ?case
  proof
    assume "b \<and> (\<exists>o1. spa_function emit (st1\<lparr>spa_output := o1\<rparr>) = Inr st')"
    then obtain o1 where o: "b" "spa_function emit (st1\<lparr>spa_output := o1\<rparr>) = Inr st'" by blast
    have lt: "length (f_rest (spa_in st1)) < length (f_rest (spa_in st))" using spa_fgets_less b o(1) by simp
    then show ?thesis using less.hyps [OF _ o(2)] by simp
  qed (use spa_fgets_drop [OF b] in simp)
qed

function spa_file :: "(spa_state \<Rightarrow> rbc_output list res) \<Rightarrow> spa_state \<Rightarrow> spa_state res" where
  "spa_file emit st =
     (case spa_fgets st of
        (False, st1) \<Rightarrow> Inr st1
      | (True, st1) \<Rightarrow>
          if contains (the (spa_buff st1)) ''#End parsing file#'' then Inr st1
          else rbind (rbind (spa_scan_func st1) (spa_function emit)) (\<lambda>st2. spa_file emit st2))"
  by pat_completeness auto
termination
proof (relation "measure (\<lambda>(emit, st). length (f_rest (spa_in st)))", goal_cases)
  case (2 emit st x1 st1 y)
  then have "length (f_rest (spa_in st1)) < length (f_rest (spa_in st))"
    using spa_fgets_less by (metis (full_types))
  moreover have "length (f_rest (spa_in y)) \<le> length (f_rest (spa_in st1))"
    using 2 spa_scan_func_in spa_function_drop by (fastforce elim!: rbindE)
  ultimately show ?case by simp
qed simp

declare spa_file.simps [simp del]

text \<open>The loop over \<open>file_count\<close> files.\<close>

fun spa_files :: "(spa_state \<Rightarrow> rbc_output list res) \<Rightarrow> nat \<Rightarrow> spa_state \<Rightarrow> spa_state res" where
  "spa_files emit 0 st = Inr st"
| "spa_files emit (Suc n) st =
     rbind (spa_scan_file (snd (spa_fgets st))) (\<lambda>st1.
     rbind (spa_file emit st1) (\<lambda>st2. spa_files emit n st2))"

section \<open>Running the tool\<close>

definition spa_style :: "rbc_errset_t \<Rightarrow> bool" where
  "spa_style flags \<longleftrightarrow>
     isset ERR_FUNCTION_LINE flags \<or> isset ERR_FUNCTION_INDENTATION flags \<or>
     isset ERR_TRAILING_WHITESPACE flags \<or> isset ERR_MIXED_TABS flags"

definition spa_parse_output_file :: "cfile \<Rightarrow> rbc_errset_t \<Rightarrow> int \<Rightarrow> rbc_output list res" where
  "spa_parse_output_file f flags n =
     (let st0 = \<lparr>spa_in = f, spa_buff = None, spa_file_name = None, spa_func_name = None, spa_output = []\<rparr>
      in rbind (if isset ERR_UNVERIFIED_FUNCTION flags
                then spa_files spa_emit_calls (nat n) (spa_skip_to ([c_tab, c_tab] @ ''Call Errors'') st0)
                else Inr st0) (\<lambda>st1.
         rbind (if spa_style flags
                then spa_files (spa_emit_style flags) (nat n) (spa_skip_to ''Other errors'' st1)
                else Inr st1) (\<lambda>st2. Inr (spa_output st2))))"

definition spa_make_command :: "rbc_input \<Rightarrow> rbc_static_input \<Rightarrow> string res" where
  "spa_make_command inp s = static_command spa_BUFF ''static_analyzer'' '' > __sparse_output'' inp s"

definition spa_run_tool ::
  "tool_env \<Rightarrow> rbc_input option \<Rightarrow> rbc_errset_t \<Rightarrow> rbc_state \<Rightarrow> (rbc_output list \<times> rbc_state) res" where
  "spa_run_tool env inp flags st =
     (if map_option tool_type inp \<noteq> Some STATIC_TOOL then Inr ([], st)
      else rbind (static_of inp) (\<lambda>s_opt.
       case (inp, s_opt) of
         (Some i, Some s) \<Rightarrow>
           rbind (log_to ''Hello from sparse'' None st) (\<lambda>st1.
           rbind (spa_make_command i s) (\<lambda>command.
             case file_text env [command] ''__sparse_output'' of
               None \<Rightarrow> Inr ([], st1)
             | Some g \<Rightarrow>
                 rbind (read_var (file_count s)) (\<lambda>n.
                 rbind (spa_parse_output_file (fopen_text g) flags n) (\<lambda>out. Inr (out, st1)))))
       | _ \<Rightarrow> Inr ([], st)))"

section \<open>Facts\<close>

text \<open>A body of the inner loop that keeps the list as a module may return it.\<close>

definition spa_emits :: "rbc_errset_t \<Rightarrow> (spa_state \<Rightarrow> rbc_output list res) \<Rightarrow> bool" where
  "spa_emits flags emit \<longleftrightarrow>
     (\<forall>st o1. reports_ok flags (spa_output st) \<longrightarrow> emit st = Inr o1 \<longrightarrow> reports_ok flags o1)"

lemma spa_add_reports: "spa_add e ending st out = Inr o1 \<Longrightarrow> isset e flags \<Longrightarrow> reports_ok flags out \<Longrightarrow> reports_ok flags o1"
  by (auto simp: spa_add_def elim!: rbindE intro: reports_ok_new)

lemma spa_emit_if_reports:
  "spa_emit_if flags st e text ending out = Inr o1 \<Longrightarrow> reports_ok flags out \<Longrightarrow> reports_ok flags o1"
  by (auto simp: spa_emit_if_def elim!: rbindE split: if_splits dest: spa_add_reports)

lemma spa_emits_calls: "isset ERR_UNVERIFIED_FUNCTION flags \<Longrightarrow> spa_emits flags spa_emit_calls"
  by (auto simp: spa_emits_def spa_emit_calls_def dest: spa_add_reports)

lemma spa_emits_style: "spa_emits flags (spa_emit_style flags)"
  by (auto simp: spa_emits_def spa_emit_style_def elim!: rbindE dest!: spa_emit_if_reports)

lemma spa_fgets_output [simp]: "spa_output (snd (spa_fgets st)) = spa_output st"
  by (simp add: spa_fgets_def split: prod.splits option.splits)

lemma spa_fgets_output': "spa_fgets st = (b, st') \<Longrightarrow> spa_output st' = spa_output st"
  using spa_fgets_output [of st] by simp

lemma spa_function_reports:
  "spa_function emit st = Inr st' \<Longrightarrow> spa_emits flags emit \<Longrightarrow> reports_ok flags (spa_output st) \<Longrightarrow>
   reports_ok flags (spa_output st')"
proof (induction "length (f_rest (spa_in st))" arbitrary: st rule: less_induct)
  case less
  obtain b st1 where b: "spa_fgets st = (b, st1)" by force
  note out = spa_fgets_output' [OF b]
  show ?case
  proof (cases "st' = st1")
    case True
    then show ?thesis using less.prems(3) out by simp
  next
    case False
    then obtain o1 where o: "b" "emit st1 = Inr o1" "spa_function emit (st1\<lparr>spa_output := o1\<rparr>) = Inr st'"
      using less.prems(1) b by (auto simp: spa_function.simps [of emit st] elim!: rbindE split: bool.splits if_splits)
    have "reports_ok flags o1" using less.prems(2,3) o(2) out unfolding spa_emits_def by metis
    then show ?thesis
      using less.hyps [OF _ o(3)] less.prems(2) spa_fgets_less [of st st1] b o(1) by simp
  qed
qed

lemma spa_file_reports:
  "spa_file emit st = Inr st' \<Longrightarrow> spa_emits flags emit \<Longrightarrow> reports_ok flags (spa_output st) \<Longrightarrow>
   reports_ok flags (spa_output st')"
proof (induction "length (f_rest (spa_in st))" arbitrary: st rule: less_induct)
  case less
  obtain b st1 where b: "spa_fgets st = (b, st1)" by force
  note out = spa_fgets_output' [OF b]
  show ?case
  proof (cases "st' = st1")
    case True
    then show ?thesis using less.prems(3) out by simp
  next
    case False
    then obtain st2 st3 where o: "b" "spa_scan_func st1 = Inr st2" "spa_function emit st2 = Inr st3"
      "spa_file emit st3 = Inr st'"
      using less.prems(1) b by (auto simp: spa_file.simps [of emit st] elim!: rbindE split: bool.splits if_splits)
    have "reports_ok flags (spa_output st3)"
      using spa_function_reports [OF o(3) less.prems(2)] spa_scan_func_in [OF o(2)] less.prems(3) out by simp
    moreover have "length (f_rest (spa_in st3)) < length (f_rest (spa_in st))"
      using spa_fgets_less [of st st1] spa_function_drop [OF o(3)] spa_scan_func_in [OF o(2)] b o(1) by simp
    ultimately show ?thesis using less.hyps [OF _ o(4) less.prems(2)] by blast
  qed
qed

lemma spa_files_reports:
  "spa_files emit n st = Inr st' \<Longrightarrow> spa_emits flags emit \<Longrightarrow> reports_ok flags (spa_output st) \<Longrightarrow>
   reports_ok flags (spa_output st')"
proof (induction n arbitrary: st)
  case (Suc n)
  then obtain st1 st2 where s: "spa_scan_file (snd (spa_fgets st)) = Inr st1" "spa_file emit st1 = Inr st2"
    "spa_files emit n st2 = Inr st'" by (auto elim!: rbindE)
  have "spa_output st1 = spa_output st" using s(1) by (auto simp: spa_scan_file_def elim!: rbindE)
  then show ?case using Suc spa_file_reports [OF s(2) Suc.prems(2)] s(3) by simp
qed simp

lemma spa_skip_to_output [simp]: "spa_output (spa_skip_to mark st) = spa_output st"
proof (induction "length (f_rest (spa_in st))" arbitrary: st rule: less_induct)
  case less
  obtain b st1 where b: "spa_fgets st = (b, st1)" by force
  show ?case
    using less.hyps [of st1] spa_fgets_less [of st st1] spa_fgets_output' [OF b] b
    by (auto simp: spa_skip_to.simps [of mark st] split: bool.splits)
qed

lemma spa_parse_reports: "spa_parse_output_file f flags n = Inr out \<Longrightarrow> reports_ok flags out"
  unfolding spa_parse_output_file_def Let_def
  by (auto elim!: rbindE split: if_splits dest!: spa_files_reports [OF _ spa_emits_calls]
      spa_files_reports [OF _ spa_emits_style])

interpretation spa: rbc_module "spa_run_tool env" for env
  by unfold_locales
     (auto simp: spa_run_tool_def reports_ok_def elim!: rbindE split: option.splits if_splits
      dest!: spa_parse_reports log_to_frame(1))

end
