(* ===== verification/Module_Facts.thy ===== *)
theory Module_Facts
  imports Robocheck_Facts Mod_Drmemory Mod_Helgrind Mod_Splint Mod_Simian Mod_Sparse
begin

text \<open>
  Properties of the tool modules: what they report for the lines their tools print, that reports of
  two tools on one place are recognised as one, and the driver with the modules that come with it.
\<close>

section \<open>Words\<close>

definition word_of :: "string \<Rightarrow> string \<Rightarrow> bool" where
  "word_of ds w \<longleftrightarrow> w \<noteq> [] \<and> set w \<inter> set ds = {}"

lemma strtok_word: "word_of ds w \<Longrightarrow> d \<in> set ds \<Longrightarrow> strtok (w @ d # r) ds = Some (w, r)"
  by (simp add: word_of_def strtok_first)

lemma strtok_char: "c \<notin> set ds \<Longrightarrow> d \<in> set ds \<Longrightarrow> strtok (c # d # r) ds = Some ([c], r)"
  using strtok_word [of ds "[c]" d r] by (simp add: word_of_def)

section \<open>Frames of Valgrind\<close>

definition vg_frame :: "string \<Rightarrow> string \<Rightarrow> string \<Rightarrow> string \<Rightarrow> string \<Rightarrow> string \<Rightarrow> string" where
  "vg_frame pid kw addr f s l = pid @ ''    '' @ kw @ '' '' @ addr @ '': '' @ f @ '' ('' @ s @ '':'' @ l @ '')''"

definition vg_frame_ok :: "string \<Rightarrow> string \<Rightarrow> string \<Rightarrow> string \<Rightarrow> string \<Rightarrow> string \<Rightarrow> bool" where
  "vg_frame_ok pid kw addr f s l \<longleftrightarrow>
     (\<forall>w\<in>set [pid, kw, addr, f, s, l]. word_of (c_nul # vg_separators) w) \<and> (kw = ''at'' \<or> kw = ''by'') \<and>
     length (vg_frame pid kw addr f s l) < 511"

lemma vg_words:
  assumes "vg_frame_ok pid kw addr f s l" and "w \<in> set [pid, kw, addr, f, s, l]"
  shows "word_of vg_separators w" and "c_lf \<notin> set w" and "c_nul \<notin> set w"
  using assms by (auto simp: vg_frame_ok_def word_of_def vg_separators_def)

lemma vg_frame_tokens:
  assumes "vg_frame_ok pid kw addr f s l"
  shows "strtok_skip 1 (vg_frame pid kw addr f s l @ t) vg_separators =
           Some (kw, addr @ '': '' @ f @ '' ('' @ s @ '':'' @ l @ '')'' @ t)"
    and "vg_parse_line (vg_frame pid kw addr f s l @ t) = Some (f, s, l)"
proof -
  note w = vg_words(1) [OF assms]
  have d: "CHR '' '' \<in> set vg_separators" "CHR '':'' \<in> set vg_separators" "CHR ''('' \<in> set vg_separators"
    "CHR '')'' \<in> set vg_separators" by (simp_all add: vg_separators_def)
  show "strtok_skip 1 (vg_frame pid kw addr f s l @ t) vg_separators =
           Some (kw, addr @ '': '' @ f @ '' ('' @ s @ '':'' @ l @ '')'' @ t)"
    using w d by (simp add: vg_frame_def strtok_word strtok_skip_delim)
  show "vg_parse_line (vg_frame pid kw addr f s l @ t) = Some (f, s, l)"
    using w d by (simp add: vg_frame_def vg_parse_line_def strtok_word strtok_skip_delim numeral_3_eq_3)
qed

lemma vg_frame_line:
  assumes "vg_frame_ok pid kw addr f s l"
  shows "\<not> vg_is_break_line (vg_frame pid kw addr f s l @ t)" and "vg_is_detail_line (vg_frame pid kw addr f s l @ t)"
  using vg_frame_tokens(1) [OF assms, of t] assms
  by (auto simp: vg_is_break_line_def vg_is_detail_line_def vg_frame_ok_def)

lemma vg_frame_fgets:
  assumes "vg_frame_ok pid kw addr f s l" and "f_rest g = vg_frame pid kw addr f s l @ c_lf # r"
  shows "fgets LINE_MAX g = (Some (vg_frame pid kw addr f s l @ [c_lf]), g\<lparr>f_rest := r\<rparr>)"
proof (rule fgets_line [OF assms(2)])
  note w = vg_words(2,3) [OF assms(1)]
  show "c_lf \<notin> set (vg_frame pid kw addr f s l)" "c_nul \<notin> set (vg_frame pid kw addr f s l)"
    using w by (auto simp: vg_frame_def)
  show "length (vg_frame pid kw addr f s l) + 1 < LINE_MAX" using assms(1) by (simp add: vg_frame_ok_def)
qed

text \<open>One frame of a trace: a report if its source is one of the program, otherwise the next line.\<close>

lemma vg_get_info_frame:
  assumes "vg_frame_ok pid kw addr f s l" and "f_rest g = vg_frame pid kw addr f s l @ c_lf # r"
    and "vg_is_source d s = Inr b"
  shows "vg_get_info d e g out =
         (if b then rbind (store LINE_MAX (loc_msg f s l)) (\<lambda>m.
                    rbind (add out (new_report e m)) (\<lambda>out1. Inr (g\<lparr>f_rest := r\<rparr>, out1)))
          else vg_get_info d e (g\<lparr>f_rest := r\<rparr>) out)"
  using vg_frame_fgets [OF assms(1,2)] vg_frame_line [OF assms(1), of "[c_lf]"] vg_frame_tokens(2) [OF assms(1), of "[c_lf]"]
    assms(3)
  by (simp add: vg_get_info.simps [of d e g])

text \<open>A trace: the frames as tuples of their words.\<close>

type_synonym vg_frame_t = "string \<times> string \<times> string \<times> string \<times> string \<times> string"

fun frame_text :: "vg_frame_t \<Rightarrow> string" where
  "frame_text (pid, kw, addr, f, s, l) = vg_frame pid kw addr f s l @ [c_lf]"

fun frame_ok :: "vg_frame_t \<Rightarrow> bool" where
  "frame_ok (pid, kw, addr, f, s, l) = vg_frame_ok pid kw addr f s l"

fun frame_source :: "vg_frame_t \<Rightarrow> string" where
  "frame_source (pid, kw, addr, f, s, l) = s"

fun frame_msg :: "vg_frame_t \<Rightarrow> string" where
  "frame_msg (pid, kw, addr, f, s, l) = loc_msg f s l"

lemma vg_get_info_trace:
  "\<forall>x\<in>set frames. frame_ok x \<and> vg_is_source d (frame_source x) = Inr False \<Longrightarrow>
   f_rest g = concat (map frame_text frames) @ r \<Longrightarrow>
   vg_get_info d e g out = vg_get_info d e (g\<lparr>f_rest := r\<rparr>) out"
proof (induction frames arbitrary: g)
  case (Cons x frames)
  obtain pid kw addr f s l where x: "x = (pid, kw, addr, f, s, l)" by (metis surj_pair)
  have "vg_get_info d e g out = vg_get_info d e (g\<lparr>f_rest := concat (map frame_text frames) @ r\<rparr>) out"
    using vg_get_info_frame [of pid kw addr f s l g "concat (map frame_text frames) @ r" d False] Cons.prems x by simp
  also have "\<dots> = vg_get_info d e (g\<lparr>f_rest := r\<rparr>) out" using Cons by simp
  finally show ?case .
next
  case Nil
  then have "g = g\<lparr>f_rest := r\<rparr>" by simp
  then show ?case by simp
qed

section \<open>Frames of Dr. Memory\<close>

text \<open>
  A frame as Dr. Memory prints it: the name of the function comes after that of the module and an
  exclamation mark (the format of the comment at \<open>get_function_name\<close>), or alone.
\<close>

definition drm_frame :: "string \<Rightarrow> string option \<Rightarrow> string \<Rightarrow> string \<Rightarrow> string \<Rightarrow> string \<Rightarrow> string" where
  "drm_frame n mo f pad path l =
     ''# '' @ n @ '' '' @ (case mo of None \<Rightarrow> [] | Some m \<Rightarrow> m @ ''!'') @ f @ '' '' @ pad @ ''['' @ path @ '':'' @ l @ '']''"

definition drm_frame_ok :: "string \<Rightarrow> string option \<Rightarrow> string \<Rightarrow> string \<Rightarrow> string \<Rightarrow> string \<Rightarrow> bool" where
  "drm_frame_ok n mo f pad path l \<longleftrightarrow>
     word_of (''[]!'' @ ws_chars) n \<and> word_of (''[]'' @ ws_chars) f \<and> set pad \<subseteq> {CHR '' ''} \<and>
     (case mo of None \<Rightarrow> CHR ''!'' \<notin> set f | Some m \<Rightarrow> word_of ''[]!'' m) \<and>
     word_of ''[]'' path \<and> word_of ''[]:'' l"

lemma trim_padded: "word_of ws_chars w \<Longrightarrow> set pad \<subseteq> {CHR '' ''} \<Longrightarrow> trim_whitespace (w @ pad) = w"
proof -
  assume w: "word_of ws_chars w" and pad: "set pad \<subseteq> {CHR '' ''}"
  then have c: "\<forall>c\<in>set w. \<not> is_ws c" "w \<noteq> []" by (auto simp: word_of_def is_ws_def)
  have "\<forall>c\<in>set (rev pad). is_ws c" using pad by (auto simp: is_ws_def ws_chars_def)
  then have "dropWhile is_ws (rev pad @ rev w) = rev w"
    using c by (subst dropWhile_append2) (simp_all add: dropWhile_eq_self_iff hd_rev)
  moreover have "dropWhile is_ws w = w" using c by (cases w) simp_all
  ultimately show ?thesis by (simp add: trim_whitespace_eq)
qed

lemma trim_word: "word_of ws_chars w \<Longrightarrow> trim_whitespace w = w"
  using trim_padded [of w "[]"] by simp

lemma strchr_first: "c \<notin> set s \<Longrightarrow> strchr (s @ c # t) c = Some (length s)"
  by (induction s) auto

lemma drm_function_name:
  assumes "drm_frame_ok n mo f pad path l"
  shows "drm_get_function_name (''# '' @ n @ '' '' @ (case mo of None \<Rightarrow> [] | Some m \<Rightarrow> m @ ''!'') @ f @ '' '' @ pad) =
         Inr (Some f)"
proof (cases mo)
  case None
  let ?ds = "'' '' @ [c_tab]"
  have n: "word_of ?ds n" and f: "word_of ?ds f" and t: "trim_whitespace f = f"
    using assms by (auto simp: drm_frame_ok_def word_of_def ws_chars_def intro!: trim_word)
  have "CHR ''!'' \<notin> set (''# '' @ n @ '' '' @ f @ '' '' @ pad)"
    using assms None by (auto simp: drm_frame_ok_def word_of_def)
  then have "strchr (''# '' @ n @ '' '' @ f @ '' '' @ pad) CHR ''!'' = None" using strchr_None_iff by blast
  moreover have "strtok_skip 2 (''# '' @ n @ '' '' @ f @ '' '' @ pad) ?ds = Some (f, pad)"
    using n f by (simp add: numeral_2_eq_2 strtok_char strtok_word)
  ultimately show ?thesis using t None by (simp add: drm_get_function_name_def store_def)
next
  case (Some m)
  define pre where "pre = ''# '' @ n @ '' '' @ m"
  have pre: "CHR ''!'' \<notin> set pre" using assms Some by (auto simp: pre_def drm_frame_ok_def word_of_def)
  have eq: "''# '' @ n @ '' '' @ (case mo of None \<Rightarrow> [] | Some m \<Rightarrow> m @ ''!'') @ f @ '' '' @ pad = pre @ CHR ''!'' # f @ '' '' @ pad"
    using Some by (simp add: pre_def)
  have w: "word_of ws_chars f" "set ('' '' @ pad) \<subseteq> {CHR '' ''}"
    using assms by (auto simp: drm_frame_ok_def word_of_def)
  have "strchr (pre @ CHR ''!'' # f @ '' '' @ pad) CHR ''!'' = Some (length pre)"
    using strchr_first [OF pre] by simp
  then show ?thesis
    unfolding eq using trim_padded [OF w] by (simp add: drm_get_function_name_def store_def)
qed

lemma drm_parse_frame:
  assumes "drm_frame_ok n mo f pad path l" and "drm_is_source d path = Inr True"
  shows "drm_parse_line (drm_frame n mo f pad path l) d = Inr (Some (Some f, path, l))"
proof -
  define first where "first = ''# '' @ n @ '' '' @ (case mo of None \<Rightarrow> [] | Some m \<Rightarrow> m @ ''!'') @ f @ '' '' @ pad"
  let ?src = "path @ CHR '':'' # l"
  have w: "word_of ''[]'' first" "word_of ''[]'' ?src" and l: "CHR '':'' \<notin> set l"
    using assms(1) by (auto simp: drm_frame_ok_def word_of_def first_def split: option.splits)
  have fr: "drm_frame n mo f pad path l = first @ CHR ''['' # ?src @ CHR '']'' # []"
    by (simp add: drm_frame_def first_def)
  have "strtok (drm_frame n mo f pad path l) ''[]'' = Some (first, ?src @ CHR '']'' # [])"
    unfolding fr by (rule strtok_word [OF w(1)]) simp
  moreover have "strtok (?src @ CHR '']'' # []) ''[]'' = Some (?src, [])"
    by (rule strtok_word [OF w(2)]) simp
  moreover have "drm_get_function_name first = Inr (Some f)"
    unfolding first_def by (rule drm_function_name [OF assms(1)])
  ultimately show ?thesis
    using strrchr_append [OF l, of path] assms(2) by (simp add: drm_parse_line_def)
qed

section \<open>Data races of Helgrind\<close>

lemma hg_race_first_frame:
  assumes "vg_frame_ok pid kw addr f s l" and "f_rest g = vg_frame pid kw addr f s l @ c_lf # r"
    and "hg_is_source d s = Inr True" and "length (loc_msg f s l) < LINE_MAX"
    and "\<not> contains (vg_frame pid kw addr f s l @ [c_lf]) ''This conflicts with a previous''"
  shows "hg_race_first d g None = hg_race_first d (g\<lparr>f_rest := r\<rparr>) (Some (loc_msg f s l))"
  using vg_frame_fgets [OF assms(1,2)] vg_frame_line [OF assms(1), of "[c_lf]"] vg_frame_tokens(2) [OF assms(1), of "[c_lf]"]
    assms(3-5)
  by (simp add: hg_race_first.simps [of d g None] hg_copies store_def)

lemma hg_race_first_conflict:
  assumes "f_rest g = c @ c_lf # r" and "c_lf \<notin> set c" and "c_nul \<notin> set c" and "length c < 511"
    and "contains (c @ [c_lf]) ''This conflicts with a previous''"
  shows "hg_race_first d g em = Inr (True, g\<lparr>f_rest := r\<rparr>, em)"
  using fgets_line [OF assms(1-3), of LINE_MAX] assms(4,5) by (simp add: hg_race_first.simps [of d g em])

lemma hg_race_second_frame:
  assumes "vg_frame_ok pid kw addr f s l" and "f_rest g = vg_frame pid kw addr f s l @ c_lf # r"
    and "hg_is_source d s = Inr True" and "length m + 41 < LINE_MAX"
    and "length f + length s + length l + 20 < LINE_MAX"
  shows "hg_race_second d g (Some m) out =
         rbind (add out (new_report ERR_DATA_RACE (f @ '', in file '' @ s @ '', at line '' @ l)))
               (\<lambda>out1. Inr (g\<lparr>f_rest := r\<rparr>, out1))"
  using vg_frame_fgets [OF assms(1,2)] vg_frame_line [OF assms(1), of "[c_lf]"] vg_frame_tokens(2) [OF assms(1), of "[c_lf]"]
    assms(3-5)
  by (simp add: hg_race_second.simps [of d g "Some m"] hg_copies store_def)

section \<open>Assignments of Splint\<close>

lemma strtok_Cons:
  "strtok (c # s) ds =
     (if c \<in> set ds then strtok s ds
      else Some (c # takeWhile (\<lambda>c. c \<notin> set ds) s, tl (dropWhile (\<lambda>c. c \<notin> set ds) s)))"
  by (simp add: strtok_def)

definition spl_assignment :: "string \<Rightarrow> string \<Rightarrow> string \<Rightarrow> string \<Rightarrow> string \<Rightarrow> string \<Rightarrow> string" where
  "spl_assignment s l col left right rest =
     s @ '':'' @ l @ '':'' @ col @ '': Assignment of unsigned '' @ left @ '' to '' @ right @ '':'' @ rest"

lemma spl_assignment_contains: "contains (spl_assignment s l col left right rest) ''Assignment of''"
  unfolding contains_iff spl_assignment_def
  by (rule exI [of _ "s @ '':'' @ l @ '':'' @ col @ '': ''"], rule exI [of _ "'' unsigned '' @ left @ '' to '' @ right @ '':'' @ rest"])
     simp

section \<open>Properties\<close>

text \<open>
  C4: an error that Valgrind announces is reported: when a line announces an enabled error and its
  trace has frames outside the sources and then one inside, the module adds exactly the report with
  the function, the source and the line of that frame, and goes on with the line after it.
\<close>

theorem valgrind_reports_announced_error:
  assumes "vg_err_of flags (line @ [c_lf]) = Some e" and "e \<noteq> ERR_FILE_DESCRIPTORS"
    and "c_lf \<notin> set line" and "c_nul \<notin> set line" and "length line < 511"
    and "\<forall>x\<in>set frames. frame_ok x \<and> vg_is_source d (frame_source x) = Inr False"
    and "frame_ok y" and "vg_is_source d (frame_source y) = Inr True" and "length (frame_msg y) < LINE_MAX"
    and "add out (new_report e (frame_msg y)) = Inr out'"
    and "f_rest g = line @ c_lf # concat (map frame_text frames) @ frame_text y @ r"
  shows "vg_parse_file d flags g out = vg_parse_file d flags (g\<lparr>f_rest := r\<rparr>) out'"
proof -
  obtain pid kw addr f s l where y: "y = (pid, kw, addr, f, s, l)" by (metis surj_pair)
  let ?g1 = "g\<lparr>f_rest := concat (map frame_text frames) @ frame_text y @ r\<rparr>"
  have "fgets LINE_MAX g = (Some (line @ [c_lf]), ?g1)"
    using fgets_line [OF assms(11,3,4), of LINE_MAX] assms(5) by simp
  moreover have "vg_get_info d e ?g1 out = vg_get_info d e (g\<lparr>f_rest := frame_text y @ r\<rparr>) out"
    using vg_get_info_trace [OF assms(6), of ?g1 "frame_text y @ r" e out] by simp
  moreover have "vg_get_info d e (g\<lparr>f_rest := frame_text y @ r\<rparr>) out = Inr (g\<lparr>f_rest := r\<rparr>, out')"
    using vg_get_info_frame [of pid kw addr f s l "g\<lparr>f_rest := frame_text y @ r\<rparr>" r d True e out] y assms(7-10)
    by (simp add: store_def)
  ultimately show ?thesis
    using assms(1,2) by (simp add: vg_parse_file.simps [of d flags g] vg_handle_def)
qed

definition sample_flags :: rbc_errset_t where
  "sample_flags = \<lparr>bit_set = [-1]\<rparr>"

definition traced_input :: rbc_dynamic_input where
  "traced_input =
     \<lparr>exec_name = Ptr ''./a.out'', params = None, params_count = Some 0, sources = Ptr [Some ''src/a.c''],
      source_count = Some 1\<rparr>"

theorem valgrind_reports_announced_error_witness:
  "vg_parse_file traced_input sample_flags
     (fopen_text (''==7== Invalid write of size 4'' @ c_lf # concat (map frame_text [(''==7=='', ''at'', ''0x1'', ''memcpy'', ''m.c'', ''9'')]) @
               frame_text (''==7=='', ''by'', ''0x2'', ''main'', ''a.c'', ''12'') @ '''')) [] =
   vg_parse_file traced_input sample_flags (fopen_text '''')
     [add_node (new_report ERR_INVALID_ACCESS ''In function main, in file a.c, at line 12'') (Some 1)]"
proof -
  let ?g = "fopen_text ( ''==7== Invalid write of size 4'' @ c_lf # concat (map frame_text [(''==7=='', ''at'', ''0x1'', ''memcpy'', ''m.c'', ''9'')]) @
               frame_text (''==7=='', ''by'', ''0x2'', ''main'', ''a.c'', ''12'') @ '''')"
  have "vg_parse_file traced_input sample_flags ?g [] =
        vg_parse_file traced_input sample_flags (?g\<lparr>f_rest := ''''\<rparr>)
          [add_node (new_report ERR_INVALID_ACCESS ''In function main, in file a.c, at line 12'') (Some 1)]"
  proof (rule valgrind_reports_announced_error)
    show "vg_err_of sample_flags (''==7== Invalid write of size 4'' @ [c_lf]) = Some ERR_INVALID_ACCESS" by code_simp
    show "\<forall>x\<in>set [(''==7=='', ''at'', ''0x1'', ''memcpy'', ''m.c'', ''9'')].
            frame_ok x \<and> vg_is_source traced_input (frame_source x) = Inr False"
      by code_simp
    show "frame_ok (''==7=='', ''by'', ''0x2'', ''main'', ''a.c'', ''12'')" by code_simp
    show "vg_is_source traced_input (frame_source (''==7=='', ''by'', ''0x2'', ''main'', ''a.c'', ''12'')) = Inr True"
      by code_simp
    show "length (frame_msg (''==7=='', ''by'', ''0x2'', ''main'', ''a.c'', ''12'')) < LINE_MAX" by code_simp
    show "add [] (new_report ERR_INVALID_ACCESS (frame_msg (''==7=='', ''by'', ''0x2'', ''main'', ''a.c'', ''12''))) =
          Inr [add_node (new_report ERR_INVALID_ACCESS ''In function main, in file a.c, at line 12'') (Some 1)]"
      by code_simp
  qed (simp_all add: fopen_text_def)
  then show ?thesis by (simp only: fopen_rest)
qed

text \<open>
  C23: Dr. Memory and Valgrind print a frame in their own way, the one with the path of the source,
  and with the name of the module in front of the function or without it, and the other with the name
  of the source. The two modules read the same function and line, and the two reports
  are recognised as reports of the same place, so the driver keeps one of them.
\<close>

theorem frames_of_one_place_agree:
  assumes "vg_frame_ok pid kw addr f s l" and "drm_frame_ok n mo f pad path l" and "path = dir @ ''/'' @ s"
    and "drm_is_source d path = Inr True" and "file_name_ok s" and "file_name_ok path"
  shows "vg_parse_line (vg_frame pid kw addr f s l) = Some (f, s, l) \<and>
         drm_parse_line (drm_frame n mo f pad path l) d = Inr (Some (Some f, path, l)) \<and>
         same_report (new_report e (loc_msg f path l)) (new_report e (loc_msg f s l)) = Inr True"
proof -
  have "CHR '' '' \<notin> set f" using assms(2) by (auto simp: drm_frame_ok_def word_of_def ws_chars_def)
  then have "cmp_msg_file (loc_msg f path l) (loc_msg f s l) = Inr (same_file path s \<and> strcaseeq l l)"
    by (rule cmp_loc_msg_same) (use assms in auto)
  moreover have "contains path s"
    unfolding contains_iff assms(3) by (rule exI [of _ "dir @ ''/''"], rule exI [of _ "[]"]) simp
  ultimately have "same_report (new_report e (loc_msg f path l)) (new_report e (loc_msg f s l)) = Inr True"
    by (simp add: same_report_def new_report_def same_file_def strcaseeq_def)
  then show ?thesis
    using vg_frame_tokens(2) [OF assms(1), of "[]"] drm_parse_frame [OF assms(2,4)] by simp
qed

theorem frames_of_one_place_agree_witness:
  "vg_parse_line (vg_frame ''==7=='' ''at'' ''0x1'' ''main'' ''a.c'' ''12'') = Some (''main'', ''a.c'', ''12'') \<and>
   drm_parse_line (drm_frame ''0'' (Some ''a.out'') ''main'' '' '' ''/w/src/a.c'' ''12'') traced_input =
     Inr (Some (Some ''main'', ''/w/src/a.c'', ''12'')) \<and>
   same_report (new_report ERR_MEMORY_LEAK (loc_msg ''main'' ''/w/src/a.c'' ''12''))
     (new_report ERR_MEMORY_LEAK (loc_msg ''main'' ''a.c'' ''12'')) = Inr True"
proof (rule frames_of_one_place_agree)
  show "vg_frame_ok ''==7=='' ''at'' ''0x1'' ''main'' ''a.c'' ''12''" by code_simp
  show "drm_frame_ok ''0'' (Some ''a.out'') ''main'' '' '' ''/w/src/a.c'' ''12''" by code_simp
  show "''/w/src/a.c'' = ''/w/src'' @ ''/'' @ ''a.c''" by simp
  show "drm_is_source traced_input ''/w/src/a.c'' = Inr True" by code_simp
  show "file_name_ok ''a.c''" "file_name_ok ''/w/src/a.c''" by code_simp+
qed

text \<open>
  The message of a data race names only the second place: \<open>strcpy\<close> writes over the first place
  and over the words that announce the conflict, and the words \<open>In function\<close> are missing.
\<close>

theorem data_race_loses_first_place:
  assumes "vg_frame_ok pid kw addr f s l" and "vg_frame_ok pid' kw' addr' f' s' l'"
    and "hg_is_source d s = Inr True" and "hg_is_source d s' = Inr True"
    and "\<not> contains (vg_frame pid kw addr f s l @ [c_lf]) ''This conflicts with a previous''"
    and "contains (c @ [c_lf]) ''This conflicts with a previous''" and "c_lf \<notin> set c" and "c_nul \<notin> set c"
    and "length c < 511" and "length (loc_msg f s l) + 41 < LINE_MAX"
    and "length f' + length s' + length l' + 20 < LINE_MAX"
    and "f_rest g = vg_frame pid kw addr f s l @ c_lf # c @ c_lf # vg_frame pid' kw' addr' f' s' l' @ c_lf # r"
  shows "hg_data_race d g out =
         rbind (add out (new_report ERR_DATA_RACE (f' @ '', in file '' @ s' @ '', at line '' @ l')))
               (\<lambda>out1. Inr (g\<lparr>f_rest := r\<rparr>, out1))"
proof -
  let ?g1 = "g\<lparr>f_rest := c @ c_lf # vg_frame pid' kw' addr' f' s' l' @ c_lf # r\<rparr>"
  let ?g2 = "g\<lparr>f_rest := vg_frame pid' kw' addr' f' s' l' @ c_lf # r\<rparr>"
  have "hg_race_first d g None = hg_race_first d ?g1 (Some (loc_msg f s l))"
    using hg_race_first_frame [OF assms(1,12,3) _ assms(5)] assms(10) by simp
  also have "\<dots> = Inr (True, ?g2, Some (loc_msg f s l))"
    using hg_race_first_conflict [of ?g1 c "vg_frame pid' kw' addr' f' s' l' @ c_lf # r"] assms(6-9) by simp
  finally show ?thesis
    using hg_race_second_frame [OF assms(2), of ?g2 r d "loc_msg f s l" out] assms(4,10,11)
    by (simp add: hg_data_race_def)
qed

theorem data_race_loses_first_place_witness:
  "hg_data_race traced_input
     (fopen_text (vg_frame ''==7=='' ''at'' ''0x1'' ''producer'' ''a.c'' ''12'' @ c_lf #
               ''==7== This conflicts with a previous write of size 4 by thread #2'' @ c_lf #
               vg_frame ''==7=='' ''at'' ''0x2'' ''consumer'' ''a.c'' ''30'' @ c_lf # '''')) [] =
   rbind (add [] (new_report ERR_DATA_RACE (''consumer'' @ '', in file '' @ ''a.c'' @ '', at line '' @ ''30'')))
         (\<lambda>out1. Inr (fopen_text '''', out1))"
proof -
  let ?g = "fopen_text ( vg_frame ''==7=='' ''at'' ''0x1'' ''producer'' ''a.c'' ''12'' @ c_lf #
               ''==7== This conflicts with a previous write of size 4 by thread #2'' @ c_lf #
               vg_frame ''==7=='' ''at'' ''0x2'' ''consumer'' ''a.c'' ''30'' @ c_lf # '''')"
  have "hg_data_race traced_input ?g [] =
        rbind (add [] (new_report ERR_DATA_RACE (''consumer'' @ '', in file '' @ ''a.c'' @ '', at line '' @ ''30'')))
              (\<lambda>out1. Inr (?g\<lparr>f_rest := ''''\<rparr>, out1))"
  proof (rule data_race_loses_first_place)
    show "vg_frame_ok ''==7=='' ''at'' ''0x1'' ''producer'' ''a.c'' ''12''" by code_simp
    show "vg_frame_ok ''==7=='' ''at'' ''0x2'' ''consumer'' ''a.c'' ''30''" by code_simp
    show "hg_is_source traced_input ''a.c'' = Inr True" "hg_is_source traced_input ''a.c'' = Inr True"
      by code_simp+
    show "\<not> contains (vg_frame ''==7=='' ''at'' ''0x1'' ''producer'' ''a.c'' ''12'' @ [c_lf]) ''This conflicts with a previous''"
      by code_simp
    show "contains (''==7== This conflicts with a previous write of size 4 by thread #2'' @ [c_lf]) ''This conflicts with a previous''"
      by code_simp
    show "length (loc_msg ''producer'' ''a.c'' ''12'') + 41 < LINE_MAX" by code_simp
  qed (simp_all add: fopen_text_def)
  then show ?thesis by (simp only: fopen_rest)
qed

text \<open>
  An assignment between the unsigned and the signed variant of one type is not reported, while
  one between different types is: \<open>is_signed_unsigned\<close> asks for different type names.
\<close>

theorem same_type_assignment_not_reported:
  assumes "\<forall>w\<in>set [s, l, col, left, right]. word_of spl_assign_separators w"
    and "left \<noteq> ''unsigned''" and "right \<noteq> ''unsigned''"
  shows "spl_is_signed_unsigned (spl_assignment s l col left right rest) \<longleftrightarrow> left \<noteq> right"
proof -
  let ?D = spl_assign_separators
  let ?tail = "left @ CHR '' '' # ''to'' @ CHR '' '' # right @ CHR '':'' # rest"
  have w: "word_of ?D s" "word_of ?D l" "word_of ?D col" "word_of ?D left" "word_of ?D right"
    using assms(1) by simp_all
  have k: "word_of ?D ''Assignment''" "word_of ?D ''of''" "word_of ?D ''unsigned''" "word_of ?D ''to''"
    "CHR '' '' \<in> set ?D" "CHR '':'' \<in> set ?D"
    by (simp_all add: word_of_def spl_assign_separators_def)
  have five: "(5::nat) = Suc (Suc (Suc (Suc (Suc 0))))" by simp
  have line: "spl_assignment s l col left right rest =
      s @ CHR '':'' # l @ CHR '':'' # col @ CHR '':'' # CHR '' '' # ''Assignment'' @ CHR '' '' # ''of'' @
      CHR '' '' # ''unsigned'' @ CHR '' '' # ?tail"
    by (simp add: spl_assignment_def)
  have "strtok_skip 5 (spl_assignment s l col left right rest) ?D = Some (''unsigned'', ?tail)"
    by (simp only: line five strtok_skip.simps strtok_word w k strtok_skip_delim option.case prod.case)
  moreover have "strtok ?tail ?D = Some (left, ''to'' @ CHR '' '' # right @ CHR '':'' # rest)"
    by (rule strtok_word [OF w(4) k(5)])
  moreover have "strtok_skip 1 (''to'' @ CHR '' '' # right @ CHR '':'' # rest) ?D = Some (right, rest)"
    by (simp only: One_nat_def strtok_skip.simps strtok_word w k option.case prod.case)
  ultimately show ?thesis
    using assms(2,3) spl_assignment_contains [of s l col left right rest]
    by (simp add: spl_is_signed_unsigned_def spl_type_def) auto
qed

theorem same_type_assignment_not_reported_witness:
  "\<not> spl_is_signed_unsigned (spl_assignment ''a.c'' ''3'' ''7'' ''int'' ''int'' '' x = y'')"
  using same_type_assignment_not_reported [of "''a.c''" "''3''" "''7''" "''int''" "''int''" "'' x = y''"]
  by (simp add: word_of_def spl_assign_separators_def)

text \<open>
  The modules that come with the program, by the name of their library. The static \<open>function\<close> of the
  Splint module has the value \<open>fn\<close> when it is run.
\<close>

definition shipped_tool ::
  "tool_env \<Rightarrow> string option \<Rightarrow> string \<Rightarrow> rbc_input option \<Rightarrow> rbc_errset_t \<Rightarrow> rbc_state \<Rightarrow>
   (rbc_output list \<times> rbc_state) res" where
  "shipped_tool env fn lib =
     (if base_name lib = ''libdrmemory.so'' then list_tool (drm_run_tool env)
      else if base_name lib = ''libvalgrind.so'' then list_tool (vg_run_tool env)
      else if base_name lib = ''libhelgrind.so'' then list_tool (hg_run_tool env)
      else if base_name lib = ''libsplint.so'' then list_tool (\<lambda>inp flags. rbind (spl_run_tool env fn inp flags) (\<lambda>(_, out). Inr out))
      else if base_name lib = ''libsimian.so'' then list_tool (sim_run_tool env)
      else if base_name lib = ''libsparse.so'' then spa_run_tool env
      else (\<lambda>inp flags st. Inr ([], st)))"

lemma no_module: "rbc_module (\<lambda>inp flags st. Inr ([], st))"
  by unfold_locales simp_all

lemma shipped_module: "rbc_module (shipped_tool env fn lib)"
  using drm.tool.rbc_module_axioms vg.tool.rbc_module_axioms hg.tool.rbc_module_axioms spl.tool.rbc_module_axioms
    sim.tool.rbc_module_axioms spa.rbc_module_axioms no_module
  by (simp add: shipped_tool_def)

text \<open>
  C2: the modules that come with the program keep to the interface of the driver, whatever their
  tools print: run with them, the driver collects only errors of types that the configuration
  enables for an installed tool.
\<close>

theorem shipped_modules_collect_enabled:
  assumes "dl_tool env = shipped_tool tools fn" and "root st = Some doc" and "output_vec st = None"
    and "run_tools env st = Inr (go, st')" and "output_vec st' = Some vec" and "Ptr p \<in> set vec"
  shows "\<exists>name es. tool_errset doc name = Inr es \<and> isset (err_type p) es"
  using run_tools_enabled [of env st doc go st'] shipped_module assms
  by (auto simp: all_entries_def enabled_def)

definition simian_text :: string where
  "simian_text = ''Found 5 duplicate lines in the following files:'' @ [c_lf] @
     '' Between lines 3 and 7 in /w/a.c'' @ [c_lf] @ '' Between lines 13 and 17 in /w/b.c'' @ [c_lf] @
     ''Found 10 duplicate lines in 2 blocks in 2 files'' @ [c_lf]"

definition simian_env :: rbc_env where
  "simian_env = sample_env\<lparr>dl_tool := shipped_tool
     \<lparr>cmd_out = (\<lambda>_ _. None), file_text = (\<lambda>_ _. Some simian_text), fuser_out = []\<rparr> None\<rparr>"

definition simian_state :: rbc_state where
  "simian_state =
     sample_state\<lparr>static_ptr := Some \<lparr>file_names = Some [Some ''a.c'', Some ''b.c''], file_count = Some 2\<rparr>\<rparr>"

theorem shipped_modules_collect_enabled_witness:
  "\<exists>name es. tool_errset sample_config name = Inr es \<and> isset ERR_DUPLICATE_CODE es"
proof -
  have "map_option err_type (first_collected (run_tools simian_env simian_state)) = Some ERR_DUPLICATE_CODE"
    by code_simp
  then obtain go st' p vec where "run_tools simian_env simian_state = Inr (go, st')"
    "output_vec st' = Some (Ptr p # vec)" "err_type p = ERR_DUPLICATE_CODE"
    by (auto simp: first_collected_def split: sum.splits option.splits list.splits slot.splits)
  then show ?thesis
    using shipped_modules_collect_enabled [of simian_env _ None simian_state sample_config go st' "Ptr p # vec" p]
    by (simp add: simian_env_def simian_state_def sample_state_def)
qed

end
