(* ===== verification/Config.thy ===== *)
theory Config
  imports Xml_Tree
begin

text \<open>
  config/rbc_config.c and config/configure.c: the program that edits the configuration document. It
  uses libxml2 to add nodes and attributes and to read and write the file; these functions are the
  fields of \<open>libxml\<close>, an argument of the operations. The two static buffers, the output and the shell
  commands are the state. An operation that stores a counter stores the address of the static buffer
  in the document; since the program runs one operation and then writes the file, the value stands
  for it.
\<close>

section \<open>The library and the state\<close>

text \<open>
  \<open>xmlNewTextChild(parent, NULL, name, NULL)\<close> with the new node and the document, \<open>xmlNewProp\<close>,
  \<open>xmlParseFile\<close> on the contents of a file (with blanks kept or not, see \<open>xmlKeepBlanksDefault\<close>) and
  the contents \<open>xmlSaveFormatFile\<close> writes with its argument \<open>format\<close>, which depend on the same setting.
  The type \<open>'f\<close> is that of the contents of files.
\<close>

record 'f libxml =
  xmlNewTextChild :: "rbc_xml_doc \<Rightarrow> rbc_xml_node \<Rightarrow> string \<Rightarrow> rbc_xml_node \<times> rbc_xml_doc"
  xmlNewProp :: "rbc_xml_doc \<Rightarrow> rbc_xml_node \<Rightarrow> string \<Rightarrow> string \<Rightarrow> rbc_xml_doc"
  xmlParseFile :: "bool \<Rightarrow> 'f \<Rightarrow> rbc_xml_doc option"
  xmlSaveFormatFile :: "bool \<Rightarrow> rbc_xml_doc \<Rightarrow> int \<Rightarrow> 'f"

record conf_state =
  c_doc :: "rbc_xml_doc option"
  c_str :: string
  c_number :: string
  c_out :: string
  c_err :: string
  c_cmds :: "string list"

definition conf_init :: "rbc_xml_doc option \<Rightarrow> conf_state" where
  "conf_init doc = \<lparr>c_doc = doc, c_str = ''err_'', c_number = [], c_out = [], c_err = [], c_cmds = []\<rparr>"

definition set_doc :: "rbc_xml_doc \<Rightarrow> conf_state \<Rightarrow> conf_state" where
  "set_doc d st = st\<lparr>c_doc := Some d\<rparr>"

definition printf_out :: "string \<Rightarrow> conf_state \<Rightarrow> conf_state" where
  "printf_out s st = st\<lparr>c_out := c_out st @ s\<rparr>"

definition printf_err :: "string \<Rightarrow> conf_state \<Rightarrow> conf_state" where
  "printf_err s st = st\<lparr>c_err := c_err st @ s\<rparr>"

section \<open>Listings\<close>

definition run_list :: "string res \<Rightarrow> conf_state \<Rightarrow> conf_state res" where
  "run_list r st = rbind r (\<lambda>t. Inr (printf_out t st))"

definition list_all_tools :: "conf_state \<Rightarrow> conf_state res" where
  "list_all_tools st =
     run_list (list_nodes (c_doc st) (tag_path [''installed_tools'']) (Some display_name) None)
       (printf_out ([c_tab, c_tab] @ '' Installed tools:'' @ [c_lf]) st)"

definition list_startup_tools :: "conf_state \<Rightarrow> conf_state res" where
  "list_startup_tools st =
     run_list (list_nodes (c_doc st) (tag_path [''init'', ''tools'']) (Some display_first_attr) None)
       (printf_out ([c_tab, c_tab] @ '' Robocheck startup tools:'' @ [c_lf]) st)"

definition list_errors :: "conf_state \<Rightarrow> conf_state res" where
  "list_errors st =
     run_list (list_nodes (c_doc st) (tag_path [''errors'']) (Some display_err_info) None)
       (printf_out ([c_tab, c_tab] @ '' Registered errors:'' @ [c_lf]) st)"

definition list_tool_info :: "string option \<Rightarrow> conf_state \<Rightarrow> conf_state res" where
  "list_tool_info tool_name st =
     (case tool_name of
        None \<Rightarrow> Inr st
      | Some t \<Rightarrow>
          run_list (list_nodes (c_doc st) (tag_path [''installed_tools'', t]) (Some display_tool_info)
                      (Some (\<lambda>d n. Inr (display_first_attr d n))))
            (printf_out ([c_tab, c_tab] @ '' Tool '' @ t @ '':'' @ [c_lf] @ ''Path:'' @ [c_tab]) st))"

definition list_error_info :: "string option \<Rightarrow> conf_state \<Rightarrow> conf_state res" where
  "list_error_info err_str_id st =
     (case err_str_id of
        None \<Rightarrow> Inr st
      | Some e \<Rightarrow>
          run_list (list_nodes (c_doc st) [TAG_NAME (Some ''errors''), PROPERTY_NAME (Some ''id'') (Some e)]
                      (Some display_err_sumary) (Some display_err_header)) st)"

section \<open>Adding to the document\<close>

text \<open>
  The counter of a node: read, incremented, printed into \<open>__str\<close> (15 characters) and stored. The
  block occurs in five operations.
\<close>

definition bump :: "rbc_xml_node \<Rightarrow> string \<Rightarrow> rbc_xml_doc \<Rightarrow> conf_state \<Rightarrow> conf_state res" where
  "bump node prop d st =
     (case get_node_property d node prop of
        None \<Rightarrow> Inr (set_doc d st)
      | Some v \<Rightarrow>
          rbind (store 15 (fmt_d (int_wrap (atoi v + 1)))) (\<lambda>s.
          rbind (set_node_property_value d node (Some prop) (Some s)) (\<lambda>(_, d1).
            Inr (set_doc d1 (st\<lparr>c_str := s\<rparr>)))))"

text \<open>A new child with one attribute \<open>value\<close>, the entry of every list of the document.\<close>

definition add_entry :: "'f libxml \<Rightarrow> rbc_xml_node \<Rightarrow> string \<Rightarrow> rbc_xml_doc \<Rightarrow> rbc_xml_doc" where
  "add_entry xl parent val d =
     (case xmlNewTextChild xl d parent ''add'' of (n, d1) \<Rightarrow> xmlNewProp xl d1 n ''value'' val)"

definition create_tool ::
  "'f libxml \<Rightarrow> string option \<Rightarrow> string option \<Rightarrow> string option \<Rightarrow> conf_state \<Rightarrow> (int \<times> conf_state) res" where
  "create_tool xl tool_name tool_path tool_ty st =
     (case (c_doc st, tool_name, tool_path, tool_ty) of
        (Some d, Some name, Some path, Some ty) \<Rightarrow>
          if doc_children d = None then Inr (-1, st)
          else
            let root = lookup_node d (doc_children d) (tag_path [''installed_tools'']);
                (new_node, d1) = xmlNewTextChild xl d root name;
                d2 = xmlNewProp xl d1 new_node ''lib_path'' path;
                d3 = xmlNewProp xl d2 new_node ''type'' ty
            in rbind (bump root ''count'' d3 st) (\<lambda>st1.
               rbind (deref (c_doc st1)) (\<lambda>d4.
                 let (param_node, d5) = xmlNewTextChild xl d4 new_node ''parameters'';
                     d6 = xmlNewProp xl d5 param_node ''param_count'' ''0'';
                     (err_node, d7) = xmlNewTextChild xl d6 new_node ''errors'';
                     d8 = xmlNewProp xl d7 err_node ''err_count'' ''0'';
                     (input_node, d9) = xmlNewTextChild xl d8 new_node ''input'';
                     (_, d10) = xmlNewTextChild xl d9 input_node ty
                 in Inr (0, set_doc d10 st1)))
      | _ \<Rightarrow> Inr (-1, st))"

text \<open>
  The body that \<open>register_error\<close> and \<open>register_parameter\<close> share: the list is at \<open>path\<close>, its counter is
  \<open>count_name\<close>, \<open>text\<close> is printed when the value is there already.
\<close>

definition register_in ::
  "'f libxml \<Rightarrow> string list \<Rightarrow> string \<Rightarrow> string \<Rightarrow> string \<Rightarrow> rbc_xml_doc \<Rightarrow> conf_state \<Rightarrow> (int \<times> conf_state) res" where
  "register_in xl path count_name val text d st =
     (let list_node = lookup_node d (doc_children d) (tag_path path);
          node = lookup_node d (doc_children d) (tag_path path @ [PROPERTY_NAME (Some ''value'') (Some val)])
      in if node = None
         then rbind (bump list_node count_name (add_entry xl list_node val d) st) (\<lambda>st1. Inr (0, st1))
         else Inr (-1, printf_out text st))"

definition register_error :: "'f libxml \<Rightarrow> string option \<Rightarrow> string option \<Rightarrow> conf_state \<Rightarrow> (int \<times> conf_state) res" where
  "register_error xl err_id tool_name st =
     (case (c_doc st, err_id, tool_name) of
        (Some d, Some e, Some t) \<Rightarrow>
          if doc_children d = None then Inr (-1, st)
          else register_in xl [''installed_tools'', t, ''errors''] ''err_count'' e
                 (''Error with id='' @ e @ '' allready registered for tool='' @ t @ [c_lf]) d st
      | _ \<Rightarrow> Inr (-1, st))"

text \<open>The path has the literals \<open>tool_name\<close> and \<open>paramteres\<close>.\<close>

definition register_parameter ::
  "'f libxml \<Rightarrow> string option \<Rightarrow> string option \<Rightarrow> conf_state \<Rightarrow> (int \<times> conf_state) res" where
  "register_parameter xl tool_parameter tool_name st =
     (case (c_doc st, tool_parameter, tool_name) of
        (Some d, Some p, Some t) \<Rightarrow>
          if doc_children d = None then Inr (-1, st)
          else register_in xl [''installed_tools'', ''tool_name'', ''paramteres''] ''param_count'' p
                 (''Parameter '' @ p @ '' allready registered for tool='' @ t @ [c_lf]) d st
      | _ \<Rightarrow> Inr (-1, st))"

text \<open>\<open>property_node->children->content = v\<close> for the first attribute.\<close>

definition set_first_attr :: "nat list \<Rightarrow> string \<Rightarrow> rbc_xml_doc \<Rightarrow> rbc_xml_doc" where
  "set_first_attr p v d =
     set_node p (\<lambda>n. Node (n_type n) (n_name n)
       (case properties n of [] \<Rightarrow> [] | a # as \<Rightarrow> a\<lparr>a_value := Some (Some v)\<rparr> # as) (n_children n) (n_content n)) d"

definition first_attr :: "rbc_xml_doc \<Rightarrow> nat list \<Rightarrow> xml_attr option" where
  "first_attr d p =
     (case node_at d p of None \<Rightarrow> None | Some n \<Rightarrow> (case properties n of [] \<Rightarrow> None | a # _ \<Rightarrow> Some a))"

text \<open>\<open>str_number\<close> has 10 characters.\<close>

definition inc_err_count :: "conf_state \<Rightarrow> (int \<times> conf_state) res" where
  "inc_err_count st =
     (case c_doc st of
        None \<Rightarrow> Inr (0, st)
      | Some d \<Rightarrow>
          (case lookup_node d (doc_children d) (tag_path [''init'', ''err_count'']) of
             None \<Rightarrow> Inr (0, st)
           | Some p \<Rightarrow>
               (case first_attr d p of
                  None \<Rightarrow> Inr (0, st)
                | Some a \<Rightarrow>
                    (case attr_text a of
                       None \<Rightarrow> Inr (0, st)
                     | Some v \<Rightarrow>
                         (let err_count = int_wrap (atoi v + 1)
                          in rbind (store 10 (fmt_d err_count)) (\<lambda>s.
                               Inr (err_count, set_doc (set_first_attr p s d) (st\<lparr>c_number := s\<rparr>))))))))"

section \<open>Names of error codes\<close>

text \<open>\<open>ok\<close> says whether \<open>malloc\<close> succeeds; if not, the length is subtracted from NULL.\<close>

definition make_upper_case :: "bool \<Rightarrow> string option \<Rightarrow> string option res" where
  "make_upper_case ok str =
     (case str of
        None \<Rightarrow> Inr None
      | Some s \<Rightarrow> if ok then Inr (Some (map c_toupper s)) else if s = [] then Inr None else Inl Null_Deref)"

text \<open>
  \<open>mal k\<close> is the result of the \<open>k\<close>-th allocation: \<open>None\<close> if it fails, otherwise what \<open>strlen\<close> finds in
  the fresh memory, which \<open>emit_enum_string\<close> uses before it writes there. The buffer has one character
  more than the description.
\<close>

definition emit_enum_string :: "(nat \<Rightarrow> nat option) \<Rightarrow> string option \<Rightarrow> string option res" where
  "emit_enum_string mal str =
     (case (str, mal 0) of
        (Some s, Some junk) \<Rightarrow>
          if length s < junk then Inl Out_Of_Bounds
          else (case strtok s '' '' of
                  None \<Rightarrow> Inr (Some [])
                | Some (token1, r) \<Rightarrow>
                    rbind (make_upper_case (mal 1 \<noteq> None) (Some token1)) (\<lambda>u1.
                    rbind (case u1 of None \<Rightarrow> Inr [] | Some u \<Rightarrow> store (length s + 1) (''ERR_'' @ u)) (\<lambda>buf.
                      case strtok r '' '' of
                        None \<Rightarrow> Inr (Some buf)
                      | Some (token2, _) \<Rightarrow>
                          rbind (make_upper_case (mal 2 \<noteq> None) (Some token2)) (\<lambda>u2.
                          rbind (case u2 of None \<Rightarrow> Inr buf
                                 | Some u \<Rightarrow> store (length s + 1) (buf @ ''_'' @ u)) (\<lambda>buf2.
                            Inr (Some buf2))))))
      | _ \<Rightarrow> Inr None)"

text \<open>Not called any more: \<open>--create-error\<close> only prints that it is deprecated.\<close>

definition create_error ::
  "'f libxml \<Rightarrow> (nat \<Rightarrow> nat option) \<Rightarrow> string option \<Rightarrow> conf_state \<Rightarrow> (int \<times> conf_state) res" where
  "create_error xl mal err_description st =
     (case (c_doc st, err_description) of
        (Some d, Some desc) \<Rightarrow>
          (case lookup_node d (doc_children d) (tag_path [''errors'']) of
             None \<Rightarrow> Inr (0, st)
           | Some p \<Rightarrow>
               rbind (inc_err_count st) (\<lambda>(_, st1).
               rbind (store 15 (c_str st1 @ c_number st1)) (\<lambda>name.
               rbind (deref (c_doc st1)) (\<lambda>d0.
                 let (node, d1) = xmlNewTextChild xl d0 (Some p) name;
                     d2 = xmlNewProp xl d1 node ''id'' (c_number st1);
                     d3 = xmlNewProp xl d2 node ''name'' desc
                 in rbind (emit_enum_string mal (Some desc)) (\<lambda>enum_err.
                    rbind (deref enum_err) (\<lambda>e.
                    rbind (store 1024 (''bash add_line.sh ERR_MAX '' @ e @ '' '' @ [c_dquote] @ desc @ [c_dquote] @
                                       '' lib/rbc_err_codes.h'')) (\<lambda>cmd.
                      Inr (0, set_doc d3 (st1\<lparr>c_str := name, c_cmds := c_cmds st1 @ [cmd]\<rparr>)))))))))
      | _ \<Rightarrow> Inr (0, st))"

section \<open>Input, penalties and tools\<close>

definition add_static_parameter :: "'f libxml \<Rightarrow> string option \<Rightarrow> conf_state \<Rightarrow> (int \<times> conf_state) res" where
  "add_static_parameter xl file_name st =
     (case (c_doc st, file_name) of
        (Some d, Some f) \<Rightarrow>
          (let input_node = lookup_node d (doc_children d) (tag_path [''init'', ''input'']);
               static_node = lookup_node d (doc_children d) (tag_path [''init'', ''input'', ''static''])
           in if input_node = None then Inr (-1, st)
              else let (s, d1) = (if static_node = None
                                  then (case xmlNewTextChild xl d input_node ''static'' of
                                          (n, d0) \<Rightarrow> (n, xmlNewProp xl d0 n ''file_count'' ''0''))
                                  else (static_node, d))
                   in rbind (bump s ''file_count'' (add_entry xl s f d1) st) (\<lambda>st1. Inr (0, st1)))
      | _ \<Rightarrow> Inr (-1, st))"

definition set_exec :: "'f libxml \<Rightarrow> string option \<Rightarrow> conf_state \<Rightarrow> (int \<times> conf_state) res" where
  "set_exec xl ex_name st =
     (case (c_doc st, ex_name) of
        (Some d, Some ex) \<Rightarrow>
          (let input_node = lookup_node d (doc_children d) (tag_path [''init'', ''input'']);
               dynamic_node = lookup_node d (doc_children d) (tag_path [''init'', ''input'', ''dynamic''])
           in if input_node = None then Inr (-1, st)
              else (case dynamic_node of
                      None \<Rightarrow>
                        (case xmlNewTextChild xl d input_node ''dynamic'' of
                           (n, d1) \<Rightarrow>
                             Inr (0, set_doc (xmlNewProp xl (xmlNewProp xl d1 n ''value'' ex) n ''arg_count'' ''0'') st))
                    | Some p \<Rightarrow>
                        (case first_attr d p of
                           None \<Rightarrow> Inr (0, set_doc (xmlNewProp xl d (Some p) ''value'' ex) st)
                         | Some a \<Rightarrow>
                             (case attr_text a of
                                None \<Rightarrow> Inr (0, st)
                              | Some _ \<Rightarrow> Inr (0, set_doc (set_first_attr p ex d) st)))))
      | _ \<Rightarrow> Inr (-1, st))"

definition add_dynamic_parameter :: "'f libxml \<Rightarrow> string option \<Rightarrow> conf_state \<Rightarrow> (int \<times> conf_state) res" where
  "add_dynamic_parameter xl parameter st =
     (case (c_doc st, parameter) of
        (Some d, Some v) \<Rightarrow>
          (let dynamic_node = lookup_node d (doc_children d) (tag_path [''init'', ''input'', ''dynamic''])
           in if dynamic_node = None then Inr (-1, st)
              else rbind (bump dynamic_node ''arg_count'' (add_entry xl dynamic_node v d) st) (\<lambda>st1. Inr (0, st1)))
      | _ \<Rightarrow> Inr (-1, st))"

text \<open>Setting several attributes of a node; the results are not used.\<close>

definition set_props :: "rbc_xml_node \<Rightarrow> (string \<times> string) list \<Rightarrow> rbc_xml_doc \<Rightarrow> rbc_xml_doc res" where
  "set_props node kvs d =
     rfold (\<lambda>(k, v) d. rbind (set_node_property_value d node (Some k) (Some v)) (\<lambda>(_, d1). Inr d1)) kvs d"

definition add_err_details ::
  "'f libxml \<Rightarrow> string option \<Rightarrow> string option \<Rightarrow> string option \<Rightarrow> string option \<Rightarrow> string option \<Rightarrow>
   conf_state \<Rightarrow> (int \<times> conf_state) res" where
  "add_err_details xl err_id description count_str value_str type_str st =
     (case (c_doc st, err_id, description, count_str, value_str, type_str) of
        (Some d, Some e, Some de, Some c, Some v, Some t) \<Rightarrow>
          (let err_node = lookup_node d (doc_children d)
                            [TAG_NAME (Some ''errors''), PROPERTY_NAME (Some ''id'') (Some e)];
               child_node = get_next_node d (get_child d err_node);
               kvs = [(''key'', de), (''count'', c), (''value'', v), (''type'', t)]
           in if err_node = None then Inr (-1, st)
              else if child_node = None
              then (case xmlNewTextChild xl d err_node ''add'' of
                      (n, d1) \<Rightarrow> Inr (0, set_doc (fold (\<lambda>(k, v) d. xmlNewProp xl d n k v) kvs d1) st))
              else rbind (set_props child_node kvs d) (\<lambda>d1. Inr (0, set_doc d1 st)))
      | _ \<Rightarrow> Inr (-1, st))"

definition register_tool :: "'f libxml \<Rightarrow> string option \<Rightarrow> conf_state \<Rightarrow> (int \<times> conf_state) res" where
  "register_tool xl tool_name st =
     (case (c_doc st, tool_name) of
        (Some d, Some t) \<Rightarrow>
          if lookup_node d (doc_children d) (tag_path [''installed_tools'', t]) = None
          then Inr (-1, printf_err (''Given tool is not installed: '' @ t @ ''.'' @ [c_lf]) st)
          else (let node = lookup_node d (doc_children d) (tag_path [''init'', ''tools''])
                in if node = None
                   then Inr (-1, printf_err (''Unexpected format for XML config file.'' @ [c_lf]) st)
                   else rbind (bump node ''count'' (add_entry xl node t d) st) (\<lambda>st1. Inr (0, st1)))
      | _ \<Rightarrow> Inr (-1, st))"

definition set_libpenalty_info :: "string option \<Rightarrow> string option \<Rightarrow> conf_state \<Rightarrow> (int \<times> conf_state) res" where
  "set_libpenalty_info load_str lib_path st =
     (case (c_doc st, load_str, lib_path) of
        (Some d, Some l, Some p) \<Rightarrow>
          if l = ''true'' \<or> l = ''false''
          then (let node = lookup_node d (doc_children d) (tag_path [''init'', ''penalty''])
                in if node = None then Inr (-1, printf_err (''Invalid XML format.'' @ [c_lf]) st)
                   else rbind (set_props node [(''load'', l), (''lib_path'', p)] d) (\<lambda>d1. Inr (0, set_doc d1 st)))
          else Inr (-1, printf_err (''Invalid penalty option. Try true or false.'' @ [c_lf]) st)
      | _ \<Rightarrow> Inr (-1, st))"

section \<open>The program\<close>

definition help_text :: string where
  "help_text = concat (map (\<lambda>s. s @ [c_lf])
     [''--list-all-tools'',
      ''--list-startup-tools'',
      ''--list-tool-info [tool name]'',
      ''--list-err-info [error ID]'',
      ''--list-all-errors'',
      ''--create-tool [Tool Name] [Tool Path] [Tool type]'',
      ''--register-tool [Tool Name]'',
      ''--create-error [error description]'',
      ''--register-error [error ID] [tool name]'',
      ''--register-parameter [tool running parameter] [tool name]'',
      ''--add-static-parameter [source name]'',
      ''--set-executable [executable]'',
      ''--add-dynamic-parameter [executable parameter]'',
      ''--add-error-details [error ID] [penalty additional info] [error count] [penalty value] [penalty value type]'',
      ''--set-penalty-info [true/false] [libpenalty path].''])"

text \<open>An argument of the command line, and an operation that needs more than \<open>n\<close> of them.\<close>

definition argn :: "string list \<Rightarrow> nat \<Rightarrow> string option" where
  "argn argv i = (if i < length argv then Some (argv ! i) else None)"

definition needs ::
  "string list \<Rightarrow> nat \<Rightarrow> string \<Rightarrow> (conf_state \<Rightarrow> (int \<times> conf_state) res) \<Rightarrow> conf_state \<Rightarrow> conf_state res" where
  "needs argv n usage f st =
     (if n < length argv then rbind (f st) (\<lambda>(_, st1). Inr st1) else Inr (printf_out (usage @ [c_lf]) st))"

definition listing :: "(conf_state \<Rightarrow> conf_state res) \<Rightarrow> conf_state \<Rightarrow> (int \<times> conf_state) res" where
  "listing f st = rbind (f st) (\<lambda>st1. Inr (0, st1))"

definition dispatch :: "'f libxml \<Rightarrow> string list \<Rightarrow> conf_state \<Rightarrow> conf_state res" where
  "dispatch xl argv st =
     (let cmd = argv ! 1
      in if cmd = ''--help'' then Inr (printf_out help_text st)
         else if cmd = ''--list-all-tools'' then list_all_tools st
         else if cmd = ''--list-startup-tools'' then list_startup_tools st
         else if cmd = ''--list-tool-info''
         then needs argv 2 ''Required tool name.'' (listing (list_tool_info (argn argv 2))) st
         else if cmd = ''--list-err-info''
         then needs argv 2 ''Required error ID.'' (listing (list_error_info (argn argv 2))) st
         else if cmd = ''--list-all-errors'' then list_errors st
         else if cmd = ''--create-tool''
         then needs argv 4 ''Required: Tool Name, Tool Path, Tool type.''
                (create_tool xl (argn argv 2) (argn argv 3) (argn argv 4)) st
         else if cmd = ''--register-tool''
         then needs argv 2 ''Required: Tool Name.'' (register_tool xl (argn argv 2)) st
         else if cmd = ''--create-error''
         then needs argv 2 ''Required error description.''
                (\<lambda>st. Inr (0, printf_out (''Deprecated!'' @ [c_lf]) st)) st
         else if cmd = ''--register-error''
         then needs argv 3 ''Required: error ID, tool name.'' (register_error xl (argn argv 2) (argn argv 3)) st
         else if cmd = ''--register-parameter''
         then needs argv 3 ''Required: tool running parameter,tool name.''
                (register_parameter xl (argn argv 2) (argn argv 3)) st
         else if cmd = ''--add-static-parameter''
         then needs argv 2 ''Required file source name.'' (add_static_parameter xl (argn argv 2)) st
         else if cmd = ''--set-executable''
         then needs argv 2 ''Required executable.'' (set_exec xl (argn argv 2)) st
         else if cmd = ''--add-dynamic-parameter''
         then needs argv 2 ''Required parameter for executable.'' (add_dynamic_parameter xl (argn argv 2)) st
         else if cmd = ''--add-error-details''
         then needs argv 6 ''Required: error ID, penalty additional info, error count, penalty value, type.''
                (add_err_details xl (argn argv 2) (argn argv 3) (argn argv 4) (argn argv 5) (argn argv 6)) st
         else if cmd = ''--set-penalty-info''
         then needs argv 3 ''Required: true/false, libpenalty path.''
                (set_libpenalty_info (argn argv 2) (argn argv 3)) st
         else Inr st)"

text \<open>
  The text of the file after \<open>indent_xml_file\<close>, with the result; \<open>xmlKeepBlanksDefault(0)\<close> makes both
  calls that follow it ones without blanks.
\<close>

definition indent_xml_file :: "'f libxml \<Rightarrow> 'f option \<Rightarrow> int \<times> 'f option" where
  "indent_xml_file xl text =
     (case text of
        None \<Rightarrow> (-1, None)
      | Some t \<Rightarrow>
          (case xmlParseFile xl False t of
             None \<Rightarrow> (-1, Some t)
           | Some d \<Rightarrow> (0, Some (xmlSaveFormatFile xl False d 1))))"

text \<open>
  \<open>main\<close>, on the text of rbc_config.xml (\<open>None\<close> when it cannot be read): its new text and what was
  printed.
\<close>

definition configure_main :: "'f libxml \<Rightarrow> string list \<Rightarrow> 'f option \<Rightarrow> ('f option \<times> string \<times> string) res" where
  "configure_main xl argv text =
     (if length argv \<le> 1 then Inr (text, ''Insufficient parameter count.'', [])
      else case Option.bind text (xmlParseFile xl True) of
             None \<Rightarrow> Inr (text, ''rbc_config.xml cannot be found.'' @ [c_lf], [])
           | Some d \<Rightarrow>
               rbind (dispatch xl argv (conf_init (Some d))) (\<lambda>st.
               rbind (deref (c_doc st)) (\<lambda>d1.
                 Inr (snd (indent_xml_file xl (Some (xmlSaveFormatFile xl True d1 1))), c_out st, c_err st))))"

end
