(* ===== verification/Config_Facts.thy ===== *)
theory Config_Facts
  imports Config
begin

text \<open>
  Facts on the configuration program: editing the node a path of tags leads to is described by
  \<open>spec_edit\<close> on the tree, and the operations that register something are such edits. The laws of
  libxml2 that the code relies on are the locale \<open>libxml_spec\<close>.
\<close>

section \<open>Editing at a path\<close>

definition with_kids :: "(xml_node list \<Rightarrow> xml_node list) \<Rightarrow> xml_node \<Rightarrow> xml_node" where
  "with_kids g n = Node (n_type n) (n_name n) (properties n) (g (n_children n)) (n_content n)"

definition with_props :: "(xml_attr list \<Rightarrow> xml_attr list) \<Rightarrow> xml_node \<Rightarrow> xml_node" where
  "with_props g n = Node (n_type n) (n_name n) (g (properties n)) (n_children n) (n_content n)"

lemma with_simps [simp]:
  "n_type (with_kids g n) = n_type n" "n_name (with_kids g n) = n_name n"
  "properties (with_kids g n) = properties n" "n_children (with_kids g n) = g (n_children n)"
  "n_type (with_props h n) = n_type n" "n_name (with_props h n) = n_name n"
  "properties (with_props h n) = h (properties n)" "n_children (with_props h n) = n_children n"
  "n_content (with_kids g n) = n_content n" "n_content (with_props h n) = n_content n"
  by (simp_all add: with_kids_def with_props_def)

lemma upd_nth_simps [simp]:
  "length (upd_nth i f ks) = length ks" "upd_nth 0 f (n # ks) = f n # ks"
  "upd_nth (length ks) f (ks @ [n]) = ks @ [f n]"
  by (auto simp: upd_nth_def)

lemma upd_nth_comp: "upd_nth i f (upd_nth i g ks) = upd_nth i (f \<circ> g) ks"
  by (simp add: upd_nth_def)

lemma upd_nth_cong: "(i < length ks \<Longrightarrow> f (ks ! i) = g (ks ! i)) \<Longrightarrow> upd_nth i f ks = upd_nth i g ks"
  by (simp add: upd_nth_def)

lemma set_kids_fwd_Cons: "set_kids_fwd (i # is) g ks = upd_nth i (with_kids (set_kids_fwd is g)) ks"
  by (simp add: upd_nth_def with_kids_def)

lemma set_kids_fwd_snoc: "set_kids_fwd (is @ [i]) g = set_kids_fwd is (upd_nth i (with_kids g))"
proof (induction "is")
  case (Cons j js)
  show ?case
    by (rule ext) (simp only: append_Cons set_kids_fwd_Cons Cons.IH)
qed (simp add: fun_eq_iff upd_nth_def with_kids_def)

lemma set_kids_fwd_comp: "set_kids_fwd is f (set_kids_fwd is g ks) = set_kids_fwd is (f \<circ> g) ks"
proof (induction "is" arbitrary: ks)
  case (Cons i "is")
  have "with_kids (set_kids_fwd is f) \<circ> with_kids (set_kids_fwd is g) = with_kids (set_kids_fwd is (f \<circ> g))"
    using Cons.IH by (intro ext) (simp add: with_kids_def comp_def)
  then show ?case by (simp only: set_kids_fwd_Cons upd_nth_comp)
qed simp

lemma set_kids_fwd_cong: "f (kids_fwd is ks) = g (kids_fwd is ks) \<Longrightarrow> set_kids_fwd is f ks = set_kids_fwd is g ks"
proof (induction "is" arbitrary: ks)
  case (Cons i "is")
  show ?case
    unfolding set_kids_fwd_Cons using Cons by (intro upd_nth_cong) (simp add: with_kids_def)
qed simp

lemma set_kids_comp: "set_kids p f (set_kids p g d) = set_kids p (f \<circ> g) d"
  by (simp add: set_kids_def set_kids_fwd_comp)

lemma set_kids_cong: "f (kids d p) = g (kids d p) \<Longrightarrow> set_kids p f d = set_kids p g d"
  unfolding set_kids_def kids_fwd by (rule set_kids_fwd_cong)

lemma set_kids_set_node: "p \<noteq> [] \<Longrightarrow> set_kids p g d = set_node p (with_kids g) d"
  by (cases p) (simp_all add: set_kids_def set_kids_fwd_snoc)

lemma set_node_comp: "set_node p f (set_node p g d) = set_node p (f \<circ> g) d"
proof (cases p)
  case (Cons i q)
  have "upd_nth i f \<circ> upd_nth i g = upd_nth i (f \<circ> g)" by (simp add: fun_eq_iff upd_nth_comp)
  then show ?thesis using Cons by (simp add: set_kids_comp)
qed simp

lemma set_node_cong: "node_at d p = Some n \<Longrightarrow> f n = g n \<Longrightarrow> set_node p f d = set_node p g d"
  by (cases p) (auto intro!: set_kids_cong simp: upd_nth_def split: if_splits)

lemma kids_fwd_set: "kids_fwd is (set_kids_fwd is g ks) = g (kids_fwd is ks) \<or> kids_fwd is ks = []"
  by (induction "is" arbitrary: ks) auto

lemma node_at_set_node [simp]:
  assumes "node_at d p = Some n"
  shows "node_at (set_node p f d) p = Some (f n)"
proof -
  obtain i q where p: "p = i # q" and i: "i < length (kids d q)" and n: "n = kids d q ! i"
    using assms by (cases p) (auto split: if_splits)
  have "kids (set_node p f d) q = upd_nth i f (kids d q)"
    using kids_fwd_set [of "rev q" "upd_nth i f" d] i by (auto simp: p set_kids_def kids_fwd)
  then show ?thesis using i n by (simp add: p upd_nth_def)
qed

text \<open>A new child that is then changed.\<close>

lemma new_child_set:
  assumes "p \<noteq> []"
  shows "set_node (length (kids d p) # p) f (set_node p (with_kids (\<lambda>ks. ks @ [n])) d) =
         set_node p (with_kids (\<lambda>ks. ks @ [f n])) d"
proof -
  have "set_kids p (upd_nth (length (kids d p)) f \<circ> (\<lambda>ks. ks @ [n])) d = set_kids p (\<lambda>ks. ks @ [f n]) d"
    by (rule set_kids_cong) simp
  then show ?thesis using assms by (simp add: set_kids_comp flip: set_kids_set_node)
qed

section \<open>The tree view\<close>

text \<open>The position of the first child with a tag, and the edit of the node a path of tags leads to.\<close>

fun tag_index :: "string \<Rightarrow> xml_node list \<Rightarrow> nat option" where
  "tag_index t [] = None"
| "tag_index t (n # ns) = (if no_text n \<and> n_name n = t then Some 0 else map_option Suc (tag_index t ns))"

primrec spec_edit :: "string list \<Rightarrow> (xml_node \<Rightarrow> xml_node) \<Rightarrow> xml_node \<Rightarrow> xml_node" where
  "spec_edit [] f n = f n"
| "spec_edit (t # ts) f n =
     (case tag_index t (n_children n) of None \<Rightarrow> n | Some i \<Rightarrow> with_kids (upd_nth i (spec_edit ts f)) n)"

lemma tag_index_find:
  "List.find (\<lambda>m. no_text m \<and> n_name m = t) ks = map_option (\<lambda>i. ks ! i) (tag_index t ks)"
  by (induction ks) (auto simp: option.map_comp comp_def)

lemma tag_index_less: "tag_index t ks = Some i \<Longrightarrow> i < length ks"
  by (induction ks arbitrary: i) (auto split: if_splits)

text \<open>An edit keeps the tags that lead to it.\<close>

definition keeps_tag :: "(xml_node \<Rightarrow> xml_node) \<Rightarrow> bool" where
  "keeps_tag f \<longleftrightarrow> (\<forall>n. n_name (f n) = n_name n \<and> n_type (f n) = n_type n)"

lemma keeps_tag_with [simp]: "keeps_tag (with_kids g)" "keeps_tag (with_props h)"
  by (simp_all add: keeps_tag_def)

lemma keeps_tag_comp [simp]: "keeps_tag f \<Longrightarrow> keeps_tag g \<Longrightarrow> keeps_tag (f \<circ> g)"
  by (simp add: keeps_tag_def)

lemma keeps_tag_edit [simp]: "keeps_tag f \<Longrightarrow> keeps_tag (spec_edit ts f)"
  by (cases ts) (auto simp: keeps_tag_def split: option.splits)

lemma tag_index_upd: "keeps_tag f \<Longrightarrow> tag_index t (upd_nth i f ks) = tag_index t ks"
proof (induction ks arbitrary: i)
  case (Cons n ks)
  have "upd_nth (Suc k) f (n # ks) = n # upd_nth k f ks" for k by (simp add: upd_nth_def)
  then show ?case using Cons by (cases i) (simp_all add: keeps_tag_def no_text_def)
qed (simp add: upd_nth_def)

lemma spec_lookup_edit:
  assumes "keeps_tag f"
  shows "spec_lookup (spec_edit ts f n) ts = map_option f (spec_lookup n ts)"
proof (induction ts arbitrary: n)
  case (Cons t ts)
  show ?case
  proof (cases "tag_index t (n_children n)")
    case None
    then show ?thesis by (simp add: tag_index_find)
  next
    case (Some i)
    then show ?thesis
      using Cons.IH tag_index_less [OF Some] assms
      by (simp add: tag_index_find tag_index_upd) (simp add: upd_nth_def)
  qed
qed simp

section \<open>Paths of tags\<close>

lemma node_seq_index:
  assumes "i < length (kids d p)" and "no_text (kids d p ! i)" and "indented (drop (Suc i) (kids d p))"
  shows "node_seq d (Some (i # p)) = map (\<lambda>j. j # p) (filter (\<lambda>j. no_text (kids d p ! j)) [i..<length (kids d p)])"
  using assms
proof (induction "length (kids d p) - i" arbitrary: i rule: less_induct)
  case less
  define ks where "ks = kids d p"
  have up: "[i..<length ks] = i # [Suc i..<length ks]" using less.prems(1) by (simp add: ks_def upt_rec)
  show ?case
  proof (cases "drop (Suc i) ks" rule: indented.cases)
    case 1
    then have "length ks = Suc i" using less.prems(1) by (simp add: ks_def)
    then show ?thesis using less.prems(1,2) by (simp add: get_next_node_def node_ptr_def ks_def)
  next
    case (2 t)
    have "length (drop (Suc i) ks) = Suc 0" by (simp only: 2 list.size)
    then have l: "length ks = Suc (Suc i)" by simp
    have "ks ! Suc i = t" using 2 l by (metis Cons_nth_drop_Suc lessI list.inject)
    moreover have "\<not> no_text t" using less.prems(3) 2 by (simp add: ks_def)
    ultimately have "\<not> no_text (ks ! Suc i)" by simp
    moreover from this have "get_next_node d (Some (i # p)) = None"
      using l by (simp add: get_next_node_def node_ptr_def is_text_def no_text_def flip: ks_def)
    moreover have "[i..<length ks] = [i, Suc i]" using l by simp
    ultimately show ?thesis using less.prems(2) by (simp flip: ks_def)
  next
    case (3 t e r)
    have l: "Suc (Suc i) < length ks" using arg_cong [OF 3, of length] by simp
    have "drop (Suc i) ks = ks ! Suc i # ks ! Suc (Suc i) # drop (Suc (Suc (Suc i))) ks"
      using l by (simp add: Cons_nth_drop_Suc)
    with 3 have e: "ks ! Suc i = t" "ks ! Suc (Suc i) = e" "drop (Suc (Suc (Suc i))) ks = r" by auto
    have ind: "\<not> no_text t" "no_text e" "indented r" using less.prems(3) 3 by (simp_all add: ks_def)
    have next1: "get_next_node d (Some (i # p)) = Some (Suc (Suc i) # p)"
      using l e ind(1) by (simp add: get_next_node_def node_ptr_def is_text_def no_text_def flip: ks_def)
    have up2: "[Suc i..<length ks] = Suc i # [Suc (Suc i)..<length ks]" using l by (simp add: upt_rec)
    show ?thesis
      using less.hyps [of "Suc (Suc i)"] l e ind next1 up up2 less.prems(2) by (simp flip: ks_def)
  qed
qed

lemma node_seq_children:
  assumes "indented (kids d p)"
  shows "node_seq d (get_next_node d (get_child d (Some p))) =
         map (\<lambda>j. j # p) (filter (\<lambda>j. no_text (kids d p ! j)) [0..<length (kids d p)])"
proof (cases "kids d p" rule: indented.cases)
  case (3 t e r)
  have l: "Suc 0 < length (kids d p)" using arg_cong [OF 3, of length] by simp
  have ind: "\<not> no_text t" "no_text e" "indented r" using assms 3 by simp_all
  have "get_next_node d (get_child d (Some p)) = Some (Suc 0 # p)"
    using 3 ind by (simp add: get_child_def get_next_node_def node_ptr_def is_text_def no_text_def)
  moreover have "[0..<length (kids d p)] = 0 # [Suc 0..<length (kids d p)]"
    using l by (subst upt_conv_Cons) auto
  ultimately show ?thesis
    using node_seq_index [of "Suc 0" d p] 3 ind by simp
qed (use assms in \<open>auto simp: get_child_def get_next_node_def node_ptr_def\<close>)

lemma find_index:
  "List.find (\<lambda>j. n_name (ks ! j) = t) (filter (\<lambda>j. no_text (ks ! j)) [0..<length ks]) = tag_index t ks"
proof (induction ks)
  case (Cons n ks)
  have up: "[0..<length (n # ks)] = 0 # map Suc [0..<length ks]"
    by (subst upt_conv_Cons) (simp_all add: map_Suc_upt del: upt_Suc)
  have m: "filter (\<lambda>j. no_text ((n # ks) ! j)) (map Suc [0..<length ks]) =
           map Suc (filter (\<lambda>j. no_text (ks ! j)) [0..<length ks])"
    by (simp add: filter_map comp_def)
  have f: "List.find P (map Suc xs) = map_option Suc (List.find (\<lambda>j. P (Suc j)) xs)" for P xs
    by (induction xs) auto
  show ?case unfolding up using Cons.IH by (simp add: m f)
qed simp

lemma find_append:
  "List.find P (xs @ ys) = (case List.find P xs of None \<Rightarrow> List.find P ys | Some x \<Rightarrow> Some x)"
  by (induction xs) auto

lemma find_map: "List.find P (map g xs) = map_option g (List.find (\<lambda>x. P (g x)) xs)"
  by (induction xs) auto

lemma find_cong: "(\<And>x. x \<in> set xs \<Longrightarrow> P x \<longleftrightarrow> Q x) \<Longrightarrow> List.find P xs = List.find Q xs"
  by (induction xs) auto

lemma lookup_step_index:
  assumes "node_at d p = Some n" and "indented (n_children n)"
  shows "lookup_step d (TAG_NAME (Some t)) (Some p) = map_option (\<lambda>i. i # p) (tag_index t (n_children n))"
proof -
  have ks: "kids d p = n_children n" using kids_children [OF assms(1)] .
  have "lookup_step d (TAG_NAME (Some t)) (Some p) =
        map_option (\<lambda>j. j # p) (List.find (\<lambda>j. filter_match d (TAG_NAME (Some t)) (j # p))
          (filter (\<lambda>j. no_text (n_children n ! j)) [0..<length (n_children n)]))"
    using node_seq_children [of d p] assms(2) by (simp add: lookup_step_def ks find_map)
  also have "\<dots> = map_option (\<lambda>j. j # p) (List.find (\<lambda>j. n_name (n_children n ! j) = t)
          (filter (\<lambda>j. no_text (n_children n ! j)) [0..<length (n_children n)]))"
    using ks by (intro arg_cong [where f = "map_option _"] find_cong) (auto simp: check_node_name_def node_of_def)
  finally show ?thesis by (simp only: find_index)
qed

lemma all_indented_kids: "all_indented n \<Longrightarrow> indented (n_children n) \<and> (\<forall>k\<in>set (n_children n). all_indented k)"
  by (cases n) simp

lemma lookup_edit:
  "node_at d p = Some n \<Longrightarrow> all_indented n \<Longrightarrow> lookup_node d (Some p) (tag_path ts) = Some q \<Longrightarrow>
   set_node q f d = set_node p (spec_edit ts f) d"
proof (induction ts arbitrary: p n)
  case Nil
  then show ?case by (auto intro: arg_cong [where f = "\<lambda>g. set_node p g d"])
next
  case (Cons t ts)
  note ind = all_indented_kids [OF Cons.prems(2)]
  obtain i where i: "tag_index t (n_children n) = Some i"
    and q: "lookup_node d (Some (i # p)) (tag_path ts) = Some q"
    using Cons.prems(3) lookup_step_index [OF Cons.prems(1), of t] ind by (auto split: option.splits)
  note ks = kids_children [OF Cons.prems(1)]
  have at: "node_at d (i # p) = Some (n_children n ! i)" using tag_index_less [OF i] ks by simp
  have "set_node q f d = set_node (i # p) (spec_edit ts f) d"
    using Cons.IH [OF at _ q] ind tag_index_less [OF i] by simp
  also have "\<dots> = set_node p (with_kids (upd_nth i (spec_edit ts f))) d"
    using Cons.prems(1) by (cases p) (simp_all add: set_kids_set_node)
  also have "\<dots> = set_node p (spec_edit (t # ts) f) d"
    using i by (intro set_node_cong [OF Cons.prems(1)]) simp
  finally show ?case .
qed

text \<open>In a document with one top node.\<close>

lemma lookup_root:
  assumes "all_indented root" and "spec_lookup root ts = Some n"
  obtains q where "lookup_node [root] (doc_children [root]) (tag_path ts) = Some q" and "node_at [root] q = Some n"
    and "q \<noteq> []" and "\<And>f. set_node q f [root] = [spec_edit ts f root]"
proof -
  have at: "node_at [root] [0] = Some root" and dc: "doc_children [root] = Some [0]"
    by (simp_all add: doc_children_def node_ptr_def)
  have "node_of [root] (lookup_node [root] (Some [0]) (tag_path ts)) = Some n"
    using lookup_node_spec [OF at assms(1)] assms(2) by simp
  then obtain q where q: "lookup_node [root] (Some [0]) (tag_path ts) = Some q" "node_at [root] q = Some n"
    by (auto simp: node_of_def split: option.splits)
  have "set_node q f [root] = [spec_edit ts f root]" for f
    using lookup_edit [OF at assms(1) q(1), of f] by (simp add: set_kids_def)
  moreover have "q \<noteq> []" using q(2) by auto
  ultimately show thesis using that q dc by simp
qed

lemma lookup_node_valid: "valid_ptr d root \<Longrightarrow> valid_ptr d (lookup_node d root fs)"
proof (induction fs arbitrary: root)
  case (Cons f fs)
  then show ?case using lookup_step_valid [of d f root] by (cases "lookup_step d f root") simp_all
qed simp

lemma lookup_root_Some:
  "all_indented root \<Longrightarrow> spec_lookup root ts = Some n \<Longrightarrow>
   lookup_node [root] (doc_children [root]) (tag_path ts) \<noteq> None"
  by (erule (1) lookup_root) simp

lemma lookup_root_None:
  assumes "all_indented root" and "spec_lookup root ts = None"
  shows "lookup_node [root] (doc_children [root]) (tag_path ts) = None"
proof (rule ccontr)
  assume "\<not> ?thesis"
  moreover have "node_of [root] (lookup_node [root] (Some [0]) (tag_path ts)) = None"
    using lookup_node_spec [of "[root]" "[0]" root ts] assms by simp
  moreover have "valid_ptr [root] (lookup_node [root] (Some [0]) (tag_path ts))"
    by (rule lookup_node_valid) simp
  ultimately show False
    by (auto simp: doc_children_def node_ptr_def node_of_def valid_ptr_def)
qed

section \<open>Attributes and counters\<close>

primrec put_prop :: "string \<Rightarrow> string \<Rightarrow> xml_attr list \<Rightarrow> xml_attr list" where
  "put_prop name v [] = []"
| "put_prop name v (a # as) =
     (if a_name a = name then a\<lparr>a_value := Some (Some v)\<rparr> # as else a # put_prop name v as)"

lemma set_prop_put: "find_prop as name = Some c \<Longrightarrow> set_prop as name v = Inr (Some (put_prop name v as))"
  by (induction as) (auto split: option.splits if_splits)

lemma find_prop_put: "find_prop as name = Some c \<Longrightarrow>
  find_prop (put_prop name v as) m = (if m = name then Some v else find_prop as m)"
  by (induction as) (auto split: option.splits if_splits)

definition next_count :: "string \<Rightarrow> string" where
  "next_count v = fmt_d (int_wrap (atoi v + 1))"

text \<open>The attributes with a counter incremented.\<close>

definition incr :: "string \<Rightarrow> xml_attr list \<Rightarrow> xml_attr list" where
  "incr name as = (case find_prop as name of None \<Rightarrow> as | Some v \<Rightarrow> put_prop name (next_count v) as)"

lemma length_next_count: "length (next_count v) < 15"
  using length_fmt_d [OF int_wrap_int32, of "atoi v + 1"] by (simp add: next_count_def)

lemma bump_edit:
  assumes "node_at d p = Some n" and "find_prop (properties n) name = Some c"
  shows "bump (Some p) name d st =
         Inr (set_doc (set_node p (with_props (incr name)) d) (st\<lparr>c_str := next_count c\<rparr>))"
proof -
  have "set_node p (\<lambda>n. Node (n_type n) (n_name n) (put_prop name (next_count c) ps) (n_children n) (n_content n)) d =
        set_node p (with_props (incr name)) d" if "ps = properties n" for ps
    using assms(2) that by (intro set_node_cong [OF assms(1)]) (simp add: with_props_def incr_def)
  then show ?thesis
    using assms length_next_count [of c]
    by (simp add: bump_def get_node_property_def node_of_def store_def set_node_property_value_def
        set_prop_put flip: next_count_def)
qed

text \<open>An entry of a list of the document, and a list with one more entry and its counter incremented.\<close>

definition entry :: "string \<Rightarrow> xml_node" where
  "entry v = element ''add'' [\<lparr>a_name = ''value'', a_value = Some (Some v)\<rparr>] []"

definition appended :: "string \<Rightarrow> string \<Rightarrow> xml_node \<Rightarrow> xml_node" where
  "appended name v n = with_props (incr name) (with_kids (\<lambda>ks. ks @ [entry v]) n)"

lemma keeps_tag_appended [simp]: "keeps_tag (appended name v)"
  by (simp add: keeps_tag_def appended_def)

text \<open>The counter of a node is the number of its children that are not text.\<close>

definition count_ok :: "string \<Rightarrow> xml_node \<Rightarrow> bool" where
  "count_ok name n \<longleftrightarrow>
     find_prop (properties n) name = Some (fmt_d (int (length (filter no_text (n_children n)))))"

lemma count_ok_added:
  assumes "count_ok name n" and "length (filter no_text (n_children n)) < 2 ^ 31 - 1" and "no_text k"
  shows "count_ok name (with_props (incr name) (with_kids (\<lambda>ks. ks @ [k]) n))"
proof -
  let ?k = "int (length (filter no_text (n_children n)))"
  have k: "int32 ?k" "int32 (?k + 1)" using assms(2) by (simp_all add: int32_def)
  have "next_count (fmt_d ?k) = fmt_d (?k + 1)"
    using atoi_fmt_d [OF k(1)] int_wrap_id [OF k(2)] by (simp add: next_count_def)
  then show ?thesis
    using assms(1,3) find_prop_put by (simp add: count_ok_def incr_def add.commute)
qed

lemma count_ok_appended:
  "count_ok name n \<Longrightarrow> length (filter no_text (n_children n)) < 2 ^ 31 - 1 \<Longrightarrow> count_ok name (appended name v n)"
  unfolding appended_def by (rule count_ok_added) (simp_all add: entry_def no_text_def)

section \<open>The library\<close>

text \<open>
  The documents that the library is known to write and read back: names of letters, digits and \<open>_-.\<close> that do
  not begin with a digit, a dash, a dot or with the reserved \<open>xml\<close>; attributes with different names and a nonempty printable value; only
  elements, and blank text between them.
\<close>

definition name_start :: "char \<Rightarrow> bool" where
  "name_start c \<longleftrightarrow> c = CHR ''_'' \<or> 65 \<le> (of_char (c_toupper c) :: nat) \<and> (of_char (c_toupper c) :: nat) \<le> 90"

definition xml_name :: "string \<Rightarrow> bool" where
  "xml_name s \<longleftrightarrow>
     s \<noteq> [] \<and> name_start (hd s) \<and> (\<forall>c\<in>set s. name_start c \<or> c_isdigit c \<or> c = CHR ''-'' \<or> c = CHR ''.'') \<and>
     map c_toupper (take 3 s) \<noteq> ''XML''"

definition printable :: "char \<Rightarrow> bool" where
  "printable c \<longleftrightarrow> 32 \<le> (of_char c :: nat) \<and> (of_char c :: nat) \<le> 126"

definition xml_value :: "string \<Rightarrow> bool" where
  "xml_value s \<longleftrightarrow> s \<noteq> [] \<and> (\<forall>c\<in>set s. printable c)"

definition attr_ok :: "xml_attr \<Rightarrow> bool" where
  "attr_ok a \<longleftrightarrow> xml_name (a_name a) \<and> (case a_value a of Some (Some v) \<Rightarrow> xml_value v | _ \<Rightarrow> False)"

definition blank_text :: "string option \<Rightarrow> bool" where
  "blank_text c = (case c of None \<Rightarrow> False | Some s \<Rightarrow> s \<noteq> [] \<and> set s \<subseteq> {CHR '' '', c_tab, c_lf})"

fun xml_ok :: "xml_node \<Rightarrow> bool" where
  "xml_ok (Node t n ps ks c) =
     (case t of
        XML_ELEMENT_NODE \<Rightarrow>
          xml_name n \<and> list_all attr_ok ps \<and> distinct (map a_name ps) \<and> (\<forall>k\<in>set ks. xml_ok k) \<and> c = None
      | XML_TEXT_NODE \<Rightarrow> n = ''text'' \<and> ps = [] \<and> ks = [] \<and> blank_text c
      | _ \<Rightarrow> False)"

text \<open>
  A document without the blanks between its elements, in which no element but one with nothing else in it has a text; and the
  nodes of a document without any text.
\<close>

fun no_blanks :: "xml_node \<Rightarrow> bool" where
  "no_blanks (Node t n ps ks c) \<longleftrightarrow> ((\<forall>k\<in>set ks. no_text k) \<or> length ks = 1) \<and> (\<forall>k\<in>set ks. no_blanks k)"

primrec strip :: "xml_node \<Rightarrow> xml_node" where
  "strip (Node t n ps ks c) = Node t n ps (map snd (filter fst (map (\<lambda>k. (no_text k, strip k)) ks))) c"

text \<open>Only elements have attributes, so a node that has one is an element.\<close>

definition is_element :: "xml_node \<Rightarrow> bool" where
  "is_element n \<longleftrightarrow> n_type n = XML_ELEMENT_NODE \<or> properties n \<noteq> []"

definition new_node :: "string \<Rightarrow> xml_node" where
  "new_node name = element name [] []"

definition new_attr :: "string \<Rightarrow> string \<Rightarrow> xml_attr" where
  "new_attr name v = \<lparr>a_name = name, a_value = Some (Some v)\<rparr>"

lemma element_simps [simp]:
  "is_element (element n ps ks)" "is_element (new_node n)" "n_type (new_node n) = XML_ELEMENT_NODE"
  "n_type (with_props g m) = XML_ELEMENT_NODE \<longleftrightarrow> n_type m = XML_ELEMENT_NODE"
  by (simp_all add: is_element_def new_node_def)

text \<open>
  libxml2 as its documentation describes it. A new child is added at the end of the children of an element, a
  new attribute at the end of its attributes, and both leave the document alone when the node is NULL. What
  \<open>xmlSaveFormatFile\<close> wrote, \<open>xmlParseFile\<close> reads: the same elements, and no blanks between them after
  \<open>xmlKeepBlanksDefault(0)\<close>. With the argument 1 and after \<open>xmlKeepBlanksDefault(0)\<close> the elements of a document without blanks
  are written on indented lines of their own.
\<close>

locale libxml_spec =
  fixes xl :: "'f libxml"
  assumes new_child_null: "xmlNewTextChild xl d None name = (None, d)"
    and new_child: "node_at d p = Some n \<Longrightarrow> is_element n \<Longrightarrow>
      xmlNewTextChild xl d (Some p) name = (Some (length (kids d p) # p), set_kids p (\<lambda>ks. ks @ [new_node name]) d)"
    and new_prop_null: "xmlNewProp xl d None name v = d"
    and new_prop: "node_at d p = Some n \<Longrightarrow> is_element n \<Longrightarrow>
      xmlNewProp xl d (Some p) name v = set_node p (with_props (\<lambda>as. as @ [new_attr name v])) d"
    and read_back: "xml_ok r \<Longrightarrow> no_text r \<Longrightarrow> format \<in> {0, 1} \<Longrightarrow>
      \<exists>r'. xmlParseFile xl keep (xmlSaveFormatFile xl keep' [r] format) = Some [r'] \<and> xml_ok r' \<and> strip r' = strip r"
    and blanks_dropped: "xml_ok r \<Longrightarrow> no_text r \<Longrightarrow> format \<in> {0, 1} \<Longrightarrow>
      xmlParseFile xl False (xmlSaveFormatFile xl keep' [r] format) = Some [r'] \<Longrightarrow> no_blanks r'"
    and formatted: "xml_ok r \<Longrightarrow> no_text r \<Longrightarrow> no_blanks r \<Longrightarrow>
      xmlParseFile xl True (xmlSaveFormatFile xl False [r] 1) = Some [r'] \<Longrightarrow> all_indented r'"
begin

lemma reload:
  assumes "xml_ok r" and "no_text r"
  obtains f r' where "indent_xml_file xl (Some (xmlSaveFormatFile xl True [r] 1)) = (0, Some f)"
    and "xmlParseFile xl True f = Some [r']" and "xml_ok r'" and "strip r' = strip r" and "all_indented r'"
proof -
  obtain r1 where r1: "xmlParseFile xl False (xmlSaveFormatFile xl True [r] 1) = Some [r1]" "xml_ok r1" "strip r1 = strip r"
    using read_back [OF assms, of 1 False True] by auto
  have b: "no_blanks r1" by (rule blanks_dropped [OF assms _ r1(1)]) simp
  have "n_type (strip m) = n_type m" for m by (cases m) simp
  then have "n_type r1 = n_type r" using r1(3) by metis
  then have t: "no_text r1" using assms(2) by (simp add: no_text_def)
  obtain r2 where r2: "xmlParseFile xl True (xmlSaveFormatFile xl False [r1] 1) = Some [r2]" "xml_ok r2" "strip r2 = strip r1"
    using read_back [OF r1(2) t, of 1 True False] by auto
  have "all_indented r2" by (rule formatted [OF r1(2) t b r2(1)])
  then show thesis using that r1(1,3) r2 by (simp add: indent_xml_file_def)
qed

lemma new_child_edit:
  assumes "node_at d p = Some n" and "is_element n"
  shows "xmlNewTextChild xl d (Some p) name =
         (Some (length (n_children n) # p), set_node p (with_kids (\<lambda>ks. ks @ [new_node name])) d)"
  using new_child [OF assms, of name] kids_children [OF assms(1)] set_kids_set_node [of p] assms(1)
  by (cases p) auto

lemma new_child_at:
  assumes "node_at d p = Some n" and "n_children n' = n_children n @ [k]"
    and "d' = set_node p f d" and "f n = n'"
  shows "node_at d' (length (n_children n) # p) = Some k"
  using node_at_set_node [OF assms(1), of f] kids_children [of d' p n'] assms by simp

text \<open>A new attribute of the last child.\<close>

lemma child_prop_edit:
  assumes "node_at d p = Some n" and "n_type k = XML_ELEMENT_NODE"
  shows "xmlNewProp xl (set_node p (with_kids (\<lambda>ks. ks @ [k])) d) (Some (length (n_children n) # p)) name v =
         set_node p (with_kids (\<lambda>ks. ks @ [with_props (\<lambda>as. as @ [new_attr name v]) k])) d"
proof -
  have at: "node_at (set_node p (with_kids (\<lambda>ks. ks @ [k])) d) (length (n_children n) # p) = Some k"
    by (rule new_child_at [OF assms(1) _ refl refl]) simp
  have "xmlNewProp xl (set_node p (with_kids (\<lambda>ks. ks @ [k])) d) (Some (length (n_children n) # p)) name v =
      set_node (length (n_children n) # p) (with_props (\<lambda>as. as @ [new_attr name v])) (set_node p (with_kids (\<lambda>ks. ks @ [k])) d)"
    by (rule new_prop [OF at]) (simp add: is_element_def assms(2))
  moreover have "p \<noteq> []" using assms(1) by auto
  ultimately show ?thesis
    using new_child_set [of p d] kids_children [OF assms(1)] by simp
qed

lemma add_entry_edit:
  "node_at d p = Some n \<Longrightarrow> is_element n \<Longrightarrow> add_entry xl (Some p) v d = set_node p (with_kids (\<lambda>ks. ks @ [entry v])) d"
  by (simp add: add_entry_def new_child_edit child_prop_edit new_node_def)
     (simp add: entry_def new_attr_def with_props_def)

lemma append_edit:
  assumes "node_at d p = Some n" and "find_prop (properties n) name = Some c"
  shows "bump (Some p) name (add_entry xl (Some p) v d) st =
         Inr (set_doc (set_node p (appended name v) d) (st\<lparr>c_str := next_count c\<rparr>))"
proof -
  have e: "is_element n" using assms(2) by (auto simp: is_element_def)
  have "node_at (add_entry xl (Some p) v d) p = Some (with_kids (\<lambda>ks. ks @ [entry v]) n)"
    using assms(1) e by (simp add: add_entry_edit)
  moreover have "with_props (incr name) \<circ> with_kids (\<lambda>ks. ks @ [entry v]) = appended name v"
    by (simp add: fun_eq_iff appended_def)
  ultimately show ?thesis
    using bump_edit assms(2) by (simp add: add_entry_edit [OF assms(1) e] set_node_comp)
qed

end

section \<open>Lists of the document\<close>

text \<open>The attribute \<open>value\<close> that \<open>register_error\<close> looks for among the entries of a list.\<close>

definition has_entry :: "string \<Rightarrow> xml_node \<Rightarrow> bool" where
  "has_entry v n \<longleftrightarrow> (\<exists>m\<in>set (n_children n). no_text m \<and> check_props (properties m) ''value'' v (-1) = 0)"

lemma lookup_entry:
  assumes "node_at d p = Some n" and "indented (n_children n)"
  shows "lookup_step d (PROPERTY_NAME (Some ''value'') (Some v)) (Some p) = None \<longleftrightarrow> \<not> has_entry v n"
proof -
  let ?P = "\<lambda>j. filter_match d (PROPERTY_NAME (Some ''value'') (Some v)) (j # p)"
  have ks: "kids d p = n_children n" using kids_children [OF assms(1)] .
  have "lookup_step d (PROPERTY_NAME (Some ''value'') (Some v)) (Some p) =
        map_option (\<lambda>j. j # p) (List.find ?P (filter (\<lambda>j. no_text (n_children n ! j)) [0..<length (n_children n)]))"
    using node_seq_children [of d p] assms(2) by (simp add: lookup_step_def ks find_map)
  moreover have "?P j \<longleftrightarrow> check_props (properties (n_children n ! j)) ''value'' v (-1) = 0"
    if "j < length (n_children n)" for j
    using that ks by (simp add: check_node_property_def node_of_def)
  moreover have "has_entry v n \<longleftrightarrow> (\<exists>j<length (n_children n). no_text (n_children n ! j) \<and>
                   check_props (properties (n_children n ! j)) ''value'' v (-1) = 0)"
    unfolding has_entry_def by (metis in_set_conv_nth)
  ultimately show ?thesis by (auto simp: find_None_iff simp del: filter_match.simps)
qed

lemma lookup_append: "lookup_node d r (fs @ gs) =
  (case lookup_node d r fs of None \<Rightarrow> if fs = [] then lookup_node d None gs else None | Some p \<Rightarrow> lookup_node d (Some p) gs)"
  by (induction fs arbitrary: r) (auto split: option.splits)

text \<open>
  An operation that succeeds, leaves the document with a given top node and prints nothing.
\<close>

definition edited :: "conf_state \<Rightarrow> xml_node \<Rightarrow> (int \<times> conf_state) res \<Rightarrow> bool" where
  "edited st root r \<longleftrightarrow>
     (\<exists>st'. r = Inr (0, st') \<and> c_doc st' = Some [root] \<and> c_out st' = c_out st \<and> c_err st' = c_err st \<and>
            c_cmds st' = c_cmds st)"

context libxml_spec
begin

lemma append_at_path:
  assumes "all_indented root" and "spec_lookup root ts = Some n" and "find_prop (properties n) name = Some c"
    and "q = lookup_node [root] (doc_children [root]) (tag_path ts)"
  shows "edited st (spec_edit ts (appended name v) root)
           (rbind (bump q name (add_entry xl q v [root]) st) (\<lambda>st1. Inr (0, st1)))"
proof -
  obtain p where p: "q = Some p" "node_at [root] p = Some n" "\<And>f. set_node p f [root] = [spec_edit ts f root]"
    using lookup_root [OF assms(1,2)] assms(4) by metis
  then show ?thesis
    using append_edit [OF p(2) assms(3)] by (simp add: edited_def set_doc_def)
qed

lemma register_tool_edits:
  assumes "all_indented root" and "c_doc st = Some [root]" and "spec_lookup root [''installed_tools'', t] \<noteq> None"
    and "spec_lookup root [''init'', ''tools''] = Some n" and "find_prop (properties n) ''count'' = Some c"
  shows "edited st (spec_edit [''init'', ''tools''] (appended ''count'' t) root) (register_tool xl (Some t) st)"
proof -
  have "lookup_node [root] (doc_children [root]) (tag_path [''installed_tools'', t]) \<noteq> None"
    using lookup_root_Some [OF assms(1)] assms(3) by blast
  moreover have "lookup_node [root] (doc_children [root]) (tag_path [''init'', ''tools'']) \<noteq> None"
    using lookup_root_Some [OF assms(1,4)] .
  ultimately show ?thesis
    using append_at_path [OF assms(1,4,5) refl, of st t] assms(2)
    unfolding register_tool_def by (simp only: option.case prod.case Let_def if_False)
qed

lemma add_dynamic_parameter_edits:
  assumes "all_indented root" and "c_doc st = Some [root]"
    and "spec_lookup root [''init'', ''input'', ''dynamic''] = Some n" and "find_prop (properties n) ''arg_count'' = Some c"
  shows "edited st (spec_edit [''init'', ''input'', ''dynamic''] (appended ''arg_count'' v) root)
           (add_dynamic_parameter xl (Some v) st)"
proof -
  have "lookup_node [root] (doc_children [root]) (tag_path [''init'', ''input'', ''dynamic'']) \<noteq> None"
    using lookup_root_Some [OF assms(1,3)] .
  then show ?thesis
    using append_at_path [OF assms(1,3,4) refl, of st v] assms(2)
    unfolding add_dynamic_parameter_def by (simp only: option.case prod.case Let_def if_False)
qed

lemma add_static_parameter_edits:
  assumes "all_indented root" and "c_doc st = Some [root]"
    and "spec_lookup root [''init'', ''input'', ''static''] = Some n" and "find_prop (properties n) ''file_count'' = Some c"
  shows "edited st (spec_edit [''init'', ''input'', ''static''] (appended ''file_count'' v) root)
           (add_static_parameter xl (Some v) st)"
proof -
  have s: "lookup_node [root] (doc_children [root]) (tag_path [''init'', ''input'', ''static'']) \<noteq> None"
    using lookup_root_Some [OF assms(1,3)] .
  then have "lookup_node [root] (doc_children [root]) (tag_path [''init'', ''input'']) \<noteq> None"
    by (auto split: option.splits)
  then show ?thesis
    using append_at_path [OF assms(1,3,4) refl, of st v] assms(2) s
    unfolding add_static_parameter_def by (simp only: option.case prod.case Let_def if_False)
qed

lemma register_error_edits:
  assumes "all_indented root" and "c_doc st = Some [root]"
    and "spec_lookup root [''installed_tools'', t, ''errors''] = Some n" and "all_indented n"
    and "find_prop (properties n) ''err_count'' = Some c" and "\<not> has_entry e n"
  shows "edited st (spec_edit [''installed_tools'', t, ''errors''] (appended ''err_count'' e) root)
           (register_error xl (Some e) (Some t) st)"
proof -
  let ?ts = "[''installed_tools'', t, ''errors'']"
  obtain p where p: "lookup_node [root] (doc_children [root]) (tag_path ?ts) = Some p" "node_at [root] p = Some n"
    using lookup_root [OF assms(1,3)] by metis
  have "lookup_step [root] (PROPERTY_NAME (Some ''value'') (Some e)) (Some p) = None"
    using lookup_entry [OF p(2)] all_indented_kids [OF assms(4)] assms(6) by blast
  then have "lookup_node [root] (doc_children [root])
               (tag_path ?ts @ [PROPERTY_NAME (Some ''value'') (Some e)]) = None"
    by (simp only: lookup_append p option.case lookup_node.simps)
  moreover have "doc_children [root] \<noteq> None" by (simp add: doc_children_def node_ptr_def)
  ultimately show ?thesis
    using append_at_path [OF assms(1,3,5) refl, of st e] assms(2)
    unfolding register_error_def register_in_def by (simp only: option.case prod.case Let_def if_False if_True simp_thms)
qed

end

section \<open>Creating a tool\<close>

definition tool_node :: "string \<Rightarrow> string \<Rightarrow> string \<Rightarrow> xml_node" where
  "tool_node name path ty =
     element name [new_attr ''lib_path'' path, new_attr ''type'' ty]
       [element ''parameters'' [new_attr ''param_count'' ''0''] [],
        element ''errors'' [new_attr ''err_count'' ''0''] [],
        element ''input'' [] [new_node ty]]"

definition with_tool :: "xml_node \<Rightarrow> xml_node \<Rightarrow> xml_node" where
  "with_tool t n = with_props (incr ''count'') (with_kids (\<lambda>ks. ks @ [t]) n)"

lemma tool_node_no_text: "no_text (tool_node name path ty)"
  by (simp add: tool_node_def no_text_def)

lemma count_ok_with_tool:
  "count_ok ''count'' n \<Longrightarrow> length (filter no_text (n_children n)) < 2 ^ 31 - 1 \<Longrightarrow> no_text t \<Longrightarrow>
   count_ok ''count'' (with_tool t n)"
  unfolding with_tool_def by (rule count_ok_added)

lemma keeps_tag_with_tool [simp]: "keeps_tag (with_tool t)"
  by (simp add: keeps_tag_def with_tool_def)

context libxml_spec
begin

text \<open>The children of a new tool, from the node with its two attributes.\<close>

lemma tool_children:
  assumes "node_at d c = Some (element name as [])"
  shows "(let (param_node, d5) = xmlNewTextChild xl d (Some c) ''parameters'';
              d6 = xmlNewProp xl d5 param_node ''param_count'' ''0'';
              (err_node, d7) = xmlNewTextChild xl d6 (Some c) ''errors'';
              d8 = xmlNewProp xl d7 err_node ''err_count'' ''0'';
              (input_node, d9) = xmlNewTextChild xl d8 (Some c) ''input'';
              (_, d10) = xmlNewTextChild xl d9 input_node ty
          in d10) =
         set_node c (with_kids (\<lambda>_. n_children (tool_node name path ty))) d"
proof -
  let ?P = "element ''parameters'' [new_attr ''param_count'' ''0''] []"
  let ?E = "element ''errors'' [new_attr ''err_count'' ''0''] []"
  let ?I = "element ''input'' [] [new_node ty]"
  let ?add = "\<lambda>k. with_kids (\<lambda>ks. ks @ [k])"
  define e6 where "e6 = set_node c (?add ?P) d"
  define e8 where "e8 = set_node c (?add ?E) e6"
  define e9 where "e9 = set_node c (?add (new_node ''input'')) e8"
  have at6: "node_at e6 c = Some (element name as [?P])"
    using node_at_set_node [OF assms] by (simp add: e6_def with_kids_def)
  have at8: "node_at e8 c = Some (element name as [?P, ?E])"
    using node_at_set_node [OF at6] by (simp add: e8_def with_kids_def)
  have "node_at e9 c = Some (element name as [?P, ?E, new_node ''input''])"
    using node_at_set_node [OF at8] by (simp add: e9_def with_kids_def)
  then have at9: "node_at e9 (Suc (Suc 0) # c) = Some (new_node ''input'')" by (simp add: kids_children)
  have attr: "with_props (\<lambda>as. as @ [a]) (new_node nm) = element nm [a] []" for a nm
    by (simp add: with_props_def new_node_def)
  have "set_node (Suc (Suc 0) # c) (?add (new_node ty)) e9 = set_node c (?add ?I) e8"
    using new_child_set [of c e8 "?add (new_node ty)" "new_node ''input''"] at8 kids_children [OF at8]
    by (cases c) (simp_all add: e9_def with_kids_def new_node_def)
  moreover have "set_node c (?add ?I) e8 = set_node c (with_kids (\<lambda>_. n_children (tool_node name path ty))) d"
    unfolding e8_def e6_def set_node_comp
    by (rule set_node_cong [OF assms]) (simp add: with_kids_def tool_node_def)
  moreover note new_child_edit [OF assms] child_prop_edit [OF assms] new_child_edit [OF at6] child_prop_edit [OF at6]
    new_child_edit [OF at8] new_child_edit [OF at9]
  ultimately show ?thesis
    by (simp add: attr flip: e6_def e8_def e9_def)
qed

end

context libxml_spec
begin

lemma create_tool_edits:
  assumes "all_indented root" and "c_doc st = Some [root]" and "spec_lookup root [''installed_tools''] = Some n"
    and "find_prop (properties n) ''count'' = Some cnt"
  shows "edited st (spec_edit [''installed_tools''] (with_tool (tool_node name path ty)) root)
           (create_tool xl (Some name) (Some path) (Some ty) st)"
proof -
  obtain p where p: "lookup_node [root] (doc_children [root]) (tag_path [''installed_tools'']) = Some p"
    "node_at [root] p = Some n" "p \<noteq> []" "\<And>f. set_node p f [root] = [spec_edit [''installed_tools''] f root]"
    using lookup_root [OF assms(1,3)] by metis
  have e: "is_element n" using assms(4) by (auto simp: is_element_def)
  let ?k = "element name [new_attr ''lib_path'' path, new_attr ''type'' ty] []"
  let ?c = "length (n_children n) # p"
  define d3 where "d3 = set_node p (with_kids (\<lambda>ks. ks @ [?k])) [root]"
  define d' where "d' = set_node p (with_props (incr ''count'')) [root]"
  define d4 where "d4 = set_node p (with_kids (\<lambda>ks. ks @ [?k])) d'"
  have at: "node_at d' p = Some (with_props (incr ''count'') n)" using p(2) by (simp add: d'_def)
  have len: "length (kids d' p) = length (n_children n)" using kids_children [OF at] by simp
  have d3: "xmlNewProp xl (xmlNewProp xl (snd (xmlNewTextChild xl [root] (Some p) name)) (Some ?c) ''lib_path'' path)
              (Some ?c) ''type'' ty = d3"
    by (simp add: new_child_edit [OF p(2) e] child_prop_edit [OF p(2)] d3_def)
       (simp add: with_props_def new_node_def)
  have d4: "set_node p (with_props (incr ''count'')) d3 = d4"
    unfolding d3_def d4_def d'_def set_node_comp by (simp add: comp_def with_kids_def with_props_def)
  have b: "bump (Some p) ''count'' d3 st = Inr (set_doc d4 (st\<lparr>c_str := next_count cnt\<rparr>))"
    using bump_edit [of d3 p "with_kids (\<lambda>ks. ks @ [?k]) n" "''count''" cnt st] p(2) assms(4) d4 by (simp add: d3_def)
  have c: "node_at d4 ?c = Some ?k"
    using new_child_at [OF at _ d4_def refl, of ?k] by simp
  have "set_node ?c (with_kids (\<lambda>_. n_children (tool_node name path ty))) d4 =
        set_node p (with_tool (tool_node name path ty)) [root]"
  proof -
    have k: "with_kids (\<lambda>_. n_children (tool_node name path ty)) ?k = tool_node name path ty"
      by (simp add: with_kids_def tool_node_def)
    have "with_kids (\<lambda>ks. ks @ [tool_node name path ty]) \<circ> with_props (incr ''count'') =
          with_tool (tool_node name path ty)"
      by (simp add: fun_eq_iff with_tool_def) (simp add: with_kids_def with_props_def)
    then show ?thesis
      using new_child_set [OF p(3), of d' "with_kids (\<lambda>_. n_children (tool_node name path ty))" ?k, unfolded len k]
      by (simp only: d4_def d'_def set_node_comp)
  qed
  then show ?thesis
    using assms(2) p(1,4) new_child_edit [OF p(2) e, of name] d3 b tool_children [OF c, of ty path]
    by (simp add: create_tool_def edited_def set_doc_def doc_children_def node_ptr_def case_prod_beta Let_def)
qed

end

end
