(* ===== verification/Config_Props.thy ===== *)
theory Config_Props
  imports Config_Facts
begin

text \<open>
  The configuration program as a whole: what a run leaves in the file, the counters that the driver
  relies on, and the operations that do not do what they should. \<open>tree_libxml\<close> is a library that
  meets the laws, with documents as the contents of files.
\<close>

section \<open>Documents without their blanks\<close>

lemma strip_simps [simp]:
  "n_type (strip n) = n_type n" "n_name (strip n) = n_name n" "properties (strip n) = properties n"
  "n_children (strip n) = map strip (filter no_text (n_children n))" "n_content (strip n) = n_content n"
proof -
  have "map snd (filter fst (map (\<lambda>k. (no_text k, strip k)) ks)) = map strip (filter no_text ks)" for ks
    by (induction ks) simp_all
  then show "n_type (strip n) = n_type n" "n_name (strip n) = n_name n" "properties (strip n) = properties n"
    "n_children (strip n) = map strip (filter no_text (n_children n))" "n_content (strip n) = n_content n"
    by (cases n; simp)+
qed

declare strip.simps [simp del]

lemma no_text_strip [simp]: "no_text (strip n) = no_text n"
  by (simp add: no_text_def)

lemma filter_map_strip [simp]: "filter no_text (map strip ks) = map strip (filter no_text ks)"
  by (induction ks) simp_all

lemma count_ok_strip [simp]: "count_ok name (strip n) = count_ok name n"
  by (simp add: count_ok_def)

lemma find_strip:
  "List.find (\<lambda>m. no_text m \<and> n_name m = t) (map strip (filter no_text ks)) =
   map_option strip (List.find (\<lambda>m. no_text m \<and> n_name m = t) ks)"
  by (induction ks) simp_all

lemma spec_lookup_strip: "spec_lookup (strip n) ts = map_option strip (spec_lookup n ts)"
proof (induction ts arbitrary: n)
  case (Cons t ts)
  show ?case
    by (cases "List.find (\<lambda>m. no_text m \<and> n_name m = t) (n_children n)") (simp_all add: find_strip Cons.IH)
qed simp

lemma spec_lookup_same:
  assumes "strip n' = strip n" and "spec_lookup n ts = Some m"
  obtains m' where "spec_lookup n' ts = Some m'" and "strip m' = strip m"
proof -
  have "map_option strip (spec_lookup n' ts) = Some (strip m)"
    using spec_lookup_strip [of n ts] spec_lookup_strip [of n' ts] assms by simp
  then show thesis using that by auto
qed

lemma strip_children: "strip m' = strip m \<Longrightarrow>
  map strip (filter no_text (n_children m')) = map strip (filter no_text (n_children m)) \<and> properties m' = properties m"
  by (metis strip_simps(3,4))

section \<open>A library that meets the laws\<close>

definition blank :: xml_node where
  "blank = Node XML_TEXT_NODE ''text'' [] [] (Some [c_lf])"

primrec indent_kids :: "xml_node list \<Rightarrow> xml_node list" where
  "indent_kids [] = [blank]"
| "indent_kids (k # ks) = blank # k # indent_kids ks"

primrec reindent :: "xml_node \<Rightarrow> xml_node" where
  "reindent (Node t n ps ks c) =
     Node t n ps (let ks' = map snd (filter fst (map (\<lambda>k. (no_text k, reindent k)) ks))
                  in if ks' = [] then [] else indent_kids ks') c"

text \<open>A file is a document; one that is not well-formed cannot be read.\<close>

definition tree_libxml :: "rbc_xml_doc libxml" where
  "tree_libxml =
     \<lparr>xmlNewTextChild = (\<lambda>d node name.
        case node of None \<Rightarrow> (None, d)
        | Some p \<Rightarrow>
            (case node_at d p of
               None \<Rightarrow> (None, d)
             | Some n \<Rightarrow>
                 if is_element n then (Some (length (kids d p) # p), set_kids p (\<lambda>ks. ks @ [new_node name]) d) else (None, d))),
      xmlNewProp = (\<lambda>d node name v.
        case node of None \<Rightarrow> d
        | Some p \<Rightarrow>
            (case node_at d p of
               None \<Rightarrow> d
             | Some n \<Rightarrow> if is_element n then set_node p (with_props (\<lambda>as. as @ [new_attr name v])) d else d)),
      xmlParseFile = (\<lambda>keep f.
        case f of [r] \<Rightarrow> if xml_ok r \<and> no_text r then Some [if keep then r else strip r] else None | _ \<Rightarrow> None),
      xmlSaveFormatFile = (\<lambda>keep d format. if \<not> keep \<and> format = 1 then map reindent d else d)\<rparr>"

lemma reindent_children:
  "n_children (reindent n) =
   (let ks' = map reindent (filter no_text (n_children n)) in if ks' = [] then [] else indent_kids ks')"
  "n_type (reindent n) = n_type n" "n_name (reindent n) = n_name n" "properties (reindent n) = properties n"
  "n_content (reindent n) = n_content n"
proof -
  have "map snd (filter fst (map (\<lambda>k. (no_text k, reindent k)) ks)) = map reindent (filter no_text ks)" for ks
    by (induction ks) simp_all
  then show "n_children (reindent n) =
     (let ks' = map reindent (filter no_text (n_children n)) in if ks' = [] then [] else indent_kids ks')"
    "n_type (reindent n) = n_type n" "n_name (reindent n) = n_name n" "properties (reindent n) = properties n"
    "n_content (reindent n) = n_content n"
    by (cases n; simp)+
qed

declare reindent.simps [simp del]

lemma no_text_reindent [simp]: "no_text (reindent n) = no_text n" "\<not> no_text blank"
  by (simp_all add: no_text_def reindent_children(2) blank_def)

lemma indent_kids_facts:
  "indent_kids ks \<noteq> []" "\<forall>k\<in>set ks. no_text k \<Longrightarrow> indented (indent_kids ks)"
  "\<forall>k\<in>set ks. no_text k \<Longrightarrow> filter no_text (indent_kids ks) = ks"
  "set (indent_kids ks) = insert blank (set ks)"
  by (induction ks) auto

lemma all_indented_iff: "all_indented n \<longleftrightarrow> indented (n_children n) \<and> (\<forall>k\<in>set (n_children n). all_indented k)"
  by (cases n) simp

lemma all_indented_reindent: "all_indented (reindent n)"
proof (induction n)
  case (Node t nm ps ks c)
  define ks' where "ks' = map reindent (filter no_text ks)"
  have "\<forall>k\<in>set ks'. no_text k \<and> all_indented k" using Node by (auto simp: ks'_def)
  moreover have "all_indented blank" by (simp add: blank_def)
  moreover have "n_children (reindent (Node t nm ps ks c)) = (if ks' = [] then [] else indent_kids ks')"
    by (simp add: reindent_children(1) Let_def ks'_def)
  ultimately show ?case
    using indent_kids_facts [of ks'] by (subst all_indented_iff) auto
qed

lemma node_eqI: "n_type n = n_type m \<Longrightarrow> n_name n = n_name m \<Longrightarrow> properties n = properties m \<Longrightarrow>
  n_children n = n_children m \<Longrightarrow> n_content n = n_content m \<Longrightarrow> n = m"
  by (cases n; cases m) simp

lemma strip_reindent [simp]: "strip (reindent n) = strip n"
proof (induction n)
  case (Node t nm ps ks c)
  define ks' where "ks' = map reindent (filter no_text ks)"
  have k: "\<forall>k\<in>set ks'. no_text k" by (auto simp: ks'_def)
  have "n_children (reindent (Node t nm ps ks c)) = (if ks' = [] then [] else indent_kids ks')"
    by (simp add: reindent_children(1) Let_def ks'_def)
  moreover have "filter no_text (if ks' = [] then [] else indent_kids ks') = ks'"
    using indent_kids_facts(3) [OF k] by auto
  moreover have "map strip ks' = map strip (filter no_text ks)" using Node by (auto simp: ks'_def)
  ultimately have "n_children (strip (reindent (Node t nm ps ks c))) = n_children (strip (Node t nm ps ks c))"
    by (simp only: strip_simps xml_node.sel)
  then show ?case by (intro node_eqI) (simp_all only: strip_simps reindent_children)
qed

lemma strip_strip [simp]: "strip (strip n) = strip n"
proof (induction n)
  case (Node t nm ps ks c)
  have "map strip (map strip (filter no_text ks)) = map strip (filter no_text ks)" using Node by auto
  then have "n_children (strip (strip (Node t nm ps ks c))) = n_children (strip (Node t nm ps ks c))"
    by (simp only: strip_simps xml_node.sel filter_map_strip filter_filter conj_absorb)
  then show ?case by (intro node_eqI) (simp_all only: strip_simps)
qed

lemma xml_ok_iff:
  "xml_ok n \<longleftrightarrow>
     (if no_text n
      then n_type n = XML_ELEMENT_NODE \<and> xml_name (n_name n) \<and> list_all attr_ok (properties n) \<and>
           distinct (map a_name (properties n)) \<and> (\<forall>k\<in>set (n_children n). xml_ok k) \<and> n_content n = None
      else n_name n = ''text'' \<and> properties n = [] \<and> n_children n = [] \<and> blank_text (n_content n))"
  by (cases n; cases "n_type n") (auto simp: no_text_def)

lemma xml_ok_strip: "xml_ok n \<Longrightarrow> xml_ok (strip n)"
proof (induction n)
  case (Node t nm ps ks c)
  then show ?case
    by (subst xml_ok_iff) (subst (asm) (3) xml_ok_iff, auto split: if_splits)
qed

lemma xml_ok_reindent: "xml_ok n \<Longrightarrow> xml_ok (reindent n)"
proof (induction n)
  case (Node t nm ps ks c)
  let ?n = "Node t nm ps ks c"
  define ks' where "ks' = map reindent (filter no_text ks)"
  have kids: "set (n_children (reindent ?n)) \<subseteq> insert blank (set ks')" "ks = [] \<Longrightarrow> n_children (reindent ?n) = []"
    using indent_kids_facts(4) [of ks'] by (auto simp: reindent_children(1) Let_def ks'_def)
  have "xml_ok blank" by (simp add: blank_def blank_text_def)
  moreover have "\<forall>k\<in>set ks. xml_ok k" using Node.prems by (subst (asm) xml_ok_iff) (auto split: if_splits)
  then have "\<forall>k\<in>set ks'. xml_ok k" using Node.IH by (auto simp: ks'_def)
  ultimately have "\<forall>k\<in>set (n_children (reindent ?n)). xml_ok k" using kids(1) by blast
  then show ?case
    using Node.prems kids(2) unfolding xml_ok_iff [of "reindent ?n"] xml_ok_iff [of ?n]
    by (auto simp: reindent_children(2-) split: if_splits)
qed

lemma no_blanks_iff: "no_blanks n \<longleftrightarrow>
  ((\<forall>k\<in>set (n_children n). no_text k) \<or> length (n_children n) = 1) \<and> (\<forall>k\<in>set (n_children n). no_blanks k)"
  by (cases n) simp

lemma no_blanks_strip: "no_blanks (strip n)"
proof (induction n)
  case (Node t nm ps ks c)
  then show ?case by (subst no_blanks_iff) auto
qed

interpretation tree: libxml_spec tree_libxml
proof unfold_locales
qed (auto simp: tree_libxml_def all_indented_reindent no_blanks_strip xml_ok_strip xml_ok_reindent split: if_splits)

section \<open>A run of the program\<close>

text \<open>Edits keep the documents that can be read back.\<close>

lemma tag_index_node: "tag_index t ks = Some i \<Longrightarrow> no_text (ks ! i) \<and> n_name (ks ! i) = t"
  by (induction ks arbitrary: i) (auto split: if_splits)

lemma printable_chars [simp]: "c_isdigit c \<Longrightarrow> printable c" "printable CHR ''-''" "printable CHR ''.''"
  by (simp_all add: c_isdigit_def printable_def)

lemma name_start_printable [simp]: "name_start c \<Longrightarrow> printable c"
  by (auto simp: name_start_def printable_def c_toupper_def split: if_splits)

lemma xml_name_value: "xml_name s \<Longrightarrow> xml_value s"
  by (auto simp: xml_name_def xml_value_def)

lemma spec_edit_ok:
  assumes "\<And>m. xml_ok m \<Longrightarrow> no_text m \<Longrightarrow> xml_ok (g m)" and "keeps_tag g"
  shows "xml_ok n \<Longrightarrow> no_text n \<Longrightarrow> xml_ok (spec_edit ts g n) \<and> no_text (spec_edit ts g n)"
proof (induction ts arbitrary: n)
  case Nil
  then show ?case using assms by (simp add: keeps_tag_def no_text_def)
next
  case (Cons t ts)
  show ?case
  proof (cases "tag_index t (n_children n)")
    case None
    then show ?thesis using Cons.prems by simp
  next
    case (Some i)
    let ?ks = "n_children n"
    have i: "i < length ?ks" "no_text (?ks ! i)" using tag_index_less [OF Some] tag_index_node [OF Some] by simp_all
    have ok: "\<forall>k\<in>set ?ks. xml_ok k" using Cons.prems by (simp add: xml_ok_iff [of n])
    then have "xml_ok (spec_edit ts g (?ks ! i))" using Cons.IH [of "?ks ! i"] i by simp
    then have "\<forall>k\<in>set (upd_nth i (spec_edit ts g) ?ks). xml_ok k"
      using ok set_update_subset_insert [of ?ks i "spec_edit ts g (?ks ! i)"] i(1) by (auto simp: upd_nth_def)
    moreover have "spec_edit (t # ts) g n = with_kids (upd_nth i (spec_edit ts g)) n" using Some by simp
    moreover have "no_text (with_kids h n)" for h using Cons.prems(2) by (simp add: no_text_def)
    ultimately show ?thesis
      using Cons.prems xml_ok_iff [of n] xml_ok_iff [of "with_kids (upd_nth i (spec_edit ts g)) n"] by simp
  qed
qed

lemma put_prop_names: "map a_name (put_prop name v as) = map a_name as"
  by (induction as) auto

lemma put_prop_ok: "xml_value v \<Longrightarrow> list_all attr_ok as \<Longrightarrow> list_all attr_ok (put_prop name v as)"
  by (induction as) (auto simp: attr_ok_def)

lemma xml_value_count: "xml_value (next_count v)"
  using nat_digits_digits by (auto simp: next_count_def fmt_d_def xml_value_def)

lemma incr_ok: "xml_ok n \<Longrightarrow> no_text n \<Longrightarrow> xml_ok (with_props (incr name) n)"
  using put_prop_ok [OF xml_value_count, of "properties n" name] put_prop_names [of name _ "properties n"]
  unfolding xml_ok_iff [of n] xml_ok_iff [of "with_props (incr name) n"]
  by (auto simp: incr_def no_text_def split: option.splits)

lemma new_kid_ok: "xml_ok n \<Longrightarrow> no_text n \<Longrightarrow> xml_ok k \<Longrightarrow> xml_ok (with_kids (\<lambda>ks. ks @ [k]) n)"
  unfolding xml_ok_iff [of n] xml_ok_iff [of "with_kids (\<lambda>ks. ks @ [k]) n"] by (auto simp: no_text_def)

lemma added_ok:
  assumes "xml_ok n" and "no_text n" and "xml_ok k"
  shows "xml_ok (with_props (incr name) (with_kids (\<lambda>ks. ks @ [k]) n))"
  using assms by (intro incr_ok new_kid_ok) (simp_all add: no_text_def)

lemma literal_names:
  "xml_name ''add''" "xml_name ''value''" "xml_name ''lib_path''" "xml_name ''type''" "xml_name ''parameters''"
  "xml_name ''param_count''" "xml_name ''errors''" "xml_name ''err_count''" "xml_name ''input''" "xml_value ''0''"
  by code_simp+

lemma entry_ok: "xml_value v \<Longrightarrow> xml_ok (entry v)"
  by (simp add: entry_def attr_ok_def literal_names)

lemma tool_node_ok: "xml_name name \<Longrightarrow> xml_value path \<Longrightarrow> xml_name ty \<Longrightarrow> xml_ok (tool_node name path ty)"
  by (simp add: tool_node_def new_attr_def new_node_def attr_ok_def literal_names xml_name_value)

lemma spec_lookup_ok:
  "spec_lookup n ts = Some m \<Longrightarrow> xml_ok n \<Longrightarrow> no_text n \<Longrightarrow> xml_ok m \<and> no_text m \<and> (ts \<noteq> [] \<longrightarrow> n_name m = last ts)"
proof (induction ts arbitrary: n)
  case (Cons t ts)
  then obtain k where k: "List.find (\<lambda>m. no_text m \<and> n_name m = t) (n_children n) = Some k" "spec_lookup k ts = Some m"
    by (auto split: option.splits)
  then have "k \<in> set (n_children n)" "no_text k" "n_name k = t" by (auto simp: find_Some_iff)
  then show ?case using Cons.IH [OF k(2)] Cons.prems(2,3) k(2) by (cases ts) (auto simp: xml_ok_iff [of n])
qed simp

context libxml_spec
begin

lemma run_edited:
  assumes "1 < length argv" and "xmlParseFile xl True f = Some [root]"
    and "dispatch xl argv (conf_init (Some [root])) = rbind r (\<lambda>(_, st1). Inr st1)"
    and "edited (conf_init (Some [root])) root1 r" and "xml_ok root1" and "no_text root1"
  obtains f' root' where "configure_main xl argv (Some f) = Inr (Some f', [], [])"
    and "xmlParseFile xl True f' = Some [root']" and "all_indented root'" and "strip root' = strip root1"
    and "xml_ok root'" and "no_text root'"
proof -
  obtain st' where st': "r = Inr (0, st')" "c_doc st' = Some [root1]" "c_out st' = []" "c_err st' = []"
    using assms(4) by (auto simp: edited_def conf_init_def)
  obtain f' root' where f': "indent_xml_file xl (Some (xmlSaveFormatFile xl True [root1] 1)) = (0, Some f')"
    "xmlParseFile xl True f' = Some [root']" "xml_ok root'" "strip root' = strip root1" "all_indented root'"
    by (rule reload [OF assms(5,6)])
  moreover have "configure_main xl argv (Some f) = Inr (Some f', [], [])"
    using assms(1,2,3) st' f'(1) by (simp add: configure_main_def)
  moreover have "no_text root'" using assms(6) f'(4) no_text_strip by metis
  ultimately show thesis using that by blast
qed

end

text \<open>A list of the document after it was appended to and the document was read again.\<close>

lemma appended_reloaded:
  assumes "strip root' = strip (spec_edit ts (appended name v) root)" and "spec_lookup root ts = Some n"
    and "count_ok name n" and "length (filter no_text (n_children n)) < 2 ^ 31 - 1"
  obtains n' where "spec_lookup root' ts = Some n'" and "count_ok name n'"
    and "map strip (filter no_text (n_children n')) = map strip (filter no_text (n_children n)) @ [strip (entry v)]"
proof -
  have "spec_lookup (spec_edit ts (appended name v) root) ts = Some (appended name v n)"
    using assms(2) by (simp add: spec_lookup_edit)
  then obtain n' where n': "spec_lookup root' ts = Some n'" "strip n' = strip (appended name v n)"
    using spec_lookup_same [OF assms(1)] by blast
  have "count_ok name n'" using count_ok_appended [OF assms(3,4), of v] n'(2) count_ok_strip by metis
  moreover have "map strip (filter no_text (n_children n')) =
                 map strip (filter no_text (n_children n)) @ [strip (entry v)]"
    using strip_children [OF n'(2)] by (simp add: appended_def entry_def no_text_def)
  ultimately show thesis using that n'(1) by blast
qed

section \<open>Properties\<close>

text \<open>
  C17: \<open>configure --register-tool t\<close>, for an installed tool and an indented configuration that libxml2 can
  write and read back and whose counter of start-up tools is the number of its entries, writes a configuration that can be read
  again, is indented, has \<open>t\<close> as its last start-up tool after the old ones, and whose counter is again
  the number of the entries; and libxml2 can write and read it back again.
\<close>

theorem configure_registers_tool:
  fixes xl :: "'f libxml"
  assumes "libxml_spec xl" and "xmlParseFile xl True f = Some [root]" and "xml_ok root" and "no_text root" and "all_indented root"
    and "spec_lookup root [''installed_tools'', t] \<noteq> None"
    and "spec_lookup root [''init'', ''tools''] = Some n" and "count_ok ''count'' n"
    and "length (filter no_text (n_children n)) < 2 ^ 31 - 1"
  shows "\<exists>f' root' n'.
    configure_main xl [''configure'', ''--register-tool'', t] (Some f) = Inr (Some f', [], []) \<and>
    xmlParseFile xl True f' = Some [root'] \<and> xml_ok root' \<and> no_text root' \<and> all_indented root' \<and>
    spec_lookup root' [''init'', ''tools''] = Some n' \<and> count_ok ''count'' n' \<and>
    map strip (filter no_text (n_children n')) = map strip (filter no_text (n_children n)) @ [strip (entry t)]"
proof -
  let ?st = "conf_init (Some [root])" and ?ts = "[''init'', ''tools'']"
  have e: "edited ?st (spec_edit ?ts (appended ''count'' t) root) (register_tool xl (Some t) ?st)"
    using assms(8) by (intro libxml_spec.register_tool_edits [OF assms(1,5) _ assms(6,7)])
                      (auto simp: conf_init_def count_ok_def)
  have disp: "dispatch xl [''configure'', ''--register-tool'', t] ?st =
        rbind (register_tool xl (Some t) ?st) (\<lambda>(_, st1). Inr st1)"
    by (simp add: dispatch_def needs_def argn_def)
  obtain m where m: "spec_lookup root [''installed_tools'', t] = Some m" using assms(6) by blast
  have "xml_name t" using spec_lookup_ok [OF m assms(3,4)] by (auto simp: xml_ok_iff [of m])
  then have ok: "xml_ok (spec_edit ?ts (appended ''count'' t) root) \<and> no_text (spec_edit ?ts (appended ''count'' t) root)"
    using assms(3,4) by (intro spec_edit_ok) (auto simp: appended_def intro!: added_ok entry_ok xml_name_value)
  obtain f' root' where run: "configure_main xl [''configure'', ''--register-tool'', t] (Some f) = Inr (Some f', [], [])"
    "xmlParseFile xl True f' = Some [root']" "xml_ok root'" "no_text root'" "all_indented root'"
    and r: "strip root' = strip (spec_edit ?ts (appended ''count'' t) root)"
    by (rule libxml_spec.run_edited [OF assms(1) _ assms(2) disp e ok [THEN conjunct1] ok [THEN conjunct2]]) (simp, rule that)
  obtain n' where n': "spec_lookup root' ?ts = Some n'" "count_ok ''count'' n'"
    "map strip (filter no_text (n_children n')) = map strip (filter no_text (n_children n)) @ [strip (entry t)]"
    by (rule appended_reloaded [OF r assms(7,8,9)])
  show ?thesis by (intro exI conjI) (rule run n')+
qed

text \<open>A small configuration.\<close>

definition sample_conf :: xml_node where
  "sample_conf = reindent (element ''appSettings'' []
     [element ''init'' []
        [element ''tools'' [new_attr ''count'' ''1''] [entry ''splint''],
         element ''input'' []
           [element ''static'' [new_attr ''file_count'' ''0''] [],
            element ''dynamic'' [new_attr ''value'' ''a.out'', new_attr ''arg_count'' ''0''] []]],
      element ''installed_tools'' [new_attr ''count'' ''2'']
        [tool_node ''splint'' ''./libsplint.so'' ''static'', tool_node ''drmemory'' ''./libdrmemory.so'' ''dynamic'']])"

definition sample_tools :: xml_node where
  "sample_tools = reindent (element ''tools'' [new_attr ''count'' ''1''] [entry ''splint''])"

lemma sample_names:
  "xml_name ''appSettings''" "xml_name ''init''" "xml_name ''tools''" "xml_name ''count''" "xml_name ''static''"
  "xml_name ''file_count''" "xml_name ''dynamic''" "xml_name ''arg_count''" "xml_name ''installed_tools''" "xml_name ''splint''"
  "xml_name ''drmemory''" "xml_value ''1''" "xml_value ''2''" "xml_value ''a.out''" "xml_value ''./libsplint.so''"
  "xml_value ''./libdrmemory.so''"
  by code_simp+

lemma sample_conf_ok: "xml_ok sample_conf" "no_text sample_conf"
proof -
  show "xml_ok sample_conf"
    unfolding sample_conf_def
    by (rule xml_ok_reindent)
       (simp add: tool_node_ok entry_ok xml_name_value sample_names literal_names attr_ok_def new_attr_def)
  show "no_text sample_conf" by (simp add: sample_conf_def) (simp add: no_text_def)
qed

lemma sample_conf_facts:
  "xml_ok sample_conf" "no_text sample_conf"
  "all_indented sample_conf" "xmlParseFile tree_libxml True [sample_conf] = Some [sample_conf]"
  "spec_lookup sample_conf [''init'', ''tools''] = Some sample_tools" "count_ok ''count'' sample_tools"
  "spec_lookup sample_conf [''installed_tools'', ''drmemory''] \<noteq> None"
  "length (filter no_text (n_children sample_tools)) < 2 ^ 31 - 1"
  subgoal by (rule sample_conf_ok)
  subgoal by (rule sample_conf_ok)
  subgoal by (simp only: sample_conf_def all_indented_reindent)
  subgoal by (simp add: tree_libxml_def sample_conf_ok)
  subgoal by code_simp
  subgoal by code_simp
  subgoal by code_simp
  subgoal
  proof -
    have "length (filter no_text (n_children sample_tools)) = 1" by code_simp
    then show ?thesis by simp
  qed
  done

theorem configure_registers_tool_witness:
  "\<exists>f' root' n'.
    configure_main tree_libxml [''configure'', ''--register-tool'', ''drmemory''] (Some [sample_conf]) = Inr (Some f', [], []) \<and>
    xmlParseFile tree_libxml True f' = Some [root'] \<and> xml_ok root' \<and> no_text root' \<and> all_indented root' \<and>
    spec_lookup root' [''init'', ''tools''] = Some n' \<and> count_ok ''count'' n' \<and>
    map strip (filter no_text (n_children n')) =
      map strip (filter no_text (n_children sample_tools)) @ [strip (entry ''drmemory'')]"
  by (rule configure_registers_tool [OF tree.libxml_spec_axioms sample_conf_facts(4,1,2,3,7,5,6,8)])

text \<open>
  C18: \<open>configure --create-tool name path type\<close>, for a name and a type that are names of XML, a printable path, a name
  that is not installed yet, and a configuration that libxml2 can write and read back, writes a configuration in which the functions the
  driver reads it with find the tool, with its library and its type, and the counter of the installed tools is again their number.
\<close>

theorem configure_creates_tool:
  fixes xl :: "'f libxml"
  assumes "libxml_spec xl" and "xmlParseFile xl True f = Some [root]" and "xml_ok root" and "no_text root" and "all_indented root"
    and "spec_lookup root [''installed_tools''] = Some n" and "count_ok ''count'' n"
    and "length (filter no_text (n_children n)) < 2 ^ 31 - 1"
    and "\<forall>m\<in>set (n_children n). no_text m \<longrightarrow> n_name m \<noteq> name"
    and "xml_name name" and "xml_value path" and "xml_name ty"
  shows "\<exists>f' root' n' q.
    configure_main xl [''configure'', ''--create-tool'', name, path, ty] (Some f) = Inr (Some f', [], []) \<and>
    xmlParseFile xl True f' = Some [root'] \<and> xml_ok root' \<and> no_text root' \<and> all_indented root' \<and>
    lookup_node [root'] (doc_children [root']) (tag_path [''installed_tools'', name]) = Some q \<and>
    get_node_property [root'] (Some q) ''lib_path'' = Some path \<and>
    get_node_property [root'] (Some q) ''type'' = Some ty \<and>
    spec_lookup root' [''installed_tools''] = Some n' \<and> count_ok ''count'' n'"
proof -
  let ?st = "conf_init (Some [root])" and ?T = "tool_node name path ty"
  let ?root1 = "spec_edit [''installed_tools''] (with_tool ?T) root"
  have e: "edited ?st ?root1 (create_tool xl (Some name) (Some path) (Some ty) ?st)"
    using assms(7) by (intro libxml_spec.create_tool_edits [OF assms(1,5) _ assms(6)])
                      (auto simp: conf_init_def count_ok_def)
  have disp: "dispatch xl [''configure'', ''--create-tool'', name, path, ty] ?st =
        rbind (create_tool xl (Some name) (Some path) (Some ty) ?st) (\<lambda>(_, st1). Inr st1)"
    by (simp add: dispatch_def needs_def argn_def)
  have ok: "xml_ok ?root1 \<and> no_text ?root1"
    using assms(3,4,10-12) by (intro spec_edit_ok) (auto simp: with_tool_def intro!: added_ok tool_node_ok)
  obtain f' root' where run: "configure_main xl [''configure'', ''--create-tool'', name, path, ty] (Some f) = Inr (Some f', [], [])"
    "xmlParseFile xl True f' = Some [root']" "xml_ok root'" "no_text root'"
    and ind: "all_indented root'" and r: "strip root' = strip ?root1"
    by (rule libxml_spec.run_edited [OF assms(1) _ assms(2) disp e ok [THEN conjunct1] ok [THEN conjunct2]]) (simp, rule that)
  have l1: "spec_lookup ?root1 [''installed_tools''] = Some (with_tool ?T n)"
    using spec_lookup_edit [of "with_tool ?T" "[''installed_tools'']" root] assms(6) by simp
  obtain n' where n': "spec_lookup root' [''installed_tools''] = Some n'" "strip n' = strip (with_tool ?T n)"
    by (rule spec_lookup_same [OF r l1])
  have "List.find (\<lambda>m. no_text m \<and> n_name m = name) (n_children n) = None"
    using assms(9) by (auto simp: find_None_iff)
  moreover have "n_name ?T = name" by (simp add: tool_node_def)
  ultimately have "List.find (\<lambda>m. no_text m \<and> n_name m = name) (n_children (with_tool ?T n)) = Some ?T"
    by (simp add: with_tool_def find_append tool_node_no_text)
  then have l2: "spec_lookup ?root1 [''installed_tools'', name] = Some ?T"
    using l1 by (auto split: option.splits)
  obtain m where m: "spec_lookup root' [''installed_tools'', name] = Some m" "strip m = strip ?T"
    by (rule spec_lookup_same [OF r l2])
  obtain q where q: "lookup_node [root'] (doc_children [root']) (tag_path [''installed_tools'', name]) = Some q"
    "node_at [root'] q = Some m" using lookup_root [OF ind m(1)] by metis
  have "properties m = [new_attr ''lib_path'' path, new_attr ''type'' ty]"
    using strip_children [OF m(2)] by (simp add: tool_node_def)
  then have p: "get_node_property [root'] (Some q) ''lib_path'' = Some path"
    "get_node_property [root'] (Some q) ''type'' = Some ty"
    using q(2) by (simp_all add: get_node_property_def node_of_def new_attr_def)
  have c: "count_ok ''count'' n'"
    using count_ok_with_tool [OF assms(7,8), of ?T] n'(2) count_ok_strip by (metis tool_node_no_text)
  show ?thesis by (intro exI conjI) (rule run ind q(1) p n'(1) c)+
qed

definition sample_installed :: xml_node where
  "sample_installed = reindent (element ''installed_tools'' [new_attr ''count'' ''2'']
     [tool_node ''splint'' ''./libsplint.so'' ''static'', tool_node ''drmemory'' ''./libdrmemory.so'' ''dynamic''])"

lemma sample_installed_facts:
  "spec_lookup sample_conf [''installed_tools''] = Some sample_installed" "count_ok ''count'' sample_installed"
  "length (filter no_text (n_children sample_installed)) < 2 ^ 31 - 1"
  "\<forall>m\<in>set (n_children sample_installed). no_text m \<longrightarrow> n_name m \<noteq> ''simian''"
  subgoal by code_simp
  subgoal by code_simp
  subgoal
  proof -
    have "length (filter no_text (n_children sample_installed)) = 2" by code_simp
    then show ?thesis by simp
  qed
  subgoal by code_simp
  done

theorem configure_creates_tool_witness:
  "\<exists>f' root' n' q.
    configure_main tree_libxml [''configure'', ''--create-tool'', ''simian'', ''./libsimian.so'', ''static'']
      (Some [sample_conf]) = Inr (Some f', [], []) \<and>
    xmlParseFile tree_libxml True f' = Some [root'] \<and> xml_ok root' \<and> no_text root' \<and> all_indented root' \<and>
    lookup_node [root'] (doc_children [root']) (tag_path [''installed_tools'', ''simian'']) = Some q \<and>
    get_node_property [root'] (Some q) ''lib_path'' = Some ''./libsimian.so'' \<and>
    get_node_property [root'] (Some q) ''type'' = Some ''static'' \<and>
    spec_lookup root' [''installed_tools''] = Some n' \<and> count_ok ''count'' n'"
proof (rule configure_creates_tool
    [OF tree.libxml_spec_axioms sample_conf_facts(4,1,2,3) sample_installed_facts])
  show "xml_name ''simian''" "xml_value ''./libsimian.so''" "xml_name ''static''" by code_simp+
qed

text \<open>
  C3: the operations that register a tool, a file, an argument and an error code are one abstract
  edit of an indented document: the list their path leads to gets a new last entry and its counter is
  incremented, everything else stays as it is, and nothing is printed.
\<close>

theorem registering_appends:
  fixes xl :: "'f libxml"
  assumes "libxml_spec xl" and "all_indented root" and "c_doc st = Some [root]"
  shows "(spec_lookup root [''installed_tools'', v] \<noteq> None \<and> spec_lookup root [''init'', ''tools''] = Some n1 \<and>
          find_prop (properties n1) ''count'' = Some c1 \<longrightarrow>
          edited st (spec_edit [''init'', ''tools''] (appended ''count'' v) root) (register_tool xl (Some v) st)) \<and>
         (spec_lookup root [''init'', ''input'', ''static''] = Some n2 \<and>
          find_prop (properties n2) ''file_count'' = Some c2 \<longrightarrow>
          edited st (spec_edit [''init'', ''input'', ''static''] (appended ''file_count'' v) root)
            (add_static_parameter xl (Some v) st)) \<and>
         (spec_lookup root [''init'', ''input'', ''dynamic''] = Some n3 \<and>
          find_prop (properties n3) ''arg_count'' = Some c3 \<longrightarrow>
          edited st (spec_edit [''init'', ''input'', ''dynamic''] (appended ''arg_count'' v) root)
            (add_dynamic_parameter xl (Some v) st)) \<and>
         (spec_lookup root [''installed_tools'', t, ''errors''] = Some n4 \<and> all_indented n4 \<and>
          find_prop (properties n4) ''err_count'' = Some c4 \<and> \<not> has_entry v n4 \<longrightarrow>
          edited st (spec_edit [''installed_tools'', t, ''errors''] (appended ''err_count'' v) root)
            (register_error xl (Some v) (Some t) st))"
  by (intro conjI impI; elim conjE;
      rule libxml_spec.register_tool_edits [OF assms] libxml_spec.add_static_parameter_edits [OF assms]
           libxml_spec.add_dynamic_parameter_edits [OF assms] libxml_spec.register_error_edits [OF assms];
      assumption)

definition sample_static :: xml_node where
  "sample_static = reindent (element ''static'' [new_attr ''file_count'' ''0''] [])"

definition sample_dynamic :: xml_node where
  "sample_dynamic =
     reindent (element ''dynamic'' [new_attr ''value'' ''a.out'', new_attr ''arg_count'' ''0''] [])"

definition sample_errors :: xml_node where
  "sample_errors = reindent (element ''errors'' [new_attr ''err_count'' ''0''] [])"

lemma sample_lists:
  "spec_lookup sample_conf [''init'', ''input'', ''static''] = Some sample_static"
  "find_prop (properties sample_static) ''file_count'' = Some ''0''"
  "spec_lookup sample_conf [''init'', ''input'', ''dynamic''] = Some sample_dynamic"
  "find_prop (properties sample_dynamic) ''arg_count'' = Some ''0''"
  "spec_lookup sample_conf [''installed_tools'', ''splint'', ''errors''] = Some sample_errors"
  "find_prop (properties sample_errors) ''err_count'' = Some ''0''" "\<not> has_entry ''drmemory'' sample_errors"
  "find_prop (properties sample_tools) ''count'' = Some ''1''"
  by code_simp+

definition sample_conf_state :: conf_state where
  "sample_conf_state = conf_init (Some [sample_conf])"

theorem registering_appends_witness:
  "edited sample_conf_state (spec_edit [''init'', ''tools''] (appended ''count'' ''drmemory'') sample_conf)
     (register_tool tree_libxml (Some ''drmemory'') sample_conf_state) \<and>
   edited sample_conf_state (spec_edit [''init'', ''input'', ''static''] (appended ''file_count'' ''drmemory'') sample_conf)
     (add_static_parameter tree_libxml (Some ''drmemory'') sample_conf_state) \<and>
   edited sample_conf_state (spec_edit [''init'', ''input'', ''dynamic''] (appended ''arg_count'' ''drmemory'') sample_conf)
     (add_dynamic_parameter tree_libxml (Some ''drmemory'') sample_conf_state) \<and>
   edited sample_conf_state
     (spec_edit [''installed_tools'', ''splint'', ''errors''] (appended ''err_count'' ''drmemory'') sample_conf)
     (register_error tree_libxml (Some ''drmemory'') (Some ''splint'') sample_conf_state)"
proof -
  have st: "c_doc sample_conf_state = Some [sample_conf]" by (simp add: sample_conf_state_def conf_init_def)
  have ind: "all_indented sample_errors" by (simp only: sample_errors_def all_indented_reindent)
  note r = registering_appends [OF tree.libxml_spec_axioms sample_conf_facts(3) st,
    of "''drmemory''" sample_tools "''1''" sample_static "''0''" sample_dynamic "''0''" "''splint''" sample_errors "''0''"]
  note r = r [THEN conjunct1, THEN mp] r [THEN conjunct2, THEN conjunct1, THEN mp]
    r [THEN conjunct2, THEN conjunct2, THEN conjunct1, THEN mp] r [THEN conjunct2, THEN conjunct2, THEN conjunct2, THEN mp]
  show ?thesis by (intro conjI r) (fact sample_lists sample_conf_facts ind)+
qed

text \<open>
  \<open>register_parameter\<close> looks for the list of parameters under literals that no configuration
  has, so it reports success without changing anything, whatever the tool and the parameter are.
\<close>

theorem register_parameter_does_nothing:
  fixes xl :: "'f libxml"
  assumes "libxml_spec xl" and "all_indented root" and "c_doc st = Some [root]"
    and "spec_lookup root [''installed_tools'', ''tool_name'', ''paramteres''] = None"
  shows "register_parameter xl (Some param) (Some tool_name) st = Inr (0, st)"
proof -
  let ?ts = "[''installed_tools'', ''tool_name'', ''paramteres'']"
  have l: "lookup_node [root] (doc_children [root]) (tag_path ?ts) = None"
    by (rule lookup_root_None [OF assms(2,4)])
  then have l4: "lookup_node [root] (doc_children [root])
      (tag_path ?ts @ [PROPERTY_NAME (Some ''value'') (Some param)]) = None"
    by (simp only: lookup_append option.case) simp
  have "xmlNewTextChild xl [root] None ''add'' = (None, [root])" "xmlNewProp xl [root] None ''value'' param = [root]"
    using assms(1) by (simp_all add: libxml_spec_def)
  then have "bump None ''param_count'' (add_entry xl None param [root]) st = Inr st"
    using assms(3) by (simp add: add_entry_def bump_def get_node_property_def node_of_def set_doc_def)
  moreover have "doc_children [root] \<noteq> None" by (simp add: doc_children_def node_ptr_def)
  ultimately show ?thesis
    using assms(3) unfolding register_parameter_def register_in_def
    by (simp only: l l4 option.case prod.case Let_def if_False if_True simp_thms rbind.simps)
qed

theorem register_parameter_does_nothing_witness:
  "register_parameter tree_libxml (Some ''-weak'') (Some ''splint'') (conf_init (Some [sample_conf])) =
   Inr (0, conf_init (Some [sample_conf]))"
proof (rule register_parameter_does_nothing [OF tree.libxml_spec_axioms sample_conf_facts(3)])
  show "c_doc (conf_init (Some [sample_conf])) = Some [sample_conf]" by (simp add: conf_init_def)
  show "spec_lookup sample_conf [''installed_tools'', ''tool_name'', ''paramteres''] = None" by code_simp
qed

text \<open>
  For a description of two words \<open>emit_enum_string\<close> always writes past the end of the buffer it
  allocated, which has the size of the description and not that of the name it builds.
\<close>

theorem emit_enum_string_overflows:
  assumes "a \<noteq> []" and "CHR '' '' \<notin> set a" and "b \<noteq> []" and "CHR '' '' \<notin> set b"
    and "\<forall>k < 3. mal k \<noteq> None"
  shows "emit_enum_string mal (Some (a @ '' '' @ b)) = Inl Out_Of_Bounds"
proof -
  obtain j where j: "mal 0 = Some j" using assms(5) by (metis not_None_eq zero_less_numeral)
  have m: "mal (Suc 0) \<noteq> None" "mal 2 \<noteq> None" using assms(5) by simp_all
  have t1: "strtok (a @ '' '' @ b) '' '' = Some (a, b)"
    using strtok_first [of a "'' ''" "CHR '' ''" b] assms(1,2) by auto
  have t2: "strtok b '' '' = Some (b, [])"
  proof -
    have f: "takeWhile (\<lambda>c. c \<notin> set '' '') b = b" "dropWhile (\<lambda>c. c \<notin> set '' '') b = []"
      "dropWhile (\<lambda>c. c \<in> set '' '') b = b"
      using assms(3,4) by (auto intro: takeWhile_all dropWhile_all simp: dropWhile_eq_self_iff in_set_conv_nth hd_conv_nth)
    show ?thesis unfolding strtok_def Let_def f using assms(3) by simp
  qed
  show ?thesis
    using m t1 t2 by (auto simp: emit_enum_string_def j make_upper_case_def store_def)
qed

theorem emit_enum_string_overflows_witness:
  "emit_enum_string (\<lambda>_. Some 0) (Some (''Unitialized'' @ '' '' @ ''variable'')) = Inl Out_Of_Bounds"
  by (rule emit_enum_string_overflows) simp_all

end
