(* ===== verification/Black_List.thy ===== *)
theory Black_List
  imports C_Lib
begin

text \<open>
  The list of functions whose results must be checked, src/sparse-0.4.1/rbc_sparse_utils/black_list.c.
  The list is an array of pointers in memory of \<open>bl_bytes\<close> bytes, allocated with the size of a character
  per entry; a pointer has eight bytes. The outcomes of the allocations are a list, which is used up
  from the front; when it is empty, they succeed.
\<close>

section \<open>Memory\<close>

definition malloc_ok :: "bool list \<Rightarrow> bool \<times> bool list" where
  "malloc_ok ms = (case ms of [] \<Rightarrow> (True, []) | m # r \<Rightarrow> (m, r))"

definition PTR_SIZE :: nat where "PTR_SIZE = 8"

section \<open>The list\<close>

definition BL_MAX_BUFF_SIZE :: nat where "BL_MAX_BUFF_SIZE = 1024"

definition BL_SIZE_INC :: nat where "BL_SIZE_INC = 100"

record black_list =
  BlackList :: "string option list option"
  bl_bytes :: nat
  BlackListCount :: nat
  bl_mallocs :: "bool list"
  bl_perror :: "string list"

definition bl_init :: "bool list \<Rightarrow> black_list" where
  "bl_init ms = \<lparr>BlackList = None, bl_bytes = 0, BlackListCount = 0, bl_mallocs = ms, bl_perror = []\<rparr>"

text \<open>\<open>BlackList[BlackListCount++] = strdup(line)\<close>.\<close>

definition bl_put :: "string \<Rightarrow> black_list \<Rightarrow> black_list res" where
  "bl_put line st =
     (let (ok, ms) = malloc_ok (bl_mallocs st)
      in rbind (deref (BlackList st)) (\<lambda>entries.
           if PTR_SIZE * (BlackListCount st + 1) \<le> bl_bytes st
           then Inr (st\<lparr>BlackList := Some (entries @ [if ok then Some line else None]),
                        BlackListCount := BlackListCount st + 1, bl_mallocs := ms\<rparr>)
           else Inl Out_Of_Bounds))"

text \<open>The reallocation every \<open>BL_SIZE_INC\<close> lines; the result says whether the loop goes on.\<close>

definition bl_grow :: "black_list \<Rightarrow> bool \<times> black_list" where
  "bl_grow st =
     (if BlackListCount st \<noteq> 0 \<and> BlackListCount st mod BL_SIZE_INC = 0
      then let (ok, ms) = malloc_ok (bl_mallocs st)
           in if ok then (True, st\<lparr>bl_bytes := bl_bytes st + BL_SIZE_INC, bl_mallocs := ms\<rparr>)
              else (False, st\<lparr>BlackList := None, bl_mallocs := ms\<rparr>)
      else (True, st))"

text \<open>The last character of a line is cut off, whether it is a newline or not.\<close>

function bl_lines :: "cfile \<Rightarrow> black_list \<Rightarrow> (int \<times> black_list) res" where
  "bl_lines f st =
     (case fgets BL_MAX_BUFF_SIZE f of
        (None, f1) \<Rightarrow> Inr (0, st)
      | (Some line, f1) \<Rightarrow>
          if line = [] then Inl Out_Of_Bounds
          else (case bl_grow st of
                  (False, st1) \<Rightarrow> Inr (1, st1)
                | (True, st1) \<Rightarrow> rbind (bl_put (butlast line) st1) (\<lambda>st2. bl_lines f1 st2)))"
  by pat_completeness auto
termination
  by (relation "measure (\<lambda>(f, st). length (f_rest f))") (auto simp: BL_MAX_BUFF_SIZE_def dest: fgets_decreases)

declare bl_lines.simps [simp del]

definition set_black_list :: "string option \<Rightarrow> black_list \<Rightarrow> (int \<times> black_list) res" where
  "set_black_list contents st =
     (if BlackList st \<noteq> None then Inr (0, st)
      else let (ok, ms) = malloc_ok (bl_mallocs st);
               st1 = st\<lparr>BlackListCount := 0, bl_mallocs := ms\<rparr>
           in if \<not> ok then Inr (1, st1\<lparr>bl_perror := bl_perror st1 @ [''malloc'']\<rparr>)
              else let st2 = st1\<lparr>BlackList := Some [], bl_bytes := BL_SIZE_INC\<rparr>
                   in case contents of
                        None \<Rightarrow> Inr (1, st2\<lparr>bl_perror := bl_perror st2 @ [''fopen'']\<rparr>)
                      | Some t \<Rightarrow> bl_lines (fopen_text t) st2)"

fun bl_search :: "string option list \<Rightarrow> nat \<Rightarrow> string \<Rightarrow> bool res" where
  "bl_search es 0 f = Inr False"
| "bl_search [] (Suc n) f = Inl Uninit_Read"
| "bl_search (e # es) (Suc n) f = rbind (deref e) (\<lambda>s. if strcmp s f = 0 then Inr True else bl_search es n f)"

definition is_black_listed :: "string option \<Rightarrow> black_list \<Rightarrow> bool res" where
  "is_black_listed func_name st =
     (case func_name of
        None \<Rightarrow> Inr False
      | Some f \<Rightarrow>
          if BlackListCount st = 0 then Inr False
          else rbind (deref (BlackList st)) (\<lambda>es. bl_search es (BlackListCount st) f))"

end
