(* ===== verification/Sparse_Ast.thy ===== *)
theory Sparse_Ast
  imports Black_List
begin

text \<open>
  The syntax trees that the vendored sparse parser hands to the front end, and the state of the
  front end (src/sparse-0.4.1/rbc_sparse_utils/static_analyzer.c).

  A node has a number, which stands for its address. Its type and the members of its union are
  the constructor and its arguments; pointers that may be NULL are options. The members that the
  front end writes (\<open>prt_stmt\<close>, \<open>prt_expr\<close>, \<open>indent_level\<close>, \<open>visited1\<close>, \<open>visited2\<close>) are maps from node numbers, so that
  a node that occurs twice has them once. A pointer to a node is the node itself.
\<close>

section \<open>Syntax trees\<close>

text \<open>
  \<open>e_name\<close> is the second word of the union of an expression, \<open>symbol_name\<close>: sparse keeps it when it turns the
  symbol of a call into a dereference; \<open>Uninit\<close> says that the word is no pointer to an identifier.
\<close>

datatype cast_type = CAST | FORCE_CAST | IMPLIED_CAST

datatype stmt =
    Stmt (s_id: nat) (s_line: int) (s_body: stmt_body)
and stmt_body =
    STMT_NONE
  | STMT_DECLARATION "symbol list"
  | STMT_EXPRESSION "expr option"
  | STMT_COMPOUND "stmt list"
  | STMT_IF "expr option" "stmt option" "stmt option"
  | STMT_RETURN "expr option"
  | STMT_CASE "expr option" "expr option" "stmt option"
  | STMT_SWITCH "expr option" "stmt option"
  | STMT_ITERATOR (pre_condition: "expr option") (post_condition: "expr option")
      (pre_statement: "stmt option") (iterator_statement: "stmt option") (post_statement: "stmt option")
  | STMT_LABEL "stmt option"
  | STMT_GOTO "expr option"
  | STMT_ASM
  | STMT_CONTEXT "expr option"
  | STMT_RANGE "expr option" "expr option" "expr option"
and symbol =
    Symbol (sym_ident: "string option") (initializer: "expr option")
and expr =
    Expr (e_id: nat) (e_line: int) (e_name: "string slot") (e_body: expr_body)
and expr_body =
    EXPR_VALUE | EXPR_FVALUE | EXPR_STRING | EXPR_LABEL | EXPR_POSTOP | EXPR_INITIALIZER
  | EXPR_SYMBOL "string option"
  | EXPR_CALL (call_fn: "expr option") (call_args: "expr list")
  | EXPR_ASSIGNMENT "expr option" "expr option"
  | EXPR_COMMA "expr option" "expr option"
  | EXPR_BINOP "expr option" "expr option"
  | EXPR_COMPARE "expr option" "expr option"
  | EXPR_LOGICAL "expr option" "expr option"
  | EXPR_PREOP int "expr option"
  | EXPR_CAST cast_type "expr option"
  | EXPR_CONDITIONAL bool "expr option" "expr option" "expr option"
  | EXPR_STATEMENT "stmt option"
  | EXPR_SLICE "expr option"
  | EXPR_OTHER

definition OP_STAR :: int where "OP_STAR = 42"
definition SPECIAL_INCREMENT :: int where "SPECIAL_INCREMENT = 257"
definition SPECIAL_DECREMENT :: int where "SPECIAL_DECREMENT = 259"

text \<open>A symbol of the list of a file: its base type, if it has one, may be that of a function with a body.\<close>

record fn_type =
  is_SYM_FN :: bool
  fn_line :: int
  fn_body :: "stmt option"

record file_symbol =
  fs_ident :: "string option"
  base_type :: "fn_type option"

section \<open>The state\<close>

datatype fe_errors =
  ERR_FUN_CALL | ERR_FUN_LINES | ERR_TABS_SPACES | ERR_TRAYLING_WS | ERR_INCONSISTENT_INDENT | ERR_FUN_INDENT_LEVEL

fun fe_code :: "fe_errors \<Rightarrow> nat" where
  "fe_code ERR_FUN_CALL = 1"
| "fe_code ERR_FUN_LINES = 2"
| "fe_code ERR_TABS_SPACES = 3"
| "fe_code ERR_TRAYLING_WS = 4"
| "fe_code ERR_INCONSISTENT_INDENT = 5"
| "fe_code ERR_FUN_INDENT_LEVEL = 6"

definition fe_ERR_MAX :: nat where "fe_ERR_MAX = 7"

definition fe_flag :: "fe_errors \<Rightarrow> 32 word" where
  "fe_flag e = push_bit (fe_code e) 1"

definition has_flag :: "32 word \<Rightarrow> fe_errors \<Rightarrow> bool" where
  "has_flag flags e \<longleftrightarrow> and flags (fe_flag e) \<noteq> 0"

text \<open>The mapping of the current file: none, the error value of \<open>mmap\<close>, or the text.\<close>

datatype file_mapping = MAP_NULL | MAP_FAILED | MAP_TEXT string

record fe_state =
  fe_out :: string
  fe_perror :: "string list"
  fe_mallocs :: "bool list"
  fe_black :: black_list
  MaxLineCount :: int
  MaxIndentLevel :: int
  GlobalFlags :: "32 word"
  CurrentIndentLevel :: int
  LastInstructionLine :: int
  AnalyzedFunction :: "string option"
  AssignmentVariable :: "string option"
  CurrentFile :: "string option"
  FileMapping :: file_mapping
  MappingIndex :: int
  PrevLine :: int
  CurrentLine :: int
  FileList :: "string list option"
  FileFunctionList :: "file_symbol list list"
  prt_stmt :: "nat \<Rightarrow> stmt option"
  indent_level :: "nat \<Rightarrow> int"
  e_prt_stmt :: "nat \<Rightarrow> stmt option"
  e_prt_expr :: "nat \<Rightarrow> expr option"
  visited1 :: "nat \<Rightarrow> bool"
  visited2 :: "nat \<Rightarrow> bool"

definition fe_start :: "bool list \<Rightarrow> fe_state" where
  "fe_start ms =
     \<lparr>fe_out = [], fe_perror = [], fe_mallocs = ms, fe_black = bl_init [], MaxLineCount = -1, MaxIndentLevel = 5,
      GlobalFlags = 0, CurrentIndentLevel = -1, LastInstructionLine = -1, AnalyzedFunction = None,
      AssignmentVariable = None, CurrentFile = None, FileMapping = MAP_NULL, MappingIndex = 0,
      PrevLine = 0, CurrentLine = 0, FileList = None, FileFunctionList = [], prt_stmt = (\<lambda>_. None),
      indent_level = (\<lambda>_. 0), e_prt_stmt = (\<lambda>_. None), e_prt_expr = (\<lambda>_. None), visited1 = (\<lambda>_. False),
      visited2 = (\<lambda>_. False)\<rparr>"

definition put_out :: "string \<Rightarrow> fe_state \<Rightarrow> fe_state" where
  "put_out s st = st\<lparr>fe_out := fe_out st @ s\<rparr>"

definition put_perror :: "string \<Rightarrow> fe_state \<Rightarrow> fe_state" where
  "put_perror s st = st\<lparr>fe_perror := fe_perror st @ [s]\<rparr>"

definition fe_malloc :: "fe_state \<Rightarrow> bool \<times> fe_state" where
  "fe_malloc st = (case malloc_ok (fe_mallocs st) of (ok, ms) \<Rightarrow> (ok, st\<lparr>fe_mallocs := ms\<rparr>))"

text \<open>\<open>child->prt_stmt = parent\<close> for a statement and for an expression, \<open>child->prt_expr = parent\<close>.\<close>

definition set_prt :: "stmt \<Rightarrow> stmt \<Rightarrow> fe_state \<Rightarrow> fe_state" where
  "set_prt child parent st = st\<lparr>prt_stmt := (prt_stmt st)(s_id child := Some parent)\<rparr>"

definition set_e_stmt :: "expr \<Rightarrow> stmt \<Rightarrow> fe_state \<Rightarrow> fe_state" where
  "set_e_stmt child parent st = st\<lparr>e_prt_stmt := (e_prt_stmt st)(e_id child := Some parent)\<rparr>"

definition set_e_expr :: "expr \<Rightarrow> expr \<Rightarrow> fe_state \<Rightarrow> fe_state" where
  "set_e_expr child parent st = st\<lparr>e_prt_expr := (e_prt_expr st)(e_id child := Some parent)\<rparr>"

text \<open>Without a test for NULL, and with one.\<close>

definition set_prt_deref :: "stmt option \<Rightarrow> stmt \<Rightarrow> fe_state \<Rightarrow> fe_state res" where
  "set_prt_deref child parent st = rbind (deref child) (\<lambda>c. Inr (set_prt c parent st))"

definition set_prt_if :: "stmt option \<Rightarrow> stmt \<Rightarrow> fe_state \<Rightarrow> fe_state" where
  "set_prt_if child parent st = (case child of None \<Rightarrow> st | Some c \<Rightarrow> set_prt c parent st)"

definition set_e_stmt_deref :: "expr option \<Rightarrow> stmt \<Rightarrow> fe_state \<Rightarrow> fe_state res" where
  "set_e_stmt_deref child parent st = rbind (deref child) (\<lambda>c. Inr (set_e_stmt c parent st))"

definition set_e_stmt_if :: "expr option \<Rightarrow> stmt \<Rightarrow> fe_state \<Rightarrow> fe_state" where
  "set_e_stmt_if child parent st = (case child of None \<Rightarrow> st | Some c \<Rightarrow> set_e_stmt c parent st)"

definition set_e_expr_deref :: "expr option \<Rightarrow> expr \<Rightarrow> fe_state \<Rightarrow> fe_state res" where
  "set_e_expr_deref child parent st = rbind (deref child) (\<lambda>c. Inr (set_e_expr c parent st))"

end
