(* ===== verification/Analyzer.thy ===== *)
theory Analyzer
  imports Sparse_Ast
begin

text \<open>
  The traversal of statements and the second pass of the front end, which looks at the layout:
  \<open>examine_statement\<close>, \<open>examine_stmt_indent\<close>, \<open>parse_function_list\<close> and \<open>parse_file_list\<close> of
  src/sparse-0.4.1/rbc_sparse_utils/static_analyzer.c. A step may also not end (\<open>None\<close>): the first pass
  follows parent pointers.
\<close>

type_synonym 'a run = "'a res option"

abbreviation ok :: "'a \<Rightarrow> 'a run" where "ok x \<equiv> Some (Inr x)"

section \<open>Statements\<close>

text \<open>
  The function that is called on each statement; its result tells whether it is not NULL. It is
  never the NULL pointer itself, which \<open>examine_statement\<close> would report.
\<close>

type_synonym wrapper = "stmt \<Rightarrow> fe_state \<Rightarrow> (bool \<times> fe_state) run"

fun examine_statement :: "wrapper \<Rightarrow> bool \<Rightarrow> stmt option \<Rightarrow> fe_state \<Rightarrow> (int \<times> fe_state) run"
and examine_statements :: "wrapper \<Rightarrow> bool \<Rightarrow> stmt \<Rightarrow> stmt list \<Rightarrow> int \<Rightarrow> fe_state \<Rightarrow> (int \<times> fe_state) run" where
  "examine_statement w rel None st = ok (1, st)"
| "examine_statement w rel (Some (Stmt i l b)) st =
     (let stmt = Stmt i l b
      in obind (w stmt st) (\<lambda>(continue_eval, st1).
        if \<not> continue_eval then ok (0, st1)
        else case b of
          STMT_ASM \<Rightarrow> ok (1, put_out ''statement ASM not handled'' st1)
        | STMT_CASE e to s \<Rightarrow>
            obind (Some (if rel then set_prt_deref s stmt st1 else Inr st1)) (examine_statement w rel s)
        | STMT_COMPOUND ss \<Rightarrow> examine_statements w rel stmt ss 1 st1
        | STMT_CONTEXT e \<Rightarrow> ok (1, put_out ''CONTEXT'' st1)
        | STMT_DECLARATION ds \<Rightarrow> ok (1, st1)
        | STMT_GOTO e \<Rightarrow> ok (1, st1)
        | STMT_EXPRESSION e \<Rightarrow> ok (1, st1)
        | STMT_IF c t f \<Rightarrow>
            obind (examine_statement w rel t
                     (if rel then set_prt_if f stmt (set_prt_if t stmt st1) else st1)) (\<lambda>(v1, st2).
            obind (examine_statement w rel f st2) (\<lambda>(v2, st3).
              ok (if v1 = 0 \<or> v2 = 0 then 0 else 1, st3)))
        | STMT_ITERATOR pc qc p s q \<Rightarrow>
            obind (examine_statement w rel p
                     (if rel then set_prt_if s stmt (set_prt_if q stmt (set_prt_if p stmt st1)) else st1))
              (\<lambda>(v1, st2).
            obind (examine_statement w rel s st2) (\<lambda>(v2, st3).
            obind (examine_statement w rel q st3) (\<lambda>(v3, st4).
              ok (if v1 = 0 \<or> v2 = 0 \<or> v3 = 0 then 0 else 1, st4))))
        | STMT_LABEL s \<Rightarrow>
            obind (Some (if rel then set_prt_deref s stmt st1 else Inr st1)) (examine_statement w rel s)
        | STMT_NONE \<Rightarrow> ok (1, put_out (''statement NONE not handled'' @ [c_lf]) st1)
        | STMT_RANGE e lo hi \<Rightarrow> ok (1, put_out (''statement RANGE not handled'' @ [c_lf]) st1)
        | STMT_RETURN e \<Rightarrow> ok (1, st1)
        | STMT_SWITCH e s \<Rightarrow>
            obind (Some (if rel then set_prt_deref s stmt st1 else Inr st1)) (examine_statement w rel s)))"
| "examine_statements w rel stmt [] v st = ok (v, st)"
| "examine_statements w rel stmt (s # ss) v st =
     obind (examine_statement w rel (Some s) (if rel then set_prt s stmt st else st)) (\<lambda>(tmp, st1).
       examine_statements w rel stmt ss (if tmp = 0 then 0 else v) st1)"

section \<open>The layout of a file\<close>

text \<open>
  A read of the mapping: the mapped pages go on to the end of the last one, filled with zeros.
\<close>

definition PAGE :: nat where "PAGE = 4096"

definition page_end :: "nat \<Rightarrow> nat" where
  "page_end n = (n + (PAGE - 1)) div PAGE * PAGE"

fun map_at :: "file_mapping \<Rightarrow> int \<Rightarrow> char res" where
  "map_at (MAP_TEXT t) i =
     (if 0 \<le> i \<and> nat i < length t then Inr (t ! nat i)
      else if 0 \<le> i \<and> nat i < page_end (length t) then Inr c_nul
      else Inl Out_Of_Bounds)"
| "map_at m i = Inl Out_Of_Bounds"

definition map_len :: "file_mapping \<Rightarrow> nat" where
  "map_len m = (case m of MAP_TEXT t \<Rightarrow> page_end (length t) | _ \<Rightarrow> 0)"

lemma page_end_le: "n \<le> page_end n"
proof -
  have "n + (PAGE - 1) = (n + (PAGE - 1)) div PAGE * PAGE + (n + (PAGE - 1)) mod PAGE" by simp
  moreover have "(n + (PAGE - 1)) mod PAGE < PAGE" by (simp add: PAGE_def)
  ultimately show ?thesis unfolding page_end_def by linarith
qed

lemma map_at_bound: "map_at m i = Inr c \<Longrightarrow> 0 \<le> i \<and> nat i < map_len m"
  using page_end_le by (cases m) (auto simp: map_len_def split: if_splits dest: less_le_trans)

text \<open>\<open>while (FileMapping[i] != '\n') i++;\<close>\<close>

function scan_newline :: "file_mapping \<Rightarrow> int \<Rightarrow> int res" where
  "scan_newline m i = rbind (map_at m i) (\<lambda>c. if c \<noteq> c_lf then scan_newline m (i + 1) else Inr i)"
  by pat_completeness auto
termination
  by (relation "measure (\<lambda>(m, i). map_len m - nat i)") (auto dest: map_at_bound)

declare scan_newline.simps [simp del]

text \<open>
  \<open>for (i = CurrentLine; i < stmt->pos.line; i++)\<close>, with the start of the last line as result.
\<close>

fun next_lines :: "nat \<Rightarrow> int \<Rightarrow> fe_state \<Rightarrow> (int \<times> fe_state) res" where
  "next_lines 0 start_index st = Inr (start_index, st)"
| "next_lines (Suc n) start_index st =
     rbind (scan_newline (FileMapping st) (MappingIndex st)) (\<lambda>i.
       next_lines n (MappingIndex st)
         (st\<lparr>PrevLine := CurrentLine st, MappingIndex := i + 1, CurrentLine := CurrentLine st + 1\<rparr>))"

text \<open>The numbers of spaces and tabs at an index.\<close>

function count_blanks :: "file_mapping \<Rightarrow> int \<Rightarrow> (nat \<times> nat) res" where
  "count_blanks m i =
     rbind (map_at m i) (\<lambda>c.
       if c = CHR '' '' then rbind (count_blanks m (i + 1)) (\<lambda>(s, t). Inr (s + 1, t))
       else if c = c_tab then rbind (count_blanks m (i + 1)) (\<lambda>(s, t). Inr (s, t + 1))
       else Inr (0, 0))"
  by pat_completeness auto
termination
  by (relation "measure (\<lambda>(m, i). map_len m - nat i)") (auto dest: map_at_bound)

declare count_blanks.simps [simp del]

function back_over_blanks :: "file_mapping \<Rightarrow> int \<Rightarrow> int res" where
  "back_over_blanks m i =
     rbind (map_at m i) (\<lambda>c. if c = CHR '' '' \<or> c = c_tab then back_over_blanks m (i - 1) else Inr i)"
  by pat_completeness auto
termination
  by (relation "measure (\<lambda>(m, i). nat (i + 1))") (auto dest!: map_at_bound)

declare back_over_blanks.simps [simp del]

definition check_mixed :: "int \<Rightarrow> int \<Rightarrow> fe_state \<Rightarrow> fe_state res" where
  "check_mixed line start_index st =
     (if has_flag (GlobalFlags st) ERR_TABS_SPACES
      then rbind (count_blanks (FileMapping st) start_index) (\<lambda>(space_count, tab_count).
             Inr (if space_count \<noteq> 0 \<and> tab_count \<noteq> 0
                  then put_out ([c_tab, c_tab] @ ''Mixed tabs with spaces. SPACES: '' @ fmt_d (int space_count) @
                         '' TABS: '' @ fmt_d (int tab_count) @ '' at line '' @ fmt_d line @ [c_lf]) st
                  else st))
      else Inr st)"

definition check_trailing :: "int \<Rightarrow> fe_state \<Rightarrow> fe_state res" where
  "check_trailing line st =
     (if has_flag (GlobalFlags st) ERR_TRAYLING_WS
      then rbind (back_over_blanks (FileMapping st) (MappingIndex st - 2)) (\<lambda>end_index.
             Inr (if MappingIndex st - end_index - 2 \<ge> 2
                  then put_out ([c_tab, c_tab] @ ''Trailing white space: at line '' @ fmt_d line @ [c_lf]) st
                  else st))
      else Inr st)"

definition check_layout :: "int \<Rightarrow> fe_state \<Rightarrow> fe_state res" where
  "check_layout line st =
     (if FileMapping st = MAP_NULL then Inr st
      else rbind (next_lines (nat (line - CurrentLine st)) (MappingIndex st) st) (\<lambda>(start_index, st1).
           rbind (check_mixed line start_index st1) (check_trailing line)))"

definition is_compound :: "stmt \<Rightarrow> bool" where
  "is_compound s = (case s_body s of STMT_COMPOUND _ \<Rightarrow> True | _ \<Rightarrow> False)"

definition stmt_level :: "stmt \<Rightarrow> fe_state \<Rightarrow> int" where
  "stmt_level s st =
     (case prt_stmt st (s_id s) of
        None \<Rightarrow> 1
      | Some p \<Rightarrow> if is_compound s then indent_level st (s_id p) else indent_level st (s_id p) + 1)"

definition examine_stmt_indent :: wrapper where
  "examine_stmt_indent s st =
     (let st1 = st\<lparr>indent_level := (indent_level st)(s_id s := stmt_level s st)\<rparr>
      in obind (Some (check_layout (s_line s) st1)) (\<lambda>st2.
           ok (True, st2\<lparr>CurrentIndentLevel := max (CurrentIndentLevel st2) (indent_level st2 (s_id s)),
                         LastInstructionLine := max (LastInstructionLine st2) (s_line s)\<rparr>)))"

section \<open>Functions and files\<close>

fun examine_instructions :: "wrapper \<Rightarrow> stmt \<Rightarrow> stmt list \<Rightarrow> fe_state \<Rightarrow> fe_state run" where
  "examine_instructions w body [] st = ok st"
| "examine_instructions w body (s # ss) st =
     obind (examine_statement w True (Some s) (set_prt s body st)) (\<lambda>(_, st1). examine_instructions w body ss st1)"

definition report_function :: "32 word \<Rightarrow> int \<Rightarrow> fe_state \<Rightarrow> fe_state" where
  "report_function flags line st =
     (let st1 = (if has_flag flags ERR_FUN_INDENT_LEVEL \<and> CurrentIndentLevel st \<ge> MaxIndentLevel st
                 then put_out ([c_tab, c_tab] @ ''Indent level: '' @ fmt_d (CurrentIndentLevel st) @ [c_lf]) st else st);
          line_count = LastInstructionLine st1 - line + 1
      in if has_flag flags ERR_FUN_LINES \<and> (MaxLineCount st1 \<le> 0 \<or> line_count \<ge> MaxLineCount st1)
         then put_out ([c_tab, c_tab] @ ''Function line count: '' @ fmt_d line_count @ [c_lf]) st1 else st1)"

definition parse_function :: "wrapper \<Rightarrow> 32 word \<Rightarrow> file_symbol \<Rightarrow> fe_state \<Rightarrow> fe_state run" where
  "parse_function w flags symb st =
     (case base_type symb of
        None \<Rightarrow> ok st
      | Some ty \<Rightarrow>
          (case (is_SYM_FN ty, fn_body ty) of
             (True, Some body) \<Rightarrow>
               (case s_body body of
                  STMT_COMPOUND [] \<Rightarrow> ok st
                | STMT_COMPOUND ss \<Rightarrow>
                    obind (Some (deref (fs_ident symb))) (\<lambda>name.
                      let st1 = put_out ([c_tab] @ ''#####parsing function: '' @ name @ ''#####'' @ [c_lf]) st;
                          st2 = st1\<lparr>CurrentIndentLevel := -1, LastInstructionLine := -1,
                                    indent_level := (indent_level st1)(s_id body := 0), GlobalFlags := flags\<rparr>
                      in obind (examine_instructions w body ss st2) (\<lambda>st3.
                           ok (put_out ([c_tab] @ ''#####end parsing function#####'' @ [c_lf])
                                 (report_function flags (fn_line ty) st3))))
                | _ \<Rightarrow> Some (Inl Uninit_Read))
           | _ \<Rightarrow> ok st))"

fun parse_function_list :: "wrapper \<Rightarrow> 32 word \<Rightarrow> file_symbol list \<Rightarrow> fe_state \<Rightarrow> fe_state run" where
  "parse_function_list w flags [] st = ok st"
| "parse_function_list w flags (symb # symbs) st =
     obind (parse_function w flags symb st) (parse_function_list w flags symbs)"

definition continue_parsing :: "32 word \<Rightarrow> bool" where
  "continue_parsing flags \<longleftrightarrow> (\<exists>i\<in>set [Suc (fe_code ERR_FUN_CALL)..<fe_ERR_MAX]. and flags (push_bit i 1) \<noteq> 0)"

text \<open>
  The sparse library and the files: the files \<open>sparse_initialize\<close> takes from the arguments, the symbols of a file
  after \<open>sparse\<close> and \<open>expand_symbol\<close>, and what \<open>open\<close>, \<open>lseek\<close> and \<open>mmap\<close> give for it.
\<close>

datatype open_result = OPEN_FAILED | LSEEK_FAILED | OPENED file_mapping

record sparse_env =
  sparse_initialize :: "string list \<Rightarrow> string list"
  sparse :: "string \<Rightarrow> file_symbol list"
  open_file :: "string \<Rightarrow> open_result"
  black_list_text :: "string option"

definition map_file :: "sparse_env \<Rightarrow> bool \<Rightarrow> string \<Rightarrow> fe_state \<Rightarrow> fe_state" where
  "map_file env create_mapping name st =
     (let st1 = st\<lparr>CurrentFile := Some name, FileMapping := MAP_NULL\<rparr>
      in if \<not> create_mapping then st1
         else case open_file env name of
                OPEN_FAILED \<Rightarrow> put_perror ''open'' st1
              | LSEEK_FAILED \<Rightarrow> put_perror ''lseek'' st1
              | OPENED MAP_NULL \<Rightarrow> put_perror ''mmap'' st1
              | OPENED m \<Rightarrow> st1\<lparr>FileMapping := m, MappingIndex := 0, PrevLine := 0, CurrentLine := 0\<rparr>)"

text \<open>\<open>munmap\<close> fails only on the error value of \<open>mmap\<close>.\<close>

definition unmap_file :: "bool \<Rightarrow> fe_state \<Rightarrow> fe_state" where
  "unmap_file create_mapping st =
     (if create_mapping \<and> FileMapping st = MAP_FAILED then put_perror ''munmap'' st else st)"

text \<open>\<open>first\<close> says that the files were not parsed before; the array of their symbols has 1024 slots.\<close>

definition FILE_SLOTS :: nat where "FILE_SLOTS = 1024"

fun parse_files :: "sparse_env \<Rightarrow> wrapper \<Rightarrow> 32 word \<Rightarrow> bool \<Rightarrow> nat \<Rightarrow> string list \<Rightarrow> fe_state \<Rightarrow> fe_state run" where
  "parse_files env w flags first index [] st = ok st"
| "parse_files env w flags first index (name # names) st =
     obind (Some (if first
                  then if length (FileFunctionList st) < FILE_SLOTS
                       then Inr (st\<lparr>FileFunctionList := FileFunctionList st @ [sparse env name]\<rparr>)
                       else Inl Out_Of_Bounds
                  else Inr st)) (\<lambda>st1.
     let st2 = map_file env (continue_parsing flags) name st1;
         st3 = put_out (''####From file: '' @ name @ ''####'' @ [c_lf]) st2
     in if index \<ge> FILE_SLOTS then Some (Inl Out_Of_Bounds)
        else obind (parse_function_list w flags
                      (if index < length (FileFunctionList st3) then FileFunctionList st3 ! index else []) st3)
             (\<lambda>st4. parse_files env w flags first (Suc index) names
                      (unmap_file (continue_parsing flags) (put_out (''####End parsing file####'' @ [c_lf]) st4))))"

definition parse_file_list :: "sparse_env \<Rightarrow> wrapper \<Rightarrow> string list \<Rightarrow> 32 word \<Rightarrow> fe_state \<Rightarrow> fe_state run" where
  "parse_file_list env w args flags st =
     (case FileList st of
        None \<Rightarrow>
          (let filelist = sparse_initialize env args
           in obind (parse_files env w flags True 0 filelist (st\<lparr>FileFunctionList := []\<rparr>)) (\<lambda>st1.
                ok (st1\<lparr>FileList := (if filelist = [] then None else Some filelist)\<rparr>)))
      | Some filelist \<Rightarrow> parse_files env w flags False 0 filelist st)"

end
