(* ===== verification/Analyzer_Calls.thy ===== *)
theory Analyzer_Calls
  imports Analyzer
begin

text \<open>
  The first pass of the front end, which looks for calls of black-listed functions whose result is not
  checked: \<open>examine_expression\<close> and everything it calls, and the wrapper \<open>examine_stmt_expression\<close>.

  The loop macros of sparse put their body into two \<open>do ... while (0)\<close> loops, so a \<open>break\<close> in it ends
  only the current turn. Walks along parent pointers are partial functions. \<open>getchar\<close> only waits for a key and is
  left out.
\<close>

section \<open>Names\<close>

text \<open>
  The name of the object an expression refers to. For a sum (an access to an array) the buffer is one
  character too small for the name, an underscore and the suffix.
\<close>

fun build_symbol :: "expr option \<Rightarrow> fe_state \<Rightarrow> (string option \<times> fe_state) res" where
  "build_symbol None st = Inr (None, st)"
| "build_symbol (Some (Expr i l n b)) st =
     (case b of
        EXPR_CALL f args \<Rightarrow> build_symbol f st
      | EXPR_ASSIGNMENT x y \<Rightarrow> build_symbol x st
      | EXPR_PREOP p x \<Rightarrow> if p = OP_STAR then build_symbol x st else Inr (None, st)
      | EXPR_SYMBOL name \<Rightarrow> Inr (name, st)
      | EXPR_CAST k x \<Rightarrow> build_symbol x st
      | EXPR_SLICE x \<Rightarrow> build_symbol x st
      | EXPR_BINOP x y \<Rightarrow>
          rbind (build_symbol x st) (\<lambda>(tmp, st1).
            case tmp of
              None \<Rightarrow> Inr (None, st1)
            | Some t \<Rightarrow>
                (case fe_malloc st1 of
                   (True, st2) \<Rightarrow>
                     rbind (store (length t + length ''vec_acc'' + 1) (t @ ''_'' @ ''vec_acc'')) (\<lambda>s. Inr (Some s, st2))
                 | (False, st2) \<Rightarrow> Inr (Some t, st2)))
      | _ \<Rightarrow> Inr (None, st))"

definition get_assignment_var :: "expr \<Rightarrow> fe_state \<Rightarrow> (string option \<times> fe_state) res" where
  "get_assignment_var e st = build_symbol (Some e) st"

text \<open>The name of the called function; it is only asked for on calls.\<close>

definition get_caller :: "expr \<Rightarrow> string option res" where
  "get_caller e =
     (case e_body e of
        EXPR_CALL f args \<Rightarrow> (case f of None \<Rightarrow> Inr None | Some fe \<Rightarrow> read_slot (e_name fe))
      | _ \<Rightarrow> Inl Uninit_Read)"

fun get_out_symbol :: "expr option \<Rightarrow> string option" where
  "get_out_symbol None = None"
| "get_out_symbol (Some (Expr i l n b)) =
     (case b of EXPR_SYMBOL name \<Rightarrow> name | EXPR_CAST k x \<Rightarrow> get_out_symbol x | _ \<Rightarrow> None)"

text \<open>The call of an expression, with what is printed on the way.\<close>

fun get_call_node :: "expr option \<Rightarrow> expr option \<times> string" where
  "get_call_node None = (None, [])"
| "get_call_node (Some (Expr i l n b)) =
     (case b of
        EXPR_CALL f args \<Rightarrow> (Some (Expr i l n b), [])
      | EXPR_ASSIGNMENT x y \<Rightarrow> get_call_node y
      | EXPR_COMMA x y \<Rightarrow> (case get_call_node x of (None, o1) \<Rightarrow> (case get_call_node y of (r, o2) \<Rightarrow> (r, o1 @ o2)) | r \<Rightarrow> r)
      | EXPR_BINOP x y \<Rightarrow> (case get_call_node x of (None, o1) \<Rightarrow> (case get_call_node y of (r, o2) \<Rightarrow> (r, o1 @ o2)) | r \<Rightarrow> r)
      | EXPR_COMPARE x y \<Rightarrow> (case get_call_node x of (None, o1) \<Rightarrow> (case get_call_node y of (r, o2) \<Rightarrow> (r, o1 @ o2)) | r \<Rightarrow> r)
      | EXPR_LOGICAL x y \<Rightarrow> (case get_call_node x of (None, o1) \<Rightarrow> (case get_call_node y of (r, o2) \<Rightarrow> (r, o1 @ o2)) | r \<Rightarrow> r)
      | EXPR_CAST k x \<Rightarrow> get_call_node x
      | EXPR_CONDITIONAL sel c t f \<Rightarrow>
          (case get_call_node c of
             (None, o1) \<Rightarrow>
               (case get_call_node t of
                  (None, o2) \<Rightarrow> (case get_call_node f of (r, o3) \<Rightarrow> (r, o1 @ o2 @ o3))
                | (r, o2) \<Rightarrow> (r, o1 @ o2))
           | r \<Rightarrow> r)
      | EXPR_SLICE x \<Rightarrow> get_call_node x
      | _ \<Rightarrow> (None, ''error - invalid expression''))"

definition emit_error :: "string option \<Rightarrow> string option \<Rightarrow> int \<Rightarrow> string \<Rightarrow> fe_state \<Rightarrow> fe_state res" where
  "emit_error current_file func_name line err st =
     (let f = (case current_file of None \<Rightarrow> ''<NO FILE>'' | Some f \<Rightarrow> f);
          g = (case func_name of None \<Rightarrow> ''<NO FILE>'' | Some g \<Rightarrow> g)
      in rbind (store 256 (err @ '' in file '' @ [c_quote] @ f @ [c_quote] @ '' for function call '' @ [c_quote] @ g @
                           [c_quote] @ '' at line '' @ [c_quote] @ fmt_d line @ [c_quote])) (\<lambda>s.
           Inr (put_out (s @ [c_lf]) st)))"

section \<open>The parents of an expression\<close>

partial_function (option) get_expression_statement :: "expr \<Rightarrow> fe_state \<Rightarrow> stmt option option" where
  "get_expression_statement crs st =
     (case e_prt_stmt st (e_id crs) of
        Some s \<Rightarrow> Some (Some s)
      | None \<Rightarrow> (case e_prt_expr st (e_id crs) of None \<Rightarrow> Some None | Some p \<Rightarrow> get_expression_statement p st))"

definition is_assignment :: "expr \<Rightarrow> bool" where
  "is_assignment e = (case e_body e of EXPR_ASSIGNMENT _ _ \<Rightarrow> True | _ \<Rightarrow> False)"

partial_function (option) get_last_expression :: "expr \<Rightarrow> fe_state \<Rightarrow> expr option option" where
  "get_last_expression e st =
     (case e_prt_expr st (e_id e) of
        None \<Rightarrow> Some (Some e)
      | Some p \<Rightarrow> if is_assignment p then Some None else get_last_expression p st)"

text \<open>A statement that uses the value of its expression, as a decision or as a result.\<close>

definition is_decision :: "stmt \<Rightarrow> bool" where
  "is_decision s =
     (case s_body s of STMT_IF _ _ _ \<Rightarrow> True | STMT_SWITCH _ _ \<Rightarrow> True | STMT_RETURN _ \<Rightarrow> True | _ \<Rightarrow> False)"

definition is_return :: "stmt \<Rightarrow> bool" where
  "is_return s = (case s_body s of STMT_RETURN _ \<Rightarrow> True | _ \<Rightarrow> False)"

definition is_expression :: "stmt \<Rightarrow> bool" where
  "is_expression s = (case s_body s of STMT_EXPRESSION _ \<Rightarrow> True | _ \<Rightarrow> False)"

definition is_declaration :: "stmt \<Rightarrow> bool" where
  "is_declaration s = (case s_body s of STMT_DECLARATION _ \<Rightarrow> True | _ \<Rightarrow> False)"

definition is_case :: "stmt \<Rightarrow> bool" where
  "is_case s = (case s_body s of STMT_CASE _ _ _ \<Rightarrow> True | _ \<Rightarrow> False)"

definition is_iterator :: "stmt \<Rightarrow> bool" where
  "is_iterator s = (case s_body s of STMT_ITERATOR _ _ _ _ _ \<Rightarrow> True | _ \<Rightarrow> False)"

text \<open>The loop of \<open>validate_expr\<close>; \<open>True\<close> is the result -1.\<close>

partial_function (option) validate_loop :: "expr option \<Rightarrow> fe_state \<Rightarrow> bool option" where
  "validate_loop crs st =
     (case crs of
        None \<Rightarrow> Some True
      | Some e \<Rightarrow>
          (case e_prt_stmt st (e_id e) of
             None \<Rightarrow> validate_loop (e_prt_expr st (e_id e)) st
           | Some s \<Rightarrow>
               if is_decision s \<or>
                  (case prt_stmt st (s_id s) of None \<Rightarrow> False | Some p \<Rightarrow> is_return p) \<and> is_expression s \<or>
                  is_assignment e
               then Some False else validate_loop (e_prt_expr st (e_id e)) st))"

definition validate_expr :: "expr \<Rightarrow> fe_state \<Rightarrow> bool option" where
  "validate_expr e st = validate_loop (e_prt_expr st (e_id e)) st"

section \<open>Uses of a variable\<close>

text \<open>\<open>True\<close> is the result 0, that the variable occurs.\<close>

fun lookup_expression :: "expr option \<Rightarrow> fe_state \<Rightarrow> (bool \<times> fe_state) res"
and lookup_args :: "expr list \<Rightarrow> fe_state \<Rightarrow> (bool \<times> fe_state) res" where
  "lookup_expression None st = Inr (False, st)"
| "lookup_expression (Some (Expr i l n b)) st =
     rbind (build_symbol (Some (Expr i l n b)) st) (\<lambda>(symb, st1).
       if symb \<noteq> None \<and> AssignmentVariable st1 \<noteq> None \<and> symb = AssignmentVariable st1 then Inr (True, st1)
       else case b of
         EXPR_CALL f args \<Rightarrow> lookup_args args st1
       | EXPR_ASSIGNMENT x y \<Rightarrow> lookup_expression y st1
       | EXPR_BINOP x y \<Rightarrow> rbind (lookup_expression x st1) (\<lambda>(v, st2). if v then Inr (True, st2) else lookup_expression y st2)
       | EXPR_COMPARE x y \<Rightarrow> rbind (lookup_expression x st1) (\<lambda>(v, st2). if v then Inr (True, st2) else lookup_expression y st2)
       | EXPR_LOGICAL x y \<Rightarrow> rbind (lookup_expression x st1) (\<lambda>(v, st2). if v then Inr (True, st2) else lookup_expression y st2)
       | EXPR_COMMA x y \<Rightarrow> rbind (lookup_expression x st1) (\<lambda>(v, st2). if v then Inr (True, st2) else lookup_expression y st2)
       | EXPR_PREOP p x \<Rightarrow> lookup_expression x st1
       | EXPR_SYMBOL name \<Rightarrow> Inr (name \<noteq> None \<and> AssignmentVariable st1 \<noteq> None \<and> name = AssignmentVariable st1, st1)
       | EXPR_CAST k x \<Rightarrow> lookup_expression x st1
       | EXPR_CONDITIONAL sel c t f \<Rightarrow>
           rbind (lookup_expression c (put_out ''conditional'' st1)) (\<lambda>(v, st2).
             if v then Inr (True, put_out '' - ret 0'' st2)
             else rbind (lookup_expression t st2) (\<lambda>(v2, st3).
               if v2 then Inr (True, put_out '' - ret 0'' st3) else lookup_expression f st3))
       | _ \<Rightarrow> Inr (False, st1))"
| "lookup_args [] st = Inr (False, st)"
| "lookup_args (a # as) st =
     rbind (lookup_args as st) (\<lambda>(v, st1). if v then Inr (True, st1) else lookup_expression (Some a) st1)"

definition lookup_var :: wrapper where
  "lookup_var s st =
     (case (case s_body s of
              STMT_IF c t f \<Rightarrow> lookup_expression c st
            | STMT_SWITCH e b \<Rightarrow> lookup_expression e st
            | STMT_RETURN e \<Rightarrow> lookup_expression e st
            | STMT_EXPRESSION e \<Rightarrow> lookup_expression e st
            | _ \<Rightarrow> Inr (False, st)) of
        Inl u \<Rightarrow> Some (Inl u)
      | Inr (found, st1) \<Rightarrow> ok (\<not> found, st1))"

text \<open>
  The compound statement around a statement, by its parents; a statement without one prints a
  message.
\<close>

partial_function (option) get_next_statement :: "stmt option \<Rightarrow> fe_state \<Rightarrow> (stmt option \<times> fe_state) option" where
  "get_next_statement prt st =
     (case prt of
        None \<Rightarrow> Some (None, st)
      | Some p \<Rightarrow>
          (case s_body p of
             STMT_COMPOUND ss \<Rightarrow> Some (Some p, st)
           | STMT_ASM \<Rightarrow> Some (None, put_out ''statement ASM not handled'' st)
           | STMT_CONTEXT e \<Rightarrow> Some (None, put_out ''CONTEXT'' st)
           | STMT_GOTO e \<Rightarrow> Some (None, st)
           | STMT_NONE \<Rightarrow> Some (None, put_out (''statement NONE not handled'' @ [c_lf]) st)
           | STMT_RANGE e l h \<Rightarrow> Some (None, put_out (''statement RANGE not handled'' @ [c_lf]) st)
           | STMT_RETURN e \<Rightarrow> Some (None, st)
           | STMT_CASE e t s \<Rightarrow>
               (case Option.bind (prt_stmt st (s_id p)) (\<lambda>q. prt_stmt st (s_id q)) of
                  None \<Rightarrow> Some (None, put_out ''CASE NODE has parrent NULL'' st)
                | Some q \<Rightarrow> get_next_statement (Some q) st)
           | STMT_DECLARATION ds \<Rightarrow>
               (case prt_stmt st (s_id p) of None \<Rightarrow> Some (None, st) | Some q \<Rightarrow> get_next_statement (Some q) st)
           | STMT_EXPRESSION e \<Rightarrow>
               (case prt_stmt st (s_id p) of None \<Rightarrow> Some (None, put_out ''EXPR NODE has parrent NULL'' st)
                | Some q \<Rightarrow> get_next_statement (Some q) st)
           | STMT_IF c t f \<Rightarrow>
               (case prt_stmt st (s_id p) of None \<Rightarrow> Some (None, put_out ''IF NODE has parrent NULL'' st)
                | Some q \<Rightarrow> get_next_statement (Some q) st)
           | STMT_ITERATOR pc qc a s b \<Rightarrow>
               (case prt_stmt st (s_id p) of None \<Rightarrow> Some (None, put_out ''ITERATOR NODE has parrent NULL'' st)
                | Some q \<Rightarrow> get_next_statement (Some q) st)
           | STMT_LABEL s \<Rightarrow>
               (case prt_stmt st (s_id p) of None \<Rightarrow> Some (None, put_out ''LABEL NODE has parrent NULL'' st)
                | Some q \<Rightarrow> get_next_statement (Some q) st)
           | STMT_SWITCH e s \<Rightarrow>
               (case prt_stmt st (s_id p) of None \<Rightarrow> Some (None, put_out ''SWITCH NODE has parrent NULL'' st)
                | Some q \<Rightarrow> get_next_statement (Some q) st)))"

text \<open>The statements of a compound statement after a line; \<open>break\<close> does not end the loop.\<close>

fun usages_in :: "int \<Rightarrow> stmt list \<Rightarrow> bool \<Rightarrow> fe_state \<Rightarrow> (bool \<times> fe_state) run" where
  "usages_in line [] show_err st = ok (show_err, st)"
| "usages_in line (s # ss) show_err st =
     (if s_line s > line
      then obind (examine_statement lookup_var False (Some s) st) (\<lambda>(v, st1).
             usages_in line ss (if v = 0 then False else show_err) st1)
      else usages_in line ss show_err st)"

partial_function (option) usages_loop :: "int \<Rightarrow> stmt option \<Rightarrow> fe_state \<Rightarrow> (bool \<times> fe_state) run" where
  "usages_loop line next st =
     (case next of
        None \<Rightarrow> ok (True, st)
      | Some p \<Rightarrow>
          (case s_body p of
             STMT_COMPOUND ss \<Rightarrow>
               (case usages_in line ss True st of
                  None \<Rightarrow> None
                | Some (Inl u) \<Rightarrow> Some (Inl u)
                | Some (Inr (show_err, st1)) \<Rightarrow>
                    if \<not> show_err then ok (False, st1)
                    else (case get_next_statement (prt_stmt st1 (s_id p)) st1 of
                            None \<Rightarrow> None
                          | Some (q, st2) \<Rightarrow> usages_loop line q st2))
           | _ \<Rightarrow> ok (True, st)))"

definition find_usages :: "stmt \<Rightarrow> expr \<Rightarrow> fe_state \<Rightarrow> (bool \<times> fe_state) run" where
  "find_usages start e st =
     (case get_next_statement (Some start) st of
        None \<Rightarrow> None
      | Some (q, st1) \<Rightarrow> usages_loop (e_line e) q st1)"

definition check_start_statement :: "stmt \<Rightarrow> expr \<Rightarrow> fe_state \<Rightarrow> (bool \<times> fe_state) run" where
  "check_start_statement start e st =
     (if is_decision start \<or> is_iterator start then ok (False, st) else find_usages start e st)"

end
