(* ===== verification/Analyzer_Exprs.thy ===== *)
theory Analyzer_Exprs
  imports Analyzer_Calls
begin

text \<open>
  The first pass, continued: what is done for a call, for an assignment and for a declaration, and the
  recursion over expressions. \<open>examine_expression\<close> and the wrapper \<open>examine_stmt_expression\<close> call each other through
  \<open>examine_statement\<close>; the wrapper takes the function for expressions as an argument, and the
  congruence rules let the termination proof see that it is called on parts of the statement only.
\<close>

section \<open>Calls\<close>

definition handle_call_simple :: "expr \<Rightarrow> fe_state \<Rightarrow> (bool \<times> fe_state) run" where
  "handle_call_simple e st =
     obind (Some (get_caller e)) (\<lambda>fun_name.
     let st1 = st\<lparr>AnalyzedFunction := fun_name\<rparr>;
         unchecked = (\<lambda>s. \<not> (is_decision s \<or> is_case s \<or> is_declaration s))
     in case get_last_expression e st1 of
          None \<Rightarrow> None
        | Some temp_expr \<Rightarrow>
            (case (e_prt_expr st1 (e_id e), e_prt_stmt st1 (e_id e)) of
               (None, Some s) \<Rightarrow> ok (unchecked s, st1)
             | _ \<Rightarrow>
                 (case temp_expr of
                    None \<Rightarrow> ok (False, st1)
                  | Some t \<Rightarrow>
                      (case (e_prt_expr st1 (e_id t), e_prt_stmt st1 (e_id t)) of
                         (None, Some s) \<Rightarrow> ok (unchecked s, st1)
                       | _ \<Rightarrow> ok (False, st1)))))"

text \<open>
  The arguments of a call that may be output variables; \<open>break\<close> leaves only the turn of the loop and
  with it the assignment of NULL.
\<close>

fun out_args :: "expr \<Rightarrow> expr list \<Rightarrow> bool \<Rightarrow> fe_state \<Rightarrow> (bool \<times> fe_state) run" where
  "out_args e [] show_err st = ok (show_err, st)"
| "out_args e (a # as) show_err st =
     (case get_out_symbol (Some a) of
        None \<Rightarrow> out_args e as show_err st
      | Some v \<Rightarrow>
          (let st1 = st\<lparr>AssignmentVariable := Some v\<rparr>
           in case get_expression_statement e st1 of
                None \<Rightarrow> None
              | Some (Some start) \<Rightarrow>
                  obind (check_start_statement start e st1) (\<lambda>(r, st2).
                    if \<not> r then out_args e as False st2
                    else out_args e as show_err (st2\<lparr>AssignmentVariable := None\<rparr>))
              | Some None \<Rightarrow>
                  (case validate_expr e st1 of
                     None \<Rightarrow> None
                   | Some bad \<Rightarrow>
                       obind (Some (if bad
                                    then emit_error (CurrentFile st1) (AnalyzedFunction st1) (e_line e)
                                           ''Unverified return value of function call handle out'' st1
                                    else Inr st1)) (\<lambda>st2.
                         out_args e as show_err (st2\<lparr>AssignmentVariable := None\<rparr>)))))"

definition handle_out_call_params :: "expr option \<Rightarrow> fe_state \<Rightarrow> (bool \<times> fe_state) run" where
  "handle_out_call_params e_opt st =
     (case e_opt of
        None \<Rightarrow> ok (True, st)
      | Some e \<Rightarrow> (case e_body e of EXPR_CALL f args \<Rightarrow> out_args e args True st | _ \<Rightarrow> ok (True, st)))"

section \<open>Declarations\<close>

definition is_declaration_call :: "expr \<Rightarrow> fe_state \<Rightarrow> (bool \<times> stmt option) option" where
  "is_declaration_call e st =
     (case get_expression_statement e st of
        None \<Rightarrow> None
      | Some s \<Rightarrow> Some (case s of None \<Rightarrow> False | Some s' \<Rightarrow> is_declaration s', s))"

text \<open>The inner loop of \<open>handle_declaration\<close>: is the initialiser one of the parents of the call?\<close>

partial_function (option) is_initializer :: "expr option \<Rightarrow> expr option \<Rightarrow> fe_state \<Rightarrow> bool option" where
  "is_initializer e ini st =
     (case e of
        None \<Rightarrow> Some False
      | Some x \<Rightarrow>
          if map_option e_id ini = Some (e_id x) then Some True
          else is_initializer (e_prt_expr st (e_id x)) ini st)"

fun declared_var :: "expr \<Rightarrow> symbol list \<Rightarrow> string option \<Rightarrow> fe_state \<Rightarrow> string option run" where
  "declared_var e [] var st = ok var"
| "declared_var e (Symbol ident ini # ds) var st =
     (case is_initializer (Some e) ini st of
        None \<Rightarrow> None
      | Some found \<Rightarrow>
          if found then obind (Some (deref ident)) (\<lambda>name. declared_var e ds (Some name) st)
          else declared_var e ds var st)"

definition handle_declaration :: "expr \<Rightarrow> stmt option \<Rightarrow> fe_state \<Rightarrow> (bool \<times> fe_state) run" where
  "handle_declaration call_expr decl st =
     (case decl of
        None \<Rightarrow> ok (False, st)
      | Some s \<Rightarrow>
          (case s_body s of
             STMT_DECLARATION ds \<Rightarrow>
               obind (declared_var call_expr ds None st) (\<lambda>var.
                 case var of
                   None \<Rightarrow> ok (False, st)
                 | Some v \<Rightarrow>
                     obind (Some (get_caller call_expr)) (\<lambda>fn.
                     obind (check_start_statement s call_expr (st\<lparr>AssignmentVariable := Some v, AnalyzedFunction := fn\<rparr>))
                       (\<lambda>(r, st1). ok (r, st1\<lparr>AssignmentVariable := None\<rparr>))))
           | _ \<Rightarrow> ok (False, st)))"

definition examine_call :: "expr \<Rightarrow> fe_state \<Rightarrow> fe_state run" where
  "examine_call e st =
     (let st1 = st\<lparr>AnalyzedFunction := None\<rparr>
      in obind (Some (get_caller e)) (\<lambda>fn.
         obind (Some (is_black_listed fn (fe_black st1))) (\<lambda>listed.
           if \<not> listed then ok st1
           else case is_declaration_call e st1 of
                  None \<Rightarrow> None
                | Some (is_decl, s) \<Rightarrow>
                    obind (if is_decl then handle_declaration e s st1 else handle_call_simple e st1) (\<lambda>(temp_value, st2).
                      if \<not> temp_value then ok st2
                      else obind (handle_out_call_params (Some e) st2) (\<lambda>(show_err, st3).
                             if show_err
                             then Some (emit_error (CurrentFile st3) fn (e_line e)
                                          ''Unverified return value for function'' st3)
                             else ok st3)))))"

section \<open>Expressions\<close>

text \<open>The results of \<open>examine_expression\<close>; \<open>None\<close> is -1.\<close>

datatype expr_result =
    R_CALL | R_ASSIGNMENT | R_COMMA | R_LOGICAL | R_PREOP | R_POSTOP | R_SYMBOL | R_CAST | R_VALUE | R_FVALUE
  | R_STRING | R_INITIALIZER | R_CONDITIONAL | R_STATEMENT | R_LABEL | R_SLICE

type_synonym examiner = "expr \<Rightarrow> fe_state \<Rightarrow> (expr_result option \<times> fe_state) run"

fun examine_opt :: "examiner \<Rightarrow> expr option \<Rightarrow> fe_state \<Rightarrow> fe_state run" where
  "examine_opt ex None st = ok st"
| "examine_opt ex (Some e) st = obind (ex e st) (\<lambda>(_, st1). ok st1)"

text \<open>What follows the examination of the right-hand side of an assignment.\<close>

definition after_assignment :: "expr \<Rightarrow> expr_result option \<Rightarrow> fe_state \<Rightarrow> fe_state run" where
  "after_assignment e r st =
     (if r = Some R_CALL \<or> r = Some R_CAST
      then case get_expression_statement e st of
             None \<Rightarrow> None
           | Some (Some start) \<Rightarrow>
               obind (Some (is_black_listed (AnalyzedFunction st) (fe_black st))) (\<lambda>listed.
                 if \<not> listed then ok st
                 else obind (check_start_statement start e st) (\<lambda>(bad, st1).
                   if \<not> bad then ok st1
                   else case get_call_node (Some e) of
                          (call, printed) \<Rightarrow>
                            obind (handle_out_call_params call (put_out printed st1)) (\<lambda>(show_err, st2).
                              if show_err
                              then Some (emit_error (CurrentFile st2) (AnalyzedFunction st2) (e_line e)
                                           ''Unverified return value of function call'' st2)
                              else ok st2)))
           | Some None \<Rightarrow>
               (case validate_expr e st of
                  None \<Rightarrow> None
                | Some bad \<Rightarrow>
                    if bad
                    then Some (emit_error (CurrentFile st) (AnalyzedFunction st) (e_line e)
                                 ''Unverified return value of function call'' st)
                    else ok st)
      else ok st)"

fun examine_symbols :: "examiner \<Rightarrow> stmt \<Rightarrow> symbol list \<Rightarrow> fe_state \<Rightarrow> fe_state run" where
  "examine_symbols ex s [] st = ok st"
| "examine_symbols ex s (Symbol ident ini # ds) st =
     obind (examine_opt ex ini (set_e_stmt_if ini s st)) (examine_symbols ex s ds)"

definition examine_parts :: "examiner \<Rightarrow> stmt \<Rightarrow> fe_state \<Rightarrow> fe_state run" where
  "examine_parts ex s st =
     (case s_body s of
        STMT_DECLARATION ds \<Rightarrow> examine_symbols ex s ds st
      | STMT_CONTEXT e \<Rightarrow> examine_opt ex e (set_e_stmt_if e s st)
      | STMT_EXPRESSION e \<Rightarrow> examine_opt ex e (set_e_stmt_if e s st)
      | STMT_CASE e to b \<Rightarrow>
          obind (examine_opt ex e (set_e_stmt_if e s st)) (\<lambda>st1. examine_opt ex to (set_e_stmt_if to s st1))
      | STMT_IF c t f \<Rightarrow> obind (Some (set_e_stmt_deref c s st)) (examine_opt ex c)
      | STMT_ITERATOR pc qc p b q \<Rightarrow>
          obind (examine_opt ex pc (set_e_stmt_if pc s st)) (\<lambda>st1. examine_opt ex qc (set_e_stmt_if qc s st1))
      | STMT_SWITCH e b \<Rightarrow> obind (Some (set_e_stmt_deref e s st)) (examine_opt ex e)
      | STMT_RANGE e lo hi \<Rightarrow>
          obind (Some (set_e_stmt_deref e s st)) (\<lambda>st1.
          obind (Some (set_e_stmt_deref lo s st1)) (\<lambda>st2.
          obind (Some (set_e_stmt_deref hi s st2)) (\<lambda>st3.
          obind (examine_opt ex e st3) (\<lambda>st4.
          obind (examine_opt ex lo st4) (examine_opt ex hi)))))
      | STMT_RETURN e \<Rightarrow> obind (Some (set_e_stmt_deref e s st)) (examine_opt ex e)
      | STMT_GOTO e \<Rightarrow> examine_opt ex e (set_e_stmt_if e s st)
      | _ \<Rightarrow> ok st)"

definition stmt_wrapper :: "examiner \<Rightarrow> wrapper" where
  "stmt_wrapper ex s st = obind (examine_parts ex s st) (\<lambda>st1. ok (True, st1))"

text \<open>The expressions of a statement and the statements a traversal visits.\<close>

definition the_list :: "'a option \<Rightarrow> 'a list" where
  "the_list x = (case x of None \<Rightarrow> [] | Some y \<Rightarrow> [y])"

definition parts :: "stmt \<Rightarrow> expr list" where
  "parts s =
     (case s_body s of
        STMT_DECLARATION ds \<Rightarrow> concat (map (\<lambda>d. the_list (initializer d)) ds)
      | STMT_CONTEXT e \<Rightarrow> the_list e | STMT_EXPRESSION e \<Rightarrow> the_list e
      | STMT_CASE e to b \<Rightarrow> the_list e @ the_list to
      | STMT_IF c t f \<Rightarrow> the_list c
      | STMT_ITERATOR pc qc p b q \<Rightarrow> the_list pc @ the_list qc
      | STMT_SWITCH e b \<Rightarrow> the_list e
      | STMT_RANGE e lo hi \<Rightarrow> the_list e @ the_list lo @ the_list hi
      | STMT_RETURN e \<Rightarrow> the_list e | STMT_GOTO e \<Rightarrow> the_list e | _ \<Rightarrow> [])"

fun stmts_opt :: "stmt option \<Rightarrow> stmt list" and stmts_list :: "stmt list \<Rightarrow> stmt list" where
  "stmts_opt None = []"
| "stmts_opt (Some (Stmt i l b)) =
     Stmt i l b #
     (case b of
        STMT_CASE e to s \<Rightarrow> stmts_opt s | STMT_COMPOUND ss \<Rightarrow> stmts_list ss
      | STMT_IF c t f \<Rightarrow> stmts_opt t @ stmts_opt f
      | STMT_ITERATOR pc qc p s q \<Rightarrow> stmts_opt p @ stmts_opt s @ stmts_opt q
      | STMT_LABEL s \<Rightarrow> stmts_opt s | STMT_SWITCH e s \<Rightarrow> stmts_opt s | _ \<Rightarrow> [])"
| "stmts_list [] = []"
| "stmts_list (s # ss) = stmts_opt (Some s) @ stmts_list ss"

lemma the_list_size: "e \<in> set (the_list x) \<Longrightarrow> size e < size_option size x"
  by (cases x) (auto simp: the_list_def)

lemma parts_size: "e \<in> set (parts s) \<Longrightarrow> size e < size s"
proof (cases s)
  case (Stmt i l b)
  assume e: "e \<in> set (parts s)"
  show ?thesis
  proof (cases b)
    case (STMT_DECLARATION ds)
    then obtain d where d: "d \<in> set ds" "e \<in> set (the_list (initializer d))" using e Stmt by (auto simp: parts_def)
    have "size e < size d" using the_list_size [OF d(2)] by (cases d) auto
    moreover have "size d \<le> size_list size ds" using d(1) by (rule size_list_estimation') simp
    ultimately show ?thesis using Stmt STMT_DECLARATION by simp
  qed (use e Stmt in \<open>auto simp: parts_def dest!: the_list_size\<close>)
qed

lemma stmts_size:
  "t \<in> set (stmts_opt s) \<Longrightarrow> size t < size_option size s"
  "t \<in> set (stmts_list ss) \<Longrightarrow> size t < size_list size ss"
proof (induction s and ss rule: stmts_opt_stmts_list.induct)
  case (2 i l b)
  then show ?case by (cases b) (auto dest: less_SucI)
next
  case (4 s ss)
  then show ?case by fastforce
qed simp_all

lemma examine_opt_cong [fundef_cong]:
  assumes "x = x'" and "st = st'" and "\<And>e t. x' = Some e \<Longrightarrow> ex e t = ex' e t"
  shows "examine_opt ex x st = examine_opt ex' x' st'"
  using assms by (cases x') auto

lemma examine_symbols_cong:
  "(\<And>e t. e \<in> set (concat (map (\<lambda>d. the_list (initializer d)) ds)) \<Longrightarrow> ex e t = ex' e t) \<Longrightarrow>
   examine_symbols ex s ds st = examine_symbols ex' s ds st"
proof (induction ds arbitrary: st)
  case (Cons d ds)
  obtain ident ini where d: "d = Symbol ident ini" by (cases d)
  have "examine_opt ex ini t = examine_opt ex' ini t" for t
    by (rule examine_opt_cong) (use Cons.prems d in \<open>auto simp: the_list_def\<close>)
  moreover have "examine_symbols ex s ds t = examine_symbols ex' s ds t" for t
    by (rule Cons.IH) (use Cons.prems in auto)
  ultimately show ?case using d by (auto intro!: obind_cong)
qed simp

lemma stmt_wrapper_cong [fundef_cong]:
  assumes "s = s'" and "st = st'" and ex: "\<And>e t. e \<in> set (parts s') \<Longrightarrow> ex e t = ex' e t"
  shows "stmt_wrapper ex s st = stmt_wrapper ex' s' st'"
proof -
  have opt: "examine_opt ex x t = examine_opt ex' x t" if "set (the_list x) \<subseteq> set (parts s')" for x t
    by (rule examine_opt_cong) (use ex that in \<open>auto simp: the_list_def\<close>)
  have "examine_parts ex s' st' = examine_parts ex' s' st'"
  proof (cases "s_body s'")
    case (STMT_DECLARATION ds)
    then show ?thesis using ex by (auto simp: examine_parts_def parts_def intro!: examine_symbols_cong)
  qed (auto simp: examine_parts_def opt parts_def sup.coboundedI1 sup.coboundedI2 intro!: obind_cong)
  then show ?thesis using assms(1,2) by (simp add: stmt_wrapper_def)
qed

lemma examine_statement_eq:
  "(\<And>t u. t \<in> set (stmts_opt s) \<Longrightarrow> w t u = w' t u) \<Longrightarrow> examine_statement w rel s st = examine_statement w' rel s st"
  "(\<And>t u. t \<in> set (stmts_list ss) \<Longrightarrow> w t u = w' t u) \<Longrightarrow>
   examine_statements w rel p ss v st = examine_statements w' rel p ss v st"
proof (induction s and ss arbitrary: st and p v st rule: stmts_opt_stmts_list.induct)
  case (2 i l b)
  have w: "w (Stmt i l b) st = w' (Stmt i l b) st" by (rule "2.prems") simp
  show ?case
  proof (cases b)
    case (STMT_CASE e to s)
    have "examine_statement w rel s = examine_statement w' rel s"
      by (rule ext, rule "2.IH"(4) [OF STMT_CASE]) (rule "2.prems", simp add: STMT_CASE)
    then show ?thesis using w STMT_CASE by (simp add: Let_def cong: if_cong)
  next
    case (STMT_COMPOUND ss)
    have "examine_statements w rel q ss v u = examine_statements w' rel q ss v u" for q v u
      by (rule "2.IH"(1) [OF STMT_COMPOUND]) (rule "2.prems", simp add: STMT_COMPOUND)
    then show ?thesis using w STMT_COMPOUND by (simp add: Let_def cong: if_cong)
  next
    case (STMT_IF c t f)
    have "examine_statement w rel t = examine_statement w' rel t"
      by (rule ext, rule "2.IH"(2) [OF STMT_IF]) (rule "2.prems", simp add: STMT_IF)
    moreover have "examine_statement w rel f = examine_statement w' rel f"
      by (rule ext, rule "2.IH"(3) [OF STMT_IF]) (rule "2.prems", simp add: STMT_IF)
    ultimately show ?thesis using w STMT_IF by (simp add: Let_def cong: if_cong)
  next
    case (STMT_ITERATOR pc qc p s q)
    have "examine_statement w rel p = examine_statement w' rel p"
      by (rule ext, rule "2.IH"(6) [OF STMT_ITERATOR]) (rule "2.prems", simp add: STMT_ITERATOR)
    moreover have "examine_statement w rel s = examine_statement w' rel s"
      by (rule ext, rule "2.IH"(7) [OF STMT_ITERATOR]) (rule "2.prems", simp add: STMT_ITERATOR)
    moreover have "examine_statement w rel q = examine_statement w' rel q"
      by (rule ext, rule "2.IH"(8) [OF STMT_ITERATOR]) (rule "2.prems", simp add: STMT_ITERATOR)
    ultimately show ?thesis using w STMT_ITERATOR by (simp add: Let_def cong: if_cong)
  next
    case (STMT_LABEL s)
    have "examine_statement w rel s = examine_statement w' rel s"
      by (rule ext, rule "2.IH"(9) [OF STMT_LABEL]) (rule "2.prems", simp add: STMT_LABEL)
    then show ?thesis using w STMT_LABEL by (simp add: Let_def cong: if_cong)
  next
    case (STMT_SWITCH e s)
    have "examine_statement w rel s = examine_statement w' rel s"
      by (rule ext, rule "2.IH"(5) [OF STMT_SWITCH]) (rule "2.prems", simp add: STMT_SWITCH)
    then show ?thesis using w STMT_SWITCH by (simp add: Let_def cong: if_cong)
  qed (use w in \<open>simp_all add: Let_def cong: if_cong\<close>)
next
  case (4 s ss)
  have "examine_statement w rel (Some s) u = examine_statement w' rel (Some s) u" for u
    by (rule "4.IH"(1)) (rule "4.prems", simp)
  moreover have "examine_statements w rel q ss v = examine_statements w' rel q ss v" for q v
    by (rule ext, rule "4.IH"(2)) (rule "4.prems", simp)
  ultimately show ?case by (simp only: examine_statements.simps)
qed simp_all

lemma examine_statement_cong [fundef_cong]:
  assumes "s = s'" and "st = st'" and "rel = rel'" and "\<And>t u. t \<in> set (stmts_opt s') \<Longrightarrow> w t u = w' t u"
  shows "examine_statement w rel s st = examine_statement w' rel' s' st'"
  using assms examine_statement_eq(1) by blast

text \<open>\<open>expr->left->prt_expr = expr->right->prt_expr = expr\<close>.\<close>

definition set_both :: "expr option \<Rightarrow> expr option \<Rightarrow> expr \<Rightarrow> fe_state \<Rightarrow> fe_state res" where
  "set_both x y e st = rbind (set_e_expr_deref y e st) (set_e_expr_deref x e)"

text \<open>The marks of an expression, which is examined at most twice.\<close>

definition mark_visited :: "nat \<Rightarrow> fe_state \<Rightarrow> fe_state" where
  "mark_visited i st =
     (case fe_malloc st of
        (m, st1) \<Rightarrow> if \<not> visited1 st i then st1\<lparr>visited1 := (visited1 st1)(i := m)\<rparr>
                   else st1\<lparr>visited2 := (visited2 st1)(i := m)\<rparr>)"

function examine_expression :: examiner where
  "examine_expression (Expr i l n b) st =
     (if visited1 st i \<and> visited2 st i then ok (None, st)
      else
        let e = Expr i l n b; st1 = mark_visited i st
        in case b of
             EXPR_CALL f args \<Rightarrow> obind (examine_call e st1) (\<lambda>st2. ok (Some R_CALL, st2))
           | EXPR_ASSIGNMENT x y \<Rightarrow>
               obind (Some (get_assignment_var e st1)) (\<lambda>(v, st2).
               obind (Some (set_e_expr_deref y e (st2\<lparr>AssignmentVariable := v\<rparr>))) (\<lambda>st3.
                 case y of
                   None \<Rightarrow> Some (Inl Null_Deref)
                 | Some right \<Rightarrow>
                     obind (examine_expression right st3) (\<lambda>(r, st4).
                     obind (after_assignment e r st4) (\<lambda>st5. ok (Some R_ASSIGNMENT, st5)))))
           | EXPR_COMMA x y \<Rightarrow>
               obind (Some (set_both x y e st1)) (\<lambda>st2.
               obind (examine_opt examine_expression x st2) (\<lambda>st3.
               obind (examine_opt examine_expression y st3) (\<lambda>st4. ok (Some R_COMMA, st4))))
           | EXPR_BINOP x y \<Rightarrow>
               obind (Some (set_both x y e st1)) (\<lambda>st2.
               obind (examine_opt examine_expression x st2) (\<lambda>st3.
               obind (examine_opt examine_expression y st3) (\<lambda>st4. ok (Some R_LOGICAL, st4))))
           | EXPR_COMPARE x y \<Rightarrow>
               obind (Some (set_both x y e st1)) (\<lambda>st2.
               obind (examine_opt examine_expression x st2) (\<lambda>st3.
               obind (examine_opt examine_expression y st3) (\<lambda>st4. ok (Some R_LOGICAL, st4))))
           | EXPR_LOGICAL x y \<Rightarrow>
               obind (Some (set_both x y e st1)) (\<lambda>st2.
               obind (examine_opt examine_expression x st2) (\<lambda>st3.
               obind (examine_opt examine_expression y st3) (\<lambda>st4. ok (Some R_LOGICAL, st4))))
           | EXPR_PREOP p x \<Rightarrow>
               if p = SPECIAL_INCREMENT \<or> p = SPECIAL_DECREMENT then ok (Some R_PREOP, st1)
               else obind (Some (set_e_expr_deref x e st1)) (\<lambda>st2.
                    obind (examine_opt examine_expression x st2) (\<lambda>st3. ok (Some R_PREOP, st3)))
           | EXPR_POSTOP \<Rightarrow> ok (Some R_POSTOP, st1)
           | EXPR_SYMBOL s \<Rightarrow> ok (Some R_SYMBOL, st1)
           | EXPR_CAST k x \<Rightarrow>
               obind (Some (set_e_expr_deref x e st1)) (\<lambda>st2.
               obind (examine_opt examine_expression x st2) (\<lambda>st3. ok (Some R_CAST, st3)))
           | EXPR_VALUE \<Rightarrow> ok (Some R_VALUE, st1)
           | EXPR_FVALUE \<Rightarrow> ok (Some R_FVALUE, st1)
           | EXPR_STRING \<Rightarrow> ok (Some R_STRING, st1)
           | EXPR_INITIALIZER \<Rightarrow>
               ok (Some R_INITIALIZER, put_out ([c_lf, c_tab, c_tab] @ ''init'' @ [c_lf, c_tab, c_tab] @ '' end init'') st1)
           | EXPR_CONDITIONAL sel c t f \<Rightarrow>
               obind (Some (set_e_expr_deref c e st1)) (\<lambda>st2.
               obind (Some (set_e_expr_deref f e st2)) (\<lambda>st3.
               obind (Some (set_e_expr_deref t e st3)) (\<lambda>st4.
               obind (examine_opt examine_expression c st4) (\<lambda>st5.
               obind (examine_opt examine_expression t st5) (\<lambda>st6.
               obind (examine_opt examine_expression f st6) (\<lambda>st7. ok (Some R_CONDITIONAL, st7)))))))
           | EXPR_STATEMENT s \<Rightarrow>
               obind (examine_statement (stmt_wrapper examine_expression) True s st1) (\<lambda>(_, st2).
                 ok (Some R_STATEMENT, st2))
           | EXPR_LABEL \<Rightarrow> ok (Some R_LABEL, st1)
           | EXPR_SLICE x \<Rightarrow>
               obind (Some (set_e_expr_deref x e st1)) (\<lambda>st2.
               obind (examine_opt examine_expression x st2) (\<lambda>st3. ok (Some R_SLICE, st3)))
           | EXPR_OTHER \<Rightarrow> ok (None, put_out ''error - invalid expression'' st1))"
  by pat_completeness auto
termination
proof (relation "measure (\<lambda>(e, st). size e)", goal_cases)
  case 1
  show ?case by simp
qed (auto dest!: parts_size stmts_size(1))

declare examine_expression.simps [simp del]

definition examine_stmt_expression :: wrapper where
  "examine_stmt_expression = stmt_wrapper examine_expression"

end
