(* ===== verification/Analyzer_Main.thy ===== *)
theory Analyzer_Main
  imports Analyzer_Exprs
begin

text \<open>
  \<open>main\<close> of src/sparse-0.4.1/rbc_sparse_utils/static_analyzer.c: the options, the black list, the copy of the
  arguments and the two passes. What the program writes to the standard error output is appended to
  \<open>fe_perror\<close>.
\<close>

section \<open>Options\<close>

text \<open>
  \<open>getopt(argc, argv, "cl:i:s:")\<close> until it returns -1, as in the GNU library: options may stand between other
  arguments, which are moved behind them. \<open>Opt_Bad\<close> is the result \<open>?\<close>.
\<close>

datatype opt = Opt char "string option" | Opt_Bad

fun opt_word :: "string \<Rightarrow> string list \<Rightarrow> opt list \<times> nat" where
  "opt_word [] rest = ([], 0)"
| "opt_word (c # cs) rest =
     (if c = CHR ''c'' then (case opt_word cs rest of (os, n) \<Rightarrow> (Opt c None # os, n))
      else if c = CHR ''l'' \<or> c = CHR ''i'' \<or> c = CHR ''s''
      then (if cs \<noteq> [] then ([Opt c (Some cs)], 0)
            else case rest of [] \<Rightarrow> ([Opt_Bad], 0) | a # _ \<Rightarrow> ([Opt c (Some a)], 1))
      else ([Opt_Bad], 0))"

text \<open>The options, the words they take and the other arguments.\<close>

function getopt_all :: "string list \<Rightarrow> opt list \<times> string list \<times> string list" where
  "getopt_all [] = ([], [], [])"
| "getopt_all (w # ws) =
     (if w = ''--'' then ([], [w], ws)
      else if w \<noteq> [] \<and> hd w = CHR ''-'' \<and> tl w \<noteq> []
      then (case opt_word (tl w) ws of
              (os, n) \<Rightarrow> (case getopt_all (drop n ws) of (os2, ow, no) \<Rightarrow> (os @ os2, w # take n ws @ ow, no)))
      else (case getopt_all ws of (os, ow, no) \<Rightarrow> (os, ow, w # no)))"
  by pat_completeness auto
termination by (relation "measure length") auto

definition usage_text :: "string \<Rightarrow> string" where
  "usage_text prog =
     ''Usage: '' @ prog @ '' [-c ][-l line count] [-i indent level] [-s trailing/mixed-begin] [file list]'' @ [c_lf]"

definition usage_s_text :: "string \<Rightarrow> string" where
  "usage_s_text prog = ''Usage: '' @ prog @ '' [-s trailing/mixed-begin]'' @ [c_lf]"

text \<open>The loop over the options: the flags, the number of words counted and whether it goes on.\<close>

fun take_options :: "string \<Rightarrow> opt list \<Rightarrow> 32 word \<Rightarrow> int \<Rightarrow> fe_state \<Rightarrow> (32 word \<times> int) option \<times> fe_state" where
  "take_options prog [] flags args st = (Some (flags, args), st)"
| "take_options prog (Opt_Bad # os) flags args st = (None, put_perror (usage_text prog) st)"
| "take_options prog (Opt c a # os) flags args st =
     (let v = (case a of None \<Rightarrow> [] | Some v \<Rightarrow> v)
      in if c = CHR ''c'' then take_options prog os (or flags (fe_flag ERR_FUN_CALL)) (args + 1) st
         else if c = CHR ''l''
         then take_options prog os (or flags (fe_flag ERR_FUN_LINES)) (args + 2) (st\<lparr>MaxLineCount := atoi v\<rparr>)
         else if c = CHR ''i''
         then take_options prog os (or flags (fe_flag ERR_FUN_INDENT_LEVEL)) (args + 2) (st\<lparr>MaxIndentLevel := atoi v\<rparr>)
         else if v = ''trailing'' then take_options prog os (or flags (fe_flag ERR_TRAYLING_WS)) (args + 2) st
         else if v = ''mixed-begin'' then take_options prog os (or flags (fe_flag ERR_TABS_SPACES)) (args + 2) st
         else (None, put_perror (usage_s_text prog) st))"

section \<open>The arguments of sparse\<close>

fun copy_args :: "string list \<Rightarrow> fe_state \<Rightarrow> string option list \<times> fe_state" where
  "copy_args [] st = ([], st)"
| "copy_args (a # as) st =
     (case fe_malloc st of
        (m, st1) \<Rightarrow> (case copy_args as st1 of (cs, st2) \<Rightarrow> ((if m then Some a else None) # cs, st2)))"

text \<open>
  What \<open>sparse_initialize\<close> finds behind the name of the program: it goes on to a NULL pointer, which the
  program does not write. The slot behind the copies is uninitialised memory, NULL when \<open>fresh\<close> says so.
\<close>

fun until_null :: "bool \<Rightarrow> nat \<Rightarrow> string option list \<Rightarrow> string list res" where
  "until_null fresh extra [] =
     (if extra = 0 then Inl Out_Of_Bounds else if fresh then Inr [] else Inl Uninit_Read)"
| "until_null fresh extra (None # as) = Inr []"
| "until_null fresh extra (Some a # as) = rbind (until_null fresh extra as) (\<lambda>bs. Inr (a # bs))"

definition new_args :: "bool \<Rightarrow> string list \<Rightarrow> int \<Rightarrow> fe_state \<Rightarrow> (string list \<times> fe_state) res" where
  "new_args fresh argv args st =
     (let slots = int (length argv) - args + 2
      in if slots < 0 then Inl Null_Deref
         else case fe_malloc st of
                (False, st1) \<Rightarrow> Inl Null_Deref
              | (True, st1) \<Rightarrow>
                  if slots = 0 then Inl Out_Of_Bounds
                  else (case copy_args (take 1 argv @ drop (nat args) argv) st1 of
                          (copies, st2) \<Rightarrow>
                            rbind (until_null fresh (nat slots - length copies) (tl copies)) (\<lambda>as. Inr (as, st2))))"

section \<open>The program\<close>

definition run_passes :: "sparse_env \<Rightarrow> string list \<Rightarrow> 32 word \<Rightarrow> fe_state \<Rightarrow> fe_state run" where
  "run_passes env args flags st =
     obind (if has_flag flags ERR_FUN_CALL
            then parse_file_list env examine_stmt_expression args (fe_flag ERR_FUN_CALL)
                   (put_out ([c_tab, c_tab, c_tab, c_tab] @ ''Call Errors:'' @ [c_lf]) st)
            else ok st) (\<lambda>st1.
       let flags1 = and flags (not (fe_flag ERR_FUN_CALL))
       in if continue_parsing flags1
          then parse_file_list env examine_stmt_indent args flags1
                 (put_out ([c_tab, c_tab, c_tab, c_tab] @ ''Other errors:'' @ [c_lf]) st1)
          else ok st1)"

text \<open>The exit status and the state at the end.\<close>

definition analyzer_main :: "sparse_env \<Rightarrow> bool \<Rightarrow> string list \<Rightarrow> bool list \<Rightarrow> (int \<times> fe_state) run" where
  "analyzer_main env fresh argv ms =
     (let prog = (case argv of [] \<Rightarrow> [] | p # _ \<Rightarrow> p); st = fe_start ms
      in if length argv < 2 then ok (1, put_perror (usage_text prog) st)
         else case getopt_all (tl argv) of
                (os, ow, no) \<Rightarrow>
                  (case take_options prog os 0 1 st of
                     (None, st1) \<Rightarrow> ok (1, st1)
                   | (Some (flags, args), st1) \<Rightarrow>
                       obind (Some (set_black_list (black_list_text env) (bl_init (fe_mallocs st1)))) (\<lambda>(status, bl).
                         let st2 = st1\<lparr>fe_black := bl, fe_mallocs := bl_mallocs bl,
                                       fe_perror := fe_perror st1 @ bl_perror bl\<rparr>
                         in if status \<noteq> 0 then ok (1, put_perror ''black list creation'' st2)
                            else obind (Some (new_args fresh (prog # ow @ no) args st2)) (\<lambda>(as, st3).
                                 obind (run_passes env as flags st3) (\<lambda>st4. ok (0, st4))))))"

end
