(* ===== verification/Analyzer_Facts.thy ===== *)
theory Analyzer_Facts
  imports Analyzer_Main Mod_Sparse
begin

text \<open>
  Properties of the sparse front end: the black list, the calls and the layout it reports, and that the
  module of the driver reads back what it prints.
\<close>

section \<open>The black list\<close>

text \<open>The text of a list of names, one in each line.\<close>

definition lines_text :: "string list \<Rightarrow> string" where
  "lines_text ls = concat (map (\<lambda>l. l @ [c_lf]) ls)"

definition line_ok :: "string \<Rightarrow> bool" where
  "line_ok l \<longleftrightarrow> c_lf \<notin> set l \<and> c_nul \<notin> set l \<and> length l < 1022"

lemma lines_text_simps [simp]:
  "lines_text [] = []" "lines_text (l # ls) = l @ c_lf # lines_text ls"
  by (simp_all add: lines_text_def)

lemma bl_lines_text:
  assumes "\<forall>l\<in>set ls. line_ok l" and "BlackList st = Some es" and "BlackListCount st = length es"
    and "bl_bytes st = 100" and "bl_mallocs st = []" and "length es \<le> 12"
  shows "bl_lines (fopen_text (lines_text ls)) st =
         (if length es + length ls \<le> 12
          then Inr (0, st\<lparr>BlackList := Some (es @ map Some ls), BlackListCount := length es + length ls\<rparr>)
          else Inl Out_Of_Bounds)"
  using assms
proof (induction ls arbitrary: st es)
  case Nil
  then show ?case by (simp add: bl_lines.simps [of _ st] fgets_def fopen_text_def)
next
  case (Cons l ls)
  let ?f = "fopen_text (lines_text (l # ls))"
  let ?st = "st\<lparr>BlackList := Some (es @ [Some l]), BlackListCount := length es + 1\<rparr>"
  have f: "fgets BL_MAX_BUFF_SIZE ?f = (Some (l @ [c_lf]), fopen_text (lines_text ls))"
    using fgets_line [of ?f l "lines_text ls" BL_MAX_BUFF_SIZE] Cons.prems(1)
    by (simp add: BL_MAX_BUFF_SIZE_def line_ok_def fopen_text_def)
  have g: "bl_grow st = (True, st)" using Cons.prems(3,6) by (auto simp: bl_grow_def BL_SIZE_INC_def)
  have p: "bl_put l st = (if length es < 12 then Inr ?st else Inl Out_Of_Bounds)"
    using Cons.prems by (auto simp: bl_put_def malloc_ok_def PTR_SIZE_def)
  have "bl_lines ?f st = rbind (bl_put l st) (bl_lines (fopen_text (lines_text ls)))"
    by (subst bl_lines.simps) (simp add: f g del: lines_text_simps)
  moreover have "bl_lines (fopen_text (lines_text ls)) ?st =
      (if length es + 1 + length ls \<le> 12
       then Inr (0, ?st\<lparr>BlackList := Some ((es @ [Some l]) @ map Some ls), BlackListCount := length es + 1 + length ls\<rparr>)
       else Inl Out_Of_Bounds)" if "length es < 12"
    using Cons.IH [of ?st "es @ [Some l]"] Cons.prems that by simp
  ultimately show ?case using p Cons.prems(6) by auto
qed

lemma set_black_list_text:
  assumes "\<forall>l\<in>set ls. line_ok l"
  shows "set_black_list (Some (lines_text ls)) (bl_init []) =
         (if length ls \<le> 12
          then Inr (0, (bl_init [])\<lparr>BlackList := Some (map Some ls), bl_bytes := 100, BlackListCount := length ls\<rparr>)
          else Inl Out_Of_Bounds)"
  using bl_lines_text [OF assms, of "(bl_init [])\<lparr>BlackList := Some [], bl_bytes := 100\<rparr>" "[]"]
  by (simp add: set_black_list_def bl_init_def malloc_ok_def BL_SIZE_INC_def)

lemma bl_search_names: "bl_search (map Some ls) (length ls) f = Inr (f \<in> set ls)"
  by (induction ls) auto

section \<open>The layout\<close>

text \<open>
  A reference for the second pass: the nesting level and the line of each statement, where a
  compound statement has the level of the statement around it and any other one level more.
\<close>

fun layout :: "int \<Rightarrow> stmt option \<Rightarrow> (int \<times> int) list"
and layout_list :: "int \<Rightarrow> stmt list \<Rightarrow> (int \<times> int) list" where
  "layout p None = []"
| "layout p (Some (Stmt i l b)) =
     (case b of
        STMT_COMPOUND ss \<Rightarrow> (p, l) # layout_list p ss
      | STMT_CASE e to s \<Rightarrow> (p + 1, l) # layout (p + 1) s
      | STMT_IF c t f \<Rightarrow> (p + 1, l) # layout (p + 1) t @ layout (p + 1) f
      | STMT_ITERATOR pc qc a s z \<Rightarrow>
          (p + 1, l) # layout (p + 1) a @ layout (p + 1) s @ layout (p + 1) z
      | STMT_LABEL s \<Rightarrow> (p + 1, l) # layout (p + 1) s
      | STMT_SWITCH e s \<Rightarrow> (p + 1, l) # layout (p + 1) s
      | _ \<Rightarrow> [(p + 1, l)])"
| "layout_list p [] = []"
| "layout_list p (s # ss) = layout p (Some s) @ layout_list p ss"

text \<open>
  Statements as the parser builds them for plain C: labels, cases and switches have a statement, and
  there is no statement that only prints a message.
\<close>

fun tidy :: "stmt option \<Rightarrow> bool" and tidy_list :: "stmt list \<Rightarrow> bool" where
  "tidy None = True"
| "tidy (Some (Stmt i l b)) =
     (case b of
        STMT_COMPOUND ss \<Rightarrow> tidy_list ss
      | STMT_CASE e to s \<Rightarrow> s \<noteq> None \<and> tidy s
      | STMT_IF c t f \<Rightarrow> tidy t \<and> tidy f
      | STMT_ITERATOR pc qc a s z \<Rightarrow> tidy a \<and> tidy s \<and> tidy z
      | STMT_LABEL s \<Rightarrow> s \<noteq> None \<and> tidy s
      | STMT_SWITCH e s \<Rightarrow> s \<noteq> None \<and> tidy s
      | STMT_NONE \<Rightarrow> False | STMT_ASM \<Rightarrow> False | STMT_CONTEXT e \<Rightarrow> False | STMT_RANGE e lo hi \<Rightarrow> False
      | _ \<Rightarrow> True)"
| "tidy_list [] = True"
| "tidy_list (s # ss) \<longleftrightarrow> tidy (Some s) \<and> tidy_list ss"

abbreviation ids :: "stmt list \<Rightarrow> nat set" where "ids ss \<equiv> s_id ` set ss"

text \<open>
  The position in a mapped file of at least \<open>n\<close> lines: the mapping is absent, or the index is behind the
  lines counted so far. Without the two layout flags nothing is printed for a statement.
\<close>

definition at_line :: "nat \<Rightarrow> file_mapping \<Rightarrow> int \<Rightarrow> int \<Rightarrow> bool" where
  "at_line n m idx line \<longleftrightarrow>
     m = MAP_NULL \<or>
     (\<exists>ls r k. m = MAP_TEXT (lines_text ls @ r) \<and> (\<forall>l\<in>set ls. c_lf \<notin> set l) \<and> n \<le> length ls \<and>
        k \<le> n \<and> line = int k \<and> idx = int (length (lines_text (take k ls))))"

definition quiet :: "nat \<Rightarrow> fe_state \<Rightarrow> bool" where
  "quiet n st \<longleftrightarrow>
     \<not> has_flag (GlobalFlags st) ERR_TABS_SPACES \<and> \<not> has_flag (GlobalFlags st) ERR_TRAYLING_WS \<and>
     at_line n (FileMapping st) (MappingIndex st) (CurrentLine st)"

lemma scan_newline_line:
  "c_lf \<notin> set l \<Longrightarrow> scan_newline (MAP_TEXT (a @ l @ c_lf # r)) (int (length a)) = Inr (int (length a + length l))"
proof (induction l arbitrary: a)
  case Nil
  show ?case by (subst scan_newline.simps) (simp add: nth_append)
next
  case (Cons c l)
  have "scan_newline (MAP_TEXT ((a @ [c]) @ l @ c_lf # r)) (int (length (a @ [c]))) =
        Inr (int (length (a @ [c]) + length l))"
    by (rule Cons.IH) (use Cons.prems in simp)
  moreover have "map_at (MAP_TEXT (a @ (c # l) @ c_lf # r)) (int (length a)) = Inr c" by (simp add: nth_append)
  ultimately show ?case using Cons.prems by (subst scan_newline.simps) (auto simp: add.commute)
qed

lemma next_lines_at:
  assumes "at_line n (FileMapping st) (MappingIndex st) (CurrentLine st)" and "FileMapping st \<noteq> MAP_NULL"
    and "CurrentLine st + int d \<le> int n"
  shows "\<exists>s m pl cl. next_lines d start st = Inr (s, st\<lparr>PrevLine := pl, MappingIndex := m, CurrentLine := cl\<rparr>) \<and>
                     at_line n (FileMapping st) m cl"
  using assms
proof (induction d arbitrary: start st)
  case 0
  show ?case
    by (rule exI [of _ start], rule exI [of _ "MappingIndex st"], rule exI [of _ "PrevLine st"],
        rule exI [of _ "CurrentLine st"]) (use 0 in simp)
next
  case (Suc d)
  obtain ls r k where t: "FileMapping st = MAP_TEXT (lines_text ls @ r)" "\<forall>l\<in>set ls. c_lf \<notin> set l" "n \<le> length ls"
    "CurrentLine st = int k" "MappingIndex st = int (length (lines_text (take k ls)))"
    using Suc.prems(1,2) by (auto simp: at_line_def)
  have k: "k < length ls" "k < n" using Suc.prems(3) t(3,4) by simp_all
  have split: "lines_text ls = lines_text (take k ls) @ ls ! k @ c_lf # lines_text (drop (Suc k) ls)"
    using id_take_nth_drop [OF k(1)] by (metis append.simps concat_append lines_text_def lines_text_simps(2) map_append)
  have next_k: "lines_text (take (Suc k) ls) = lines_text (take k ls) @ ls ! k @ [c_lf]"
    using k(1) by (simp add: take_Suc_conv_app_nth lines_text_def)
  have scan: "scan_newline (FileMapping st) (MappingIndex st) =
              Inr (int (length (lines_text (take k ls)) + length (ls ! k)))"
    using scan_newline_line [of "ls ! k" "lines_text (take k ls)" "lines_text (drop (Suc k) ls) @ r"] t k(1) split
    by (simp add: nth_mem)
  define st1 where "st1 = st\<lparr>PrevLine := CurrentLine st,
    MappingIndex := int (length (lines_text (take k ls)) + length (ls ! k)) + 1, CurrentLine := CurrentLine st + 1\<rparr>"
  have "at_line n (FileMapping st1) (MappingIndex st1) (CurrentLine st1)"
    unfolding at_line_def
    by (rule disjI2, rule exI [of _ ls], rule exI [of _ r], rule exI [of _ "Suc k"])
       (use t k next_k in \<open>simp add: st1_def\<close>)
  then obtain s m pl cl where "next_lines d (MappingIndex st) st1 = Inr (s, st1\<lparr>PrevLine := pl, MappingIndex := m, CurrentLine := cl\<rparr>)"
    "at_line n (FileMapping st1) m cl"
    using Suc.IH [of st1 "MappingIndex st"] Suc.prems(2,3) by (auto simp: st1_def)
  moreover have "next_lines (Suc d) start st = next_lines d (MappingIndex st) st1" using scan by (simp add: st1_def)
  ultimately show ?case by (auto simp: st1_def)
qed

lemma check_layout_quiet:
  assumes "quiet n st" and "line \<le> int n"
  shows "\<exists>m pl cl. check_layout line st = Inr (st\<lparr>PrevLine := pl, MappingIndex := m, CurrentLine := cl\<rparr>) \<and>
                  at_line n (FileMapping st) m cl"
proof (cases "FileMapping st = MAP_NULL")
  case True
  then show ?thesis
    by (intro exI [of _ "MappingIndex st"] exI [of _ "PrevLine st"] exI [of _ "CurrentLine st"])
       (simp add: check_layout_def at_line_def)
next
  case False
  have "CurrentLine st + int (nat (line - CurrentLine st)) \<le> int n"
    using assms False by (auto simp: quiet_def at_line_def)
  then obtain s m pl cl where "next_lines (nat (line - CurrentLine st)) (MappingIndex st) st =
      Inr (s, st\<lparr>PrevLine := pl, MappingIndex := m, CurrentLine := cl\<rparr>)" "at_line n (FileMapping st) m cl"
    using next_lines_at [of n st] assms(1) False unfolding quiet_def by blast
  then show ?thesis
    using assms(1) False by (auto simp: check_layout_def check_mixed_def check_trailing_def quiet_def)
qed

text \<open>
  What a visit does to the state: it takes the maxima with the measures, moves on in the file and writes
  the members of the visited nodes only.
\<close>

definition measured :: "nat \<Rightarrow> nat set \<Rightarrow> (int \<times> int) list \<Rightarrow> fe_state \<Rightarrow> fe_state \<Rightarrow> bool" where
  "measured n I ms st st' \<longleftrightarrow>
     (quiet n st \<longrightarrow> quiet n st') \<and>
     (\<exists>P L m pl cl. (\<forall>i. i \<notin> I \<longrightarrow> P i = prt_stmt st i \<and> L i = indent_level st i) \<and>
        st' = st\<lparr>prt_stmt := P, indent_level := L,
                 CurrentIndentLevel := foldl max (CurrentIndentLevel st) (map fst ms),
                 LastInstructionLine := foldl max (LastInstructionLine st) (map snd ms),
                 PrevLine := pl, MappingIndex := m, CurrentLine := cl\<rparr>)"

lemma measuredI:
  assumes "\<forall>i. i \<notin> I \<longrightarrow> P i = prt_stmt st i \<and> L i = indent_level st i"
    and "st' = st\<lparr>prt_stmt := P, indent_level := L,
                 CurrentIndentLevel := foldl max (CurrentIndentLevel st) (map fst ms),
                 LastInstructionLine := foldl max (LastInstructionLine st) (map snd ms),
                 PrevLine := pl, MappingIndex := m, CurrentLine := cl\<rparr>"
    and "quiet n st \<longrightarrow> quiet n st'"
  shows "measured n I ms st st'"
  unfolding measured_def
  by (intro conjI, fact, intro exI [of _ P] exI [of _ L] exI [of _ m] exI [of _ pl] exI [of _ cl], intro conjI, fact+)

lemma measured_frame:
  "measured n I ms st st' \<Longrightarrow> quiet n st \<Longrightarrow> quiet n st'"
  "measured n I ms st st' \<Longrightarrow> i \<notin> I \<Longrightarrow> prt_stmt st' i = prt_stmt st i"
  "measured n I ms st st' \<Longrightarrow> i \<notin> I \<Longrightarrow> indent_level st' i = indent_level st i"
  by (auto simp: measured_def)

lemma measured_refl: "measured n I [] st st"
  by (rule measuredI [where P = "prt_stmt st" and L = "indent_level st" and pl = "PrevLine st" and m = "MappingIndex st" and
        cl = "CurrentLine st"]) simp_all

lemma measured_trans:
  assumes "measured n I ms st st1" and "measured n J ns st1 st2"
  shows "measured n (I \<union> J) (ms @ ns) st st2"
proof -
  obtain P L m pl cl where 1: "\<forall>i. i \<notin> I \<longrightarrow> P i = prt_stmt st i \<and> L i = indent_level st i"
    "st1 = st\<lparr>prt_stmt := P, indent_level := L,
              CurrentIndentLevel := foldl max (CurrentIndentLevel st) (map fst ms),
              LastInstructionLine := foldl max (LastInstructionLine st) (map snd ms),
              PrevLine := pl, MappingIndex := m, CurrentLine := cl\<rparr>"
    using assms(1) unfolding measured_def by blast
  obtain P' L' m' pl' cl' where 2: "\<forall>i. i \<notin> J \<longrightarrow> P' i = prt_stmt st1 i \<and> L' i = indent_level st1 i"
    "st2 = st1\<lparr>prt_stmt := P', indent_level := L',
               CurrentIndentLevel := foldl max (CurrentIndentLevel st1) (map fst ns),
               LastInstructionLine := foldl max (LastInstructionLine st1) (map snd ns),
               PrevLine := pl', MappingIndex := m', CurrentLine := cl'\<rparr>"
    using assms(2) unfolding measured_def by blast
  show ?thesis
  proof (rule measuredI [where P = P' and L = L' and pl = pl' and m = m' and cl = cl'])
    show "\<forall>i. i \<notin> I \<union> J \<longrightarrow> P' i = prt_stmt st i \<and> L' i = indent_level st i" using 1 2(1) by simp
    show "quiet n st \<longrightarrow> quiet n st2" using assms unfolding measured_def by blast
  qed (simp add: 1(2) 2(2))
qed

lemma measured_mono: "measured n I ms st st' \<Longrightarrow> I \<subseteq> J \<Longrightarrow> measured n J ms st st'"
  unfolding measured_def by blast

lemma measured_set_prt: "measured n {s_id c} [] st (set_prt c parent st)"
  by (rule measuredI [where P = "(prt_stmt st)(s_id c := Some parent)" and L = "indent_level st" and pl = "PrevLine st" and
        m = "MappingIndex st" and cl = "CurrentLine st"]) (simp_all add: set_prt_def quiet_def)

lemma measured_set_prt_if: "measured n (ids (stmts_opt c)) [] st (set_prt_if c parent st)"
proof (cases c)
  case (Some x)
  then show ?thesis
    using measured_mono [OF measured_set_prt [of n x st parent]] by (cases x) (auto simp: set_prt_if_def)
qed (simp add: set_prt_if_def measured_refl)

lemma indent_wrapper:
  assumes "quiet n st" and "s_line s \<le> int n"
    and "prt_stmt st (s_id s) = Some par" and "indent_level st (s_id par) = p"
  shows "\<exists>st'. examine_stmt_indent s st = ok (True, st') \<and>
               measured n {s_id s} [(if is_compound s then p else p + 1, s_line s)] st st' \<and>
               indent_level st' (s_id s) = (if is_compound s then p else p + 1)"
proof -
  define k where "k = (if is_compound s then p else p + 1)"
  define st1 where "st1 = st\<lparr>indent_level := (indent_level st)(s_id s := k)\<rparr>"
  have q: "quiet n st1" using assms(1) by (simp add: st1_def quiet_def)
  obtain m pl cl where c: "check_layout (s_line s) st1 = Inr (st1\<lparr>PrevLine := pl, MappingIndex := m, CurrentLine := cl\<rparr>)"
    "at_line n (FileMapping st1) m cl"
    using check_layout_quiet [OF q assms(2)] by blast
  define st' where "st' = st\<lparr>prt_stmt := prt_stmt st, indent_level := (indent_level st)(s_id s := k),
    CurrentIndentLevel := foldl max (CurrentIndentLevel st) (map fst [(k, s_line s)]),
    LastInstructionLine := foldl max (LastInstructionLine st) (map snd [(k, s_line s)]),
    PrevLine := pl, MappingIndex := m, CurrentLine := cl\<rparr>"
  have "examine_stmt_indent s st = ok (True, st')"
    using assms(3,4) c(1) unfolding st'_def st1_def k_def
    by (cases "is_compound s") (simp_all add: examine_stmt_indent_def stmt_level_def)
  moreover have "measured n {s_id s} [(k, s_line s)] st st'"
  proof (rule measuredI [OF _ st'_def])
    show "quiet n st \<longrightarrow> quiet n st'" using assms(1) c(2) by (simp add: quiet_def st'_def st1_def)
  qed simp
  ultimately show ?thesis unfolding k_def [symmetric] by (intro exI [of _ st']) (simp add: st'_def)
qed

text \<open>A visit of a statement whose parent is known and has the level \<open>p\<close>.\<close>

definition visits :: "nat \<Rightarrow> stmt option \<Rightarrow> int \<Rightarrow> bool" where
  "visits n c p \<longleftrightarrow>
     (\<forall>st par. quiet n st \<longrightarrow> (\<forall>x. c = Some x \<longrightarrow> prt_stmt st (s_id x) = Some par) \<longrightarrow>
        indent_level st (s_id par) = p \<longrightarrow> s_id par \<notin> ids (stmts_opt c) \<longrightarrow>
        (\<exists>st'. examine_statement examine_stmt_indent True c st = ok (1, st') \<and>
               measured n (ids (stmts_opt c)) (layout p c) st st'))"

definition visits_list :: "nat \<Rightarrow> stmt list \<Rightarrow> int \<Rightarrow> bool" where
  "visits_list n ss p \<longleftrightarrow>
     (\<forall>st par. quiet n st \<longrightarrow> indent_level st (s_id par) = p \<longrightarrow> s_id par \<notin> ids (stmts_list ss) \<longrightarrow>
        (\<exists>st'. examine_statements examine_stmt_indent True par ss 1 st = ok (1, st') \<and>
               measured n (ids (stmts_list ss)) (layout_list p ss) st st'))"

lemma visitsD:
  assumes "visits n c p" and "quiet n st" and "\<And>x. c = Some x \<Longrightarrow> prt_stmt st (s_id x) = Some par"
    and "indent_level st (s_id par) = p" and "s_id par \<notin> ids (stmts_opt c)"
  obtains st' where "examine_statement examine_stmt_indent True c st = ok (1, st')"
    and "measured n (ids (stmts_opt c)) (layout p c) st st'"
  using assms unfolding visits_def by blast

lemma set_prt_simps [simp]:
  "quiet n (set_prt_if c par st) = quiet n st" "indent_level (set_prt_if c par st) = indent_level st"
  "quiet n (set_prt x par st) = quiet n st" "indent_level (set_prt x par st) = indent_level st"
  "prt_stmt (set_prt x par st) = (prt_stmt st)(s_id x := Some par)"
  by (auto simp: set_prt_if_def set_prt_def quiet_def split: option.splits)

lemma set_prt_if_prt:
  "c = Some x \<Longrightarrow> prt_stmt (set_prt_if c par st) (s_id x) = Some par"
  "prt_stmt st i = Some par \<Longrightarrow> prt_stmt (set_prt_if c par st) i = Some par"
  by (auto simp: set_prt_if_def split: option.splits)

lemma root_in_stmts: "c = Some x \<Longrightarrow> s_id x \<in> ids (stmts_opt c)"
  by (cases x) auto

lemma visit_deref:
  assumes "visits n c k" and "c \<noteq> None" and "quiet n st" and "indent_level st (s_id par) = k"
    and "s_id par \<notin> ids (stmts_opt c)"
  shows "\<exists>st'. obind (Some (set_prt_deref c par st)) (examine_statement examine_stmt_indent True c) = ok (1, st') \<and>
               measured n (ids (stmts_opt c)) (layout k c) st st'"
proof -
  obtain x where c: "c = Some x" using assms(2) by blast
  obtain st' where st': "examine_statement examine_stmt_indent True c (set_prt x par st) = ok (1, st')"
    "measured n (ids (stmts_opt c)) (layout k c) (set_prt x par st) st'"
    by (rule visitsD [OF assms(1), of "set_prt x par st" par]) (use assms c in auto)
  have "measured n ({s_id x} \<union> ids (stmts_opt c)) ([] @ layout k c) st st'"
    by (rule measured_trans [OF measured_set_prt st'(2)])
  moreover have "{s_id x} \<union> ids (stmts_opt c) = ids (stmts_opt c)" using root_in_stmts [OF c] by blast
  ultimately show ?thesis using st'(1) c by (simp add: set_prt_deref_def)
qed

lemma visit_two:
  assumes "visits n a k" and "visits n b k" and "quiet n st" and "indent_level st (s_id par) = k"
    and "s_id par \<notin> ids (stmts_opt a) \<union> ids (stmts_opt b)" and "ids (stmts_opt a) \<inter> ids (stmts_opt b) = {}"
    and "\<And>x. a = Some x \<or> b = Some x \<Longrightarrow> prt_stmt st (s_id x) = Some par"
  obtains st1 st2 where "examine_statement examine_stmt_indent True a st = ok (1, st1)"
    and "examine_statement examine_stmt_indent True b st1 = ok (1, st2)"
    and "measured n (ids (stmts_opt a) \<union> ids (stmts_opt b)) (layout k a @ layout k b) st st2"
proof -
  obtain st1 where 1: "examine_statement examine_stmt_indent True a st = ok (1, st1)"
    "measured n (ids (stmts_opt a)) (layout k a) st st1"
    by (rule visitsD [OF assms(1), of st par]) (use assms in auto)
  have p: "prt_stmt st1 (s_id x) = Some par" if "b = Some x" for x
    using measured_frame(2) [OF 1(2), of "s_id x"] assms(6,7) root_in_stmts [OF that] that by auto
  have k: "indent_level st1 (s_id par) = k" using measured_frame(3) [OF 1(2), of "s_id par"] assms(4,5) by auto
  obtain st2 where 2: "examine_statement examine_stmt_indent True b st1 = ok (1, st2)"
    "measured n (ids (stmts_opt b)) (layout k b) st1 st2"
    by (rule visitsD [OF assms(2), of st1 par]) (use p k measured_frame(1) [OF 1(2)] assms(3,5) in auto)
  show thesis by (rule that [OF 1(1) 2(1) measured_trans [OF 1(2) 2(2)]])
qed

lemma visit_body:
  assumes "\<And>st. quiet n st \<Longrightarrow> indent_level st (s_id s) = k \<Longrightarrow>
             \<exists>st'. rest st = ok (1, st') \<and> measured n J ns st st'"
    and "\<And>st st1. examine_stmt_indent s st = ok (True, st1) \<Longrightarrow>
             examine_statement examine_stmt_indent True (Some s) st = rest st1"
    and "k = (if is_compound s then p else p + 1)" and "layout p (Some s) = (k, s_line s) # ns"
    and "ids (stmts_opt (Some s)) = {s_id s} \<union> J" and "s_line s \<le> int n"
  shows "visits n (Some s) p"
  unfolding visits_def
proof (intro allI impI)
  fix st :: fe_state and par
  assume st: "quiet n st" "\<forall>x. Some s = Some x \<longrightarrow> prt_stmt st (s_id x) = Some par"
    "indent_level st (s_id par) = p"
  obtain st1 where 1: "examine_stmt_indent s st = ok (True, st1)" "measured n {s_id s} [(k, s_line s)] st st1"
    "indent_level st1 (s_id s) = k"
    using indent_wrapper [of n st s par p] st assms(3,6) by auto
  obtain st' where 2: "rest st1 = ok (1, st')" "measured n J ns st1 st'"
    using assms(1) [of st1] 1(3) measured_frame(1) [OF 1(2)] st(1) by auto
  have "measured n ({s_id s} \<union> J) ([(k, s_line s)] @ ns) st st'" by (rule measured_trans [OF 1(2) 2(2)])
  then show "\<exists>st'. examine_statement examine_stmt_indent True (Some s) st = ok (1, st') \<and>
               measured n (ids (stmts_opt (Some s))) (layout p (Some s)) st st'"
    using assms(2) [OF 1(1)] 2(1) assms(4,5) by auto
qed

lemma visit_three:
  assumes "visits n a k" and "visits n b k" and "visits n c k" and "quiet n st"
    and "indent_level st (s_id par) = k"
    and "s_id par \<notin> ids (stmts_opt a) \<union> ids (stmts_opt b) \<union> ids (stmts_opt c)"
    and "ids (stmts_opt a) \<inter> ids (stmts_opt b) = {}" and "ids (stmts_opt a) \<inter> ids (stmts_opt c) = {}"
    and "ids (stmts_opt b) \<inter> ids (stmts_opt c) = {}"
    and "\<And>x. a = Some x \<or> b = Some x \<or> c = Some x \<Longrightarrow> prt_stmt st (s_id x) = Some par"
  obtains st1 st2 st3 where "examine_statement examine_stmt_indent True a st = ok (1, st1)"
    and "examine_statement examine_stmt_indent True b st1 = ok (1, st2)"
    and "examine_statement examine_stmt_indent True c st2 = ok (1, st3)"
    and "measured n (ids (stmts_opt a) \<union> ids (stmts_opt b) \<union> ids (stmts_opt c))
           ((layout k a @ layout k b) @ layout k c) st st3"
proof -
  obtain st1 st2 where 2: "examine_statement examine_stmt_indent True a st = ok (1, st1)"
    "examine_statement examine_stmt_indent True b st1 = ok (1, st2)"
    "measured n (ids (stmts_opt a) \<union> ids (stmts_opt b)) (layout k a @ layout k b) st st2"
    by (rule visit_two [OF assms(1,2,4,5), of thesis]) (use assms in auto)
  have p: "prt_stmt st2 (s_id x) = Some par" if "c = Some x" for x
    using measured_frame(2) [OF 2(3), of "s_id x"] assms(8-10) root_in_stmts [OF that] that by auto
  have k: "indent_level st2 (s_id par) = k" using measured_frame(3) [OF 2(3), of "s_id par"] assms(5,6) by auto
  obtain st3 where 3: "examine_statement examine_stmt_indent True c st2 = ok (1, st3)"
    "measured n (ids (stmts_opt c)) (layout k c) st2 st3"
    by (rule visitsD [OF assms(3), of st2 par]) (use p k measured_frame(1) [OF 2(3)] assms(4,6) in auto)
  show thesis by (rule that [OF 2(1,2) 3(1) measured_trans [OF 2(3) 3(2)]])
qed

lemma visit_if:
  assumes "visits n t (p + 1)" and "visits n f (p + 1)"
    and "distinct (i # map s_id (stmts_opt t) @ map s_id (stmts_opt f))"
    and "l \<le> int n"
  shows "visits n (Some (Stmt i l (STMT_IF c t f))) p"
proof -
  define start where "start st = set_prt_if f (Stmt i l (STMT_IF c t f)) (set_prt_if t (Stmt i l (STMT_IF c t f)) st)" for st
  show ?thesis
  proof (rule visit_body [where p = p and k = "p + 1" and J = "ids (stmts_opt t) \<union> ids (stmts_opt f)" and
        ns = "layout (p + 1) t @ layout (p + 1) f" and
        rest = "\<lambda>st. obind (examine_statement examine_stmt_indent True t (start st)) (\<lambda>(v1, st2).
                     obind (examine_statement examine_stmt_indent True f st2) (\<lambda>(v2, st3).
                       ok (if v1 = 0 \<or> v2 = 0 then 0 else 1, st3)))"])
    fix st :: fe_state
    assume st: "quiet n st" "indent_level st (s_id (Stmt i l (STMT_IF c t f))) = p + 1"
    have m: "measured n (ids (stmts_opt t) \<union> ids (stmts_opt f)) ([] @ []) st (start st)"
      unfolding start_def by (rule measured_trans [OF measured_set_prt_if measured_set_prt_if])
    obtain st1 st2 where r: "examine_statement examine_stmt_indent True t (start st) = ok (1, st1)"
      "examine_statement examine_stmt_indent True f st1 = ok (1, st2)"
      "measured n (ids (stmts_opt t) \<union> ids (stmts_opt f)) (layout (p + 1) t @ layout (p + 1) f) (start st) st2"
      by (rule visit_two [OF assms(1,2), of "start st" "Stmt i l (STMT_IF c t f)" thesis])
         (use st assms(3) in \<open>auto simp: start_def intro: set_prt_if_prt\<close>)
    show "\<exists>st'. obind (examine_statement examine_stmt_indent True t (start st)) (\<lambda>(v1, st2).
                     obind (examine_statement examine_stmt_indent True f st2) (\<lambda>(v2, st3).
                       ok (if v1 = 0 \<or> v2 = 0 then 0 else 1, st3))) = ok (1, st') \<and>
                measured n (ids (stmts_opt t) \<union> ids (stmts_opt f)) (layout (p + 1) t @ layout (p + 1) f) st st'"
      using r(1,2) measured_trans [OF m r(3)] by simp
  qed (use assms(4) in \<open>auto simp: is_compound_def start_def image_Un Let_def\<close>)
qed

lemma visit_iterator:
  assumes "visits n a (p + 1)" and "visits n s (p + 1)" and "visits n z (p + 1)"
    and "distinct (i # map s_id (stmts_opt a) @ map s_id (stmts_opt s) @ map s_id (stmts_opt z))"
    and "l \<le> int n"
  shows "visits n (Some (Stmt i l (STMT_ITERATOR pc qc a s z))) p"
proof -
  define start where "start st = set_prt_if s (Stmt i l (STMT_ITERATOR pc qc a s z)) (set_prt_if z (Stmt i l (STMT_ITERATOR pc qc a s z)) (set_prt_if a (Stmt i l (STMT_ITERATOR pc qc a s z)) st))" for st
  define all where "all = ids (stmts_opt a) \<union> ids (stmts_opt s) \<union> ids (stmts_opt z)"
  show ?thesis
  proof (rule visit_body [where p = p and k = "p + 1" and J = all and
        ns = "layout (p + 1) a @ layout (p + 1) s @ layout (p + 1) z" and
        rest = "\<lambda>st. obind (examine_statement examine_stmt_indent True a (start st)) (\<lambda>(v1, st2).
                     obind (examine_statement examine_stmt_indent True s st2) (\<lambda>(v2, st3).
                     obind (examine_statement examine_stmt_indent True z st3) (\<lambda>(v3, st4).
                       ok (if v1 = 0 \<or> v2 = 0 \<or> v3 = 0 then 0 else 1, st4))))"])
    fix st :: fe_state
    assume st: "quiet n st" "indent_level st (s_id (Stmt i l (STMT_ITERATOR pc qc a s z))) = p + 1"
    have "measured n (ids (stmts_opt a) \<union> ids (stmts_opt z) \<union> ids (stmts_opt s)) (([] @ []) @ []) st (start st)"
      unfolding start_def
      by (rule measured_trans [OF measured_trans [OF measured_set_prt_if measured_set_prt_if] measured_set_prt_if])
    then have m: "measured n all [] st (start st)" by (simp add: all_def Un_ac)
    obtain st1 st2 st3 where r: "examine_statement examine_stmt_indent True a (start st) = ok (1, st1)"
      "examine_statement examine_stmt_indent True s st1 = ok (1, st2)"
      "examine_statement examine_stmt_indent True z st2 = ok (1, st3)"
      "measured n all ((layout (p + 1) a @ layout (p + 1) s) @ layout (p + 1) z) (start st) st3"
      unfolding all_def
      by (rule visit_three [OF assms(1-3), of "start st" "Stmt i l (STMT_ITERATOR pc qc a s z)" thesis])
         (use st assms(4) in \<open>auto simp: start_def intro: set_prt_if_prt\<close>)
    show "\<exists>st'. obind (examine_statement examine_stmt_indent True a (start st)) (\<lambda>(v1, st2).
                     obind (examine_statement examine_stmt_indent True s st2) (\<lambda>(v2, st3).
                     obind (examine_statement examine_stmt_indent True z st3) (\<lambda>(v3, st4).
                       ok (if v1 = 0 \<or> v2 = 0 \<or> v3 = 0 then 0 else 1, st4)))) = ok (1, st') \<and>
                measured n all (layout (p + 1) a @ layout (p + 1) s @ layout (p + 1) z) st st'"
      using r(1-3) measured_trans [OF m r(4)] by simp
  qed (use assms(5) in \<open>auto simp: is_compound_def start_def all_def image_Un Let_def\<close>)
qed

text \<open>A case, a switch and a label.\<close>

lemma visit_single:
  assumes "visits n s (p + 1)" and "s \<noteq> None" and "i \<notin> ids (stmts_opt s)"
    and "b = STMT_CASE e to s \<or> b = STMT_SWITCH e s \<or> b = STMT_LABEL s" and "l \<le> int n"
  shows "visits n (Some (Stmt i l b)) p"
  by (rule visit_body [where p = p and k = "p + 1" and J = "ids (stmts_opt s)" and ns = "layout (p + 1) s" and
        rest = "\<lambda>st. obind (Some (set_prt_deref s (Stmt i l b) st)) (examine_statement examine_stmt_indent True s)"],
      rule visit_deref [OF assms(1,2)])
     (use assms(3-5) in \<open>auto simp: is_compound_def\<close>)

lemma visit_Cons:
  assumes v: "visits n (Some s) p" and vs: "visits_list n ss p"
  shows "visits_list n (s # ss) p"
  unfolding visits_list_def
proof (intro allI impI)
  fix st :: fe_state and par
  assume st: "quiet n st" "indent_level st (s_id par) = p" "s_id par \<notin> ids (stmts_list (s # ss))"
  obtain st1 where 1: "examine_statement examine_stmt_indent True (Some s) (set_prt s par st) = ok (1, st1)"
    "measured n (ids (stmts_opt (Some s))) (layout p (Some s)) (set_prt s par st) st1"
    by (rule visitsD [OF v, of "set_prt s par st" par]) (use st in auto)
  have m: "measured n (ids (stmts_opt (Some s))) ([] @ layout p (Some s)) st st1"
    using measured_trans [OF measured_set_prt 1(2)] root_in_stmts [of "Some s" s] by (simp add: insert_absorb)
  have "indent_level st1 (s_id par) = p" using measured_frame(3) [OF m, of "s_id par"] st(2,3) by auto
  then obtain st2 where 2: "examine_statements examine_stmt_indent True par ss 1 st1 = ok (1, st2)"
    "measured n (ids (stmts_list ss)) (layout_list p ss) st1 st2"
    using vs measured_frame(1) [OF m] st(1,3) unfolding visits_list_def by fastforce
  show "\<exists>st'. examine_statements examine_stmt_indent True par (s # ss) 1 st = ok (1, st') \<and>
             measured n (ids (stmts_list (s # ss))) (layout_list p (s # ss)) st st'"
    using 1(1) 2(1) measured_trans [OF m 2(2)] by (simp add: image_Un)
qed

lemma indent_visits:
  "tidy s \<Longrightarrow> distinct (map s_id (stmts_opt s)) \<Longrightarrow> \<forall>x\<in>set (layout p s). snd x \<le> int n \<Longrightarrow> visits n s p"
  "tidy_list ss \<Longrightarrow> distinct (map s_id (stmts_list ss)) \<Longrightarrow> \<forall>x\<in>set (layout_list p ss). snd x \<le> int n \<Longrightarrow> visits_list n ss p"
proof (induction s and ss arbitrary: p and p rule: stmts_opt_stmts_list.induct)
  case 1
  then show ?case by (simp add: visits_def measured_refl)
next
  case (2 i l b p)
  let ?s = "Stmt i l b"
  show ?case
  proof (cases b)
    case (STMT_COMPOUND ss)
    have v: "visits_list n ss p" by (rule "2.IH"(1) [OF STMT_COMPOUND]) (use "2.prems" STMT_COMPOUND in auto)
    show ?thesis
      by (rule visit_body [where p = p and k = p and J = "ids (stmts_list ss)" and ns = "layout_list p ss" and
            rest = "examine_statements examine_stmt_indent True ?s ss 1"])
         (use v "2.prems"(2,3) STMT_COMPOUND in \<open>auto simp: visits_list_def is_compound_def\<close>)
  next
    case (STMT_IF c t f)
    have "visits n t (p + 1)" "visits n f (p + 1)" by (rule "2.IH"(2,3) [OF STMT_IF]; use "2.prems" STMT_IF in auto)+
    then show ?thesis unfolding STMT_IF by (rule visit_if) (use "2.prems"(2,3) STMT_IF in simp_all)
  next
    case (STMT_CASE e to s)
    have "visits n s (p + 1)" by (rule "2.IH"(4) [OF STMT_CASE]) (use "2.prems" STMT_CASE in auto)
    then show ?thesis by (rule visit_single) (use "2.prems" STMT_CASE in auto)
  next
    case (STMT_SWITCH e s)
    have "visits n s (p + 1)" by (rule "2.IH"(5) [OF STMT_SWITCH]) (use "2.prems" STMT_SWITCH in auto)
    then show ?thesis by (rule visit_single) (use "2.prems" STMT_SWITCH in auto)
  next
    case (STMT_LABEL s)
    have "visits n s (p + 1)" by (rule "2.IH"(9) [OF STMT_LABEL]) (use "2.prems" STMT_LABEL in auto)
    then show ?thesis by (rule visit_single) (use "2.prems" STMT_LABEL in auto)
  next
    case (STMT_ITERATOR pc qc a s z)
    have "visits n a (p + 1)" "visits n s (p + 1)" "visits n z (p + 1)"
      by (rule "2.IH"(6-8) [OF STMT_ITERATOR]; use "2.prems" STMT_ITERATOR in auto)+
    then show ?thesis unfolding STMT_ITERATOR by (rule visit_iterator) (use "2.prems"(2,3) STMT_ITERATOR in simp_all)
  qed (rule visit_body [where p = p and k = "p + 1" and J = "{}" and ns = "[]" and rest = "\<lambda>st. ok (1, st)"],
       use "2.prems"(1,3) in \<open>auto simp: is_compound_def measured_refl\<close>)+
next
  case 3
  then show ?case by (simp add: visits_list_def measured_refl)
next
  case (4 s ss p)
  have v: "visits n (Some s) p" by (rule "4.IH"(1)) (use "4.prems" in auto)
  have vs: "visits_list n ss p" by (rule "4.IH"(2)) (use "4.prems" in auto)
  show ?case using v vs by (rule visit_Cons)
qed

end
