(* ===== verification/Analyzer_Layout.thy ===== *)
theory Analyzer_Layout
  imports Analyzer_Facts
begin

text \<open>
  The checks of the blanks of a line in the second pass of the front end: mixed blanks at its beginning and blanks
  at its end.
\<close>

definition blank :: "char \<Rightarrow> bool" where
  "blank c \<longleftrightarrow> c = CHR '' '' \<or> c = c_tab"

definition indentation :: "string \<Rightarrow> string" where
  "indentation l = takeWhile blank l"

definition occurs :: "char \<Rightarrow> string \<Rightarrow> nat" where
  "occurs c s = length (filter (\<lambda>x. x = c) s)"

definition trailing :: "string \<Rightarrow> nat" where
  "trailing l = length (takeWhile blank (rev l))"

text \<open>A line inside a mapping.\<close>

lemma map_at_append: "i < length s \<Longrightarrow> map_at (MAP_TEXT (a @ s @ r)) (int (length a + i)) = Inr (s ! i)"
  by (simp add: nth_append nat_add_distrib)

lemma count_blanks_line:
  "count_blanks (MAP_TEXT (a @ l @ c_lf # r)) (int (length a)) =
     Inr (occurs (CHR '' '') (indentation l), occurs c_tab (indentation l))"
proof (induction l arbitrary: a)
  case Nil
  have "map_at (MAP_TEXT (a @ c_lf # r)) (int (length a)) = Inr c_lf" using map_at_append [of 0 "[c_lf]" a r] by simp
  then show ?case by (subst count_blanks.simps) (simp add: occurs_def indentation_def)
next
  case (Cons c l)
  have c: "map_at (MAP_TEXT (a @ (c # l) @ c_lf # r)) (int (length a)) = Inr c"
    using map_at_append [of 0 "[c]" a "l @ c_lf # r"] by simp
  have "count_blanks (MAP_TEXT ((a @ [c]) @ l @ c_lf # r)) (int (length (a @ [c]))) =
      Inr (occurs (CHR '' '') (indentation l), occurs c_tab (indentation l))" by (rule Cons.IH)
  then have "count_blanks (MAP_TEXT (a @ (c # l) @ c_lf # r)) (int (length a) + 1) =
      Inr (occurs (CHR '' '') (indentation l), occurs c_tab (indentation l))" by (simp add: add.commute)
  then show ?case using c
    by (subst count_blanks.simps) (auto simp: occurs_def indentation_def blank_def)
qed

lemma back_over_blanks_line:
  assumes "\<exists>c\<in>set l. \<not> blank c"
  shows "back_over_blanks (MAP_TEXT (a @ l @ r)) (int (length a + length l) - 1) =
         Inr (int (length a + length l) - 1 - int (trailing l))"
  using assms
proof (induction l arbitrary: r rule: rev_induct)
  case (snoc c l)
  have c: "map_at (MAP_TEXT (a @ (l @ [c]) @ r)) (int (length a + length (l @ [c])) - 1) = Inr c"
    using map_at_append [of "length l" "l @ [c]" a r] by simp
  show ?case
  proof (cases "blank c")
    case True
    then have "back_over_blanks (MAP_TEXT (a @ l @ [c] @ r)) (int (length a + length l) - 1) =
        Inr (int (length a + length l) - 1 - int (trailing l))" using snoc by auto
    then show ?thesis using c True
      by (subst back_over_blanks.simps) (auto simp: blank_def trailing_def)
  next
    case False
    then show ?thesis using c by (subst back_over_blanks.simps) (auto simp: blank_def trailing_def)
  qed
qed simp

text \<open>The start of line \<open>k\<close> (counted from 0) of a text.\<close>

definition line_start :: "string list \<Rightarrow> nat \<Rightarrow> nat" where
  "line_start ls k = length (lines_text (take k ls))"

lemma lines_split:
  assumes "k < length ls"
  shows "lines_text ls = lines_text (take k ls) @ ls ! k @ c_lf # lines_text (drop (Suc k) ls)"
    and "line_start ls (Suc k) = line_start ls k + length (ls ! k) + 1"
  using id_take_nth_drop [OF assms] assms
  by (metis append.simps concat_append lines_text_def lines_text_simps(2) map_append)
     (use assms in \<open>simp add: line_start_def take_Suc_conv_app_nth lines_text_def\<close>)

lemma next_lines_exact:
  assumes "FileMapping st = MAP_TEXT (lines_text ls @ r)" and "\<forall>l\<in>set ls. c_lf \<notin> set l" and "k + d \<le> length ls"
    and "MappingIndex st = int (line_start ls k)" and "CurrentLine st = int k"
  shows "\<exists>pl. next_lines d start st =
           Inr (if d = 0 then start else int (line_start ls (k + d - 1)),
                st\<lparr>PrevLine := pl, MappingIndex := int (line_start ls (k + d)), CurrentLine := int (k + d)\<rparr>)"
  using assms
proof (induction d arbitrary: start st k)
  case 0
  then show ?case by (intro exI [of _ "PrevLine st"]) simp
next
  case (Suc d)
  have k: "k < length ls" using Suc.prems(3) by simp
  have scan: "scan_newline (FileMapping st) (MappingIndex st) = Inr (int (line_start ls k + length (ls ! k)))"
    using scan_newline_line [of "ls ! k" "lines_text (take k ls)" "lines_text (drop (Suc k) ls) @ r"] lines_split(1) [OF k]
      Suc.prems(1,2,4) k by (simp add: line_start_def)
  define st1 where "st1 = st\<lparr>PrevLine := CurrentLine st, MappingIndex := int (line_start ls (Suc k)), CurrentLine := int (Suc k)\<rparr>"
  have step: "next_lines (Suc d) start st = next_lines d (MappingIndex st) st1"
    using scan lines_split(2) [OF k] Suc.prems(5) by (simp add: st1_def add.commute)
  obtain pl where "next_lines d (MappingIndex st) st1 =
      Inr (if d = 0 then MappingIndex st else int (line_start ls (Suc k + d - 1)),
           st1\<lparr>PrevLine := pl, MappingIndex := int (line_start ls (Suc k + d)), CurrentLine := int (Suc k + d)\<rparr>)"
    using Suc.IH [of st1 "Suc k" "MappingIndex st"] Suc.prems by (auto simp: st1_def)
  then show ?case using step Suc.prems(4) by (intro exI [of _ pl]) (auto simp: st1_def)
qed

definition mixed_text :: "32 word \<Rightarrow> nat \<Rightarrow> string \<Rightarrow> string" where
  "mixed_text flags line l =
     (if has_flag flags ERR_TABS_SPACES \<and> CHR '' '' \<in> set (indentation l) \<and> c_tab \<in> set (indentation l)
      then [c_tab, c_tab] @ ''Mixed tabs with spaces. SPACES: '' @ fmt_d (int (occurs (CHR '' '') (indentation l))) @
           '' TABS: '' @ fmt_d (int (occurs c_tab (indentation l))) @ '' at line '' @ fmt_d (int line) @ [c_lf]
      else [])"

definition trailing_text :: "32 word \<Rightarrow> nat \<Rightarrow> string \<Rightarrow> string" where
  "trailing_text flags line l =
     (if has_flag flags ERR_TRAYLING_WS \<and> trailing l \<ge> 2
      then [c_tab, c_tab] @ ''Trailing white space: at line '' @ fmt_d (int line) @ [c_lf] else [])"

lemma occurs_pos [simp]: "0 < occurs c s \<longleftrightarrow> c \<in> set s"
  by (auto simp: occurs_def filter_empty_conv)

text \<open>
  C26: the first statement of a line, after the lines before it were passed: mixed tabs and spaces are reported
  exactly if the indentation of that line has both, with their numbers, and blanks at its end if there are
  at least two of them; the position is then behind the line.
\<close>

theorem layout_checks_of_line:
  assumes "FileMapping st = MAP_TEXT (lines_text ls @ r)" and "\<forall>l\<in>set ls. c_lf \<notin> set l"
    and "k < line" and "line \<le> length ls" and "MappingIndex st = int (line_start ls k)" and "CurrentLine st = int k"
    and "\<exists>c\<in>set (ls ! (line - 1)). \<not> blank c"
  shows "\<exists>st'. check_layout (int line) st = Inr st' \<and>
               fe_out st' = fe_out st @ mixed_text (GlobalFlags st) line (ls ! (line - 1)) @ trailing_text (GlobalFlags st) line (ls ! (line - 1)) \<and>
               MappingIndex st' = int (line_start ls line) \<and> CurrentLine st' = int line"
proof -
  define j where "j = line - 1"
  have j: "line = Suc j" "j < length ls" using assms(3,4) by (simp_all add: j_def)
  define a where "a = lines_text (take j ls)"
  have lines: "MAP_TEXT (lines_text ls @ r) = MAP_TEXT (a @ ls ! j @ c_lf # lines_text (drop (Suc j) ls) @ r)"
    using lines_split(1) [OF j(2)] by (simp add: a_def)
  have start: "line_start ls j = length a" "line_start ls line = length a + length (ls ! j) + 1"
    using lines_split(2) [OF j(2)] by (simp_all add: a_def line_start_def j(1))
  obtain pl where "next_lines (line - k) (MappingIndex st) st = Inr (int (length a),
      st\<lparr>PrevLine := pl, MappingIndex := int (line_start ls line), CurrentLine := int line\<rparr>)"
    using next_lines_exact [OF assms(1,2), of k "line - k" "MappingIndex st"] assms(3-6) start(1) j(1) by auto
  moreover define st1 where "st1 = st\<lparr>PrevLine := pl, MappingIndex := int (line_start ls line), CurrentLine := int line\<rparr>"
  ultimately have n: "next_lines (nat (int line - CurrentLine st)) (MappingIndex st) st = Inr (int (length a), st1)"
    using assms(3,6) by (simp add: nat_diff_distrib)
  have m: "check_mixed (int line) (int (length a)) st1 = Inr (put_out (mixed_text (GlobalFlags st) line (ls ! j)) st1)"
    using count_blanks_line [of a "ls ! j" "lines_text (drop (Suc j) ls) @ r"] assms(1) lines
    by (auto simp: check_mixed_def mixed_text_def put_out_def st1_def)
  have behind: "back_over_blanks (FileMapping st1) (MappingIndex st1 - 2) = Inr (int (length a + length (ls ! j)) - 1 - int (trailing (ls ! j)))"
    using back_over_blanks_line [of "ls ! j" a "c_lf # lines_text (drop (Suc j) ls) @ r"] assms(1,7) lines start(2)
    by (simp add: st1_def j_def)
  have t: "check_trailing (int line) (put_out s st1) = Inr (put_out (trailing_text (GlobalFlags st) line (ls ! j)) (put_out s st1))" for s
    using behind start(2) by (auto simp: check_trailing_def trailing_text_def put_out_def st1_def)
  have "check_layout (int line) st = Inr (put_out (trailing_text (GlobalFlags st) line (ls ! j)) (put_out (mixed_text (GlobalFlags st) line (ls ! j)) st1))"
    using n m t assms(1) by (simp add: check_layout_def)
  then show ?thesis by (simp add: put_out_def st1_def j_def)
qed

theorem layout_checks_of_line_witness:
  "\<exists>st'. check_layout (int 2) ((fe_start [])\<lparr>FileMapping := MAP_TEXT (lines_text [''f() {'', '' '' @ [c_tab] @ ''x = 1;  '', ''}''] @ ''''),
             GlobalFlags := or (fe_flag ERR_TABS_SPACES) (fe_flag ERR_TRAYLING_WS)\<rparr>) = Inr st' \<and>
         fe_out st' = [c_tab, c_tab] @ ''Mixed tabs with spaces. SPACES: 1 TABS: 1 at line 2'' @ [c_lf] @
           [c_tab, c_tab] @ ''Trailing white space: at line 2'' @ [c_lf]"
proof -
  let ?ls = "[''f() {'', '' '' @ [c_tab] @ ''x = 1;  '', ''}'']" and ?flags = "or (fe_flag ERR_TABS_SPACES) (fe_flag ERR_TRAYLING_WS)"
  let ?st = "(fe_start [])\<lparr>FileMapping := MAP_TEXT (lines_text ?ls @ ''''), GlobalFlags := ?flags\<rparr>"
  have "mixed_text ?flags 2 (?ls ! (2 - 1)) = [c_tab, c_tab] @ ''Mixed tabs with spaces. SPACES: 1 TABS: 1 at line 2'' @ [c_lf]"
    "trailing_text ?flags 2 (?ls ! (2 - 1)) = [c_tab, c_tab] @ ''Trailing white space: at line 2'' @ [c_lf]" by code_simp+
  moreover have "\<exists>st'. check_layout (int 2) ?st = Inr st' \<and>
      fe_out st' = fe_out ?st @ mixed_text (GlobalFlags ?st) 2 (?ls ! (2 - 1)) @ trailing_text (GlobalFlags ?st) 2 (?ls ! (2 - 1)) \<and>
      MappingIndex st' = int (line_start ?ls 2) \<and> CurrentLine st' = int 2"
    by (rule layout_checks_of_line [where k = 0 and r = "''''"]) (auto simp: fe_start_def line_start_def blank_def)
  ultimately show ?thesis by (auto simp: fe_start_def simp del: lines_text_simps)
qed

end
