(* ===== verification/Analyzer_Report.thy ===== *)
theory Analyzer_Report
  imports Analyzer_Facts
begin

text \<open>
  The second pass of the sparse front end from end to end: what it prints for the functions of its
  files, by the reference \<open>layout\<close>, and what the module of the driver reads from that text.
\<close>

section \<open>The second pass\<close>

text \<open>A function definition: its name, the line of its type, and the number, line and statements of its body.\<close>

type_synonym fn_def = "string \<times> int \<times> nat \<times> int \<times> stmt list"

fun fn_symbol :: "fn_def \<Rightarrow> file_symbol" where
  "fn_symbol (name, l, i, bl, ss) =
     \<lparr>fs_ident = Some name,
      base_type = Some \<lparr>is_SYM_FN = True, fn_line = l, fn_body = Some (Stmt i bl (STMT_COMPOUND ss))\<rparr>\<rparr>"

text \<open>A function whose statements are in the first \<open>n\<close> lines and are all different nodes.\<close>

fun fn_ok :: "nat \<Rightarrow> fn_def \<Rightarrow> bool" where
  "fn_ok n (name, l, i, bl, ss) \<longleftrightarrow>
     ss \<noteq> [] \<and> tidy_list ss \<and> distinct (i # map s_id (stmts_list ss)) \<and>
     (\<forall>x\<in>set (layout_list 0 ss). snd x \<le> int n)"

definition style_flags :: "32 word \<Rightarrow> bool" where
  "style_flags flags \<longleftrightarrow> \<not> has_flag flags ERR_TABS_SPACES \<and> \<not> has_flag flags ERR_TRAYLING_WS"

text \<open>The lines between the two marks of a function: its depth and its length, if they are large.\<close>

definition depth_line :: "int \<Rightarrow> string" where
  "depth_line k = [c_tab, c_tab] @ ''Indent level: '' @ fmt_d k @ [c_lf]"

definition length_line :: "int \<Rightarrow> string" where
  "length_line k = [c_tab, c_tab] @ ''Function line count: '' @ fmt_d k @ [c_lf]"

fun fn_depth :: "fn_def \<Rightarrow> int" where
  "fn_depth (name, l, i, bl, ss) = Max (insert (-1) (fst ` set (layout_list 0 ss)))"

fun fn_length :: "fn_def \<Rightarrow> int" where
  "fn_length (name, l, i, bl, ss) = Max (insert (-1) (snd ` set (layout_list 0 ss))) - l + 1"

definition fn_lines :: "32 word \<Rightarrow> int \<Rightarrow> int \<Rightarrow> fn_def \<Rightarrow> string list" where
  "fn_lines flags max_level max_lines f =
     (if has_flag flags ERR_FUN_INDENT_LEVEL \<and> fn_depth f \<ge> max_level then [depth_line (fn_depth f)] else []) @
     (if has_flag flags ERR_FUN_LINES \<and> (max_lines \<le> 0 \<or> fn_length f \<ge> max_lines) then [length_line (fn_length f)] else [])"

definition fn_head :: "string \<Rightarrow> string" where
  "fn_head name = [c_tab] @ ''#####parsing function: '' @ name @ ''#####'' @ [c_lf]"

definition fn_tail :: string where
  "fn_tail = [c_tab] @ ''#####end parsing function#####'' @ [c_lf]"

definition fn_text :: "32 word \<Rightarrow> int \<Rightarrow> int \<Rightarrow> fn_def \<Rightarrow> string" where
  "fn_text flags max_level max_lines f =
     fn_head (fst f) @ concat (fn_lines flags max_level max_lines f) @ fn_tail"

lemma foldl_max: "foldl max (a :: int) xs = Max (insert a (set xs))"
proof -
  have "(\<lambda>x s. max s x) = (max :: int \<Rightarrow> int \<Rightarrow> int)" by (intro ext) (simp add: max.commute)
  then show ?thesis using Max.set_eq_fold [of a xs] by (simp add: foldl_conv_fold)
qed

lemma visits_listD:
  assumes "visits_list n ss p" and "quiet n st" and "indent_level st (s_id par) = p"
    and "s_id par \<notin> ids (stmts_list ss)"
  obtains st' where "examine_statements examine_stmt_indent True par ss 1 st = ok (1, st')"
    and "measured n (ids (stmts_list ss)) (layout_list p ss) st st'"
  using assms unfolding visits_list_def by blast

lemma examine_instructions_list:
  "examine_instructions w body ss st = obind (examine_statements w True body ss v st) (\<lambda>(_, st'). ok st')"
proof (induction ss arbitrary: v st)
  case (Cons s ss)
  obtain r where r: "examine_statement w True (Some s) (set_prt s body st) = r" by blast
  show ?case
  proof (cases "(r, \<lambda>_::int \<times> fe_state. ok st)" rule: obind.cases)
    case (3 x f)
    then show ?thesis using r Cons.IH by (cases x) simp
  qed (use r in simp_all)
qed simp

text \<open>Only the mapping position and the measures change in a visit, and nothing is printed.\<close>

lemma examine_instructions_layout:
  assumes "fn_ok n (name, l, i, bl, ss)" and "quiet n st" and "indent_level st i = 0"
  shows "\<exists>st'. examine_instructions examine_stmt_indent (Stmt i bl (STMT_COMPOUND ss)) ss st = ok st' \<and>
               measured n (ids (stmts_list ss)) (layout_list 0 ss) st st'"
proof -
  have "visits_list n ss 0" by (rule indent_visits(2)) (use assms(1) in auto)
  moreover have "i \<notin> ids (stmts_list ss)" using assms(1) by auto
  ultimately obtain st' where
    "examine_statements examine_stmt_indent True (Stmt i bl (STMT_COMPOUND ss)) ss 1 st = ok (1, st')"
    "measured n (ids (stmts_list ss)) (layout_list 0 ss) st st'"
    using visits_listD [of n ss 0 st "Stmt i bl (STMT_COMPOUND ss)" thesis] assms(2,3) by simp
  then show ?thesis by (simp add: examine_instructions_list [of _ _ _ _ 1])
qed

definition at_file :: "nat \<Rightarrow> fe_state \<Rightarrow> bool" where
  "at_file n st \<longleftrightarrow> at_line n (FileMapping st) (MappingIndex st) (CurrentLine st)"

text \<open>What a function leaves as it was, so that the next one can be looked at.\<close>

definition same_limits :: "fe_state \<Rightarrow> fe_state \<Rightarrow> bool" where
  "same_limits st st' \<longleftrightarrow>
     MaxIndentLevel st' = MaxIndentLevel st \<and> MaxLineCount st' = MaxLineCount st \<and>
     FileMapping st' = FileMapping st \<and> FileFunctionList st' = FileFunctionList st \<and> fe_perror st' = fe_perror st"

lemma parse_function_layout:
  assumes "fn_ok n f" and "style_flags flags" and "at_file n st"
  shows "\<exists>st'. parse_function examine_stmt_indent flags (fn_symbol f) st = ok st' \<and> at_file n st' \<and> same_limits st st' \<and>
               fe_out st' = fe_out st @ fn_text flags (MaxIndentLevel st) (MaxLineCount st) f"
proof -
  obtain name l i bl ss where f: "f = (name, l, i, bl, ss)" by (metis surj_pair)
  define st2 where "st2 = (put_out (fn_head name) st)\<lparr>CurrentIndentLevel := -1, LastInstructionLine := -1,
    indent_level := (indent_level st)(i := 0), GlobalFlags := flags\<rparr>"
  have "quiet n st2" using assms(2,3) by (simp add: st2_def quiet_def style_flags_def at_file_def put_out_def)
  then obtain st3 where 3: "examine_instructions examine_stmt_indent (Stmt i bl (STMT_COMPOUND ss)) ss st2 = ok st3"
    "measured n (ids (stmts_list ss)) (layout_list 0 ss) st2 st3"
    using examine_instructions_layout [of n name l i bl ss st2] assms(1) f by (auto simp: st2_def)
  have q: "quiet n st3" using 3(2) \<open>quiet n st2\<close> measured_frame(1) by blast
  have m: "CurrentIndentLevel st3 = fn_depth f" "LastInstructionLine st3 - l + 1 = fn_length f" "fe_out st3 = fe_out st2"
    "same_limits st2 st3"
    using 3(2) by (auto simp: measured_def foldl_max f st2_def same_limits_def put_out_def)
  obtain s ss' where ss: "ss = s # ss'" using assms(1) f by (cases ss) auto
  have "parse_function examine_stmt_indent flags (fn_symbol f) st = ok (put_out fn_tail (report_function flags l st3))"
    using 3(1) ss by (simp add: parse_function_def f Let_def st2_def fn_head_def fn_tail_def put_out_def)
  moreover have "fe_out (put_out fn_tail (report_function flags l st3)) =
      fe_out st @ fn_text flags (MaxIndentLevel st) (MaxLineCount st) f"
    using m by (simp add: report_function_def Let_def put_out_def fn_text_def fn_lines_def depth_line_def length_line_def f
        st2_def same_limits_def)
  moreover have "at_file n (put_out fn_tail (report_function flags l st3))"
    using q by (simp add: at_file_def quiet_def report_function_def Let_def put_out_def)
  moreover have "same_limits st (put_out fn_tail (report_function flags l st3))"
    using m(4) by (simp add: same_limits_def report_function_def Let_def put_out_def st2_def)
  ultimately show ?thesis by blast
qed

lemma parse_function_list_layout:
  assumes "\<forall>f\<in>set fs. fn_ok n f" and "style_flags flags" and "at_file n st"
  shows "\<exists>st'. parse_function_list examine_stmt_indent flags (map fn_symbol fs) st = ok st' \<and> same_limits st st' \<and>
               fe_out st' = fe_out st @ concat (map (fn_text flags (MaxIndentLevel st) (MaxLineCount st)) fs)"
  using assms
proof (induction fs arbitrary: st)
  case (Cons f fs)
  obtain st1 where 1: "parse_function examine_stmt_indent flags (fn_symbol f) st = ok st1" "at_file n st1"
    "same_limits st st1" "fe_out st1 = fe_out st @ fn_text flags (MaxIndentLevel st) (MaxLineCount st) f"
    using parse_function_layout [of n f flags st] Cons.prems by auto
  obtain st2 where "parse_function_list examine_stmt_indent flags (map fn_symbol fs) st1 = ok st2" "same_limits st1 st2"
    "fe_out st2 = fe_out st1 @ concat (map (fn_text flags (MaxIndentLevel st1) (MaxLineCount st1)) fs)"
    using Cons.IH [of st1] Cons.prems 1(2) by auto
  then show ?case using 1 by (simp add: same_limits_def)
qed (simp add: same_limits_def)

section \<open>The files\<close>

type_synonym file_def = "string \<times> fn_def list"

text \<open>A file of functions, that cannot be mapped or has as many lines as the functions need.\<close>

definition mapping_ok :: "nat \<Rightarrow> open_result \<Rightarrow> bool" where
  "mapping_ok n r \<longleftrightarrow>
     r = OPEN_FAILED \<or> r = LSEEK_FAILED \<or> r = OPENED MAP_NULL \<or>
     (\<exists>ls t. r = OPENED (MAP_TEXT (lines_text ls @ t)) \<and> (\<forall>l\<in>set ls. c_lf \<notin> set l) \<and> n \<le> length ls)"

definition file_ok :: "sparse_env \<Rightarrow> nat \<Rightarrow> file_def \<Rightarrow> bool" where
  "file_ok env n f \<longleftrightarrow>
     sparse env (fst f) = map fn_symbol (snd f) \<and> mapping_ok n (open_file env (fst f)) \<and> (\<forall>g\<in>set (snd f). fn_ok n g)"

definition file_head :: "string \<Rightarrow> string" where
  "file_head name = ''####From file: '' @ name @ ''####'' @ [c_lf]"

definition file_tail :: string where
  "file_tail = ''####End parsing file####'' @ [c_lf]"

definition file_text_of :: "32 word \<Rightarrow> int \<Rightarrow> int \<Rightarrow> file_def \<Rightarrow> string" where
  "file_text_of flags max_level max_lines f =
     file_head (fst f) @ concat (map (fn_text flags max_level max_lines) (snd f)) @ file_tail"

definition style_head :: string where
  "style_head = [c_tab, c_tab, c_tab, c_tab] @ ''Other errors:'' @ [c_lf]"

lemma map_file_at:
  "mapping_ok n (open_file env name) \<Longrightarrow> at_file n (put_out t (map_file env b name st))"
  by (auto simp: mapping_ok_def at_file_def at_line_def map_file_def put_out_def put_perror_def Let_def
      split: if_splits) blast

lemma map_file_keeps:
  "MaxIndentLevel (map_file env b name st) = MaxIndentLevel st" "MaxLineCount (map_file env b name st) = MaxLineCount st"
  "FileFunctionList (map_file env b name st) = FileFunctionList st" "fe_out (map_file env b name st) = fe_out st"
  by (auto simp: map_file_def put_perror_def Let_def split: open_result.splits file_mapping.splits)

lemma unmap_file_keeps [simp]:
  "MaxIndentLevel (unmap_file b st) = MaxIndentLevel st" "MaxLineCount (unmap_file b st) = MaxLineCount st"
  "FileFunctionList (unmap_file b st) = FileFunctionList st" "fe_out (unmap_file b st) = fe_out st"
  by (auto simp: unmap_file_def put_perror_def)

lemma drop_Suc_of: "drop i xs = y # ys \<Longrightarrow> i < length xs \<and> xs ! i = y \<and> drop (Suc i) xs = ys"
  by (metis Cons_nth_drop_Suc drop_eq_Nil2 linorder_not_le list.distinct(1) list.inject)

lemma parse_files_layout:
  assumes "\<forall>f\<in>set fs. file_ok env n f" and "style_flags flags" and "index + length fs \<le> FILE_SLOTS"
    and "index \<le> length (FileFunctionList st)"
    and "drop index (FileFunctionList st) = (if first then [] else map (sparse env \<circ> fst) fs)"
  shows "\<exists>st'. parse_files env examine_stmt_indent flags first index (map fst fs) st = ok st' \<and>
               fe_out st' = fe_out st @ concat (map (file_text_of flags (MaxIndentLevel st) (MaxLineCount st)) fs)"
  using assms
proof (induction fs arbitrary: index st)
  case (Cons f fs)
  define FL where "FL = FileFunctionList st @ (if first then [sparse env (fst f)] else [])"
  define st1 where "st1 = st\<lparr>FileFunctionList := FL\<rparr>"
  define st3 where "st3 = put_out (file_head (fst f)) (map_file env (continue_parsing flags) (fst f) st1)"
  have f: "sparse env (fst f) = map fn_symbol (snd f)" "mapping_ok n (open_file env (fst f))" "\<forall>g\<in>set (snd f). fn_ok n g"
    using Cons.prems(1) by (simp_all add: file_ok_def)
  have keeps: "MaxIndentLevel st3 = MaxIndentLevel st" "MaxLineCount st3 = MaxLineCount st" "FileFunctionList st3 = FL"
    "fe_out st3 = fe_out st @ file_head (fst f)"
    by (simp_all add: st3_def st1_def put_out_def map_file_keeps)
  have idx: "index < FILE_SLOTS" "index < length FL" "FL ! index = sparse env (fst f)"
    "first \<Longrightarrow> index = length (FileFunctionList st)"
    "drop (Suc index) FL = (if first then [] else map (sparse env \<circ> fst) fs)"
    using Cons.prems(3-5) drop_Suc_of [of index "FileFunctionList st"]
    by (auto simp: FL_def nth_append split: if_splits)
  obtain st4 where 4: "parse_function_list examine_stmt_indent flags (map fn_symbol (snd f)) st3 = ok st4" "same_limits st3 st4"
    "fe_out st4 = fe_out st3 @ concat (map (fn_text flags (MaxIndentLevel st3) (MaxLineCount st3)) (snd f))"
    using parse_function_list_layout [OF f(3) Cons.prems(2), of st3] map_file_at [OF f(2)] by (auto simp: st3_def)
  define st5 where "st5 = unmap_file (continue_parsing flags) (put_out file_tail st4)"
  have k5: "MaxIndentLevel st5 = MaxIndentLevel st" "MaxLineCount st5 = MaxLineCount st" "FileFunctionList st5 = FL"
    "fe_out st5 = fe_out st @ file_text_of flags (MaxIndentLevel st) (MaxLineCount st) f"
    using 4(2,3) keeps by (simp_all add: st5_def same_limits_def put_out_def file_text_of_def)
  have step: "parse_files env examine_stmt_indent flags first index (map fst (f # fs)) st =
      parse_files env examine_stmt_indent flags first (Suc index) (map fst fs) st5"
    using 4(1) idx(1-4) keeps(3) f(1)
    by (auto simp: st5_def st3_def st1_def FL_def file_head_def file_tail_def Let_def)
  obtain st' where "parse_files env examine_stmt_indent flags first (Suc index) (map fst fs) st5 = ok st'"
    "fe_out st' = fe_out st5 @ concat (map (file_text_of flags (MaxIndentLevel st5) (MaxLineCount st5)) fs)"
    using Cons.IH [of "Suc index" st5] Cons.prems(1-3) idx(2,5) k5(3) by auto
  then show ?case using step k5 by (auto simp: comp_def)
qed simp

lemma and_not_of:
  fixes v w :: "'a::len word"
  assumes "and v w = 0"
  shows "and v (not w) = v"
proof (rule bit_word_eqI)
  fix i assume "i < LENGTH('a)"
  have "\<not> bit (and v w) i" using assms by simp
  then show "bit (and v (not w)) i \<longleftrightarrow> bit v i" using \<open>i < LENGTH('a)\<close> by (auto simp: bit_simps)
qed

lemma run_passes_style:
  assumes "\<forall>f\<in>set fs. file_ok env n f" and "style_flags flags" and "\<not> has_flag flags ERR_FUN_CALL"
    and "continue_parsing flags" and "sparse_initialize env args = map fst fs" and "FileList st = None"
    and "length fs \<le> FILE_SLOTS"
  shows "\<exists>st'. run_passes env args flags st = ok st' \<and>
               fe_out st' = fe_out st @ style_head @ concat (map (file_text_of flags (MaxIndentLevel st) (MaxLineCount st)) fs)"
proof -
  have fl: "and flags (not (fe_flag ERR_FUN_CALL)) = flags" using assms(3) by (simp add: has_flag_def and_not_of)
  define st1 where "st1 = (put_out style_head st)\<lparr>FileFunctionList := []\<rparr>"
  obtain st' where "parse_files env examine_stmt_indent flags True 0 (map fst fs) st1 = ok st'"
    "fe_out st' = fe_out st1 @ concat (map (file_text_of flags (MaxIndentLevel st1) (MaxLineCount st1)) fs)"
    using parse_files_layout [OF assms(1,2), of 0 st1 True] assms(7) by (auto simp: st1_def)
  then show ?thesis
    using assms(3-6) fl by (simp add: run_passes_def Let_def parse_file_list_def st1_def style_head_def put_out_def)
qed

section \<open>What the module reads\<close>

text \<open>A name as \<open>sscanf\<close> and the cut at the first \<open>#\<close> give it back.\<close>

definition name_ok :: "string \<Rightarrow> bool" where
  "name_ok w \<longleftrightarrow> (\<forall>c\<in>set w. \<not> c_isspace c \<and> c \<noteq> CHR ''#'' \<and> c \<noteq> c_nul) \<and> length w < 512"

lemma c_isspace_chars [simp]:
  "c_isspace CHR '' ''" "c_isspace c_tab" "c_isspace c_lf" "\<not> c_isspace CHR ''#''"
  by (simp_all add: c_isspace_def)

lemma name_ok_chars: "name_ok w \<Longrightarrow> c_lf \<notin> set w" "name_ok w \<Longrightarrow> c_nul \<notin> set w" "name_ok w \<Longrightarrow> CHR ''#'' \<notin> set w"
  unfolding name_ok_def using c_isspace_chars(3) by blast+

lemma scan_name:
  assumes "name_ok w"
  shows "takeWhile (\<lambda>c. c \<noteq> CHR ''#'') (takeWhile (\<lambda>c. \<not> c_isspace c) (w @ CHR ''#'' # r)) = w"
proof -
  have "takeWhile (\<lambda>c. \<not> c_isspace c) (w @ CHR ''#'' # r) = w @ CHR ''#'' # takeWhile (\<lambda>c. \<not> c_isspace c) r"
    using assms by (subst takeWhile_append2) (auto simp: name_ok_def)
  then show ?thesis using assms by (simp add: takeWhile_append2 name_ok_def)
qed

lemma drop_space_name: "name_ok w \<Longrightarrow> dropWhile c_isspace (w @ CHR ''#'' # r) = w @ CHR ''#'' # r"
  by (cases w) (auto simp: name_ok_def)

lemma scan_word_name:
  "name_ok w \<Longrightarrow> \<exists>n r'. scan_word (w @ CHR ''#'' # r) = Some (n, r') \<and> takeWhile (\<lambda>c. c \<noteq> CHR ''#'') n = w"
  using drop_space_name [of w r] scan_name [of w r] by (simp add: scan_word_def Let_def)

lemma spa_scan_heads:
  assumes "name_ok w"
  shows "spa_scan ''####From file: '' (file_head w) old = Inr w"
    and "spa_scan ([c_tab] @ ''#####parsing function: '') (fn_head w) old = Inr w"
proof -
  have eq: "scan_lit ''####From file: '' (file_head w) = Some (w @ CHR ''#'' # ''###'' @ [c_lf])"
    "scan_lit ([c_tab] @ ''#####parsing function: '') (fn_head w) = Some (w @ CHR ''#'' # ''####'' @ [c_lf])"
    using drop_space_name [OF assms] by (simp_all add: file_head_def fn_head_def c_isspace_def)
  obtain n1 r1 where 1: "scan_word (w @ CHR ''#'' # ''###'' @ [c_lf]) = Some (n1, r1)" "takeWhile (\<lambda>c. c \<noteq> CHR ''#'') n1 = w"
    using scan_word_name [OF assms] by blast
  obtain n2 r2 where 2: "scan_word (w @ CHR ''#'' # ''####'' @ [c_lf]) = Some (n2, r2)" "takeWhile (\<lambda>c. c \<noteq> CHR ''#'') n2 = w"
    using scan_word_name [OF assms] by blast
  show "spa_scan ''####From file: '' (file_head w) old = Inr w" by (simp only: spa_scan_def eq option.case prod.case 1 read_var.simps rbind.simps)
  show "spa_scan ([c_tab] @ ''#####parsing function: '') (fn_head w) old = Inr w"
    by (simp only: spa_scan_def eq option.case prod.case 2 read_var.simps rbind.simps)
qed

text \<open>Marks that do not occur.\<close>

lemma contains_needs: "contains s m \<Longrightarrow> set m \<subseteq> set s"
  by (auto simp: contains_iff)

lemma contains_skip: "c \<notin> set w \<Longrightarrow> contains (w @ s) (c # m) = contains s (c # m)"
  by (induction w) (auto simp: contains_def starts_with_def)

lemma contains_Cons: "contains (c # s) m \<longleftrightarrow> starts_with m (c # s) \<or> contains s m"
  by (auto simp: contains_def)

lemma fn_head_no_end: "name_ok w \<Longrightarrow> \<not> contains (fn_head w) ''#End parsing file#''"
  using contains_skip [of "CHR ''#''" w "''#####'' @ [c_lf]" "''End parsing file#''"] name_ok_chars(3) [of w]
  by (simp add: fn_head_def contains_Cons starts_with_def contains_def)

text \<open>A line of the report and the reports a body of the inner loop makes of it.\<close>

definition report_line :: "string \<Rightarrow> bool" where
  "report_line t \<longleftrightarrow>
     (\<exists>u. t = u @ [c_lf] \<and> c_lf \<notin> set u \<and> c_nul \<notin> set u \<and> CHR ''#'' \<notin> set u \<and> length u < 1022)"

abbreviation add_all :: "rbc_output list \<Rightarrow> rbc_output list \<Rightarrow> rbc_output list res" where
  "add_all rs out \<equiv> rfold (\<lambda>r out. add out r) rs out"

definition makes ::
  "(spa_state \<Rightarrow> rbc_output list res) \<Rightarrow> (string \<Rightarrow> string \<Rightarrow> string \<Rightarrow> rbc_output list) \<Rightarrow> string \<Rightarrow> string \<Rightarrow> string \<Rightarrow> bool" where
  "makes emit G F N t \<longleftrightarrow>
     (\<forall>st. spa_file_name st = Some F \<longrightarrow> spa_func_name st = Some N \<longrightarrow> spa_buff st = Some t \<longrightarrow>
        emit st = add_all (G F N t) (spa_output st))"

lemma spa_fgets_line:
  assumes "spa_in st = fopen_text (u @ c_lf # r)" and "c_lf \<notin> set u" and "c_nul \<notin> set u" and "length u < 1022"
  shows "spa_fgets st = (True, st\<lparr>spa_in := fopen_text r, spa_buff := Some (u @ [c_lf])\<rparr>)"
  using fgets_line [of "spa_in st" u r spa_BUFF] assms
  by (simp add: spa_fgets_def spa_BUFF_def MAX_BUFF_SIZE_def fopen_text_def)

lemma spa_fgets_report_line:
  assumes "report_line t" and "spa_in st = fopen_text (t @ r)"
  shows "spa_fgets st = (True, st\<lparr>spa_in := fopen_text r, spa_buff := Some t\<rparr>)"
  using assms spa_fgets_line [of st] by (auto simp: report_line_def)

lemma spa_fgets_marks:
  "spa_in st = fopen_text (fn_tail @ r) \<Longrightarrow> spa_fgets st = (True, st\<lparr>spa_in := fopen_text r, spa_buff := Some fn_tail\<rparr>)"
  "spa_in st = fopen_text (file_tail @ r) \<Longrightarrow> spa_fgets st = (True, st\<lparr>spa_in := fopen_text r, spa_buff := Some file_tail\<rparr>)"
  "name_ok w \<Longrightarrow> spa_in st = fopen_text (fn_head w @ r) \<Longrightarrow>
     spa_fgets st = (True, st\<lparr>spa_in := fopen_text r, spa_buff := Some (fn_head w)\<rparr>)"
  "name_ok w \<Longrightarrow> spa_in st = fopen_text (file_head w @ r) \<Longrightarrow>
     spa_fgets st = (True, st\<lparr>spa_in := fopen_text r, spa_buff := Some (file_head w)\<rparr>)"
  using spa_fgets_line [of st "[c_tab] @ ''#####end parsing function#####''" r]
    spa_fgets_line [of st "''####End parsing file####''" r]
    spa_fgets_line [of st "[c_tab] @ ''#####parsing function: '' @ w @ ''#####''" r]
    spa_fgets_line [of st "''####From file: '' @ w @ ''####''" r] name_ok_chars [of w]
  by (simp_all add: fn_tail_def file_tail_def fn_head_def file_head_def name_ok_def)

lemma report_line_unmarked: "report_line t \<Longrightarrow> \<not> contains t ''#end parsing function#''"
  using contains_needs [of t "''#end parsing function#''"] by (auto simp: report_line_def)

lemma marks_found: "contains fn_tail ''#end parsing function#''" "contains file_tail ''#End parsing file#''"
  by (simp_all add: fn_tail_def file_tail_def contains_def starts_with_def)

lemma spa_function_lines:
  assumes "\<forall>t\<in>set ls. report_line t \<and> makes emit G F N t" and "spa_in st = fopen_text (concat ls @ fn_tail @ r)"
    and "spa_file_name st = Some F" and "spa_func_name st = Some N"
  shows "spa_function emit st = rbind (add_all (concat (map (G F N) ls)) (spa_output st)) (\<lambda>o1.
           Inr (st\<lparr>spa_in := fopen_text r, spa_buff := Some fn_tail, spa_output := o1\<rparr>))"
  using assms
proof (induction ls arbitrary: st)
  case Nil
  then show ?case using spa_fgets_marks(1) [of st r] marks_found(1) by (simp add: spa_function.simps [of emit st])
next
  case (Cons t ls)
  let ?st1 = "st\<lparr>spa_in := fopen_text (concat ls @ fn_tail @ r), spa_buff := Some t\<rparr>"
  have t: "report_line t" "makes emit G F N t" using Cons.prems(1) by simp_all
  have "emit ?st1 = add_all (G F N t) (spa_output st)"
    using t(2) Cons.prems(3,4) unfolding makes_def by simp
  then have "spa_function emit st = rbind (add_all (G F N t) (spa_output st)) (\<lambda>o1. spa_function emit (?st1\<lparr>spa_output := o1\<rparr>))"
    using spa_fgets_report_line [OF t(1), of st] Cons.prems(2) report_line_unmarked [OF t(1)]
    by (subst spa_function.simps) simp
  moreover have "spa_function emit (?st1\<lparr>spa_output := o1\<rparr>) = rbind (add_all (concat (map (G F N) ls)) o1) (\<lambda>o2.
      Inr (st\<lparr>spa_in := fopen_text r, spa_buff := Some fn_tail, spa_output := o2\<rparr>))" for o1
    using Cons.IH [of "?st1\<lparr>spa_output := o1\<rparr>"] Cons.prems by simp
  ultimately show ?case by (cases "add_all (G F N t) (spa_output st)") (simp_all add: rfold_append)
qed

text \<open>A function of the report: its name and its lines.\<close>

type_synonym fn_lines_t = "string \<times> string list"

definition fn_marked :: "fn_lines_t \<Rightarrow> string" where
  "fn_marked g = fn_head (fst g) @ concat (snd g) @ fn_tail"

definition fn_makes :: "(string \<Rightarrow> string \<Rightarrow> string \<Rightarrow> rbc_output list) \<Rightarrow> string \<Rightarrow> fn_lines_t \<Rightarrow> rbc_output list" where
  "fn_makes G F g = concat (map (G F (fst g)) (snd g))"

definition fn_marked_ok ::
  "(spa_state \<Rightarrow> rbc_output list res) \<Rightarrow> (string \<Rightarrow> string \<Rightarrow> string \<Rightarrow> rbc_output list) \<Rightarrow> string \<Rightarrow> fn_lines_t \<Rightarrow> bool" where
  "fn_marked_ok emit G F g \<longleftrightarrow> name_ok (fst g) \<and> (\<forall>t\<in>set (snd g). report_line t \<and> makes emit G F (fst g) t)"

lemma spa_file_functions:
  assumes "\<forall>g\<in>set gs. fn_marked_ok emit G F g" and "spa_file_name st = Some F"
    and "spa_in st = fopen_text (concat (map fn_marked gs) @ file_tail @ r)"
  shows "\<exists>N. spa_file emit st = rbind (add_all (concat (map (fn_makes G F) gs)) (spa_output st)) (\<lambda>o1.
           Inr (st\<lparr>spa_in := fopen_text r, spa_buff := Some file_tail, spa_func_name := N, spa_output := o1\<rparr>))"
  using assms
proof (induction gs arbitrary: st)
  case Nil
  then show ?case using spa_fgets_marks(2) [of st r] marks_found(2)
    by (intro exI [of _ "spa_func_name st"]) (simp add: spa_file.simps [of emit st])
next
  case (Cons g gs)
  define rest where "rest = concat (map fn_marked gs) @ file_tail @ r"
  define st1 where "st1 = st\<lparr>spa_in := fopen_text (concat (snd g) @ fn_tail @ rest), spa_buff := Some (fn_head (fst g)),
    spa_func_name := Some (fst g)\<rparr>"
  define st2 where "st2 o1 = st\<lparr>spa_in := fopen_text rest, spa_buff := Some fn_tail, spa_func_name := Some (fst g),
    spa_output := o1\<rparr>" for o1
  have g: "name_ok (fst g)" "\<forall>t\<in>set (snd g). report_line t \<and> makes emit G F (fst g) t"
    using Cons.prems(1) by (simp_all add: fn_marked_ok_def)
  have inp: "spa_in st = fopen_text (fn_head (fst g) @ concat (snd g) @ fn_tail @ rest)"
    using Cons.prems(3) by (simp add: fn_marked_def [of g] rest_def)
  have f: "spa_function emit st1 = rbind (add_all (fn_makes G F g) (spa_output st)) (\<lambda>o1. Inr (st2 o1))"
    using spa_function_lines [OF g(2), of st1 rest] Cons.prems(2) by (cases st) (simp add: st1_def st2_def fn_makes_def)
  have "spa_file emit st = rbind (rbind (add_all (fn_makes G F g) (spa_output st)) (\<lambda>o1. Inr (st2 o1))) (spa_file emit)"
    using spa_fgets_marks(3) [OF g(1) inp] fn_head_no_end [OF g(1)] spa_scan_heads(2) [OF g(1)] f
    by (subst spa_file.simps) (simp add: spa_scan_func_def st1_def)
  moreover have "\<exists>N. \<forall>o1. add_all (fn_makes G F g) (spa_output st) = Inr o1 \<longrightarrow> spa_file emit (st2 o1) =
      rbind (add_all (concat (map (fn_makes G F) gs)) o1) (\<lambda>o2.
        Inr (st\<lparr>spa_in := fopen_text r, spa_buff := Some file_tail, spa_func_name := N, spa_output := o2\<rparr>))"
  proof (cases "add_all (fn_makes G F g) (spa_output st)")
    case (Inr o1)
    then show ?thesis using Cons.IH [of "st2 o1"] Cons.prems(1,2) by (simp add: st2_def rest_def)
  qed simp
  ultimately show ?case by (cases "add_all (fn_makes G F g) (spa_output st)") (auto simp: rfold_append)
qed

type_synonym file_lines_t = "string \<times> fn_lines_t list"

definition file_marked :: "file_lines_t \<Rightarrow> string" where
  "file_marked f = file_head (fst f) @ concat (map fn_marked (snd f)) @ file_tail"

definition file_makes :: "(string \<Rightarrow> string \<Rightarrow> string \<Rightarrow> rbc_output list) \<Rightarrow> file_lines_t \<Rightarrow> rbc_output list" where
  "file_makes G f = concat (map (fn_makes G (fst f)) (snd f))"

lemma spa_files_marked:
  assumes "\<forall>f\<in>set fs. name_ok (fst f) \<and> (\<forall>g\<in>set (snd f). fn_marked_ok emit G (fst f) g)"
    and "spa_in st = fopen_text (concat (map file_marked fs) @ r)"
  shows "\<exists>b F N. spa_files emit (length fs) st = rbind (add_all (concat (map (file_makes G) fs)) (spa_output st)) (\<lambda>o1.
           Inr (st\<lparr>spa_in := fopen_text r, spa_buff := b, spa_file_name := F, spa_func_name := N, spa_output := o1\<rparr>))"
  using assms
proof (induction fs arbitrary: st)
  case Nil
  then show ?case
    by (intro exI [of _ "spa_buff st"] exI [of _ "spa_file_name st"] exI [of _ "spa_func_name st"]) simp
next
  case (Cons f fs)
  define rest where "rest = concat (map file_marked fs) @ r"
  define st1 where "st1 = st\<lparr>spa_in := fopen_text (concat (map fn_marked (snd f)) @ file_tail @ rest),
    spa_buff := Some (file_head (fst f)), spa_file_name := Some (fst f)\<rparr>"
  have f: "name_ok (fst f)" "\<forall>g\<in>set (snd f). fn_marked_ok emit G (fst f) g" using Cons.prems(1) by simp_all
  have inp: "spa_in st = fopen_text (file_head (fst f) @ concat (map fn_marked (snd f)) @ file_tail @ rest)"
    using Cons.prems(2) by (simp add: file_marked_def [of f] rest_def)
  have scan: "spa_scan_file (snd (spa_fgets st)) = Inr st1"
    using spa_fgets_marks(4) [OF f(1) inp] spa_scan_heads(1) [OF f(1)] by (simp add: spa_scan_file_def st1_def)
  obtain N1 where "spa_file emit st1 = rbind (add_all (file_makes G f) (spa_output st)) (\<lambda>o1.
      Inr (st1\<lparr>spa_in := fopen_text rest, spa_buff := Some file_tail, spa_func_name := N1, spa_output := o1\<rparr>))"
    using spa_file_functions [OF f(2), of st1 rest] by (auto simp: st1_def file_makes_def)
  then have step: "spa_files emit (length (f # fs)) st = rbind (add_all (file_makes G f) (spa_output st)) (\<lambda>o1.
      spa_files emit (length fs) (st\<lparr>spa_in := fopen_text rest, spa_buff := Some file_tail, spa_file_name := Some (fst f),
        spa_func_name := N1, spa_output := o1\<rparr>))"
    using scan by (cases st; cases "add_all (file_makes G f) (spa_output st)") (simp_all add: st1_def)
  show ?case
  proof (cases "add_all (file_makes G f) (spa_output st)")
    case (Inr o1)
    define st3 where "st3 = st\<lparr>spa_in := fopen_text rest, spa_buff := Some file_tail, spa_file_name := Some (fst f),
        spa_func_name := N1, spa_output := o1\<rparr>"
    obtain b F N where "spa_files emit (length fs) st3 = rbind (add_all (concat (map (file_makes G) fs)) (spa_output st3)) (\<lambda>o2.
        Inr (st3\<lparr>spa_in := fopen_text r, spa_buff := b, spa_file_name := F, spa_func_name := N, spa_output := o2\<rparr>))"
      using Cons.IH [of st3] Cons.prems(1) by (auto simp: st3_def rest_def)
    then show ?thesis using step Inr
      by (intro exI [of _ b] exI [of _ F] exI [of _ N]) (simp add: st3_def rfold_append)
  qed (use step in \<open>simp add: rfold_append\<close>)
qed

section \<open>The measures as reports\<close>

definition style_message :: "string \<Rightarrow> string \<Rightarrow> string \<Rightarrow> string" where
  "style_message F N t = ''From file: '' @ F @ '' at function: '' @ N @ '' error: '' @ t"

text \<open>What the module reports for a line of the second pass.\<close>

definition style_reports :: "rbc_errset_t \<Rightarrow> string \<Rightarrow> string \<Rightarrow> string \<Rightarrow> rbc_output list" where
  "style_reports es F N t =
     (if isset ERR_FUNCTION_LINE es \<and> contains t ''Function line count:''
      then [new_report ERR_FUNCTION_LINE (style_message F N t)] else []) @
     (if isset ERR_FUNCTION_INDENTATION es \<and> contains t ''Indent level:''
      then [new_report ERR_FUNCTION_INDENTATION (style_message F N t)] else [])"

lemma fmt_d_chars: "set (fmt_d k) \<subseteq> insert CHR ''-'' {c. c_isdigit c}"
  using nat_digits_digits by (auto simp: fmt_d_def)

lemma fmt_d_not:
  assumes "\<not> c_isdigit c" and "c \<noteq> CHR ''-''"
  shows "c \<notin> set (fmt_d k)"
  using assms fmt_d_chars [of k] by auto

lemma nondigits:
  "\<not> c_isdigit CHR ''M''" "\<not> c_isdigit CHR ''T''" "\<not> c_isdigit CHR ''I''" "\<not> c_isdigit CHR ''F''" "\<not> c_isdigit CHR ''#''"
  "\<not> c_isdigit c_lf" "\<not> c_isdigit c_nul"
  by (simp_all add: c_isdigit_def)

lemma contains_miss: "c \<in> set m \<Longrightarrow> c \<notin> set s \<Longrightarrow> \<not> contains s m"
  using contains_needs by blast

lemma measure_lines_chars:
  "CHR ''F'' \<notin> set (depth_line k)" "CHR ''I'' \<notin> set (length_line k)"
  "c \<in> {CHR ''M'', CHR ''T'', CHR ''#''} \<Longrightarrow> c \<notin> set (depth_line k)"
  "c \<in> {CHR ''M'', CHR ''T'', CHR ''#''} \<Longrightarrow> c \<notin> set (length_line k)"
  using fmt_d_not [OF nondigits(1), of k] fmt_d_not [OF nondigits(2), of k] fmt_d_not [OF nondigits(3), of k]
    fmt_d_not [OF nondigits(4), of k] fmt_d_not [OF nondigits(5), of k]
  by (auto simp: depth_line_def length_line_def)

lemma measure_lines_miss:
  "\<not> contains (depth_line k) ''Function line count:''" "\<not> contains (length_line k) ''Indent level:''"
  "\<not> contains (depth_line k) ''Mixed tabs with spaces''" "\<not> contains (length_line k) ''Mixed tabs with spaces''"
  "\<not> contains (depth_line k) ''Trailing white space''" "\<not> contains (length_line k) ''Trailing white space''"
  by (rule contains_miss [OF _ measure_lines_chars(1)], simp, rule contains_miss [OF _ measure_lines_chars(2)], simp,
      rule contains_miss [OF _ measure_lines_chars(3) [of "CHR ''M''"]], simp, simp,
      rule contains_miss [OF _ measure_lines_chars(4) [of "CHR ''M''"]], simp, simp,
      rule contains_miss [OF _ measure_lines_chars(3) [of "CHR ''T''"]], simp, simp,
      rule contains_miss [OF _ measure_lines_chars(4) [of "CHR ''T''"]], simp, simp)

lemma measure_lines_found: "contains (depth_line k) ''Indent level:''" "contains (length_line k) ''Function line count:''"
  using strstr_append_Some [of "[c_tab, c_tab]" "''Indent level:''" "'' '' @ fmt_d k @ [c_lf]"]
    strstr_append_Some [of "[c_tab, c_tab]" "''Function line count:''" "'' '' @ fmt_d k @ [c_lf]"]
  by (simp_all add: contains_def depth_line_def length_line_def)

lemma measure_report_line:
  assumes "t = depth_line k \<or> t = length_line k" and "int32 k"
  shows "report_line t" and "length t < 100"
proof -
  define head where "head = [c_tab, c_tab] @ (if t = depth_line k then ''Indent level: '' else ''Function line count: '')"
  have t: "t = (head @ fmt_d k) @ [c_lf]" using assms(1) by (auto simp: head_def depth_line_def length_line_def)
  have l: "length (fmt_d k) \<le> 11" using assms(2) by (rule length_fmt_d)
  have "c_lf \<notin> set (head @ fmt_d k)" "c_nul \<notin> set (head @ fmt_d k)" "CHR ''#'' \<notin> set (head @ fmt_d k)"
    using fmt_d_not [OF nondigits(5), of k] fmt_d_not [OF nondigits(6), of k] fmt_d_not [OF nondigits(7), of k]
    by (simp_all add: head_def)
  moreover have "length (head @ fmt_d k) < 1022" using l by (simp add: head_def)
  ultimately show "report_line t" unfolding report_line_def using t by blast
  have "length head \<le> 23" by (simp add: head_def)
  then show "length t < 100" using arg_cong [OF t, of length] l by simp
qed

lemma spa_add_message:
  assumes "spa_file_name st = Some F" and "spa_func_name st = Some N" and "spa_buff st = Some t"
    and "name_ok F" and "name_ok N" and "length t < 100"
  shows "spa_add e [] st out = add out (new_report e (style_message F N t))"
  using assms by (simp add: spa_add_def spa_message_def store_def name_ok_def MAX_BUFF_SIZE_def style_message_def)

lemma rbind_rfold_Nil [simp]: "rbind m (rfold f []) = m"
  by (cases m) auto

lemma style_makes:
  assumes "t = depth_line k \<or> t = length_line k" and "int32 k" and "name_ok F" and "name_ok N"
  shows "makes (spa_emit_style es) (style_reports es) F N t"
  unfolding makes_def
proof (intro allI impI)
  fix st :: spa_state
  assume st: "spa_file_name st = Some F" "spa_func_name st = Some N" "spa_buff st = Some t"
  note add = spa_add_message [OF st assms(3,4) measure_report_line(2) [OF assms(1,2)]]
  show "spa_emit_style es st = add_all (style_reports es F N t) (spa_output st)"
    using assms(1)
  proof
    assume "t = depth_line k"
    then show ?thesis using st add measure_lines_miss [of k] measure_lines_found [of k]
      by (simp add: spa_emit_style_def spa_emit_if_def style_reports_def)
  next
    assume "t = length_line k"
    then show ?thesis using st add measure_lines_miss [of k] measure_lines_found [of k]
      by (simp add: spa_emit_style_def spa_emit_if_def style_reports_def)
  qed
qed

definition marked_file :: "32 word \<Rightarrow> int \<Rightarrow> int \<Rightarrow> file_def \<Rightarrow> file_lines_t" where
  "marked_file flags max_level max_lines f = (fst f, map (\<lambda>g. (fst g, fn_lines flags max_level max_lines g)) (snd f))"

lemma file_marked_text: "file_marked (marked_file flags a b f) = file_text_of flags a b f"
  by (simp add: file_marked_def marked_file_def file_text_of_def fn_text_def [abs_def] fn_marked_def comp_def)

text \<open>What is expected of the driver for a function: its depth and its length, if they are asked for and large.\<close>

definition measure_reports :: "rbc_errset_t \<Rightarrow> 32 word \<Rightarrow> int \<Rightarrow> int \<Rightarrow> string \<Rightarrow> fn_def \<Rightarrow> rbc_output list" where
  "measure_reports es flags max_level max_lines F g =
     (if isset ERR_FUNCTION_INDENTATION es \<and> has_flag flags ERR_FUN_INDENT_LEVEL \<and> fn_depth g \<ge> max_level
      then [new_report ERR_FUNCTION_INDENTATION (style_message F (fst g) (depth_line (fn_depth g)))] else []) @
     (if isset ERR_FUNCTION_LINE es \<and> has_flag flags ERR_FUN_LINES \<and> (max_lines \<le> 0 \<or> fn_length g \<ge> max_lines)
      then [new_report ERR_FUNCTION_LINE (style_message F (fst g) (length_line (fn_length g)))] else [])"

definition file_reports :: "rbc_errset_t \<Rightarrow> 32 word \<Rightarrow> int \<Rightarrow> int \<Rightarrow> file_def \<Rightarrow> rbc_output list" where
  "file_reports es flags max_level max_lines f =
     concat (map (measure_reports es flags max_level max_lines (fst f)) (snd f))"

lemma file_makes_reports: "file_makes (style_reports es) (marked_file flags a b f) = file_reports es flags a b f"
  by (auto simp: file_makes_def marked_file_def file_reports_def fn_makes_def fn_lines_def measure_reports_def
      style_reports_def measure_lines_miss measure_lines_found comp_def intro!: arg_cong [where f = concat])

text \<open>Names and numbers that the two programs can exchange.\<close>

definition names_ok :: "file_def \<Rightarrow> bool" where
  "names_ok f \<longleftrightarrow>
     name_ok (fst f) \<and> (\<forall>g\<in>set (snd f). name_ok (fst g) \<and> int32 (fn_depth g) \<and> int32 (fn_length g))"

lemma marked_file_ok:
  assumes "names_ok f"
  shows "name_ok (fst (marked_file flags a b f)) \<and>
         (\<forall>g\<in>set (snd (marked_file flags a b f)).
            fn_marked_ok (spa_emit_style es) (style_reports es) (fst (marked_file flags a b f)) g)"
  using assms measure_report_line(1) style_makes
  by (fastforce simp: names_ok_def marked_file_def fn_marked_ok_def fn_lines_def split: if_splits)

text \<open>The second part of the report, behind whatever was read before.\<close>

lemma spa_second_part:
  assumes "\<forall>f\<in>set fs. names_ok f" and "spa_in st = fopen_text (style_head @ concat (map (file_text_of flags a b) fs))"
  shows "rbind (spa_files (spa_emit_style es) (length fs) (spa_skip_to ''Other errors'' st)) (\<lambda>st2. Inr (spa_output st2)) =
         add_all (concat (map (file_reports es flags a b) fs)) (spa_output st)"
proof -
  define fs' where "fs' = map (marked_file flags a b) fs"
  define st1 where "st1 = st\<lparr>spa_in := fopen_text (concat (map file_marked fs')), spa_buff := Some style_head\<rparr>"
  have "map file_marked fs' = map (file_text_of flags a b) fs" by (simp add: fs'_def file_marked_text)
  then have "spa_fgets st = (True, st1)"
    using spa_fgets_line [of st "[c_tab, c_tab, c_tab, c_tab] @ ''Other errors:''" "concat (map file_marked fs')"] assms(2)
    by (simp add: st1_def style_head_def)
  moreover have "contains style_head ''Other errors''" by (simp add: style_head_def contains_def starts_with_def)
  ultimately have skip: "spa_skip_to ''Other errors'' st = st1" by (subst spa_skip_to.simps) (simp add: st1_def)
  have ok: "\<forall>f\<in>set fs'. name_ok (fst f) \<and> (\<forall>g\<in>set (snd f). fn_marked_ok (spa_emit_style es) (style_reports es) (fst f) g)"
    using assms(1) marked_file_ok unfolding fs'_def by auto
  obtain bf F N where "spa_files (spa_emit_style es) (length fs') st1 =
      rbind (add_all (concat (map (file_makes (style_reports es)) fs')) (spa_output st)) (\<lambda>o1.
        Inr (st1\<lparr>spa_in := fopen_text [], spa_buff := bf, spa_file_name := F, spa_func_name := N, spa_output := o1\<rparr>))"
    using spa_files_marked [OF ok, of st1 "[]"] by (auto simp: st1_def)
  then show ?thesis using skip
    by (cases "add_all (concat (map (file_reports es flags a b) fs)) (spa_output st)")
       (simp_all add: fs'_def file_makes_reports comp_def)
qed

lemma spa_parse_style:
  assumes "\<forall>f\<in>set fs. names_ok f" and "\<not> isset ERR_UNVERIFIED_FUNCTION es" and "spa_style es"
  shows "spa_parse_output_file (fopen_text (style_head @ concat (map (file_text_of flags a b) fs))) es (int (length fs)) =
         add_all (concat (map (file_reports es flags a b) fs)) []"
  using spa_second_part [OF assms(1)] assms(2,3) by (simp add: spa_parse_output_file_def Let_def)

section \<open>Properties\<close>

text \<open>A file with one function of two levels and five lines, and the flags of the second pass.\<close>

definition a_value :: "nat \<Rightarrow> expr option" where
  "a_value i = Some (Expr i 3 Uninit EXPR_VALUE)"

definition two_levels :: fn_def where
  "two_levels =
     (''main'', 2, 0, 2,
      [Stmt 1 3 (STMT_IF (a_value 10) (Some (Stmt 2 3 (STMT_COMPOUND [Stmt 3 4 (STMT_EXPRESSION (a_value 11))]))) None),
       Stmt 4 6 (STMT_RETURN (a_value 12))])"

definition style_env :: sparse_env where
  "style_env =
     \<lparr>sparse_initialize = (\<lambda>as. as), sparse = (\<lambda>_. [fn_symbol two_levels]),
      open_file = (\<lambda>_. OPENED (MAP_TEXT (lines_text (replicate 6 ''x'') @ ''''))), black_list_text = None\<rparr>"

definition measure_flags :: "32 word" where
  "measure_flags = or (fe_flag ERR_FUN_LINES) (fe_flag ERR_FUN_INDENT_LEVEL)"

definition style_state :: fe_state where
  "style_state = (fe_start [])\<lparr>MaxLineCount := 5, MaxIndentLevel := 2\<rparr>"

lemma style_env_facts:
  "file_ok style_env 6 (name, [two_levels])" "style_flags measure_flags" "\<not> has_flag measure_flags ERR_FUN_CALL"
  "continue_parsing measure_flags" "sparse_initialize style_env as = as" "FileList style_state = None"
  "(MaxLineCount style_state, MaxIndentLevel style_state, fe_out style_state) = (5, 2, [])"
proof -
  have "mapping_ok 6 (OPENED (MAP_TEXT (lines_text (replicate 6 ''x'') @ '''')))"
    unfolding mapping_ok_def by (intro disjI2 exI [of _ "replicate 6 ''x''"] exI [of _ "''''"]) simp
  moreover have "fn_ok 6 two_levels" by code_simp
  ultimately show "file_ok style_env 6 (name, [two_levels])" by (simp add: file_ok_def style_env_def)
  show "style_flags measure_flags" "\<not> has_flag measure_flags ERR_FUN_CALL" "continue_parsing measure_flags" by code_simp+
qed (simp_all add: style_env_def style_state_def fe_start_def)

text \<open>
  C7: the second pass of the front end, asked for the length and the depth of functions, ends without an
  error and prints, for each file and each function with a body, exactly the lines the reference gives:
  the depth is the largest nesting level and the length reaches from the line of the function to the last
  line of a statement; each is printed when it reaches its limit. The files are mapped or cannot be
  mapped; the nodes of a function are different and in the lines of its file.
\<close>

theorem style_pass_prints_measures:
  assumes "\<forall>f\<in>set fs. file_ok env n f" and "style_flags flags" and "\<not> has_flag flags ERR_FUN_CALL"
    and "continue_parsing flags" and "sparse_initialize env args = map fst fs" and "FileList st = None"
    and "length fs \<le> FILE_SLOTS"
  shows "\<exists>st'. run_passes env args flags st = ok st' \<and>
               fe_out st' = fe_out st @ style_head @ concat (map (file_text_of flags (MaxIndentLevel st) (MaxLineCount st)) fs)"
  using assms by (rule run_passes_style)

theorem style_pass_prints_measures_witness:
  "\<exists>st'. run_passes style_env [''a.c''] measure_flags style_state = ok st' \<and>
         fe_out st' = style_head @ file_head ''a.c'' @ fn_head ''main'' @ [c_tab, c_tab] @ ''Indent level: 2'' @ [c_lf] @
           [c_tab, c_tab] @ ''Function line count: 5'' @ [c_lf] @ fn_tail @ file_tail"
proof -
  have "file_text_of measure_flags 2 5 (''a.c'', [two_levels]) = file_head ''a.c'' @ fn_head ''main'' @
    [c_tab, c_tab] @ ''Indent level: 2'' @ [c_lf] @ [c_tab, c_tab] @ ''Function line count: 5'' @ [c_lf] @ fn_tail @ file_tail"
    by code_simp
  then show ?thesis
    using style_pass_prints_measures [of "[(''a.c'', [two_levels])]" style_env 6 measure_flags "[''a.c'']" style_state]
      style_env_facts by (simp add: FILE_SLOTS_def)
qed

text \<open>
  What the front end prints for its second pass is what the sparse module of the driver makes of it.
\<close>

lemma style_pass_read_by_module:
  assumes "\<forall>f\<in>set fs. file_ok env n f \<and> names_ok f" and "style_flags flags" and "\<not> has_flag flags ERR_FUN_CALL"
    and "continue_parsing flags" and "sparse_initialize env args = map fst fs" and "FileList st = None" and "fe_out st = []"
    and "length fs \<le> FILE_SLOTS" and "\<not> isset ERR_UNVERIFIED_FUNCTION es" and "spa_style es"
  shows "\<exists>st'. run_passes env args flags st = ok st' \<and>
               spa_parse_output_file (fopen_text (fe_out st')) es (int (length fs)) =
               add_all (concat (map (file_reports es flags (MaxIndentLevel st) (MaxLineCount st)) fs)) []"
  using run_passes_style [of fs env n flags args st] spa_parse_style [of fs es flags "MaxIndentLevel st" "MaxLineCount st"] assms
  by auto

end
