(* ===== verification/Analyzer_Props.thy ===== *)
theory Analyzer_Props
  imports Analyzer_Report
begin

text \<open>
  The first pass of the sparse front end and its start: the black list and the room it has, the calls
  that are reported and those that are not, the program from its command line to the reports of the driver,
  and the inputs on which it leaves its buffers or reads a NULL pointer.
\<close>

section \<open>The black list\<close>

lemma is_black_listed_names:
  assumes "BlackList bl = Some (map Some ls)" and "BlackListCount bl = length ls"
  shows "is_black_listed (Some f) bl = Inr (f \<in> set ls)"
  using assms bl_search_names [of ls f] by (simp add: is_black_listed_def)

text \<open>
  After a black list of at most twelve lines was read, a function is black-listed exactly if its name is
  one of the lines.
\<close>

theorem black_list_is_the_lines:
  assumes "\<forall>l\<in>set ls. line_ok l" and "length ls \<le> 12"
  shows "\<exists>bl. set_black_list (Some (lines_text ls)) (bl_init []) = Inr (0, bl) \<and>
              (\<forall>f. is_black_listed (Some f) bl = Inr (f \<in> set ls))"
  using set_black_list_text [OF assms(1)] assms(2) by (auto intro!: is_black_listed_names)

theorem black_list_is_the_lines_witness:
  "\<exists>bl. set_black_list (Some (lines_text [''malloc'', ''open''])) (bl_init []) = Inr (0, bl) \<and>
        (\<forall>f. is_black_listed (Some f) bl = Inr (f \<in> set [''malloc'', ''open'']))"
  by (rule black_list_is_the_lines) code_simp+

section \<open>Statements without a value\<close>

text \<open>If the wrapper goes on after each statement, a traversal that ends has called it on all of them.\<close>

definition goes_on :: "wrapper \<Rightarrow> bool" where
  "goes_on w \<longleftrightarrow> (\<forall>t st b st'. w t st = ok (b, st') \<longrightarrow> b)"

lemma obind_ok_iff: "obind m f = ok y \<longleftrightarrow> (\<exists>x. m = ok x \<and> f x = ok y)"
  by (cases "(m, f)" rule: obind.cases) auto

lemma examine_statement_root:
  assumes "examine_statement w rel (Some (Stmt i l b)) st = ok r" and "goes_on w"
  obtains st1 where "w (Stmt i l b) st = ok (True, st1)"
proof -
  obtain c st1 where "w (Stmt i l b) st = ok (c, st1)" using assms(1) by (auto simp: Let_def obind_ok_iff)
  moreover from this have "c" using assms(2) unfolding goes_on_def by blast
  ultimately show ?thesis using that by simp
qed

lemma examine_statement_all:
  "examine_statement w rel s st = ok r \<Longrightarrow> goes_on w \<Longrightarrow> t \<in> set (stmts_opt s) \<Longrightarrow> \<exists>st r. w t st = ok r"
  "examine_statements w rel p ss v st = ok r \<Longrightarrow> goes_on w \<Longrightarrow> t \<in> set (stmts_list ss) \<Longrightarrow> \<exists>st r. w t st = ok r"
proof (induction s and ss arbitrary: st r and p v st r rule: stmts_opt_stmts_list.induct)
  case (2 i l b)
  obtain st1 where w: "w (Stmt i l b) st = ok (True, st1)" using examine_statement_root [OF "2.prems"(1,2)] .
  show ?case
  proof (cases "t = Stmt i l b")
    case False
    note p = "2.prems"(1,3) w False
    show ?thesis
    proof (cases b)
      case (STMT_COMPOUND ss)
      show ?thesis by (rule "2.IH"(1) [OF STMT_COMPOUND _ "2.prems"(2)]) (use p STMT_COMPOUND in \<open>simp_all add: Let_def\<close>)
    next
      case (STMT_IF c x f)
      note IH = "2.IH"(2,3) [OF STMT_IF _ "2.prems"(2)]
      show ?thesis using p STMT_IF by (auto simp: Let_def obind_ok_iff dest!: IH) blast+
    next
      case (STMT_CASE e to s)
      note IH = "2.IH"(4) [OF STMT_CASE _ "2.prems"(2)]
      show ?thesis using p STMT_CASE by (auto simp: Let_def obind_ok_iff dest!: IH) blast
    next
      case (STMT_SWITCH e s)
      note IH = "2.IH"(5) [OF STMT_SWITCH _ "2.prems"(2)]
      show ?thesis using p STMT_SWITCH by (auto simp: Let_def obind_ok_iff dest!: IH) blast
    next
      case (STMT_ITERATOR pc qc a s z)
      note IH = "2.IH"(6-8) [OF STMT_ITERATOR _ "2.prems"(2)]
      show ?thesis using p STMT_ITERATOR by (auto simp: Let_def obind_ok_iff dest!: IH) blast+
    next
      case (STMT_LABEL s)
      note IH = "2.IH"(9) [OF STMT_LABEL _ "2.prems"(2)]
      show ?thesis using p STMT_LABEL by (auto simp: Let_def obind_ok_iff dest!: IH) blast
    qed (use p in simp_all)
  qed (use w in blast)
next
  case (4 s ss)
  note IH = "4.IH"(1) [OF _ "4.prems"(2)] "4.IH"(2) [OF _ "4.prems"(2)]
  show ?case using "4.prems"(1,3) by (auto simp: obind_ok_iff dest!: IH)
qed simp_all

lemma examine_stmt_expression_goes_on: "goes_on examine_stmt_expression"
  by (auto simp: goes_on_def examine_stmt_expression_def stmt_wrapper_def obind_ok_iff)

lemma bare_return_fails: "examine_stmt_expression (Stmt i l (STMT_RETURN None)) st = Some (Inl Null_Deref)"
  by (simp add: examine_stmt_expression_def stmt_wrapper_def examine_parts_def set_e_stmt_deref_def)

text \<open>
  C40: the first pass does not get through a function that has a \<open>return\<close> without a value anywhere: the
  statement's value is dereferenced without a test, so the pass never ends normally on such a function.
\<close>

theorem bare_return_not_survived:
  assumes "Stmt j k (STMT_RETURN None) \<in> set (stmts_list ss)"
  shows "parse_function examine_stmt_expression flags (fn_symbol (name, l, i, bl, ss)) st \<noteq> ok st'"
proof
  assume ok: "parse_function examine_stmt_expression flags (fn_symbol (name, l, i, bl, ss)) st = ok st'"
  obtain s ss' where ss: "ss = s # ss'" using assms by (cases ss) auto
  then obtain st2 st3 where "examine_instructions examine_stmt_expression (Stmt i bl (STMT_COMPOUND ss)) ss st2 = ok st3"
    using ok by (auto simp: parse_function_def Let_def obind_ok_iff simp del: examine_instructions.simps)
  then obtain r where "examine_statements examine_stmt_expression True (Stmt i bl (STMT_COMPOUND ss)) ss 1 st2 = ok r"
    by (auto simp: examine_instructions_list [of _ _ _ _ 1] obind_ok_iff)
  then have "\<exists>st r. examine_stmt_expression (Stmt j k (STMT_RETURN None)) st = ok r"
    by (rule examine_statement_all(2) [OF _ examine_stmt_expression_goes_on assms])
  then show False by (simp add: bare_return_fails)
qed

theorem bare_return_not_survived_witness:
  "\<nexists>st'. parse_function examine_stmt_expression 2
     (fn_symbol (''f'', 1, 0, 1, [Stmt 1 2 (STMT_IF (a_value 3) (Some (Stmt 2 3 (STMT_RETURN None))) None)]))
     (fe_start []) = ok st'"
  using bare_return_not_survived [of 2 3 "[Stmt 1 2 (STMT_IF (a_value 3) (Some (Stmt 2 3 (STMT_RETURN None))) None)]" 2 "''f''" 1 0 1 "fe_start []"]
  by simp

section \<open>Calls\<close>

text \<open>A call of a function by its name.\<close>

definition call_of :: "nat \<Rightarrow> int \<Rightarrow> expr \<Rightarrow> expr list \<Rightarrow> expr" where
  "call_of j l fe args = Expr j l Uninit (EXPR_CALL (Some fe) args)"

lemma call_of_simps [simp]:
  "e_id (call_of j l fe args) = j" "e_line (call_of j l fe args) = l"
  "e_body (call_of j l fe args) = EXPR_CALL (Some fe) args"
  by (simp_all add: call_of_def)

definition error_line :: "string \<Rightarrow> string \<Rightarrow> int \<Rightarrow> string" where
  "error_line F f l =
     ''Unverified return value for function'' @ '' in file '' @ [c_quote] @ F @ [c_quote] @ '' for function call '' @ [c_quote] @ f @
     [c_quote] @ '' at line '' @ [c_quote] @ fmt_d l @ [c_quote]"

text \<open>An expression that was not examined before and is not part of another one.\<close>

definition fresh_expr :: "nat \<Rightarrow> fe_state \<Rightarrow> bool" where
  "fresh_expr j st \<longleftrightarrow> \<not> visited1 st j \<and> e_prt_expr st j = None"

lemma out_args_none: "\<forall>a\<in>set args. get_out_symbol (Some a) = None \<Longrightarrow> out_args e args show_err st = ok (show_err, st)"
  by (induction args) auto

lemma mark_visited_keeps:
  "fe_out (mark_visited i st) = fe_out st" "CurrentFile (mark_visited i st) = CurrentFile st"
  "fe_black (mark_visited i st) = fe_black st" "e_prt_expr (mark_visited i st) = e_prt_expr st"
  "e_prt_stmt (mark_visited i st) = e_prt_stmt st" "prt_stmt (mark_visited i st) = prt_stmt st"
  by (auto simp: mark_visited_def fe_malloc_def split: prod.splits)

lemma mark_visited_other:
  "i \<noteq> j \<Longrightarrow> visited1 (mark_visited i st) j = visited1 st j" "AssignmentVariable (mark_visited i st) = AssignmentVariable st"
  by (auto simp: mark_visited_def fe_malloc_def split: prod.splits)

lemma mark_visited_limits:
  "FileFunctionList (mark_visited i st) = FileFunctionList st" "MaxIndentLevel (mark_visited i st) = MaxIndentLevel st"
  "MaxLineCount (mark_visited i st) = MaxLineCount st"
  by (auto simp: mark_visited_def fe_malloc_def split: prod.splits)

text \<open>The result of \<open>handle_call_simple\<close> for a call that a statement holds directly.\<close>

lemma examine_call_direct:
  assumes "e_name fe = Ptr f" and "is_black_listed (Some f) (fe_black st) = Inr True"
    and "e_prt_expr st j = None" and "e_prt_stmt st j = Some s" and "\<not> is_declaration s"
  shows "examine_call (call_of j l fe args) st =
         (if is_decision s \<or> is_case s then ok (st\<lparr>AnalyzedFunction := Some f\<rparr>)
          else obind (out_args (call_of j l fe args) args True (st\<lparr>AnalyzedFunction := Some f\<rparr>)) (\<lambda>(show_err, st3).
                 if show_err
                 then Some (emit_error (CurrentFile st3) (Some f) l ''Unverified return value for function'' st3) else ok st3))"
proof -
  have "get_expression_statement (call_of j l fe args) (st\<lparr>AnalyzedFunction := None\<rparr>) = Some (Some s)"
    using assms(4) by (subst get_expression_statement.simps) simp
  moreover have "get_last_expression (call_of j l fe args) (st\<lparr>AnalyzedFunction := Some f\<rparr>) = Some (Some (call_of j l fe args))"
    using assms(3) by (subst get_last_expression.simps) simp
  moreover have "get_caller (call_of j l fe args) = Inr (Some f)" using assms(1) by (simp add: get_caller_def)
  ultimately show ?thesis using assms
    by (simp add: examine_call_def is_declaration_call_def handle_call_simple_def handle_out_call_params_def cong: if_cong)
qed

lemma examine_direct_call:
  assumes "fresh_expr j st"
  shows "examine_expression (call_of j l fe args) (st\<lparr>e_prt_stmt := (e_prt_stmt st)(j := Some s)\<rparr>) =
         obind (examine_call (call_of j l fe args) (mark_visited j (st\<lparr>e_prt_stmt := (e_prt_stmt st)(j := Some s)\<rparr>)))
           (\<lambda>st2. ok (Some R_CALL, st2))"
  using assms by (simp add: examine_expression.simps call_of_def fresh_expr_def)

text \<open>
  C24: a black-listed function that is called as a statement of its own, with no argument that is a variable, is
  reported, with the file and the line.
\<close>

theorem unused_result_reported:
  assumes "e_name fe = Ptr f" and "is_black_listed (Some f) (fe_black st) = Inr True" and "fresh_expr j st"
    and "\<forall>a\<in>set args. get_out_symbol (Some a) = None" and "CurrentFile st = Some F" and "length (error_line F f l) < 256"
  shows "\<exists>st'. examine_stmt_expression (Stmt i k (STMT_EXPRESSION (Some (call_of j l fe args)))) st = ok (True, st') \<and>
               fe_out st' = fe_out st @ error_line F f l @ [c_lf]"
proof -
  define s where "s = Stmt i k (STMT_EXPRESSION (Some (call_of j l fe args)))"
  define st1 where "st1 = mark_visited j (st\<lparr>e_prt_stmt := (e_prt_stmt st)(j := Some s)\<rparr>)"
  define st2 where "st2 = st1\<lparr>AnalyzedFunction := Some f\<rparr>"
  have keeps: "e_prt_expr st1 j = None" "e_prt_stmt st1 j = Some s" "fe_black st1 = fe_black st" "fe_out st2 = fe_out st"
    "CurrentFile st2 = Some F"
    using assms(3,5) by (simp_all add: st1_def st2_def mark_visited_keeps fresh_expr_def)
  have kind: "\<not> is_declaration s" "\<not> is_decision s" "\<not> is_case s"
    by (simp_all add: s_def is_declaration_def is_decision_def is_case_def)
  have "examine_call (call_of j l fe args) st1 =
        Some (emit_error (CurrentFile st2) (Some f) l ''Unverified return value for function'' st2)"
    using examine_call_direct [OF assms(1), of st1 j s l args] keeps kind assms(2) out_args_none [OF assms(4)]
    by (simp add: st2_def)
  also have "\<dots> = ok (put_out (error_line F f l @ [c_lf]) st2)"
    using assms(6) keeps(5) by (simp add: emit_error_def Let_def error_line_def store_def)
  finally have "examine_expression (call_of j l fe args) (st\<lparr>e_prt_stmt := (e_prt_stmt st)(j := Some s)\<rparr>) =
      ok (Some R_CALL, put_out (error_line F f l @ [c_lf]) st2)"
    using examine_direct_call [OF assms(3), of l fe args s] by (simp add: st1_def)
  then have "examine_stmt_expression s st = ok (True, put_out (error_line F f l @ [c_lf]) st2)"
    by (simp add: examine_stmt_expression_def stmt_wrapper_def examine_parts_def s_def set_e_stmt_if_def set_e_stmt_def)
  then show ?thesis using keeps(4) by (simp add: s_def put_out_def)
qed

text \<open>A state with a black list and the current file, and the name of a called function.\<close>

definition call_state :: "string list \<Rightarrow> fe_state" where
  "call_state names = (fe_start [])\<lparr>CurrentFile := Some ''a.c'',
     fe_black := (bl_init [])\<lparr>BlackList := Some (map Some names), BlackListCount := length names\<rparr>\<rparr>"

definition fn_name :: "string \<Rightarrow> expr" where
  "fn_name f = Expr 8 4 (Ptr f) (EXPR_SYMBOL (Some f))"

theorem unused_result_reported_witness:
  "\<exists>st'. examine_stmt_expression (Stmt 1 4 (STMT_EXPRESSION (Some (call_of 2 4 (fn_name ''malloc'') [])))) (call_state [''malloc'']) =
           ok (True, st') \<and>
         fe_out st' = ''Unverified return value for function in file '' @ [c_quote] @ ''a.c'' @ [c_quote] @
           '' for function call '' @ [c_quote] @ ''malloc'' @ [c_quote] @ '' at line '' @ [c_quote] @ ''4'' @ [c_quote, c_lf]"
proof -
  have "error_line ''a.c'' ''malloc'' 4 = ''Unverified return value for function in file '' @ [c_quote] @ ''a.c'' @ [c_quote] @
           '' for function call '' @ [c_quote] @ ''malloc'' @ [c_quote] @ '' at line '' @ [c_quote] @ ''4'' @ [c_quote]" by code_simp
  moreover have "is_black_listed (Some ''malloc'') (fe_black (call_state [''malloc''])) = Inr True" by code_simp
  ultimately show ?thesis
    using unused_result_reported [of "fn_name ''malloc''" "''malloc''" "call_state [''malloc'']" 2 "[]" "''a.c''" 4 1 4]
    by (simp add: fn_name_def call_state_def fe_start_def fresh_expr_def)
qed

text \<open>
  C28: a call whose result is the condition of an \<open>if\<close> or a \<open>switch\<close>, or is returned, is not reported, whatever its
  arguments are: nothing is printed for it.
\<close>

theorem checked_result_not_reported:
  assumes "e_name fe = Ptr f" and "is_black_listed (Some f) (fe_black st) = Inr True" and "fresh_expr j st"
    and "b = STMT_IF (Some (call_of j l fe args)) x y \<or> b = STMT_SWITCH (Some (call_of j l fe args)) x \<or>
         b = STMT_RETURN (Some (call_of j l fe args))"
  shows "\<exists>st'. examine_stmt_expression (Stmt i k b) st = ok (True, st') \<and> fe_out st' = fe_out st"
proof -
  define s where "s = Stmt i k b"
  define st1 where "st1 = mark_visited j (st\<lparr>e_prt_stmt := (e_prt_stmt st)(j := Some s)\<rparr>)"
  have keeps: "e_prt_expr st1 j = None" "e_prt_stmt st1 j = Some s" "fe_black st1 = fe_black st" "fe_out st1 = fe_out st"
    using assms(3) by (simp_all add: st1_def mark_visited_keeps fresh_expr_def)
  have kind: "\<not> is_declaration s" "is_decision s"
    using assms(4) by (auto simp: s_def is_declaration_def is_decision_def)
  have "examine_call (call_of j l fe args) st1 = ok (st1\<lparr>AnalyzedFunction := Some f\<rparr>)"
    using examine_call_direct [OF assms(1), of st1 j s l args] keeps kind assms(2) by simp
  then have "examine_expression (call_of j l fe args) (st\<lparr>e_prt_stmt := (e_prt_stmt st)(j := Some s)\<rparr>) =
      ok (Some R_CALL, st1\<lparr>AnalyzedFunction := Some f\<rparr>)"
    using examine_direct_call [OF assms(3), of l fe args s] by (simp add: st1_def)
  then have "examine_stmt_expression s st = ok (True, st1\<lparr>AnalyzedFunction := Some f\<rparr>)"
    using assms(4)
    by (auto simp: examine_stmt_expression_def stmt_wrapper_def examine_parts_def s_def set_e_stmt_deref_def set_e_stmt_def)
  then show ?thesis using keeps(4) by (simp add: s_def)
qed

theorem checked_result_not_reported_witness:
  "\<exists>st'. examine_stmt_expression (Stmt 1 4 (STMT_RETURN (Some (call_of 2 4 (fn_name ''fork'') [])))) (call_state [''fork'']) =
           ok (True, st') \<and> fe_out st' = fe_out (call_state [''fork''])"
proof (rule checked_result_not_reported)
  show "e_name (fn_name ''fork'') = Ptr ''fork''" by (simp add: fn_name_def)
  show "is_black_listed (Some ''fork'') (fe_black (call_state [''fork''])) = Inr True" by code_simp
  show "fresh_expr 2 (call_state [''fork''])" by (simp add: fresh_expr_def call_state_def fe_start_def)
qed blast

section \<open>Assignments to elements\<close>

text \<open>\<open>a[i] = ...\<close> as the parser builds it: an assignment to \<open>*(a + i)\<close>.\<close>

definition element :: "string \<Rightarrow> expr option \<Rightarrow> expr" where
  "element a idx =
     Expr 20 4 Uninit (EXPR_PREOP OP_STAR (Some (Expr 21 4 Uninit (EXPR_BINOP (Some (Expr 22 4 (Ptr a) (EXPR_SYMBOL (Some a)))) idx))))"

text \<open>
  An assignment to an element of an array makes the first pass write one byte behind the buffer for the
  name of the element, whatever the array, the index and the value are.
\<close>

theorem element_name_overflows:
  assumes "\<not> visited1 st j" and "fe_mallocs st = []"
  shows "examine_expression (Expr j l nm (EXPR_ASSIGNMENT (Some (element a idx)) y)) st = Some (Inl Out_Of_Bounds)"
  using assms
  by (simp add: examine_expression.simps [of j] get_assignment_var_def element_def mark_visited_def fe_malloc_def malloc_ok_def
      store_def OP_STAR_def split: prod.splits)

theorem element_name_overflows_witness:
  "examine_expression (Expr 1 4 Uninit (EXPR_ASSIGNMENT (Some (element ''v'' (a_value 5))) (a_value 6))) (fe_start []) =
   Some (Inl Out_Of_Bounds)"
  by (rule element_name_overflows) (simp_all add: fe_start_def)

section \<open>The program\<close>

text \<open>A command line that asks for the length and the depth of functions.\<close>

definition measure_argv :: "string \<Rightarrow> string \<Rightarrow> string \<Rightarrow> string list \<Rightarrow> string list" where
  "measure_argv prog a b names = prog # ''-l'' # a # ''-i'' # b # names"

definition plain_arg :: "string \<Rightarrow> bool" where
  "plain_arg w \<longleftrightarrow> w = [] \<or> hd w \<noteq> CHR ''-''"

lemma getopt_plain: "\<forall>w\<in>set ws. plain_arg w \<Longrightarrow> getopt_all ws = ([], [], ws)"
  by (induction ws) (auto simp: plain_arg_def)

lemma getopt_measure:
  assumes "\<forall>w\<in>set names. plain_arg w"
  shows "getopt_all (tl (measure_argv prog a b names)) =
         ([Opt CHR ''l'' (Some a), Opt CHR ''i'' (Some b)], [''-l'', a, ''-i'', b], names)"
  using getopt_plain [OF assms] by (simp add: measure_argv_def)

lemma fe_malloc_Nil: "fe_mallocs st = [] \<Longrightarrow> fe_malloc st = (True, st)"
  by (simp add: fe_malloc_def malloc_ok_def)

lemma copy_args_all: "fe_mallocs st = [] \<Longrightarrow> copy_args as st = (map Some as, st)"
  by (induction as) (simp_all add: fe_malloc_Nil)

lemma until_null_all: "until_null fresh 1 (map Some as) = (if fresh then Inr as else Inl Uninit_Read)"
  by (induction as) auto

text \<open>Options and their values in front, so that the count of words is right.\<close>

lemma new_args_options:
  assumes "fe_mallocs st = []"
  shows "new_args fresh (prog # ow @ names) (int (Suc (length ow))) st = (if fresh then Inr (names, st) else Inl Uninit_Read)"
proof -
  have "nat (int (length names) + 2) - Suc (length names) = 1" by simp
  moreover have "nat (1 + int (length ow)) = Suc (length ow)" by simp
  ultimately show ?thesis
    using copy_args_all [OF assms, of names] until_null_all [of fresh names] fe_malloc_Nil [OF assms]
    by (simp add: new_args_def Let_def)
qed

text \<open>The state in which the passes start.\<close>

definition started :: "string \<Rightarrow> string \<Rightarrow> string list \<Rightarrow> fe_state" where
  "started a b ls = (fe_start [])\<lparr>MaxLineCount := atoi a, MaxIndentLevel := atoi b,
     fe_black := (bl_init [])\<lparr>BlackList := Some (map Some ls), bl_bytes := 100, BlackListCount := length ls\<rparr>\<rparr>"

lemma analyzer_main_options:
  assumes "getopt_all (ow @ names) = (os, ow, names)" and "ow \<noteq> []"
    and "take_options prog os 0 1 (fe_start []) = (Some (flags, int (Suc (length ow))), (fe_start [])\<lparr>MaxLineCount := atoi a, MaxIndentLevel := atoi b\<rparr>)"
    and "black_list_text env = Some (lines_text ls)" and "\<forall>l\<in>set ls. line_ok l"
  shows "analyzer_main env fresh (prog # ow @ names) [] =
         (if length ls > 12 then Some (Inl Out_Of_Bounds) else if \<not> fresh then Some (Inl Uninit_Read)
          else obind (run_passes env names flags (started a b ls)) (\<lambda>st. ok (0, st)))"
proof -
  define bl where "bl = (bl_init [])\<lparr>BlackList := Some (map Some ls), bl_bytes := 100, BlackListCount := length ls\<rparr>"
  have black: "set_black_list (black_list_text env) (bl_init []) = (if length ls \<le> 12 then Inr (0, bl) else Inl Out_Of_Bounds)"
    using set_black_list_text [OF assms(5)] assms(4) by (simp add: bl_def)
  have st: "fe_mallocs (started a b ls) = []" "bl_mallocs bl = []" "bl_perror bl = []"
    "started a b ls = (fe_start [])\<lparr>MaxLineCount := atoi a, MaxIndentLevel := atoi b, fe_black := bl, fe_mallocs := [], fe_perror := []\<rparr>"
    by (simp_all add: started_def fe_start_def bl_def bl_init_def)
  have argv: "\<not> length (prog # ow @ names) < 2" using assms(2) by (cases ow) simp_all
  have mallocs: "fe_mallocs ((fe_start [])\<lparr>MaxLineCount := atoi a, MaxIndentLevel := atoi b\<rparr>) = []"
    "fe_perror ((fe_start [])\<lparr>MaxLineCount := atoi a, MaxIndentLevel := atoi b\<rparr>) = []" by (simp_all add: fe_start_def)
  show ?thesis
    unfolding analyzer_main_def Let_def list.sel list.case assms(1) prod.case assms(3) option.case mallocs black
    using argv new_args_options [OF st(1), of fresh prog ow names] st(2,3) assms(2) by (simp add: st(4) [symmetric])
qed

lemma analyzer_main_measure:
  assumes "\<forall>w\<in>set names. plain_arg w" and "black_list_text env = Some (lines_text ls)" and "\<forall>l\<in>set ls. line_ok l"
  shows "analyzer_main env fresh (measure_argv prog a b names) [] =
         (if length ls > 12 then Some (Inl Out_Of_Bounds) else if \<not> fresh then Some (Inl Uninit_Read)
          else obind (run_passes env names measure_flags (started a b ls)) (\<lambda>st. ok (0, st)))"
  using analyzer_main_options [of "[''-l'', a, ''-i'', b]" names "[Opt CHR ''l'' (Some a), Opt CHR ''i'' (Some b)]" prog measure_flags b a env ls fresh]
    getopt_measure [OF assms(1), of prog a b] assms(2,3)
  by (simp add: measure_argv_def measure_flags_def)

text \<open>
  C5: from the command line to the reports of the driver: asked for functions of at least \<open>a\<close> lines or depth \<open>b\<close>, the
  front end ends with status 0, and what it has printed is read by the sparse module as the depth and the
  length of every function that reaches its limit, in the order of the files and functions. The memory
  behind the arguments happens to be zero, and the black list has at most twelve lines.
\<close>

theorem front_end_measures_reach_driver:
  assumes "\<forall>f\<in>set fs. file_ok env n f \<and> names_ok f \<and> plain_arg (fst f)" and "length fs \<le> FILE_SLOTS"
    and "sparse_initialize env (map fst fs) = map fst fs"
    and "black_list_text env = Some (lines_text ls)" and "\<forall>l\<in>set ls. line_ok l" and "length ls \<le> 12"
    and "\<not> isset ERR_UNVERIFIED_FUNCTION es" and "spa_style es"
  shows "\<exists>st'. analyzer_main env True (measure_argv prog a b (map fst fs)) [] = ok (0, st') \<and>
               spa_parse_output_file (fopen_text (fe_out st')) es (int (length fs)) =
               add_all (concat (map (file_reports es measure_flags (atoi b) (atoi a)) fs)) []"
proof -
  have "\<forall>f\<in>set fs. file_ok env n f \<and> names_ok f" using assms(1) by blast
  then obtain st' where "run_passes env (map fst fs) measure_flags (started a b ls) = ok st'"
    "spa_parse_output_file (fopen_text (fe_out st')) es (int (length fs)) =
     add_all (concat (map (file_reports es measure_flags (MaxIndentLevel (started a b ls)) (MaxLineCount (started a b ls))) fs)) []"
    using style_pass_read_by_module [of fs env n measure_flags "map fst fs" "started a b ls" es] assms(2,3,7,8) style_env_facts(2-4)
    by (auto simp: started_def fe_start_def)
  moreover have "\<forall>w\<in>set (map fst fs). plain_arg w" using assms(1) by auto
  ultimately show ?thesis
    using analyzer_main_measure [OF _ assms(4,5), of "map fst fs" True prog a b] assms(6) by (simp add: started_def fe_start_def)
qed

definition style_errset :: rbc_errset_t where
  "style_errset = \<lparr>bit_set = [or (push_bit (err_code ERR_FUNCTION_LINE) 1) (push_bit (err_code ERR_FUNCTION_INDENTATION) 1)]\<rparr>"

definition listed_env :: "string list \<Rightarrow> sparse_env" where
  "listed_env ls = style_env\<lparr>black_list_text := Some (lines_text ls)\<rparr>"

lemma listed_env_ok:
  "file_ok (listed_env ls) 6 (name, [two_levels])" "sparse_initialize (listed_env ls) = (\<lambda>as. as)"
  "black_list_text (listed_env ls) = Some (lines_text ls)"
  using style_env_facts(1) [of name] by (simp_all add: file_ok_def listed_env_def style_env_def)

theorem front_end_measures_reach_driver_witness:
  "\<exists>st'. analyzer_main (listed_env [''malloc'']) True (measure_argv ''static_analyzer'' ''5'' ''2'' (map fst [(''a.c'', [two_levels])])) [] =
           ok (0, st') \<and>
         spa_parse_output_file (fopen_text (fe_out st')) style_errset (int (length [(''a.c'', [two_levels])])) =
         add_all [new_report ERR_FUNCTION_INDENTATION (style_message ''a.c'' ''main'' (depth_line 2)),
                  new_report ERR_FUNCTION_LINE (style_message ''a.c'' ''main'' (length_line 5))] []"
proof -
  have "file_reports style_errset measure_flags (atoi ''2'') (atoi ''5'') (''a.c'', [two_levels]) =
    [new_report ERR_FUNCTION_INDENTATION (style_message ''a.c'' ''main'' (depth_line 2)),
     new_report ERR_FUNCTION_LINE (style_message ''a.c'' ''main'' (length_line 5))]" by code_simp
  moreover have "names_ok (''a.c'', [two_levels])" by code_simp
  moreover have "\<not> isset ERR_UNVERIFIED_FUNCTION style_errset" "spa_style style_errset" by code_simp+
  moreover have "line_ok ''malloc''" "plain_arg ''a.c''" by code_simp+
  ultimately show ?thesis
    using front_end_measures_reach_driver [of "[(''a.c'', [two_levels])]" "listed_env [''malloc'']" 6 "[''malloc'']"
        style_errset "''static_analyzer''" "''5''" "''2''"] listed_env_ok [of "[''malloc'']"]
    by (simp add: FILE_SLOTS_def del: lines_text_simps)
qed

text \<open>
  C39: with more than twelve lines in its black list the front end writes behind the array of the list, which
  is allocated in bytes and not in pointers: it does so with the list that comes with it.
\<close>

theorem long_black_list_overflows:
  assumes "\<forall>w\<in>set names. plain_arg w" and "black_list_text env = Some (lines_text ls)" and "\<forall>l\<in>set ls. line_ok l"
    and "length ls > 12"
  shows "analyzer_main env fresh (measure_argv prog a b names) [] = Some (Inl Out_Of_Bounds)"
  using analyzer_main_measure [OF assms(1-3)] assms(4) by simp

definition shipped_black_list :: "string list" where
  "shipped_black_list =
     [''malloc'', ''calloc'', ''realloc'', ''open'', ''fopen'', ''read'', ''fread'', ''write'', ''fwrite'', ''fork'', ''mmap'',
      ''getenv'', ''setenv'']"

theorem long_black_list_overflows_witness:
  "analyzer_main (listed_env shipped_black_list) True (measure_argv ''static_analyzer'' ''5'' ''2'' [''a.c'']) [] =
   Some (Inl Out_Of_Bounds)"
proof (rule long_black_list_overflows)
  show "black_list_text (listed_env shipped_black_list) = Some (lines_text shipped_black_list)" by (rule listed_env_ok)
  show "\<forall>w\<in>set [''a.c'']. plain_arg w" "\<forall>l\<in>set shipped_black_list. line_ok l" "12 < length shipped_black_list" by code_simp+
qed

text \<open>
  The arguments for the parser are not terminated by a NULL pointer: unless the memory behind them
  happens to be zero, the parser reads an uninitialised pointer.
\<close>

theorem arguments_not_terminated:
  assumes "\<forall>w\<in>set names. plain_arg w" and "black_list_text env = Some (lines_text ls)" and "\<forall>l\<in>set ls. line_ok l"
    and "length ls \<le> 12"
  shows "analyzer_main env False (measure_argv prog a b names) [] = Some (Inl Uninit_Read)"
  using analyzer_main_measure [OF assms(1-3)] assms(4) by simp

theorem arguments_not_terminated_witness:
  "analyzer_main (listed_env [''malloc'']) False (measure_argv ''static_analyzer'' ''5'' ''2'' [''a.c'']) [] = Some (Inl Uninit_Read)"
proof (rule arguments_not_terminated)
  show "black_list_text (listed_env [''malloc'']) = Some (lines_text [''malloc''])" by (rule listed_env_ok)
  show "\<forall>w\<in>set [''a.c'']. plain_arg w" "\<forall>l\<in>set [''malloc'']. line_ok l" "length [''malloc''] \<le> 12" by code_simp+
qed

end
