(* ===== verification/Analyzer_Uses.thy ===== *)
theory Analyzer_Uses
  imports Analyzer_Props
begin

text \<open>
  Assignments of a black-listed call in the first pass of the front end: a reference for the uses of a variable in
  later statements, the places of a statement that the code looks at, and the proof that the call is reported exactly if
  there is no use, as long as none is in one of the other places.
\<close>

section \<open>Uses of a variable\<close>

text \<open>The name at the root of an expression.\<close>

fun root :: "expr option \<Rightarrow> string option" where
  "root None = None"
| "root (Some (Expr i l n b)) =
     (case b of
        EXPR_SYMBOL name \<Rightarrow> name | EXPR_CALL f args \<Rightarrow> root f | EXPR_ASSIGNMENT x y \<Rightarrow> root x | EXPR_CAST k x \<Rightarrow> root x
      | EXPR_SLICE x \<Rightarrow> root x | EXPR_PREOP p x \<Rightarrow> if p = OP_STAR then root x else None | _ \<Rightarrow> None)"

text \<open>
  An expression that names a variable. For the kinds of expressions whose operands the trees do not keep or that hold
  statements the answer is that they may name any.
\<close>

fun names :: "string \<Rightarrow> expr option \<Rightarrow> bool" and names_args :: "string \<Rightarrow> expr list \<Rightarrow> bool" where
  "names v None = False"
| "names v (Some (Expr i l n b)) =
     (case b of
        EXPR_VALUE \<Rightarrow> False | EXPR_FVALUE \<Rightarrow> False | EXPR_STRING \<Rightarrow> False | EXPR_LABEL \<Rightarrow> False | EXPR_SYMBOL name \<Rightarrow> name = Some v
      | EXPR_CALL f args \<Rightarrow> names v f \<or> names_args v args | EXPR_ASSIGNMENT x y \<Rightarrow> names v x \<or> names v y
      | EXPR_COMMA x y \<Rightarrow> names v x \<or> names v y | EXPR_BINOP x y \<Rightarrow> names v x \<or> names v y
      | EXPR_COMPARE x y \<Rightarrow> names v x \<or> names v y | EXPR_LOGICAL x y \<Rightarrow> names v x \<or> names v y | EXPR_PREOP p x \<Rightarrow> names v x
      | EXPR_CAST k x \<Rightarrow> names v x | EXPR_CONDITIONAL sel c t f \<Rightarrow> names v c \<or> names v t \<or> names v f | EXPR_SLICE x \<Rightarrow> names v x
      | EXPR_POSTOP \<Rightarrow> True | EXPR_INITIALIZER \<Rightarrow> True | EXPR_STATEMENT s \<Rightarrow> True | EXPR_OTHER \<Rightarrow> True)"
| "names_args v [] = False"
| "names_args v (a # as) \<longleftrightarrow> names v (Some a) \<or> names_args v as"

text \<open>A statement that names a variable anywhere.\<close>

fun uses :: "string \<Rightarrow> stmt option \<Rightarrow> bool" and uses_list :: "string \<Rightarrow> stmt list \<Rightarrow> bool" where
  "uses v None = False"
| "uses v (Some (Stmt i l b)) =
     (case b of
        STMT_NONE \<Rightarrow> False | STMT_DECLARATION syms \<Rightarrow> list_ex (\<lambda>y. names v (initializer y)) syms | STMT_EXPRESSION e \<Rightarrow> names v e
      | STMT_COMPOUND ss \<Rightarrow> uses_list v ss | STMT_IF c t f \<Rightarrow> names v c \<or> uses v t \<or> uses v f | STMT_RETURN e \<Rightarrow> names v e
      | STMT_CASE e to s \<Rightarrow> names v e \<or> names v to \<or> uses v s | STMT_SWITCH e s \<Rightarrow> names v e \<or> uses v s
      | STMT_ITERATOR pc qc p s q \<Rightarrow> names v pc \<or> names v qc \<or> uses v p \<or> uses v s \<or> uses v q
      | STMT_LABEL s \<Rightarrow> uses v s | STMT_GOTO e \<Rightarrow> names v e | STMT_ASM \<Rightarrow> True | STMT_CONTEXT e \<Rightarrow> names v e
      | STMT_RANGE e lo hi \<Rightarrow> names v e \<or> names v lo \<or> names v hi)"
| "uses_list v [] = False"
| "uses_list v (s # ss) \<longleftrightarrow> uses v (Some s) \<or> uses_list v ss"


fun seen :: "string \<Rightarrow> stmt option \<Rightarrow> bool" and seen_list :: "string \<Rightarrow> stmt list \<Rightarrow> bool" where
  "seen v None = False"
| "seen v (Some (Stmt i l b)) =
     (case b of
        STMT_IF c t f \<Rightarrow> names v c \<or> seen v t \<or> seen v f | STMT_SWITCH e s \<Rightarrow> names v e \<or> seen v s
      | STMT_RETURN e \<Rightarrow> names v e | STMT_EXPRESSION e \<Rightarrow> names v e | STMT_CASE e to s \<Rightarrow> seen v s
      | STMT_COMPOUND ss \<Rightarrow> seen_list v ss | STMT_ITERATOR pc qc p s q \<Rightarrow> seen v p \<or> seen v s \<or> seen v q
      | STMT_LABEL s \<Rightarrow> seen v s | _ \<Rightarrow> False)"
| "seen_list v [] = False"
| "seen_list v (s # ss) \<longleftrightarrow> seen v (Some s) \<or> seen_list v ss"

text \<open>
  A name, through dereferences, casts and slices, and expressions in which callees and left sides are such, without an
  access to an array, for whose name the buffer is too small, without a conditional, for which something is printed, and
  without the kinds that may name any variable.
\<close>

fun is_path :: "expr option \<Rightarrow> bool" where
  "is_path None = False"
| "is_path (Some (Expr i l n b)) =
     (case b of EXPR_SYMBOL name \<Rightarrow> True | EXPR_CAST k x \<Rightarrow> is_path x | EXPR_SLICE x \<Rightarrow> is_path x
      | EXPR_PREOP p x \<Rightarrow> p = OP_STAR \<and> is_path x | _ \<Rightarrow> False)"

fun plain :: "expr option \<Rightarrow> bool" and plain_args :: "expr list \<Rightarrow> bool" where
  "plain None = True"
| "plain (Some (Expr i l n b)) =
     (case b of
        EXPR_CALL f args \<Rightarrow> is_path f \<and> plain f \<and> plain_args args | EXPR_ASSIGNMENT x y \<Rightarrow> is_path x \<and> plain x \<and> plain y
      | EXPR_COMPARE x y \<Rightarrow> plain x \<and> plain y | EXPR_LOGICAL x y \<Rightarrow> plain x \<and> plain y
      | EXPR_COMMA x y \<Rightarrow> plain x \<and> plain y | EXPR_PREOP p x \<Rightarrow> plain x | EXPR_CAST k x \<Rightarrow> plain x
      | EXPR_SLICE x \<Rightarrow> is_path x \<and> plain x | EXPR_BINOP x y \<Rightarrow> False | EXPR_CONDITIONAL sel c t f \<Rightarrow> False | EXPR_POSTOP \<Rightarrow> False
      | EXPR_INITIALIZER \<Rightarrow> False | EXPR_STATEMENT s \<Rightarrow> False | EXPR_OTHER \<Rightarrow> False | _ \<Rightarrow> True)"
| "plain_args [] = True"
| "plain_args (a # as) \<longleftrightarrow> plain (Some a) \<and> plain_args as"

fun plain_stmt :: "stmt option \<Rightarrow> bool" and plain_list :: "stmt list \<Rightarrow> bool" where
  "plain_stmt None = True"
| "plain_stmt (Some (Stmt i l b)) =
     (case b of
        STMT_IF c t f \<Rightarrow> plain c \<and> plain_stmt t \<and> plain_stmt f | STMT_SWITCH e s \<Rightarrow> plain e \<and> plain_stmt s
      | STMT_RETURN e \<Rightarrow> plain e | STMT_EXPRESSION e \<Rightarrow> plain e | STMT_CASE e to s \<Rightarrow> plain_stmt s
      | STMT_COMPOUND ss \<Rightarrow> plain_list ss | STMT_ITERATOR pc qc p s q \<Rightarrow> plain_stmt p \<and> plain_stmt s \<and> plain_stmt q
      | STMT_LABEL s \<Rightarrow> plain_stmt s
      | STMT_NONE \<Rightarrow> False | STMT_ASM \<Rightarrow> False | STMT_CONTEXT e \<Rightarrow> False | STMT_RANGE e lo hi \<Rightarrow> False | _ \<Rightarrow> True)"
| "plain_list [] = True"
| "plain_list (s # ss) \<longleftrightarrow> plain_stmt (Some s) \<and> plain_list ss"


lemma path_names: "is_path e \<Longrightarrow> names v e \<longleftrightarrow> root e = Some v"
proof (induction e rule: is_path.induct)
  case (2 i l n b)
  then show ?case by (cases b) auto
qed simp

lemma root_names: "root e = Some v \<Longrightarrow> names v e"
proof (induction e rule: root.induct)
  case (2 i l n b)
  then show ?case by (cases b) (auto split: if_splits)
qed simp


section \<open>The code looks for these uses\<close>

lemma build_symbol_root: "plain e \<Longrightarrow> build_symbol e st = Inr (root e, st)"
proof (induction e arbitrary: st rule: root.induct)
  case (2 i l n b)
  then show ?case by (cases b) auto
qed simp

lemma lookup_names:
  "plain e \<Longrightarrow> AssignmentVariable st = Some v \<Longrightarrow> lookup_expression e st = Inr (names v e, st)"
  "plain_args as \<Longrightarrow> AssignmentVariable st = Some v \<Longrightarrow> lookup_args as st = Inr (names_args v as, st)"
proof (induction e and as rule: plain_plain_args.induct)
  case (2 i l n b)
  note r = build_symbol_root [OF "2.prems"(1), of st]
  show ?case
  proof (cases "root (Some (Expr i l n b)) = Some v")
    case True
    then show ?thesis using r "2.prems"(2) root_names [OF True] by (simp del: build_symbol.simps root.simps names.simps)
  next
    case False
    then have "lookup_expression (Some (Expr i l n b)) st =
      (case b of
         EXPR_CALL f args \<Rightarrow> lookup_args args st
       | EXPR_ASSIGNMENT x y \<Rightarrow> lookup_expression y st
       | EXPR_COMPARE x y \<Rightarrow> rbind (lookup_expression x st) (\<lambda>(v, st2). if v then Inr (True, st2) else lookup_expression y st2)
       | EXPR_LOGICAL x y \<Rightarrow> rbind (lookup_expression x st) (\<lambda>(v, st2). if v then Inr (True, st2) else lookup_expression y st2)
       | EXPR_COMMA x y \<Rightarrow> rbind (lookup_expression x st) (\<lambda>(v, st2). if v then Inr (True, st2) else lookup_expression y st2)
       | EXPR_PREOP p x \<Rightarrow> lookup_expression x st
       | EXPR_CAST k x \<Rightarrow> lookup_expression x st
       | _ \<Rightarrow> Inr (False, st))"
      using r "2.prems" by (cases b) (auto simp del: build_symbol.simps)
    then show ?thesis using "2.IH" "2.prems" False path_names [of _ v] by (cases b) auto
  qed
qed auto

lemma lookup_var_wrapper:
  assumes "plain_stmt (Some s)" and "AssignmentVariable st = Some v"
  shows "lookup_var s st =
         ok (\<not> (case s_body s of STMT_IF c t f \<Rightarrow> names v c | STMT_SWITCH e b \<Rightarrow> names v e | STMT_RETURN e \<Rightarrow> names v e
                | STMT_EXPRESSION e \<Rightarrow> names v e | _ \<Rightarrow> False), st)"
proof (cases s)
  case (Stmt i l b)
  then show ?thesis using assms lookup_names(1) [of _ st v] by (cases b) (auto simp: lookup_var_def)
qed

lemma examine_lookup:
  "plain_stmt s \<Longrightarrow> AssignmentVariable st = Some v \<Longrightarrow>
   examine_statement lookup_var False s st = ok (if seen v s then 0 else 1, st)"
  "plain_list ss \<Longrightarrow> AssignmentVariable st = Some v \<Longrightarrow>
   examine_statements lookup_var False p ss r st = ok (if seen_list v ss then 0 else r, st)"
proof (induction s and ss arbitrary: and p r rule: plain_stmt_plain_list.induct)
  case (2 i l b)
  note w = lookup_var_wrapper [OF "2.prems"]
  show ?case using w "2.IH" "2.prems" by (cases b) (auto simp: Let_def)
qed auto

lemma usages_in_seen:
  assumes "\<forall>s\<in>set ss. l < s_line s \<longrightarrow> plain_stmt (Some s)" and "AssignmentVariable st = Some v"
  shows "usages_in l ss r st = ok (r \<and> \<not> (\<exists>s\<in>set ss. l < s_line s \<and> seen v (Some s)), st)"
  using assms(1)
proof (induction ss arbitrary: r)
  case (Cons s ss)
  then show ?case using examine_lookup(1) [of "Some s" st v] assms(2) by auto
qed simp

section \<open>Assignments\<close>

text \<open>\<open>v = f(...)\<close> as a statement of the body of a function.\<close>

definition assign_of :: "nat \<Rightarrow> int \<Rightarrow> expr \<Rightarrow> expr \<Rightarrow> expr" where
  "assign_of j l x y = Expr j l Uninit (EXPR_ASSIGNMENT (Some x) (Some y))"

lemma assign_of_simps [simp]:
  "e_id (assign_of j l x y) = j" "e_line (assign_of j l x y) = l" "is_assignment (assign_of j l x y)"
  by (simp_all add: assign_of_def is_assignment_def)

definition assign_line :: "string \<Rightarrow> string \<Rightarrow> int \<Rightarrow> string" where
  "assign_line F f l =
     ''Unverified return value of function call'' @ '' in file '' @ [c_quote] @ F @ [c_quote] @ '' for function call '' @ [c_quote] @ f @
     [c_quote] @ '' at line '' @ [c_quote] @ fmt_d l @ [c_quote]"

text \<open>The call under an assignment is left to the assignment.\<close>

lemma examine_call_assigned:
  assumes "e_name fe = Ptr f" and "is_black_listed (Some f) (fe_black st) = Inr True"
    and "e_prt_stmt st jc = None" and "e_prt_expr st jc = Some (assign_of j l x y)" and "e_prt_stmt st j = Some s"
    and "\<not> is_declaration s"
  shows "examine_call (call_of jc lc fe args) st = ok (st\<lparr>AnalyzedFunction := Some f\<rparr>)"
proof -
  let ?call = "call_of jc lc fe args"
  have "get_expression_statement (assign_of j l x y) (st\<lparr>AnalyzedFunction := None\<rparr>) = Some (Some s)"
    using assms(5) by (subst get_expression_statement.simps) simp
  then have "get_expression_statement ?call (st\<lparr>AnalyzedFunction := None\<rparr>) = Some (Some s)"
    using assms(3,4) by (subst get_expression_statement.simps) simp
  moreover have "get_last_expression ?call (st\<lparr>AnalyzedFunction := Some f\<rparr>) = Some None"
    using assms(4) by (subst get_last_expression.simps) simp
  moreover have "get_caller ?call = Inr (Some f)" using assms(1) by (simp add: get_caller_def)
  ultimately show ?thesis using assms
    by (simp add: examine_call_def is_declaration_call_def handle_call_simple_def cong: if_cong)
qed

text \<open>The search for uses, from a statement of the body of a function.\<close>

lemma check_start_statement_seen:
  assumes "prt_stmt st i = Some (Stmt bi bl (STMT_COMPOUND ss))" and "prt_stmt st bi = None" and "\<forall>s\<in>set ss. l < s_line s \<longrightarrow> plain_stmt (Some s)"
    and "AssignmentVariable st = Some v"
  shows "check_start_statement (Stmt i k (STMT_EXPRESSION e)) (assign_of j l x y) st =
         ok (\<not> (\<exists>s\<in>set ss. l < s_line s \<and> seen v (Some s)), st)"
proof -
  let ?body = "Stmt bi bl (STMT_COMPOUND ss)"
  have "get_next_statement (Some ?body) st = Some (Some ?body, st)" by (subst get_next_statement.simps) simp
  then have n: "get_next_statement (Some (Stmt i k (STMT_EXPRESSION e))) st = Some (Some ?body, st)"
    using assms(1) by (subst get_next_statement.simps) simp
  have up: "get_next_statement None st = Some (None, st)" "usages_loop l None st = ok (True, st)"
    by (subst get_next_statement.simps, simp) (subst usages_loop.simps, simp)
  have "usages_loop l (Some ?body) st = ok (\<not> (\<exists>s\<in>set ss. l < s_line s \<and> seen v (Some s)), st)"
    using usages_in_seen [OF assms(3,4), of True] assms(2) up by (subst usages_loop.simps) simp
  then show ?thesis
    using n by (simp add: check_start_statement_def find_usages_def is_decision_def is_iterator_def)
qed

lemma after_assignment_seen:
  assumes "is_black_listed (Some f) (fe_black st) = Inr True" and "AnalyzedFunction st = Some f" and "CurrentFile st = Some F"
    and "e_prt_stmt st j = Some (Stmt i k (STMT_EXPRESSION e))" and "prt_stmt st i = Some (Stmt bi bl (STMT_COMPOUND ss))"
    and "prt_stmt st bi = None" and "\<forall>s\<in>set ss. l < s_line s \<longrightarrow> plain_stmt (Some s)" and "AssignmentVariable st = Some v"
    and "\<forall>a\<in>set args. get_out_symbol (Some a) = None" and "length (assign_line F f l) < 256"
  shows "after_assignment (assign_of j l x (call_of jc lc fe args)) (Some R_CALL) st =
         ok (if \<exists>s\<in>set ss. l < s_line s \<and> seen v (Some s) then st else put_out (assign_line F f l @ [c_lf]) st)"
proof -
  let ?a = "assign_of j l x (call_of jc lc fe args)"
  have "get_expression_statement ?a st = Some (Some (Stmt i k (STMT_EXPRESSION e)))"
    using assms(4) by (subst get_expression_statement.simps) simp
  moreover have "get_call_node (Some ?a) = (Some (call_of jc lc fe args), [])" by (simp add: assign_of_def call_of_def)
  moreover have "emit_error (Some F) (Some f) l ''Unverified return value of function call'' st = Inr (put_out (assign_line F f l @ [c_lf]) st)"
    using assms(10) by (simp add: emit_error_def Let_def assign_line_def store_def)
  moreover have "put_out [] st = st" by (simp add: put_out_def)
  ultimately show ?thesis
    using assms(1-3) check_start_statement_seen [OF assms(5-8), of k e j x] out_args_none [OF assms(9), of _ True st]
    by (auto simp: after_assignment_def handle_out_call_params_def cong: if_cong)
qed

text \<open>What is printed depends on what the code sees in the statements of the body on a later line.\<close>

lemma assigned_result_seen:
  assumes "e_name fe = Ptr f" and "is_black_listed (Some f) (fe_black st) = Inr True" and "CurrentFile st = Some F"
    and "plain (Some x)" and "root (Some x) = Some v" and "\<forall>a\<in>set args. get_out_symbol (Some a) = None"
    and "prt_stmt st i = Some (Stmt bi bl (STMT_COMPOUND ss))" and "prt_stmt st bi = None" and "\<forall>s\<in>set ss. l < s_line s \<longrightarrow> plain_stmt (Some s)"
    and "fresh_expr j st" and "fresh_expr jc st" and "e_prt_stmt st jc = None" and "j \<noteq> jc" and "length (assign_line F f l) < 256"
  shows "\<exists>st'. examine_stmt_expression (Stmt i k (STMT_EXPRESSION (Some (assign_of j l x (call_of jc lc fe args))))) st = ok (True, st') \<and>
               fe_out st' = fe_out st @ (if \<exists>s\<in>set ss. l < s_line s \<and> seen v (Some s) then [] else assign_line F f l @ [c_lf])"
proof -
  define call where "call = call_of jc lc fe args"
  define asg where "asg = assign_of j l x call"
  define s where "s = Stmt i k (STMT_EXPRESSION (Some asg))"
  define st1 where "st1 = mark_visited j (st\<lparr>e_prt_stmt := (e_prt_stmt st)(j := Some s)\<rparr>)"
  define st3 where "st3 = st1\<lparr>AssignmentVariable := Some v, e_prt_expr := (e_prt_expr st1)(jc := Some asg)\<rparr>"
  define st5 where "st5 = (mark_visited jc st3)\<lparr>AnalyzedFunction := Some f\<rparr>"
  have keeps: "fe_black st5 = fe_black st" "CurrentFile st5 = Some F" "e_prt_stmt st5 j = Some s" "prt_stmt st5 = prt_stmt st"
    "AssignmentVariable st5 = Some v" "fe_out st5 = fe_out st" "AnalyzedFunction st5 = Some f"
    using assms(3) by (simp_all add: st5_def st3_def st1_def mark_visited_keeps mark_visited_other)
  have "examine_call call (mark_visited jc st3) = ok st5" unfolding st5_def call_def
    by (rule examine_call_assigned [OF assms(1), where j = j and l = l and x = x and y = call and s = s])
       (use assms(2,12,13) in \<open>auto simp: st3_def st1_def mark_visited_keeps asg_def s_def is_declaration_def\<close>)
  moreover have "\<not> visited1 st3 jc" using assms(11,13) by (simp add: st3_def st1_def mark_visited_other fresh_expr_def)
  ultimately have c: "examine_expression call st3 = ok (Some R_CALL, st5)"
    by (simp add: call_def call_of_def examine_expression.simps)
  have a: "after_assignment asg (Some R_CALL) st5 =
      ok (if \<exists>s\<in>set ss. l < s_line s \<and> seen v (Some s) then st5 else put_out (assign_line F f l @ [c_lf]) st5)"
    unfolding asg_def call_def
    by (rule after_assignment_seen) (use keeps assms(2,6-9,14) in \<open>simp_all add: s_def\<close>)
  have "\<not> visited1 st j" using assms(10) by (simp add: fresh_expr_def)
  then have "examine_expression asg (st\<lparr>e_prt_stmt := (e_prt_stmt st)(j := Some s)\<rparr>) =
      obind (examine_expression call st3) (\<lambda>(r, st4). obind (after_assignment asg r st4) (\<lambda>st5. ok (Some R_ASSIGNMENT, st5)))"
    using build_symbol_root [OF assms(4), of st1] assms(5)
    by (simp add: asg_def assign_of_def examine_expression.simps [of j] get_assignment_var_def set_e_expr_deref_def set_e_expr_def st3_def
        st1_def [symmetric] call_def Let_def)
  then have "examine_stmt_expression s st =
      ok (True, if \<exists>s\<in>set ss. l < s_line s \<and> seen v (Some s) then st5 else put_out (assign_line F f l @ [c_lf]) st5)"
    using c a by (simp add: examine_stmt_expression_def stmt_wrapper_def examine_parts_def s_def set_e_stmt_if_def set_e_stmt_def asg_def)
  then show ?thesis using keeps(6) by (auto simp: s_def asg_def call_def put_out_def)
qed


text \<open>The bodies \<open>p = malloc(); if (p) return;\<close> and \<open>p = malloc(); q = malloc();\<close>.\<close>

definition name_of :: "nat \<Rightarrow> int \<Rightarrow> string \<Rightarrow> expr" where
  "name_of j l v = Expr j l (Ptr v) (EXPR_SYMBOL (Some v))"

definition assigned_call :: expr where
  "assigned_call = assign_of 2 4 (name_of 3 4 ''p'') (call_of 4 4 (fn_name ''malloc'') [])"

definition assigns_it :: stmt where
  "assigns_it = Stmt 1 4 (STMT_EXPRESSION (Some assigned_call))"



definition body_state :: "stmt list \<Rightarrow> fe_state" where
  "body_state ss = (call_state [''malloc''])\<lparr>prt_stmt := (prt_stmt (call_state [''malloc'']))(1 := Some (Stmt 9 3 (STMT_COMPOUND ss)))\<rparr>"

lemma body_state_facts:
  "is_black_listed (Some ''malloc'') (fe_black (body_state ss)) = Inr True"
  "CurrentFile (body_state ss) = Some ''a.c''" "prt_stmt (body_state ss) 1 = Some (Stmt 9 3 (STMT_COMPOUND ss))"
  "prt_stmt (body_state ss) 9 = None" "fresh_expr 2 (body_state ss)" "fresh_expr 4 (body_state ss)" "e_prt_stmt (body_state ss) 4 = None"
  subgoal by code_simp
  by (simp_all add: fresh_expr_def body_state_def call_state_def fe_start_def)


text \<open>
  The condition of a loop does not count: with \<open>while (v) s\<close> as the only statement behind the assignment, the call is
  reported although the loop tests the variable, unless the body of the loop names it outside such places.
\<close>

theorem loop_condition_not_seen:
  assumes "e_name fe = Ptr f" and "is_black_listed (Some f) (fe_black st) = Inr True" and "CurrentFile st = Some F"
    and "plain (Some x)" and "root (Some x) = Some v" and "\<forall>a\<in>set args. get_out_symbol (Some a) = None"
    and "asg = assign_of j l x (call_of jc lc fe args)"
    and "loop = Stmt li ll (STMT_ITERATOR (Some c) (Some c) None (Some s) None)" and "names v (Some c)"
    and "prt_stmt st i = Some (Stmt bi bl (STMT_COMPOUND [Stmt i k (STMT_EXPRESSION (Some asg)), loop]))"
    and "prt_stmt st bi = None" and "k = l" and "l < ll" and "plain_stmt (Some s)" and "\<not> seen v (Some s)"
    and "fresh_expr j st" and "fresh_expr jc st" and "e_prt_stmt st jc = None" and "j \<noteq> jc" and "length (assign_line F f l) < 256"
  shows "uses v (Some loop) \<and>
         (\<exists>st'. examine_stmt_expression (Stmt i k (STMT_EXPRESSION (Some asg))) st = ok (True, st') \<and>
                fe_out st' = fe_out st @ assign_line F f l @ [c_lf])"
proof -
  have "\<forall>s\<in>set [Stmt i k (STMT_EXPRESSION (Some asg)), loop]. l < s_line s \<longrightarrow> plain_stmt (Some s)"
    "\<not> (\<exists>s\<in>set [Stmt i k (STMT_EXPRESSION (Some asg)), loop]. l < s_line s \<and> seen v (Some s))"
    using assms(8,12-15) by auto
  then show ?thesis
    using assigned_result_seen [OF assms(1-6,10,11) _ assms(16-20), of k lc] assms(7-9,12,13,15) by simp
qed

definition loops_on_it :: stmt where
  "loops_on_it = Stmt 5 5 (STMT_ITERATOR (Some (name_of 6 5 ''p'')) (Some (name_of 6 5 ''p'')) None (Some (Stmt 7 6 (STMT_COMPOUND []))) None)"

lemma loop_condition_not_seen_witness:
  "uses ''p'' (Some loops_on_it) \<and>
   (\<exists>st'. examine_stmt_expression assigns_it (body_state [assigns_it, loops_on_it]) = ok (True, st') \<and>
          fe_out st' = fe_out (body_state [assigns_it, loops_on_it]) @ assign_line ''a.c'' ''malloc'' 4 @ [c_lf])"
  unfolding assigns_it_def
proof (rule loop_condition_not_seen [OF _ body_state_facts(1,2) _ _ _ assigned_call_def loops_on_it_def _ body_state_facts(3,4)])
  show "e_name (fn_name ''malloc'') = Ptr ''malloc''" by (simp add: fn_name_def)
  show "length (assign_line ''a.c'' ''malloc'' 4) < 256" by code_simp
qed (use body_state_facts in \<open>auto simp: name_of_def\<close>)

end
