(* ===== verification/Dlfcn.thy ===== *)
theory Dlfcn
  imports C_Lib
begin

text \<open>
  src/wrapper/dlfcn.c: \<open>dlopen\<close>, \<open>dlclose\<close>, \<open>dlsym\<close> and \<open>dlerror\<close> on top of the Windows functions, for the driver on
  Windows. The modules opened with \<open>RTLD_GLOBAL\<close> are a doubly linked list in memory, which is an explicit
  heap here: an address has an object, or it is not allocated. Address 0 is the static \<open>first_object\<close>; for a
  module or a symbol 0 is NULL.
\<close>

section \<open>Windows\<close>

text \<open>
  The functions of Windows over a state \<open>'w\<close> of the system. \<open>FormatMessage\<close> gives the message for a code; \<open>fmt_p\<close> is what
  \<open>%p\<close> prints for an address.
\<close>

record 'w winapi =
  LoadLibraryEx :: "string \<Rightarrow> 'w \<Rightarrow> nat \<times> 'w"
  FreeLibrary :: "nat \<Rightarrow> 'w \<Rightarrow> bool \<times> 'w"
  GetProcAddress :: "nat \<Rightarrow> string \<Rightarrow> 'w \<Rightarrow> nat \<times> 'w"
  GetModuleHandle :: "'w \<Rightarrow> nat \<times> 'w"
  CloseHandle :: "nat \<Rightarrow> 'w \<Rightarrow> 'w"
  SetErrorMode :: "nat \<Rightarrow> 'w \<Rightarrow> nat \<times> 'w"
  GetLastError :: "'w \<Rightarrow> nat"
  FormatMessage :: "nat \<Rightarrow> string"
  fmt_p :: "nat \<Rightarrow> string"

section \<open>The global objects\<close>

record global_object =
  hModule :: nat
  previous :: "nat option"
  next_object :: "nat option"

record 'w dl_state =
  dl_heap :: "nat \<Rightarrow> global_object option"
  dl_fresh :: nat
  dl_mallocs :: "bool list"
  error_buffer :: string
  current_error :: bool
  dl_world :: 'w

definition first_object :: nat where "first_object = 0"

definition dl_start :: "bool list \<Rightarrow> 'w \<Rightarrow> 'w dl_state" where
  "dl_start ms w =
     \<lparr>dl_heap = [first_object \<mapsto> \<lparr>hModule = 0, previous = None, next_object = None\<rparr>], dl_fresh = 1, dl_mallocs = ms,
      error_buffer = [], current_error = False, dl_world = w\<rparr>"

text \<open>A member of an object is read or written: the object has to be allocated.\<close>

definition object :: "nat \<Rightarrow> 'w dl_state \<Rightarrow> global_object res" where
  "object p st = (case dl_heap st p of None \<Rightarrow> Inl Use_After_Free | Some x \<Rightarrow> Inr x)"

definition set_object :: "nat \<Rightarrow> (global_object \<Rightarrow> global_object) \<Rightarrow> 'w dl_state \<Rightarrow> 'w dl_state res" where
  "set_object p f st = rbind (object p st) (\<lambda>x. Inr (st\<lparr>dl_heap := (dl_heap st)(p \<mapsto> f x)\<rparr>))"

text \<open>New memory; what it holds does not matter, because all members are written before they are read.\<close>

definition dl_malloc :: "'w dl_state \<Rightarrow> nat option \<times> 'w dl_state" where
  "dl_malloc st =
     (case dl_mallocs st of
        False # ms \<Rightarrow> (None, st\<lparr>dl_mallocs := ms\<rparr>)
      | ms \<Rightarrow> (Some (dl_fresh st),
               st\<lparr>dl_mallocs := tl ms, dl_fresh := dl_fresh st + 1,
                  dl_heap := (dl_heap st)(dl_fresh st \<mapsto> \<lparr>hModule = 0, previous = None, next_object = None\<rparr>)\<rparr>))"

text \<open>Memory that was not allocated, as \<open>first_object\<close>, must not be freed.\<close>

definition dl_free :: "nat \<Rightarrow> 'w dl_state \<Rightarrow> 'w dl_state res" where
  "dl_free p st =
     (if p = first_object then Inl Out_Of_Bounds
      else rbind (object p st) (\<lambda>_. Inr (st\<lparr>dl_heap := (dl_heap st)(p := None)\<rparr>)))"

text \<open>The loops follow the list; \<open>None\<close> is a loop that does not end.\<close>

partial_function (option) search_from :: "nat \<Rightarrow> nat \<Rightarrow> 'w dl_state \<Rightarrow> nat option res option" where
  "search_from p m st =
     (case dl_heap st p of
        None \<Rightarrow> Some (Inl Use_After_Free)
      | Some x \<Rightarrow>
          if hModule x = m then Some (Inr (Some p))
          else (case next_object x of None \<Rightarrow> Some (Inr None) | Some q \<Rightarrow> search_from q m st))"

definition global_search :: "nat \<Rightarrow> 'w dl_state \<Rightarrow> nat option res option" where
  "global_search m st = (if m = 0 then Some (Inr None) else search_from first_object m st)"

partial_function (option) last_from :: "nat \<Rightarrow> 'w dl_state \<Rightarrow> nat res option" where
  "last_from p st =
     (case dl_heap st p of
        None \<Rightarrow> Some (Inl Use_After_Free)
      | Some x \<Rightarrow> (case next_object x of None \<Rightarrow> Some (Inr p) | Some q \<Rightarrow> last_from q st))"

definition global_add :: "nat \<Rightarrow> 'w dl_state \<Rightarrow> 'w dl_state res option" where
  "global_add m st =
     (if m = 0 then Some (Inr st)
      else obind (global_search m st) (\<lambda>found.
             if found \<noteq> None then Some (Inr st)
             else obind (last_from first_object st) (\<lambda>p.
                    case dl_malloc st of
                      (None, st1) \<Rightarrow> Some (Inr st1)
                    | (Some n, st1) \<Rightarrow>
                        Some (rbind (set_object p (\<lambda>x. x\<lparr>next_object := Some n\<rparr>) st1)
                                (set_object n (\<lambda>x. x\<lparr>next_object := None, previous := Some p, hModule := m\<rparr>))))))"

definition global_rem :: "nat \<Rightarrow> 'w dl_state \<Rightarrow> 'w dl_state res option" where
  "global_rem m st =
     (if m = 0 then Some (Inr st)
      else obind (global_search m st) (\<lambda>found.
             case found of
               None \<Rightarrow> Some (Inr st)
             | Some p \<Rightarrow>
                 Some (rbind (object p st) (\<lambda>x.
                       rbind (case next_object x of
                                None \<Rightarrow> Inr st
                              | Some q \<Rightarrow> set_object q (\<lambda>y. y\<lparr>previous := previous x\<rparr>) st) (\<lambda>st1.
                       rbind (case previous x of
                                None \<Rightarrow> Inr st1
                              | Some q \<Rightarrow> set_object q (\<lambda>y. y\<lparr>next_object := next_object x\<rparr>) st1) (\<lambda>st2.
                         dl_free p st2))))))"

section \<open>Error messages\<close>

definition ERR_SIZE :: nat where "ERR_SIZE = 65535"

text \<open>What is copied into the rest of a buffer; its length is the result.\<close>

definition copy_string :: "nat \<Rightarrow> string \<Rightarrow> string" where
  "copy_string dest_size src = take (dest_size - 1) src"

text \<open>A message that does not fit is not written, and the result of \<open>FormatMessage\<close> is then 0.\<close>

definition save_err_str :: "'w winapi \<Rightarrow> string \<Rightarrow> 'w dl_state \<Rightarrow> 'w dl_state" where
  "save_err_str api str st =
     (let code = GetLastError api (dl_world st)
      in if code = 0 then st
         else let t1 = copy_string ERR_SIZE [c_dquote];
                  t2 = t1 @ copy_string (ERR_SIZE - length t1) str;
                  t3 = t2 @ copy_string (ERR_SIZE - length t2) (c_dquote # '': '');
                  m = FormatMessage api code;
                  t4 = t3 @ (if length m < ERR_SIZE - length t3 then m else []);
                  pos = length t4
              in st\<lparr>error_buffer := (if pos > 1 \<and> t4 ! (pos - 2) = c_cr \<and> t4 ! (pos - 1) = c_lf then take (pos - 2) t4 else t4),
                    current_error := True\<rparr>)"

definition save_err_ptr_str :: "'w winapi \<Rightarrow> nat \<Rightarrow> 'w dl_state \<Rightarrow> 'w dl_state res" where
  "save_err_ptr_str api p st = rbind (store 19 (''0x'' @ fmt_p api p)) (\<lambda>b. Inr (save_err_str api b st))"

section \<open>The interface\<close>

definition RTLD_GLOBAL :: "32 word" where "RTLD_GLOBAL = push_bit 1 1"
definition RTLD_LOCAL :: "32 word" where "RTLD_LOCAL = push_bit 2 1"
definition MAX_PATH :: nat where "MAX_PATH = 260"
definition SEM_FAILCRITICALERRORS :: nat where "SEM_FAILCRITICALERRORS = 1"

definition win_path :: "string \<Rightarrow> string" where
  "win_path f = map (\<lambda>c. if c = CHR ''/'' then CHR 0x5C else c) (take (MAX_PATH - 1) f)"

text \<open>A call of a Windows function on the world of the state.\<close>

definition win :: "('w \<Rightarrow> 'a \<times> 'w) \<Rightarrow> 'w dl_state \<Rightarrow> 'a \<times> 'w dl_state" where
  "win f st = (case f (dl_world st) of (x, w) \<Rightarrow> (x, st\<lparr>dl_world := w\<rparr>))"

definition dlopen :: "'w winapi \<Rightarrow> string option \<Rightarrow> 32 word \<Rightarrow> 'w dl_state \<Rightarrow> (nat \<times> 'w dl_state) res option" where
  "dlopen api file_arg mode st =
     (case win (SetErrorMode api SEM_FAILCRITICALERRORS) (st\<lparr>current_error := False\<rparr>) of
        (uMode, st1) \<Rightarrow>
          obind (case file_arg of
                   None \<Rightarrow>
                     (case win (GetModuleHandle api) st1 of
                        (h, st2) \<Rightarrow> Some (if h = 0 then rbind (save_err_ptr_str api 0 st2) (\<lambda>st3. Inr (h, st3)) else Inr (h, st2)))
                 | Some f \<Rightarrow>
                     (case win (LoadLibraryEx api (win_path f)) st1 of
                        (h, st2) \<Rightarrow>
                          if h = 0 then Some (Inr (h, save_err_str api (win_path f) st2))
                          else if and mode RTLD_GLOBAL \<noteq> 0 then obind (global_add h st2) (\<lambda>st3. Some (Inr (h, st3)))
                          else Some (Inr (h, st2)))) (\<lambda>(h, st4).
            Some (Inr (h, snd (win (SetErrorMode api uMode) st4)))))"

definition dlclose :: "'w winapi \<Rightarrow> nat \<Rightarrow> 'w dl_state \<Rightarrow> (int \<times> 'w dl_state) res option" where
  "dlclose api handle st =
     (case win (FreeLibrary api handle) (st\<lparr>current_error := False\<rparr>) of
        (True, st1) \<Rightarrow> obind (global_rem handle st1) (\<lambda>st2. Some (Inr (0, st2)))
      | (False, st1) \<Rightarrow> Some (rbind (save_err_ptr_str api handle st1) (\<lambda>st2. Inr (1, st2))))"

partial_function (option) dlsym_loop :: "'w winapi \<Rightarrow> string \<Rightarrow> nat \<Rightarrow> 'w dl_state \<Rightarrow> (nat \<times> 'w dl_state) res option" where
  "dlsym_loop api name p st =
     (case dl_heap st p of
        None \<Rightarrow> Some (Inl Use_After_Free)
      | Some x \<Rightarrow>
          (case (if hModule x = 0 then (0, st) else win (GetProcAddress api (hModule x) name) st) of
             (s, st1) \<Rightarrow>
               if s \<noteq> 0 then Some (Inr (s, st1))
               else (case next_object x of None \<Rightarrow> Some (Inr (0, st1)) | Some q \<Rightarrow> dlsym_loop api name q st1)))"

definition dlsym :: "'w winapi \<Rightarrow> nat \<Rightarrow> string \<Rightarrow> 'w dl_state \<Rightarrow> (nat \<times> 'w dl_state) res option" where
  "dlsym api handle name st =
     (case win (GetProcAddress api handle name) (st\<lparr>current_error := False\<rparr>) of
        (s, st1) \<Rightarrow>
          obind (if s \<noteq> 0 then Some (Inr (s, st1))
                 else case win (GetModuleHandle api) st1 of
                        (h, st2) \<Rightarrow>
                          obind (if h = handle then dlsym_loop api name first_object st2 else Some (Inr (0, st2))) (\<lambda>(s2, st3).
                            Some (Inr (s2, st3\<lparr>dl_world := CloseHandle api h (dl_world st3)\<rparr>)))) (\<lambda>(s3, st4).
            Some (Inr (s3, if s3 = 0 then save_err_str api name st4 else st4))))"

text \<open>The text of the error, if there is one.\<close>

definition dlerror :: "'w dl_state \<Rightarrow> string option \<times> 'w dl_state" where
  "dlerror st = (if current_error st then Some (error_buffer st) else None, st\<lparr>current_error := False\<rparr>)"

end
