(* ===== verification/Dlfcn_Facts.thy ===== *)
theory Dlfcn_Facts
  imports Dlfcn
begin

text \<open>
  The linked list of src/wrapper/dlfcn.c is a list of modules: each operation on the heap implements
  the operation on that list, and no sequence of calls of the interface leaves the list or fails to end.
\<close>

section \<open>Segments of the list\<close>

text \<open>Nodes are pairs of an address and a module. A segment has a node before it and one behind it.\<close>

type_synonym nodes = "(nat \<times> nat) list"

definition first_of :: "nodes \<Rightarrow> nat option \<Rightarrow> nat option" where
  "first_of ns nx = (case ns of [] \<Rightarrow> nx | n # _ \<Rightarrow> Some (fst n))"

fun lseg :: "(nat \<Rightarrow> global_object option) \<Rightarrow> nat option \<Rightarrow> nodes \<Rightarrow> nat option \<Rightarrow> bool" where
  "lseg h pr [] nx \<longleftrightarrow> True"
| "lseg h pr (n # ns) nx \<longleftrightarrow>
     h (fst n) = Some \<lparr>hModule = snd n, previous = pr, next_object = first_of ns nx\<rparr> \<and> lseg h (Some (fst n)) ns nx"

definition last_of :: "nodes \<Rightarrow> nat option \<Rightarrow> nat option" where
  "last_of ns pr = (if ns = [] then pr else Some (fst (last ns)))"

lemma first_of_simps [simp]: "first_of [] nx = nx" "first_of (n # ns) nx = Some (fst n)"
  by (simp_all add: first_of_def)

lemma first_of_append [simp]: "first_of (xs @ ys) nx = first_of xs (first_of ys nx)"
  by (cases xs) simp_all

lemma last_of_simps [simp]: "last_of [] pr = pr" "last_of (ns @ [n]) pr = Some (fst n)"
  by (simp_all add: last_of_def)

lemma lseg_append: "lseg h pr (xs @ ys) nx \<longleftrightarrow> lseg h pr xs (first_of ys nx) \<and> lseg h (last_of xs pr) ys nx"
  by (induction xs arbitrary: pr) (auto simp: last_of_def)

lemma lseg_cong: "\<forall>a\<in>fst ` set ns. h a = h' a \<Longrightarrow> lseg h pr ns nx = lseg h' pr ns nx"
  by (induction ns arbitrary: pr) auto

lemma lseg_upd: "a \<notin> fst ` set ns \<Longrightarrow> lseg (h(a := v)) pr ns nx = lseg h pr ns nx"
  by (rule lseg_cong) auto

section \<open>The invariant\<close>

definition holds :: "'w dl_state \<Rightarrow> nodes \<Rightarrow> bool" where
  "holds st ns \<longleftrightarrow>
     lseg (dl_heap st) None ((first_object, 0) # ns) None \<and> distinct (first_object # map fst ns) \<and>
     distinct (0 # map snd ns) \<and> (\<forall>a\<in>fst ` set ((first_object, 0) # ns). a < dl_fresh st)"

text \<open>The list of the modules that a state stands for.\<close>

definition globals :: "'w dl_state \<Rightarrow> nat list \<Rightarrow> bool" where
  "globals st ms \<longleftrightarrow> (\<exists>ns. holds st ns \<and> map snd ns = ms)"

lemma search_from_lseg:
  "lseg (dl_heap st) pr (n # ns) None \<Longrightarrow>
   search_from (fst n) m st = Some (Inr (map_option fst (find (\<lambda>x. snd x = m) (n # ns))))"
proof (induction ns arbitrary: pr n)
  case Nil
  then show ?case by (subst search_from.simps) simp
next
  case (Cons k ns)
  have "search_from (fst k) m st = Some (Inr (map_option fst (find (\<lambda>x. snd x = m) (k # ns))))"
    using Cons.IH [of "Some (fst n)" k] Cons.prems by simp
  then show ?case using Cons.prems by (subst search_from.simps) simp
qed

lemma last_from_lseg: "lseg (dl_heap st) pr (n # ns) None \<Longrightarrow> last_from (fst n) st = Some (Inr (fst (last (n # ns))))"
proof (induction ns arbitrary: pr n)
  case Nil
  then show ?case by (subst last_from.simps) simp
next
  case (Cons k ns)
  have "last_from (fst k) st = Some (Inr (fst (last (k # ns))))" using Cons.IH [of "Some (fst n)" k] Cons.prems by simp
  then show ?case using Cons.prems by (subst last_from.simps) simp
qed

lemma global_search_holds:
  assumes "holds st ns"
  shows "global_search m st = Some (Inr (if m = 0 then None else map_option fst (find (\<lambda>x. snd x = m) ns)))"
  using search_from_lseg [of st None "(first_object, 0)" ns m] assms by (simp add: global_search_def holds_def)

lemma find_snd_None: "find (\<lambda>x. snd x = m) ns = None \<longleftrightarrow> m \<notin> snd ` set ns"
  by (force simp: find_None_iff)

lemma holds_lseg:
  assumes "holds st ns"
  shows "lseg (dl_heap st) None ((first_object, 0) # ns) None" and "distinct (map fst ((first_object, 0) # ns))"
    and "\<forall>a\<in>fst ` set ((first_object, 0) # ns). a < dl_fresh st"
  using assms by (simp_all add: holds_def)

lemma holds_append:
  assumes "holds st ns" and "m \<noteq> 0" and "m \<notin> snd ` set ns" and "n = dl_fresh st" and "p = fst (last ((first_object, 0) # ns))"
  shows "holds (st\<lparr>dl_heap := (dl_heap st)(p \<mapsto> (the (dl_heap st p))\<lparr>next_object := Some n\<rparr>, n \<mapsto> \<lparr>hModule = m, previous = Some p, next_object = None\<rparr>),
                   dl_fresh := n + 1, dl_mallocs := ms\<rparr>) (ns @ [(n, m)])"
proof -
  let ?l = "(first_object, 0) # ns"
  define xs where "xs = butlast ?l"
  define k where "k = snd (last ?l)"
  have l: "?l = xs @ [(p, k)]" using append_butlast_last_id [of ?l] by (simp add: xs_def k_def assms(5))
  have seg: "lseg (dl_heap st) None xs (Some p)" "dl_heap st p = Some \<lparr>hModule = k, previous = last_of xs None, next_object = None\<rparr>"
    using holds_lseg(1) [OF assms(1)] unfolding l by (simp_all add: lseg_append)
  have p: "p \<notin> fst ` set xs" using holds_lseg(2) [OF assms(1)] unfolding l by simp
  have n: "n \<notin> fst ` set ?l" using bspec [OF holds_lseg(3) [OF assms(1)], of n] assms(4) by (metis less_irrefl)
  then have n': "n \<notin> fst ` set xs" "n \<noteq> p" unfolding l by auto
  let ?h = "(dl_heap st)(p \<mapsto> (the (dl_heap st p))\<lparr>next_object := Some n\<rparr>, n \<mapsto> \<lparr>hModule = m, previous = Some p, next_object = None\<rparr>)"
  have "lseg ?h None (?l @ [(n, m)]) None"
    unfolding l using seg p n' by (simp add: lseg_append lseg_upd)
  then show ?thesis using assms(1-4) n unfolding holds_def by (auto simp: less_Suc_eq)
qed

lemma dl_malloc_cases:
  obtains (fails) ms where "dl_malloc st = (None, st\<lparr>dl_mallocs := ms\<rparr>)" and "dl_mallocs st = False # ms"
  | (works) ms where "dl_malloc st = (Some (dl_fresh st), st\<lparr>dl_mallocs := ms, dl_fresh := dl_fresh st + 1,
      dl_heap := (dl_heap st)(dl_fresh st \<mapsto> \<lparr>hModule = 0, previous = None, next_object = None\<rparr>)\<rparr>)"
      and "case dl_mallocs st of [] \<Rightarrow> True | b # _ \<Rightarrow> b" and "dl_mallocs st = [] \<Longrightarrow> ms = []"
proof (cases "dl_mallocs st")
  case Nil
  then show ?thesis using works by (simp add: dl_malloc_def)
next
  case (Cons b ms)
  then show ?thesis using works fails by (cases b) (simp_all add: dl_malloc_def)
qed

lemma holds_mallocs: "holds (st\<lparr>dl_mallocs := ms\<rparr>) ns = holds st ns"
  by (simp add: holds_def)

lemma lseg_last: "lseg h pr ns nx \<Longrightarrow> ns \<noteq> [] \<Longrightarrow> \<exists>y. h (fst (last ns)) = Some y"
  by (induction ns arbitrary: pr) auto

lemma holds_last: "holds st ns \<Longrightarrow> \<exists>x. dl_heap st (fst (last ((first_object, 0) # ns))) = Some x"
  by (rule lseg_last [OF holds_lseg(1)]) simp_all

text \<open>What adding does to the list of modules, when memory is available or not.\<close>

definition spec_add :: "bool \<Rightarrow> nat \<Rightarrow> nat list \<Rightarrow> nat list" where
  "spec_add mem m ms = (if m = 0 \<or> m \<in> set ms \<or> \<not> mem then ms else ms @ [m])"

definition has_memory :: "'w dl_state \<Rightarrow> bool" where
  "has_memory st = (case dl_mallocs st of [] \<Rightarrow> True | b # _ \<Rightarrow> b)"

text \<open>The operations on the list leave the other members alone.\<close>

definition same_rest :: "'w dl_state \<Rightarrow> 'w dl_state \<Rightarrow> bool" where
  "same_rest st st' \<longleftrightarrow>
     dl_world st' = dl_world st \<and> current_error st' = current_error st \<and> error_buffer st' = error_buffer st \<and>
     (dl_mallocs st = [] \<longrightarrow> dl_mallocs st' = [])"

lemma global_add_globals:
  assumes "globals st ms"
  shows "\<exists>st'. global_add m st = Some (Inr st') \<and> globals st' (spec_add (has_memory st) m ms) \<and> same_rest st st'"
proof -
  obtain ns where ns: "holds st ns" "map snd ns = ms" using assms by (auto simp: globals_def)
  have ms: "snd ` set ns = set ms" using ns(2) by force
  show ?thesis
  proof (cases "m = 0 \<or> m \<in> set ms")
    case True
    then have "global_add m st = Some (Inr st)"
      using global_search_holds [OF ns(1), of m] find_snd_None [of m ns] ms by (auto simp: global_add_def)
    then show ?thesis using True assms by (auto simp: spec_add_def same_rest_def)
  next
    case False
    define p where "p = fst (last ((first_object, 0) # ns))"
    have search: "global_search m st = Some (Inr None)"
      using global_search_holds [OF ns(1), of m] find_snd_None [of m ns] ms False by simp
    have last: "last_from first_object st = Some (Inr p)"
      using last_from_lseg [of st None "(first_object, 0)" ns] ns(1) by (simp add: holds_def p_def)
    obtain x where x: "dl_heap st p = Some x" using holds_last [OF ns(1)] by (auto simp: p_def)
    have fresh: "p \<noteq> dl_fresh st" using ns(1) last_in_set [of "(first_object, 0) # ns"] unfolding holds_def p_def by force
    show ?thesis
    proof (cases rule: dl_malloc_cases [of st])
      case (fails as)
      then have "global_add m st = Some (Inr (st\<lparr>dl_mallocs := as\<rparr>))"
        using False search last by (simp add: global_add_def)
      moreover have "globals (st\<lparr>dl_mallocs := as\<rparr>) ms" using ns holds_mallocs by (auto simp: globals_def)
      ultimately show ?thesis using fails(2) by (simp add: spec_add_def has_memory_def same_rest_def)
    next
      case (works as)
      define st' where "st' = st\<lparr>dl_heap := (dl_heap st)(p \<mapsto> (the (dl_heap st p))\<lparr>next_object := Some (dl_fresh st)\<rparr>,
        dl_fresh st \<mapsto> \<lparr>hModule = m, previous = Some p, next_object = None\<rparr>), dl_fresh := dl_fresh st + 1, dl_mallocs := as\<rparr>"
      have "global_add m st = Some (Inr st')"
        using False search last works(1) x fresh
        by (simp add: global_add_def set_object_def object_def st'_def fun_upd_twist)
      moreover have "holds st' (ns @ [(dl_fresh st, m)])"
        unfolding st'_def by (rule holds_append [OF ns(1)]) (use False ms p_def in auto)
      ultimately show ?thesis
        using False works(2,3) ns(2) by (auto simp: spec_add_def has_memory_def globals_def same_rest_def st'_def)
    qed
  qed
qed

text \<open>Taking out a node: its neighbours are linked to each other.\<close>

definition unlink :: "nat option \<Rightarrow> nat \<Rightarrow> nat option \<Rightarrow> (nat \<Rightarrow> global_object option) \<Rightarrow> nat \<Rightarrow> global_object option" where
  "unlink pr a nx h =
     (let h1 = (case nx of None \<Rightarrow> h | Some c \<Rightarrow> h(c := map_option (\<lambda>y. y\<lparr>previous := pr\<rparr>) (h c)));
          h2 = (case pr of None \<Rightarrow> h1 | Some b \<Rightarrow> h1(b := map_option (\<lambda>y. y\<lparr>next_object := nx\<rparr>) (h1 b)))
      in h2(a := None))"

lemma lseg_unlink:
  assumes "lseg h pr0 (zs @ [(b, k)] @ [(a, m)] @ ys) None" and "distinct (map fst (zs @ [(b, k)] @ [(a, m)] @ ys))"
  shows "lseg (unlink (Some b) a (first_of ys None) h) pr0 (zs @ [(b, k)] @ ys) None"
proof (cases ys)
  case Nil
  then show ?thesis using assms by (simp add: lseg_append unlink_def lseg_upd)
next
  case (Cons c ys')
  then show ?thesis using assms by (simp add: lseg_append unlink_def lseg_upd image_iff)
qed

lemma holds_unlink:
  assumes "holds st (xs @ (a, m) # ys)"
  shows "holds (st\<lparr>dl_heap := unlink (Some (fst (last ((first_object, 0) # xs)))) a (first_of ys None) (dl_heap st)\<rparr>) (xs @ ys)"
proof -
  let ?l = "(first_object, 0) # xs"
  define zs where "zs = butlast ?l"
  obtain b k where bk: "last ?l = (b, k)" by (cases "last ?l")
  have l: "?l = zs @ [(b, k)]" using append_butlast_last_id [of ?l] bk by (simp add: zs_def)
  have eq: "(first_object, 0) # xs @ (a, m) # ys = zs @ [(b, k)] @ [(a, m)] @ ys" "(first_object, 0) # xs @ ys = zs @ [(b, k)] @ ys"
    using l by (metis append_Cons append_assoc append_Nil)+
  have "lseg (unlink (Some b) a (first_of ys None) (dl_heap st)) None ((first_object, 0) # xs @ ys) None"
    unfolding eq by (rule lseg_unlink) (use holds_lseg(1,2) [OF assms] in \<open>simp_all only: eq\<close>)
  then show ?thesis using assms bk by (auto simp: holds_def)
qed

lemma find_split:
  assumes "find (\<lambda>x. snd x = m) ns = Some n"
  obtains xs ys where "ns = xs @ n # ys" and "snd n = m"
  using assms by (auto simp: find_Some_iff) (metis id_take_nth_drop)

definition spec_rem :: "nat \<Rightarrow> nat list \<Rightarrow> nat list" where
  "spec_rem m ms = (if m = 0 then ms else remove1 m ms)"

lemma global_rem_globals:
  assumes "globals st ms"
  shows "\<exists>st'. global_rem m st = Some (Inr st') \<and> globals st' (spec_rem m ms) \<and> same_rest st st'"
proof -
  obtain ns where ns: "holds st ns" "map snd ns = ms" using assms by (auto simp: globals_def)
  have ms: "snd ` set ns = set ms" using ns(2) by force
  show ?thesis
  proof (cases "m = 0 \<or> m \<notin> set ms")
    case True
    then have "global_rem m st = Some (Inr st)"
      using global_search_holds [OF ns(1), of m] find_snd_None [of m ns] ms by (auto simp: global_rem_def)
    then show ?thesis using True assms by (auto simp: spec_rem_def same_rest_def remove1_idem)
  next
    case False
    then obtain n where n: "find (\<lambda>x. snd x = m) ns = Some n" using find_snd_None [of m ns] ms by auto
    then obtain xs ys where s: "ns = xs @ n # ys" "snd n = m" by (rule find_split)
    obtain a where a: "n = (a, m)" using s(2) by (cases n) auto
    define b where "b = fst (last ((first_object, 0) # xs))"
    have h: "holds st (xs @ (a, m) # ys)" using ns(1) s a by simp
    have eq: "(first_object, 0) # xs @ (a, m) # ys = ((first_object, 0) # xs) @ (a, m) # ys" by simp
    have seg: "lseg (dl_heap st) (Some b) ((a, m) # ys) None" "lseg (dl_heap st) None ((first_object, 0) # xs) (Some a)"
      using holds_lseg(1) [OF h] unfolding eq lseg_append by (simp_all add: last_of_def b_def)
    obtain y where y: "dl_heap st b = Some y" using lseg_last [OF seg(2)] unfolding b_def by blast
    define ps where "ps = map fst ((first_object, 0) # xs)"
    have ps: "distinct (ps @ a # map fst ys)" "first_object \<in> set ps" "b \<in> set ps"
      using holds_lseg(2) [OF h] last_in_set [of ps] by (simp_all add: ps_def b_def last_map)
    then have ab: "a \<noteq> b" "first_object \<noteq> a" "\<forall>c\<in>set (map fst ys). c \<noteq> b \<and> c \<noteq> a" by auto
    have "global_rem m st = Some (Inr (st\<lparr>dl_heap := unlink (Some b) a (first_of ys None) (dl_heap st)\<rparr>))"
      using global_search_holds [OF ns(1), of m] False n a seg(1) y ab
      by (cases ys) (auto simp: global_rem_def object_def set_object_def dl_free_def unlink_def)
    moreover have "holds (st\<lparr>dl_heap := unlink (Some b) a (first_of ys None) (dl_heap st)\<rparr>) (xs @ ys)"
      unfolding b_def by (rule holds_unlink [OF h])
    moreover have "map snd (xs @ ys) = remove1 m ms"
      using ns s a h by (auto simp: holds_def remove1_append)
    ultimately show ?thesis using False by (auto simp: spec_rem_def globals_def same_rest_def)
  qed
qed

section \<open>The interface of the list\<close>

text \<open>
  What the calls of the wrapper rely on: the state stands for a list of modules, and adding and removing end and do
  the same to that list.
\<close>

locale module_list =
  fixes rep :: "'s \<Rightarrow> nat list \<Rightarrow> bool"
    and add_module :: "nat \<Rightarrow> 's \<Rightarrow> 's res option"
    and rem_module :: "nat \<Rightarrow> 's \<Rightarrow> 's res option"
    and mem :: "'s \<Rightarrow> bool"
  assumes add_rep: "rep s ms \<Longrightarrow> \<exists>s'. add_module m s = Some (Inr s') \<and> rep s' (spec_add (mem s) m ms)"
    and rem_rep: "rep s ms \<Longrightarrow> \<exists>s'. rem_module m s = Some (Inr s') \<and> rep s' (spec_rem m ms)"
    and rep_distinct: "rep s ms \<Longrightarrow> distinct ms"
begin

lemma removed_once:
  assumes "rep s ms" and "m \<noteq> 0" and "rem_module m s = Some (Inr s')"
  shows "\<exists>ms'. rep s' ms' \<and> set ms' = set ms - {m}"
  using rem_rep [OF assms(1), of m] rep_distinct [OF assms(1)] assms(2,3) by (auto simp: spec_rem_def)

lemma added:
  assumes "rep s ms" and "m \<noteq> 0" and "mem s" and "add_module m s = Some (Inr s')"
  shows "\<exists>ms'. rep s' ms' \<and> set ms' = insert m (set ms)"
proof -
  have "rep s' (spec_add True m ms)" using add_rep [OF assms(1), of m] assms(3,4) by auto
  moreover have "set (spec_add True m ms) = insert m (set ms)" using assms(2) by (auto simp: spec_add_def)
  ultimately show ?thesis by blast
qed

end

lemma globals_distinct: "globals st ms \<Longrightarrow> distinct ms"
  by (auto simp: globals_def holds_def)

interpretation gl: module_list globals global_add global_rem has_memory
proof unfold_locales
  fix st :: "'w dl_state" and ms m
  assume g: "globals st ms"
  show "\<exists>s'. global_add m st = Some (Inr s') \<and> globals s' (spec_add (has_memory st) m ms)"
    using global_add_globals [OF g] by blast
  show "\<exists>s'. global_rem m st = Some (Inr s') \<and> globals s' (spec_rem m ms)" using global_rem_globals [OF g] by blast
  show "distinct ms" using g by (rule globals_distinct)
qed

section \<open>Calls\<close>

text \<open>The list depends on the heap and the memory only.\<close>

lemma globals_heap:
  "dl_heap st' = dl_heap st \<Longrightarrow> dl_fresh st' = dl_fresh st \<Longrightarrow> globals st' = globals st"
  by (rule ext) (simp add: globals_def holds_def)

lemma globals_upd [simp]:
  "globals (st\<lparr>current_error := b\<rparr>) = globals st" "globals (st\<lparr>dl_world := w\<rparr>) = globals st"
  "globals (save_err_str api s st) = globals st" "globals (snd (win f st)) = globals st"
  by (rule globals_heap; simp add: save_err_str_def win_def Let_def split: prod.splits)+

lemma mallocs_upd [simp]: "dl_mallocs (save_err_str api s st) = dl_mallocs st" "dl_mallocs (snd (win f st)) = dl_mallocs st"
  by (simp_all add: save_err_str_def win_def Let_def split: prod.splits)

lemma mallocs_win: "win f st = (x, st') \<Longrightarrow> dl_mallocs st' = dl_mallocs st"
  using mallocs_upd(2) [of f st] by simp

lemma globals_win: "win f st = (x, st') \<Longrightarrow> globals st' = globals st"
  using globals_upd(4) [of f st] by simp

lemma globals_start: "globals (dl_start ms w) []"
  unfolding globals_def by (intro exI [of _ "[]"]) (simp add: holds_def dl_start_def first_object_def)

text \<open>The documented width of \<open>%p\<close>: sixteen digits at most.\<close>

definition short_pointers :: "'w winapi \<Rightarrow> bool" where
  "short_pointers api \<longleftrightarrow> (\<forall>p. length (fmt_p api p) \<le> 16)"

lemma save_err_ptr_str_ok:
  assumes "short_pointers api"
  shows "\<exists>b. save_err_ptr_str api p st = Inr (save_err_str api b st)"
proof -
  have "length (fmt_p api p) \<le> 16" using assms by (simp add: short_pointers_def)
  then have "save_err_ptr_str api p st = Inr (save_err_str api (''0x'' @ fmt_p api p) st)"
    by (simp add: save_err_ptr_str_def store_def)
  then show ?thesis ..
qed

text \<open>The list after a call of \<open>dlopen\<close> or \<open>dlclose\<close>, given the result of the call.\<close>

lemma dlopen_globals:
  assumes "globals st ms" and "short_pointers api"
  shows "\<exists>h st'. dlopen api f mode st = Some (Inr (h, st')) \<and> (dl_mallocs st = [] \<longrightarrow> dl_mallocs st' = []) \<and>
           globals st' (if f = None \<or> and mode RTLD_GLOBAL = 0 then ms else spec_add (has_memory st) h ms)"
proof -
  obtain u st1 where 1: "win (SetErrorMode api SEM_FAILCRITICALERRORS) (st\<lparr>current_error := False\<rparr>) = (u, st1)" by fastforce
  then have g1: "globals st1 ms" "dl_mallocs st1 = dl_mallocs st" using globals_win [OF 1] mallocs_win [OF 1] assms(1) by simp_all
  have "\<exists>h st2. (case f of
       None \<Rightarrow> (case win (GetModuleHandle api) st1 of
                 (h, st2) \<Rightarrow> Some (if h = 0 then rbind (save_err_ptr_str api 0 st2) (\<lambda>st3. Inr (h, st3)) else Inr (h, st2)))
     | Some f \<Rightarrow> (case win (LoadLibraryEx api (win_path f)) st1 of
                 (h, st2) \<Rightarrow>
                   if h = 0 then Some (Inr (h, save_err_str api (win_path f) st2))
                   else if and mode RTLD_GLOBAL \<noteq> 0 then obind (global_add h st2) (\<lambda>st3. Some (Inr (h, st3)))
                   else Some (Inr (h, st2)))) = Some (Inr (h, st2)) \<and> (dl_mallocs st = [] \<longrightarrow> dl_mallocs st2 = []) \<and>
       globals st2 (if f = None \<or> and mode RTLD_GLOBAL = 0 then ms else spec_add (has_memory st) h ms)"
  proof (cases f)
    case None
    obtain h st2 where 2: "win (GetModuleHandle api) st1 = (h, st2)" by fastforce
    then have "globals st2 ms" "dl_mallocs st2 = dl_mallocs st" using globals_win [OF 2] mallocs_win [OF 2] g1 by simp_all
    then show ?thesis using None 2 save_err_ptr_str_ok [OF assms(2), of 0 st2] by (cases "h = 0") auto
  next
    case (Some g)
    obtain h st2 where 2: "win (LoadLibraryEx api (win_path g)) st1 = (h, st2)" by fastforce
    then have g2: "globals st2 ms" "dl_mallocs st2 = dl_mallocs st" using globals_win [OF 2] mallocs_win [OF 2] g1 by simp_all
    then have m: "has_memory st2 = has_memory st" by (simp add: has_memory_def)
    obtain st3 where "global_add h st2 = Some (Inr st3)" "globals st3 (spec_add (has_memory st2) h ms)" "same_rest st2 st3"
      using global_add_globals [OF g2(1)] by blast
    then show ?thesis
      using Some 2 g2 m by (cases "h = 0"; cases "and mode RTLD_GLOBAL = 0") (auto simp: spec_add_def same_rest_def)
  qed
  then show ?thesis using 1 by (auto simp: dlopen_def)
qed

lemma dlclose_globals:
  assumes "globals st ms" and "short_pointers api"
  shows "\<exists>r st'. dlclose api h st = Some (Inr (r, st')) \<and> (dl_mallocs st = [] \<longrightarrow> dl_mallocs st' = []) \<and>
           globals st' (if r = 0 then spec_rem h ms else ms)"
proof -
  obtain b st1 where 1: "win (FreeLibrary api h) (st\<lparr>current_error := False\<rparr>) = (b, st1)" by fastforce
  then have g1: "globals st1 ms" "dl_mallocs st1 = dl_mallocs st" using globals_win [OF 1] mallocs_win [OF 1] assms(1) by simp_all
  obtain st2 where "global_rem h st1 = Some (Inr st2)" "globals st2 (spec_rem h ms)" "same_rest st1 st2"
    using global_rem_globals [OF g1(1)] by blast
  moreover obtain e where "save_err_ptr_str api h st1 = Inr (save_err_str api e st1)"
    using save_err_ptr_str_ok [OF assms(2)] by blast
  ultimately show ?thesis
    using 1 g1 by (intro exI [of _ "if b then 0 else 1"] exI [of _ "if b then st2 else save_err_str api e st1"])
                  (cases b; simp add: dlclose_def same_rest_def)
qed

section \<open>Symbols\<close>

text \<open>Looking up a symbol or the handle of the program loads and unloads nothing.\<close>

definition pure_lookup :: "'w winapi \<Rightarrow> bool" where
  "pure_lookup api \<longleftrightarrow>
     (\<forall>h n h' n' w. fst (GetProcAddress api h n (snd (GetProcAddress api h' n' w))) = fst (GetProcAddress api h n w)) \<and>
     (\<forall>h n w. fst (GetProcAddress api h n (snd (GetModuleHandle api w))) = fst (GetProcAddress api h n w)) \<and>
     (\<forall>h n w. fst (GetModuleHandle api (snd (GetProcAddress api h n w))) = fst (GetModuleHandle api w))"

definition lookup :: "'w winapi \<Rightarrow> string \<Rightarrow> 'w \<Rightarrow> nat \<Rightarrow> nat" where
  "lookup api name w h = (if h = 0 then 0 else fst (GetProcAddress api h name w))"

text \<open>The first module of a list that has a symbol gives it.\<close>

fun first_symbol :: "(nat \<Rightarrow> nat) \<Rightarrow> nat list \<Rightarrow> nat" where
  "first_symbol f [] = 0"
| "first_symbol f (h # hs) = (if f h \<noteq> 0 then f h else first_symbol f hs)"

lemma win_simps: "win f st = (fst (f (dl_world st)), st\<lparr>dl_world := snd (f (dl_world st))\<rparr>)"
  by (simp add: win_def split: prod.splits)

lemma lookup_again: "pure_lookup api \<Longrightarrow> lookup api name (snd (GetProcAddress api h n w)) = lookup api name w"
  by (rule ext) (simp add: lookup_def pure_lookup_def)

lemma dlsym_loop_lseg:
  "lseg (dl_heap st) pr (n # ns) None \<Longrightarrow>
   \<exists>s st'. dlsym_loop api name (fst n) st = Some (Inr (s, st')) \<and> globals st' = globals st \<and>
           dl_mallocs st' = dl_mallocs st \<and>
           (pure_lookup api \<longrightarrow> s = first_symbol (lookup api name (dl_world st)) (map snd (n # ns)))"
proof (induction ns arbitrary: pr n st)
  case Nil
  show ?case
    by (rule exI [of _ "lookup api name (dl_world st) (snd n)"],
        rule exI [of _ "if snd n = 0 then st else snd (win (GetProcAddress api (snd n) name) st)"],
        subst dlsym_loop.simps) (use Nil in \<open>auto simp: lookup_def win_simps\<close>)
next
  case (Cons k ns)
  define st1 where "st1 = (if snd n = 0 then st else snd (win (GetProcAddress api (snd n) name) st))"
  define s1 where "s1 = lookup api name (dl_world st) (snd n)"
  have st1: "globals st1 = globals st" "dl_heap st1 = dl_heap st" "dl_mallocs st1 = dl_mallocs st"
    by (auto simp: st1_def win_simps)
  have pure: "pure_lookup api \<Longrightarrow> lookup api name (dl_world st1) = lookup api name (dl_world st)"
    by (simp add: st1_def win_simps lookup_again)
  obtain s st' where IH: "dlsym_loop api name (fst k) st1 = Some (Inr (s, st'))" "globals st' = globals st1"
    "dl_mallocs st' = dl_mallocs st1"
    "pure_lookup api \<longrightarrow> s = first_symbol (lookup api name (dl_world st1)) (map snd (k # ns))"
    using Cons.IH [of st1 "Some (fst n)" k] Cons.prems st1(2) by auto
  have "dlsym_loop api name (fst n) st = (if s1 \<noteq> 0 then Some (Inr (s1, st1)) else dlsym_loop api name (fst k) st1)"
    using Cons.prems by (subst dlsym_loop.simps) (simp add: lookup_def win_simps s1_def st1_def)
  then show ?case using IH st1 pure by (auto simp: s1_def)
qed

lemma dlsym_globals:
  assumes "globals st ms"
  shows "\<exists>s st'. dlsym api h name st = Some (Inr (s, st')) \<and> globals st' ms \<and> dl_mallocs st' = dl_mallocs st \<and>
           (pure_lookup api \<and> h \<noteq> 0 \<and> fst (GetModuleHandle api (dl_world st)) = h \<longrightarrow>
              s = first_symbol (lookup api name (dl_world st)) (h # ms))"
proof -
  define s1 where "s1 = fst (GetProcAddress api h name (dl_world st))"
  define st1 where "st1 = st\<lparr>current_error := False, dl_world := snd (GetProcAddress api h name (dl_world st))\<rparr>"
  have g1: "globals st1 = globals st" "dl_mallocs st1 = dl_mallocs st" by (simp_all add: st1_def)
  have w: "win (GetProcAddress api h name) (st\<lparr>current_error := False\<rparr>) = (s1, st1)" by (simp add: win_simps s1_def st1_def)
  show ?thesis
  proof (cases "s1 = 0")
    case False
    then show ?thesis using w assms g1 by (auto simp: dlsym_def lookup_def s1_def)
  next
    case True
    define h0 where "h0 = fst (GetModuleHandle api (dl_world st1))"
    define st2 where "st2 = st1\<lparr>dl_world := snd (GetModuleHandle api (dl_world st1))\<rparr>"
    have w2: "win (GetModuleHandle api) st1 = (h0, st2)" by (simp add: win_simps h0_def st2_def)
    have g2: "globals st2 = globals st" "dl_mallocs st2 = dl_mallocs st" by (simp_all add: st2_def g1)
    have "globals st2 ms" using assms g2 by simp
    then obtain ns where ns: "holds st2 ns" "map snd ns = ms" by (auto simp: globals_def)
    obtain s st' where l: "dlsym_loop api name first_object st2 = Some (Inr (s, st'))" "globals st' = globals st2"
      "dl_mallocs st' = dl_mallocs st2"
      "pure_lookup api \<longrightarrow> s = first_symbol (lookup api name (dl_world st2)) (0 # ms)"
      using dlsym_loop_lseg [OF holds_lseg(1) [OF ns(1)], of api name] ns(2) by auto
    have pure: "pure_lookup api \<Longrightarrow> lookup api name (dl_world st2) = lookup api name (dl_world st) \<and>
        h0 = fst (GetModuleHandle api (dl_world st))"
      by (auto simp: st2_def st1_def h0_def lookup_def pure_lookup_def)
    show ?thesis
    proof (cases "h0 = h")
      case True
      define st3 where "st3 = st'\<lparr>dl_world := CloseHandle api h (dl_world st')\<rparr>"
      have "dlsym api h name st = Some (Inr (s, if s = 0 then save_err_str api name st3 else st3))"
        using w w2 \<open>s1 = 0\<close> l(1) True by (simp add: dlsym_def st3_def)
      moreover have "globals (if s = 0 then save_err_str api name st3 else st3) ms" using l(2) g2 assms by (simp add: st3_def)
      moreover have "dl_mallocs (if s = 0 then save_err_str api name st3 else st3) = dl_mallocs st"
        using l(3) g2 by (simp add: st3_def)
      moreover have "pure_lookup api \<Longrightarrow> s = first_symbol (lookup api name (dl_world st)) (h # ms)"
        using l(4) pure \<open>s1 = 0\<close> by (simp add: s1_def lookup_def)
      ultimately show ?thesis by blast
    next
      case False
      then show ?thesis using w w2 \<open>s1 = 0\<close> g2 assms pure by (auto simp: dlsym_def)
    qed
  qed
qed

text \<open>The states that sequences of calls reach.\<close>

inductive reachable :: "'w winapi \<Rightarrow> 'w dl_state \<Rightarrow> 'w dl_state \<Rightarrow> bool" for api and st0 where
  start: "reachable api st0 st0"
| opened: "reachable api st0 st \<Longrightarrow> dlopen api f mode st = Some (Inr (h, st')) \<Longrightarrow> reachable api st0 st'"
| closed: "reachable api st0 st \<Longrightarrow> dlclose api h st = Some (Inr (r, st')) \<Longrightarrow> reachable api st0 st'"
| looked_up: "reachable api st0 st \<Longrightarrow> dlsym api h name st = Some (Inr (s, st')) \<Longrightarrow> reachable api st0 st'"
| asked: "reachable api st0 st \<Longrightarrow> reachable api st0 (snd (dlerror st))"

inductive_cases reachableE: "reachable api st0 st"

lemma reachable_globals: "reachable api (dl_start as w) st \<Longrightarrow> short_pointers api \<Longrightarrow> \<exists>ms. globals st ms"
proof (induction rule: reachable.induct)
  case start
  show ?case by (rule exI [of _ "[]"]) (rule globals_start)
next
  case (opened st f mode h st')
  then obtain ms where "globals st ms" by blast
  then show ?case using dlopen_globals [of st ms api f mode] opened by auto
next
  case (closed st h r st')
  then obtain ms where "globals st ms" by blast
  then show ?case using dlclose_globals [of st ms api h] closed by auto
next
  case (looked_up st h name s st')
  then obtain ms where "globals st ms" by blast
  then show ?case using dlsym_globals [of st ms api h name] looked_up by auto
next
  case (asked st)
  then show ?case by (auto simp: dlerror_def)
qed

text \<open>
  The calls that a client made, in their order, with their results; looking up a symbol or asking for an error changes no
  modules and is not recorded. Memory is always available.
\<close>

datatype dl_call = Open "string option" "32 word" nat | Close nat int

inductive calls :: "'w winapi \<Rightarrow> 'w dl_state \<Rightarrow> dl_call list \<Rightarrow> 'w dl_state \<Rightarrow> bool" for api and st0 where
  no_call: "calls api st0 [] st0"
| open_call: "calls api st0 cs st \<Longrightarrow> dlopen api f mode st = Some (Inr (h, st')) \<Longrightarrow> calls api st0 (cs @ [Open f mode h]) st'"
| close_call: "calls api st0 cs st \<Longrightarrow> dlclose api h st = Some (Inr (r, st')) \<Longrightarrow> calls api st0 (cs @ [Close h r]) st'"
| sym_call: "calls api st0 cs st \<Longrightarrow> dlsym api h name st = Some (Inr (s, st')) \<Longrightarrow> calls api st0 cs st'"
| error_call: "calls api st0 cs st \<Longrightarrow> calls api st0 cs (snd (dlerror st))"

text \<open>The modules that are open as global ones, in the order in which they were opened.\<close>

fun after_call :: "dl_call \<Rightarrow> nat list \<Rightarrow> nat list" where
  "after_call (Open f mode h) ms =
     (if f \<noteq> None \<and> and mode RTLD_GLOBAL \<noteq> 0 \<and> h \<noteq> 0 \<and> h \<notin> set ms then ms @ [h] else ms)"
| "after_call (Close h r) ms = (if r = 0 then removeAll h ms else ms)"

definition opening_order :: "dl_call list \<Rightarrow> nat list" where
  "opening_order cs = fold after_call cs []"

lemma opening_order_snoc: "opening_order (cs @ [c]) = after_call c (opening_order cs)"
  by (simp add: opening_order_def)

lemma globals_nonzero: "globals st ms \<Longrightarrow> 0 \<notin> set ms"
  by (auto simp: globals_def holds_def)

lemma after_call_spec:
  assumes "globals st ms"
  shows "after_call (Open f mode h) ms = (if f = None \<or> and mode RTLD_GLOBAL = 0 then ms else spec_add True h ms)"
    and "after_call (Close h r) ms = (if r = 0 then spec_rem h ms else ms)"
  using globals_distinct [OF assms] globals_nonzero [OF assms]
  by (auto simp: spec_add_def spec_rem_def distinct_remove1_removeAll remove1_idem)

lemma calls_globals:
  "calls api (dl_start [] w) cs st \<Longrightarrow> short_pointers api \<Longrightarrow> globals st (opening_order cs) \<and> dl_mallocs st = []"
proof (induction rule: calls.induct)
  case no_call
  show ?case using globals_start [of "[]"] by (simp add: opening_order_def) (simp add: dl_start_def)
next
  case (open_call cs st f mode h st')
  then have g: "globals st (opening_order cs)" "dl_mallocs st = []" by blast+
  then have "has_memory st" by (simp add: has_memory_def)
  then show ?case
    using dlopen_globals [OF g(1) open_call.prems, of f mode] open_call.hyps(2) g(2)
    by (auto simp: opening_order_snoc after_call_spec(1) [OF g(1)] simp del: after_call.simps split: if_splits)
next
  case (close_call cs st h r st')
  then have g: "globals st (opening_order cs)" "dl_mallocs st = []" by blast+
  then show ?case
    using dlclose_globals [OF g(1) close_call.prems, of h] close_call.hyps(2)
    by (simp add: opening_order_snoc after_call_spec(2) [OF g(1)] del: after_call.simps)
next
  case (sym_call cs st h name s st')
  then show ?case using dlsym_globals [of st "opening_order cs" api h name] by auto
next
  case (error_call cs st)
  then show ?case by (simp add: dlerror_def)
qed

section \<open>Properties\<close>

text \<open>A system with the program as module 1 and a library as module 7; its state is the last error.\<close>

definition sample_api :: "nat winapi" where
  "sample_api =
     \<lparr>LoadLibraryEx = (\<lambda>p w. if p = ''m.dll'' then (7, w) else (0, 126)),
      FreeLibrary = (\<lambda>h w. (h = 7, if h = 7 then w else 126)),
      GetProcAddress = (\<lambda>h n w. if h = 7 \<and> n = ''run_tool'' then (70, w) else (0, 127)),
      GetModuleHandle = (\<lambda>w. (1, w)), CloseHandle = (\<lambda>h w. w), SetErrorMode = (\<lambda>m w. (0, w)), GetLastError = (\<lambda>w. w),
      FormatMessage = (\<lambda>c. ''The specified module could not be found.'' @ [c_cr, c_lf]), fmt_p = (\<lambda>p. ''0000000000000000'')\<rparr>"

lemma sample_api_laws: "short_pointers sample_api" "pure_lookup sample_api"
  by (simp_all add: short_pointers_def pure_lookup_def sample_api_def)

text \<open>
  C8: whatever calls were made before, every call of the wrapper ends, and its list of modules is never left:
  no freed object is read or freed again and the static first object is never freed. Pointers are printed
  with at most sixteen digits.
\<close>

theorem wrapper_calls_return:
  assumes "reachable api (dl_start as w) st" and "short_pointers api"
  shows "(\<exists>r. dlopen api f mode st = Some (Inr r)) \<and> (\<exists>r. dlclose api h st = Some (Inr r)) \<and>
         (\<exists>r. dlsym api k name st = Some (Inr r))"
proof -
  obtain ms where "globals st ms" using reachable_globals [OF assms] by blast
  then show ?thesis
    using dlopen_globals [of st ms api f mode] dlclose_globals [of st ms api h] dlsym_globals [of st ms api k name] assms(2) by blast
qed

theorem wrapper_calls_return_witness:
  "(\<exists>r. dlopen sample_api (Some ''m.dll'') RTLD_GLOBAL (dl_start [] 0) = Some (Inr r)) \<and>
   (\<exists>r. dlclose sample_api 7 (dl_start [] 0) = Some (Inr r)) \<and>
   (\<exists>r. dlsym sample_api 1 ''run_tool'' (dl_start [] 0) = Some (Inr r))"
  by (rule wrapper_calls_return [OF reachable.start sample_api_laws(1)])

text \<open>
  C14: after any sequence of calls, with memory available, \<open>dlsym\<close> with the handle of the program finds a symbol of the
  program itself or, if it has none of that name, that of the first module that has one among those opened with
  \<open>RTLD_GLOBAL\<close> and not closed since, in the order in which the calls opened them.
\<close>

theorem dlsym_finds_first_global:
  assumes "calls api (dl_start [] w) cs st" and "short_pointers api" and "pure_lookup api"
    and "h \<noteq> 0" and "fst (GetModuleHandle api (dl_world st)) = h"
  shows "\<exists>st'. dlsym api h name st =
           Some (Inr (first_symbol (lookup api name (dl_world st)) (h # opening_order cs), st'))"
  using dlsym_globals [OF calls_globals [OF assms(1,2), THEN conjunct1], of api h name] assms(3-5) by auto

text \<open>A system with three libraries, of which the last two have the symbol.\<close>

definition three_api :: "nat winapi" where
  "three_api = sample_api\<lparr>
     LoadLibraryEx := (\<lambda>p w. if p = ''a.dll'' then (7, w) else if p = ''b.dll'' then (8, w) else if p = ''c.dll'' then (9, w) else (0, 126)),
     GetProcAddress := (\<lambda>h n w. if h \<in> {8, 9} \<and> n = ''run_tool'' then (10 * h, w) else (0, 127))\<rparr>"

lemma three_api_laws: "short_pointers three_api" "pure_lookup three_api"
  by (auto simp: short_pointers_def pure_lookup_def three_api_def sample_api_def)

definition open_next :: "nat dl_state \<Rightarrow> string \<Rightarrow> nat dl_state" where
  "open_next st f = (case dlopen three_api (Some f) RTLD_GLOBAL st of Some (Inr (h, st')) \<Rightarrow> st' | _ \<Rightarrow> st)"

lemma open_next_call:
  assumes "calls three_api (dl_start [] 0) cs st"
    and "map_option (map_sum id fst) (dlopen three_api (Some f) RTLD_GLOBAL st) = Some (Inr h)"
  shows "calls three_api (dl_start [] 0) (cs @ [Open (Some f) RTLD_GLOBAL h]) (open_next st f)"
proof -
  obtain st' where o: "dlopen three_api (Some f) RTLD_GLOBAL st = Some (Inr (h, st'))"
    using assms(2)
    by (cases "dlopen three_api (Some f) RTLD_GLOBAL st"; cases "the (dlopen three_api (Some f) RTLD_GLOBAL st)") auto
  then show ?thesis using calls.open_call [OF assms(1) o] by (simp add: open_next_def)
qed

declare search_from.simps [code] last_from.simps [code]

abbreviation three_opened :: "nat dl_state" where
  "three_opened \<equiv> open_next (open_next (open_next (dl_start [] 0) ''b.dll'') ''a.dll'') ''c.dll''"

theorem dlsym_finds_first_global_witness:
  "\<exists>st'. dlsym three_api 1 ''run_tool'' three_opened = Some (Inr (80, st'))"
proof -
  let ?cs = "[Open (Some ''b.dll'') RTLD_GLOBAL 8, Open (Some ''a.dll'') RTLD_GLOBAL 7, Open (Some ''c.dll'') RTLD_GLOBAL 9]"
  have "calls three_api (dl_start [] 0) ((([] @ [Open (Some ''b.dll'') RTLD_GLOBAL 8]) @ [Open (Some ''a.dll'') RTLD_GLOBAL 7]) @
          [Open (Some ''c.dll'') RTLD_GLOBAL 9]) three_opened"
    by (intro open_next_call calls.no_call) code_simp+
  then have c: "calls three_api (dl_start [] 0) ?cs three_opened" by simp
  have "fst (GetModuleHandle three_api (dl_world three_opened)) = 1"
    "first_symbol (lookup three_api ''run_tool'' (dl_world three_opened)) (1 # opening_order ?cs) = 80" by code_simp+
  then show ?thesis
    using dlsym_finds_first_global [OF c three_api_laws, of 1 "''run_tool''"] by simp
qed

text \<open>
  C27: when a library cannot be loaded, \<open>dlopen\<close> returns NULL, the next \<open>dlerror\<close> gives the path between quotes and the
  message of the system without its line end, and the one after it gives NULL.
\<close>

theorem failed_open_reported_once:
  assumes "globals st ms" and "fst (LoadLibraryEx api (win_path f) (snd (SetErrorMode api SEM_FAILCRITICALERRORS (dl_world st)))) = 0"
    and "GetLastError api (snd (LoadLibraryEx api (win_path f) (snd (SetErrorMode api SEM_FAILCRITICALERRORS (dl_world st))))) = code"
    and "code \<noteq> 0" and "FormatMessage api code = text @ [c_cr, c_lf]" and "length text < 60000"
  shows "\<exists>st'. dlopen api (Some f) mode st = Some (Inr (0, st')) \<and>
               fst (dlerror st') = Some ([c_dquote] @ win_path f @ [c_dquote] @ '': '' @ text) \<and>
               fst (dlerror (snd (dlerror st'))) = None"
proof -
  define st1 where "st1 = st\<lparr>current_error := False, dl_world := snd (LoadLibraryEx api (win_path f) (snd (SetErrorMode api SEM_FAILCRITICALERRORS (dl_world st))))\<rparr>"
  have len: "length (win_path f) < 260" by (simp add: win_path_def MAX_PATH_def)
  have "save_err_str api (win_path f) st1 =
    st1\<lparr>error_buffer := [c_dquote] @ win_path f @ [c_dquote] @ '': '' @ text, current_error := True\<rparr>"
    using assms(3-6) len by (simp add: save_err_str_def st1_def copy_string_def ERR_SIZE_def Let_def nth_append)
  then show ?thesis using assms(2) by (simp add: dlopen_def win_simps dlerror_def st1_def)
qed

theorem failed_open_reported_once_witness:
  "\<exists>st'. dlopen sample_api (Some ''lib/x.dll'') RTLD_LOCAL (dl_start [] 0) = Some (Inr (0, st')) \<and>
         fst (dlerror st') = Some ([c_dquote] @ ''lib'' @ [CHR 0x5C] @ ''x.dll'' @ [c_dquote] @ '': '' @ ''The specified module could not be found.'') \<and>
         fst (dlerror (snd (dlerror st'))) = None"
proof -
  have p: "win_path ''lib/x.dll'' = ''lib'' @ [CHR 0x5C] @ ''x.dll''" by code_simp
  show ?thesis
    using failed_open_reported_once [OF globals_start, of sample_api "''lib/x.dll''" "[]" 0 126 "''The specified module could not be found.''" RTLD_LOCAL] p
    by (simp add: sample_api_def dl_start_def)
qed

text \<open>
  A library that was opened twice with \<open>RTLD_GLOBAL\<close> is no longer a global one after it was closed once, although it is
  still open.
\<close>

lemma closed_once_not_global:
  assumes "globals st ms" and "h \<noteq> 0" and "dlopen api (Some f) RTLD_GLOBAL st = Some (Inr (h, st1))"
    and "dlopen api (Some f) RTLD_GLOBAL st1 = Some (Inr (h, st2))" and "dlclose api h st2 = Some (Inr (0, st3))" and "short_pointers api"
  shows "\<exists>ms'. globals st3 ms' \<and> h \<notin> set ms'"
proof -
  obtain ms1 where "globals st1 ms1" using dlopen_globals [OF assms(1,6), of "Some f" RTLD_GLOBAL] assms(3) by auto
  then obtain ms2 where g2: "globals st2 ms2" using dlopen_globals [OF _ assms(6), of st1 ms1 "Some f" RTLD_GLOBAL] assms(4) by auto
  obtain b st' where w: "win (FreeLibrary api h) (st2\<lparr>current_error := False\<rparr>) = (b, st')" by fastforce
  have g': "globals st' ms2" using globals_win [OF w] g2 by simp
  have b: "b" using assms(5) w save_err_ptr_str_ok [OF assms(6), of h st'] by (cases b) (auto simp: dlclose_def)
  obtain st4 where r: "global_rem h st' = Some (Inr st4)" using gl.rem_rep [OF g'] by blast
  then have "st4 = st3" using assms(5) w b by (simp add: dlclose_def)
  then show ?thesis using gl.removed_once [OF g' assms(2) r] by auto
qed

end
