(* ===== verification/Sparse_Diag.thy ===== *)
theory Sparse_Diag
  imports C_Lib
begin

text \<open>
  The messages of the sparse library (src/sparse-0.4.1/lib.c): \<open>info\<close>, \<open>warning\<close>, \<open>sparse_error\<close> and their limits. The message
  is the text the format gives; \<open>vsprintf\<close> writes it into a buffer of 512 characters without a bound.
\<close>

section \<open>State\<close>

record position =
  pos_stream :: nat
  pos_line :: nat
  pos_pos :: nat

text \<open>What was written to the standard error stream: for each line the type of the message and the line.\<close>

record diag =
  max_warnings :: int
  show_info :: bool
  die_if_error :: bool
  error_count :: int
  once :: bool
  printed :: "(string \<times> string) list"

definition diag_start :: diag where
  "diag_start = \<lparr>max_warnings = 100, show_info = True, die_if_error = False, error_count = 0, once = False, printed = []\<rparr>"

section \<open>Operations\<close>

definition do_warn :: "(nat \<Rightarrow> string) \<Rightarrow> string \<Rightarrow> position \<Rightarrow> string \<Rightarrow> diag \<Rightarrow> diag res" where
  "do_warn stream_name type pos text st =
     (if length text > 511 then Inl Out_Of_Bounds
      else Inr (st\<lparr>printed := printed st @
             [(type, stream_name (pos_stream pos) @ '':'' @ fmt_d (int (pos_line pos)) @ '':'' @ fmt_d (int (pos_pos pos)) @
                     '': '' @ type @ text @ [c_lf])]\<rparr>))"

definition info :: "(nat \<Rightarrow> string) \<Rightarrow> position \<Rightarrow> string \<Rightarrow> diag \<Rightarrow> diag res" where
  "info stream_name pos text st = (if \<not> show_info st then Inr st else do_warn stream_name [] pos text st)"

definition warning :: "(nat \<Rightarrow> string) \<Rightarrow> position \<Rightarrow> string \<Rightarrow> diag \<Rightarrow> diag res" where
  "warning stream_name pos text st =
     (if max_warnings st = 0 then Inr (st\<lparr>show_info := False\<rparr>)
      else if max_warnings st - 1 = 0
      then do_warn stream_name ''warning: '' pos ''too many warnings'' (st\<lparr>max_warnings := max_warnings st - 1, show_info := False\<rparr>)
      else do_warn stream_name ''warning: '' pos text (st\<lparr>max_warnings := max_warnings st - 1\<rparr>))"

definition do_error :: "(nat \<Rightarrow> string) \<Rightarrow> position \<Rightarrow> string \<Rightarrow> diag \<Rightarrow> diag res" where
  "do_error stream_name pos text st =
     (let st1 = st\<lparr>die_if_error := True, show_info := True, max_warnings := 0\<rparr>
      in if error_count st1 > 100
         then let st2 = st1\<lparr>show_info := False\<rparr>
              in if once st2 then Inr st2
                 else rbind (do_warn stream_name ''error: '' pos ''too many errors'' (st2\<lparr>once := True\<rparr>))
                        (\<lambda>st3. Inr (st3\<lparr>error_count := error_count st3 + 1\<rparr>))
         else rbind (do_warn stream_name ''error: '' pos text st1) (\<lambda>st2. Inr (st2\<lparr>error_count := error_count st2 + 1\<rparr>)))"

definition sparse_error :: "(nat \<Rightarrow> string) \<Rightarrow> position \<Rightarrow> string \<Rightarrow> diag \<Rightarrow> diag res" where
  "sparse_error stream_name pos text st = do_error stream_name pos text st"

text \<open>\<open>error_die\<close> prints and ends the process with status 1; the result is the state at the end.\<close>

definition error_die :: "(nat \<Rightarrow> string) \<Rightarrow> position \<Rightarrow> string \<Rightarrow> diag \<Rightarrow> (int \<times> diag) res" where
  "error_die stream_name pos text st = rbind (do_warn stream_name ''error: '' pos text st) (\<lambda>st1. Inr (1, st1))"

section \<open>Sequences of messages\<close>

datatype message = Info position string | Warning position string | Error position string

fun send :: "(nat \<Rightarrow> string) \<Rightarrow> message \<Rightarrow> diag \<Rightarrow> diag res" where
  "send stream_name (Info pos text) st = info stream_name pos text st"
| "send stream_name (Warning pos text) st = warning stream_name pos text st"
| "send stream_name (Error pos text) st = sparse_error stream_name pos text st"

fun message_text :: "message \<Rightarrow> string" where
  "message_text (Info pos text) = text"
| "message_text (Warning pos text) = text"
| "message_text (Error pos text) = text"

fun is_warning :: "message \<Rightarrow> bool" where
  "is_warning (Warning pos text) = True"
| "is_warning (Info pos text) = False"
| "is_warning (Error pos text) = False"

fun is_error :: "message \<Rightarrow> bool" where
  "is_error (Error pos text) = True"
| "is_error (Info pos text) = False"
| "is_error (Warning pos text) = False"

definition errors_in :: "message list \<Rightarrow> nat" where
  "errors_in ms = length (filter is_error ms)"

text \<open>The warnings before the first error.\<close>

definition early_warnings :: "message list \<Rightarrow> nat" where
  "early_warnings ms = length (filter is_warning (takeWhile (\<lambda>m. \<not> is_error m) ms))"

definition lines_of :: "string \<Rightarrow> diag \<Rightarrow> nat" where
  "lines_of type st = length (filter (\<lambda>(t, l). t = type) (printed st))"

text \<open>The variables after the messages \<open>ms\<close>.\<close>

definition after_messages :: "message list \<Rightarrow> diag \<Rightarrow> bool" where
  "after_messages ms st \<longleftrightarrow>
     lines_of ''warning: '' st = min 100 (early_warnings ms) \<and> lines_of ''error: '' st = min 102 (errors_in ms) \<and>
     max_warnings st = (if errors_in ms = 0 then 100 - int (min 100 (early_warnings ms)) else 0) \<and>
     error_count st = int (min 102 (errors_in ms)) \<and> once st = (errors_in ms \<ge> 102) \<and> die_if_error st = (errors_in ms > 0)"

lemma errors_in_snoc [simp]: "errors_in (ms @ [m]) = errors_in ms + (if is_error m then 1 else 0)"
  by (simp add: errors_in_def)

lemma early_warnings_snoc [simp]:
  "early_warnings (ms @ [m]) = early_warnings ms + (if errors_in ms = 0 \<and> is_warning m then 1 else 0)"
proof (cases "errors_in ms = 0")
  case True
  then have "\<forall>x\<in>set ms. \<not> is_error x" by (simp add: errors_in_def filter_empty_conv)
  then have 1: "takeWhile (\<lambda>m. \<not> is_error m) ms = ms"
    and 2: "takeWhile (\<lambda>m. \<not> is_error m) (ms @ [m]) = ms @ takeWhile (\<lambda>m. \<not> is_error m) [m]" by (simp_all add: takeWhile_append2)
  show ?thesis using True unfolding early_warnings_def 1 2 by (cases m) simp_all
next
  case False
  then have "\<exists>x\<in>set ms. is_error x" by (auto simp: errors_in_def filter_empty_conv)
  then show ?thesis using False by (auto simp: early_warnings_def takeWhile_append1)
qed

lemma send_after:
  assumes "after_messages ms st" and "length (message_text m) \<le> 511"
  shows "\<exists>st1. send sn m st = Inr st1 \<and> after_messages (ms @ [m]) st1"
proof (cases m)
  case (Info pos body)
  then show ?thesis using assms by (auto simp: info_def do_warn_def after_messages_def lines_of_def)
next
  case (Warning pos body)
  then show ?thesis using assms by (auto simp: warning_def do_warn_def after_messages_def lines_of_def min_def split: if_splits)
next
  case (Error pos body)
  then show ?thesis using assms by (auto simp: sparse_error_def do_error_def do_warn_def after_messages_def lines_of_def Let_def min_def split: if_splits)
qed

lemma send_all_after:
  assumes "\<forall>m\<in>set ms. length (message_text m) \<le> 511"
  shows "\<exists>st. rfold (send sn) ms diag_start = Inr st \<and> after_messages ms st"
  using assms
proof (induction ms rule: rev_induct)
  case Nil
  then show ?case by (simp add: diag_start_def after_messages_def lines_of_def errors_in_def early_warnings_def)
next
  case (snoc m ms)
  then obtain st where "rfold (send sn) ms diag_start = Inr st" "after_messages ms st" by auto
  then show ?case using send_after [of ms st m sn] snoc.prems by (auto simp: rfold_append)
qed

section \<open>Property\<close>

text \<open>
  C33: whatever messages shorter than the buffer the library is asked for, it prints the warnings
  before the first error up to the hundredth, which says that there are too many, none behind an error, and at most
  102 errors; \<open>die_if_error\<close> says whether there was an error.
\<close>

theorem messages_are_limited:
  assumes "\<forall>m\<in>set ms. length (message_text m) \<le> 511"
  shows "\<exists>st. rfold (send stream_name) ms diag_start = Inr st \<and>
              lines_of ''warning: '' st = min 100 (early_warnings ms) \<and> lines_of ''error: '' st = min 102 (errors_in ms) \<and>
              die_if_error st = (errors_in ms > 0)"
  using send_all_after [OF assms, of stream_name] by (auto simp: after_messages_def)

definition some_messages :: "message list" where
  "some_messages =
     (let p = \<lparr>pos_stream = 0, pos_line = 1, pos_pos = 2\<rparr>
      in [Warning p ''w1'', Info p ''i1'', Error p ''e1'', Warning p ''w2''])"

lemma messages_are_limited_witness:
  "\<exists>st. rfold (send (\<lambda>n. ''a.c'')) some_messages diag_start = Inr st \<and> lines_of ''warning: '' st = 1 \<and> lines_of ''error: '' st = 1 \<and>
        die_if_error st"
  using messages_are_limited [of some_messages "\<lambda>n. ''a.c''"]
  by (simp add: some_messages_def Let_def early_warnings_def errors_in_def)

end
