(* ===== verification/Sparse_Ptrlist.thy ===== *)
theory Sparse_Ptrlist
  imports C_Lib
begin

text \<open>
  src/sparse-0.4.1/ptrlist.c and ptrlist.h: the lists of pointers in which the parser hands the front end its
  symbols, statements, arguments and files. A list is a ring of blocks of up to 29 pointers, doubly linked; the
  blocks are on an explicit heap. A pointer is a \<open>64 word\<close>, whose two low bits carry a tag. \<open>__alloc_ptrlist\<close> gives a new
  block of zeros; when there is no memory it ends the process, which is not shown. \<open>None\<close> as the address of a block is
  NULL, and as the result of a loop it says that the loop does not end.
\<close>

unbundle bit_operations_syntax

section \<open>Blocks\<close>

type_synonym ptr = "64 word"

definition LIST_NODE_NR :: nat where "LIST_NODE_NR = 29"

record ptr_list =
  nr :: int
  prev :: "nat option"
  next_block :: "nat option"
  slots :: "ptr list"

record pl_heap =
  pl_blocks :: "nat \<Rightarrow> ptr_list option"
  pl_fresh :: nat

text \<open>A block is read or a member of it is written.\<close>

definition block :: "nat option \<Rightarrow> pl_heap \<Rightarrow> ptr_list res" where
  "block p h =
     (case p of
        None \<Rightarrow> Inl Null_Deref
      | Some a \<Rightarrow> (case pl_blocks h a of None \<Rightarrow> Inl Use_After_Free | Some b \<Rightarrow> Inr b))"

definition set_block :: "nat option \<Rightarrow> (ptr_list \<Rightarrow> ptr_list) \<Rightarrow> pl_heap \<Rightarrow> pl_heap res" where
  "set_block p f h =
     (case p of
        None \<Rightarrow> Inl Null_Deref
      | Some a \<Rightarrow>
          (case pl_blocks h a of
             None \<Rightarrow> Inl Use_After_Free
           | Some b \<Rightarrow> Inr (h\<lparr>pl_blocks := (pl_blocks h)(a \<mapsto> f b)\<rparr>)))"

definition alloc_ptrlist :: "pl_heap \<Rightarrow> nat option \<times> pl_heap" where
  "alloc_ptrlist h =
     (Some (pl_fresh h),
      h\<lparr>pl_fresh := pl_fresh h + 1,
        pl_blocks := (pl_blocks h)(pl_fresh h \<mapsto> \<lparr>nr = 0, prev = None, next_block = None, slots = replicate LIST_NODE_NR 0\<rparr>)\<rparr>)"

definition free_ptrlist :: "nat option \<Rightarrow> pl_heap \<Rightarrow> pl_heap res" where
  "free_ptrlist p h =
     (case p of
        None \<Rightarrow> Inl Null_Deref
      | Some a \<Rightarrow>
          (case pl_blocks h a of
             None \<Rightarrow> Inl Use_After_Free
           | Some b \<Rightarrow> Inr (h\<lparr>pl_blocks := (pl_blocks h)(a := None)\<rparr>)))"

text \<open>An index into the array of a block has to be inside it.\<close>

definition get_slot :: "ptr list \<Rightarrow> int \<Rightarrow> ptr res" where
  "get_slot xs i = (if 0 \<le> i \<and> nat i < length xs then Inr (xs ! nat i) else Inl Out_Of_Bounds)"

definition put_slot :: "int \<Rightarrow> ptr \<Rightarrow> ptr list \<Rightarrow> ptr list res" where
  "put_slot i w xs = (if 0 \<le> i \<and> nat i < length xs then Inr (xs[nat i := w]) else Inl Out_Of_Bounds)"

text \<open>\<open>PTR_ENTRY\<close> takes the tag off; \<open>PTR_ENTRY_NOTAG\<close> leaves it on.\<close>

definition untag :: "ptr \<Rightarrow> ptr" where
  "untag w = NOT 3 AND w"

section \<open>Size and contents\<close>

definition ptr_list_empty :: "nat option \<Rightarrow> bool" where
  "ptr_list_empty l \<longleftrightarrow> l = None"

partial_function (option) size_loop :: "nat option \<Rightarrow> nat option \<Rightarrow> int \<Rightarrow> pl_heap \<Rightarrow> int res option" where
  "size_loop head l n h =
     (case block l h of
        Inl u \<Rightarrow> Some (Inl u)
      | Inr b \<Rightarrow>
          if next_block b = head then Some (Inr (n + nr b)) else size_loop head (next_block b) (n + nr b) h)"

definition ptr_list_size :: "nat option \<Rightarrow> pl_heap \<Rightarrow> int res option" where
  "ptr_list_size head h = (if head = None then Some (Inr 0) else size_loop head head 0 h)"

text \<open>\<open>memcpy\<close> of the first \<open>i\<close> pointers of a block; the pointers that were written are the result of the loop.\<close>

definition first_slots :: "int \<Rightarrow> ptr_list \<Rightarrow> ptr list res" where
  "first_slots i b = (if 0 \<le> i \<and> nat i \<le> length (slots b) then Inr (take (nat i) (slots b)) else Inl Out_Of_Bounds)"

partial_function (option) linearize_loop ::
  "nat option \<Rightarrow> nat option \<Rightarrow> int \<Rightarrow> ptr list \<Rightarrow> pl_heap \<Rightarrow> ptr list res option" where
  "linearize_loop head l mx arr h =
     (case block l h of
        Inl u \<Rightarrow> Some (Inl u)
      | Inr b \<Rightarrow>
          (let i = (if nr b > mx then mx else nr b)
           in case first_slots i b of
                Inl u \<Rightarrow> Some (Inl u)
              | Inr ws \<Rightarrow>
                  if mx - i = 0 \<or> next_block b = head then Some (Inr (arr @ ws))
                  else linearize_loop head (next_block b) (mx - i) (arr @ ws) h))"

definition linearize_ptr_list :: "nat option \<Rightarrow> int \<Rightarrow> pl_heap \<Rightarrow> (int \<times> ptr list) res option" where
  "linearize_ptr_list head mx h =
     (if head \<noteq> None \<and> mx > 0
      then obind (linearize_loop head head mx [] h) (\<lambda>arr. Some (Inr (int (length arr), arr)))
      else Some (Inr (0, [])))"

definition first_ptr_list :: "nat option \<Rightarrow> pl_heap \<Rightarrow> ptr res" where
  "first_ptr_list l h =
     (if l = None then Inr 0 else rbind (block l h) (\<lambda>b. rbind (get_slot (slots b) 0) (\<lambda>w. Inr (untag w))))"

definition last_ptr_list :: "nat option \<Rightarrow> pl_heap \<Rightarrow> ptr res" where
  "last_ptr_list l h =
     (if l = None then Inr 0
      else rbind (block l h) (\<lambda>b. rbind (block (prev b) h) (\<lambda>p.
           rbind (get_slot (slots p) (nr p - 1)) (\<lambda>w. Inr (untag w)))))"

section \<open>Iteration\<close>

text \<open>
  The turn of a loop: the block and the index at its end, which the body may have moved, the variables of the body and
  the heap; or the loop was left with \<open>goto\<close>. A \<open>break\<close> in the body ends the turn only, because the body stands in two loops
  \<open>do { ... } while (0)\<close> of its own.
\<close>

datatype 'a turn = Turn "nat option" int 'a pl_heap | Leave 'a pl_heap

type_synonym 'a body = "nat option \<Rightarrow> int \<Rightarrow> ptr \<Rightarrow> 'a \<Rightarrow> pl_heap \<Rightarrow> 'a turn res"

text \<open>\<open>FOR_EACH_PTR\<close> and \<open>FOR_EACH_PTR_NOTAG\<close>, by the function \<open>ent\<close> on the entry. \<open>True\<close> says that the loop was left.\<close>

partial_function (option) for_each_loop ::
  "(ptr \<Rightarrow> ptr) \<Rightarrow> 'a body \<Rightarrow> nat option \<Rightarrow> nat option \<Rightarrow> int \<Rightarrow> 'a \<Rightarrow> pl_heap \<Rightarrow> (bool \<times> 'a \<times> pl_heap) res option" where
  "for_each_loop ent body head l i x h =
     (case block l h of
        Inl u \<Rightarrow> Some (Inl u)
      | Inr b \<Rightarrow>
          if i < nr b
          then (case rbind (get_slot (slots b) i) (\<lambda>w. body l i (ent w) x h) of
                  Inl u \<Rightarrow> Some (Inl u)
                | Inr (Leave x1 h1) \<Rightarrow> Some (Inr (True, x1, h1))
                | Inr (Turn l1 i1 x1 h1) \<Rightarrow> for_each_loop ent body head l1 (i1 + 1) x1 h1)
          else if next_block b = head then Some (Inr (False, x, h))
          else for_each_loop ent body head (next_block b) 0 x h)"

definition for_each_ptr :: "(ptr \<Rightarrow> ptr) \<Rightarrow> 'a body \<Rightarrow> nat option \<Rightarrow> 'a \<Rightarrow> pl_heap \<Rightarrow> (bool \<times> 'a \<times> pl_heap) res option" where
  "for_each_ptr ent body head x h =
     (if head = None then Some (Inr (False, x, h)) else for_each_loop ent body head head 0 x h)"

text \<open>\<open>FOR_EACH_PTR_REVERSE\<close>: \<open>i\<close> is the index before \<open>--__nr\<close>.\<close>

partial_function (option) reverse_loop ::
  "(ptr \<Rightarrow> ptr) \<Rightarrow> 'a body \<Rightarrow> nat option \<Rightarrow> nat option \<Rightarrow> int \<Rightarrow> 'a \<Rightarrow> pl_heap \<Rightarrow> (bool \<times> 'a \<times> pl_heap) res option" where
  "reverse_loop ent body head l i x h =
     (case block l h of
        Inl u \<Rightarrow> Some (Inl u)
      | Inr b \<Rightarrow>
          if i - 1 \<ge> 0
          then (case rbind (get_slot (slots b) (i - 1)) (\<lambda>w. body l (i - 1) (ent w) x h) of
                  Inl u \<Rightarrow> Some (Inl u)
                | Inr (Leave x1 h1) \<Rightarrow> Some (Inr (True, x1, h1))
                | Inr (Turn l1 i1 x1 h1) \<Rightarrow> reverse_loop ent body head l1 i1 x1 h1)
          else if l = head then Some (Inr (False, x, h))
          else (case block (prev b) h of
                  Inl u \<Rightarrow> Some (Inl u)
                | Inr p \<Rightarrow> reverse_loop ent body head (prev b) (nr p) x h))"

definition for_each_ptr_reverse ::
  "(ptr \<Rightarrow> ptr) \<Rightarrow> 'a body \<Rightarrow> nat option \<Rightarrow> 'a \<Rightarrow> pl_heap \<Rightarrow> (bool \<times> 'a \<times> pl_heap) res option" where
  "for_each_ptr_reverse ent body head x h =
     (if head = None then Some (Inr (False, x, h))
      else case rbind (block head h) (\<lambda>b. rbind (block (prev b) h) (\<lambda>p. Inr (prev b, nr p))) of
             Inl u \<Rightarrow> Some (Inl u)
           | Inr (l, n) \<Rightarrow> reverse_loop ent body head l n x h)"

text \<open>\<open>PREPARE_PTR_LIST\<close> and \<open>NEXT_PTR_LIST\<close>: the block, the index and the current pointer, 0 at the end.\<close>

definition prepare_ptr_list :: "nat option \<Rightarrow> pl_heap \<Rightarrow> (nat option \<times> int \<times> ptr) res" where
  "prepare_ptr_list head h = rbind (first_ptr_list head h) (\<lambda>w. Inr (head, 0, w))"

definition next_ptr_list :: "nat option \<Rightarrow> pl_heap \<Rightarrow> nat option \<times> int \<times> ptr \<Rightarrow> (nat option \<times> int \<times> ptr) res" where
  "next_ptr_list head h cur =
     (case cur of
        (l, i, w) \<Rightarrow>
          if w = 0 then Inr cur
          else rbind (block l h) (\<lambda>b.
                 if i + 1 < nr b then rbind (get_slot (slots b) (i + 1)) (\<lambda>v. Inr (l, i + 1, untag v))
                 else if next_block b = head then Inr (next_block b, i + 1, 0)
                 else rbind (first_ptr_list (next_block b) h) (\<lambda>v. Inr (next_block b, 0, v))))"

text \<open>\<open>RESET_PTR_LIST\<close> leaves the pointer alone when there is no list; \<open>RECURSE_PTR_REVERSE\<close> goes back from the entry before the cursor.\<close>

definition reset_ptr_list :: "nat option \<Rightarrow> pl_heap \<Rightarrow> ptr \<Rightarrow> (nat option \<times> int \<times> ptr) res" where
  "reset_ptr_list head h w = (if head = None then Inr (head, 0, w) else prepare_ptr_list head h)"

definition recurse_ptr_reverse ::
  "(ptr \<Rightarrow> ptr) \<Rightarrow> 'a body \<Rightarrow> nat option \<Rightarrow> nat option \<Rightarrow> int \<Rightarrow> 'a \<Rightarrow> pl_heap \<Rightarrow> (bool \<times> 'a \<times> pl_heap) res option" where
  "recurse_ptr_reverse ent body head l i x h = reverse_loop ent body head l i x h"

section \<open>Changes\<close>

text \<open>The garbage that \<open>memset\<close> and the macros leave in slots that are no longer used.\<close>

definition junk :: ptr where "junk = 0xf0f0f0f0f0f0f0f0"
definition deleted :: ptr where "deleted = 0xf0f0f0f0"
definition undone :: ptr where "undone = 0xf1f1f1f1"

definition split_ptr_list_head :: "nat option \<Rightarrow> pl_heap \<Rightarrow> pl_heap res" where
  "split_ptr_list_head head h =
     rbind (block head h) (\<lambda>b.
       let n = nr b div 2; old = nr b - n; next = next_block b
       in case alloc_ptrlist h of
            (newlist, h1) \<Rightarrow>
              rbind (set_block head (\<lambda>b. b\<lparr>nr := old\<rparr>) h1) (\<lambda>h2.
              rbind (set_block newlist (\<lambda>b. b\<lparr>next_block := next\<rparr>) h2) (\<lambda>h3.
              rbind (set_block next (\<lambda>b. b\<lparr>prev := newlist\<rparr>) h3) (\<lambda>h4.
              rbind (set_block newlist (\<lambda>b. b\<lparr>prev := head\<rparr>) h4) (\<lambda>h5.
              rbind (set_block head (\<lambda>b. b\<lparr>next_block := newlist\<rparr>) h5) (\<lambda>h6.
              rbind (block head h6) (\<lambda>b6.
                if 0 \<le> old \<and> 0 \<le> n \<and> nat (old + n) \<le> length (slots b6)
                then rbind (set_block newlist (\<lambda>c. c\<lparr>nr := n,
                              slots := take (nat n) (drop (nat old) (slots b6)) @ drop (nat n) (slots c)\<rparr>) h6)
                       (set_block head (\<lambda>c. c\<lparr>slots := take (nat old) (slots c) @ replicate (nat n) junk @
                              drop (nat (old + n)) (slots c)\<rparr>))
                else Inl Out_Of_Bounds)))))))"

text \<open>\<open>__add_ptr_list\<close>; the address of the entry, which it returns and which nobody uses, is left out.\<close>

definition add_ptr_list_tag :: "nat option \<Rightarrow> ptr \<Rightarrow> ptr \<Rightarrow> pl_heap \<Rightarrow> (nat option \<times> pl_heap) res" where
  "add_ptr_list_tag l p tag h =
     (if 3 AND p \<noteq> 0 \<or> NOT 3 AND tag \<noteq> 0 then Inl Aborted
      else rbind (if l = None then Inr (True, None)
                  else rbind (block l h) (\<lambda>b. rbind (block (prev b) h) (\<lambda>p. Inr (nr p \<ge> int LIST_NODE_NR, prev b)))) (\<lambda>(grow, last).
           rbind (if \<not> grow then Inr (l, last, h)
                  else case alloc_ptrlist h of
                         (newlist, h1) \<Rightarrow>
                           if l = None
                           then rbind (set_block newlist (\<lambda>b. b\<lparr>next_block := newlist\<rparr>) h1) (\<lambda>h2.
                                rbind (set_block newlist (\<lambda>b. b\<lparr>prev := newlist\<rparr>) h2) (\<lambda>h3. Inr (newlist, newlist, h3)))
                           else rbind (set_block newlist (\<lambda>b. b\<lparr>prev := last\<rparr>) h1) (\<lambda>h2.
                                rbind (set_block newlist (\<lambda>b. b\<lparr>next_block := l\<rparr>) h2) (\<lambda>h3.
                                rbind (set_block l (\<lambda>b. b\<lparr>prev := newlist\<rparr>) h3) (\<lambda>h4.
                                rbind (set_block last (\<lambda>b. b\<lparr>next_block := newlist\<rparr>) h4) (\<lambda>h5. Inr (l, newlist, h5)))))) (\<lambda>(l1, last1, h1).
           rbind (block last1 h1) (\<lambda>b.
           rbind (put_slot (nr b) (tag OR p) (slots b)) (\<lambda>ws.
           rbind (set_block last1 (\<lambda>b. b\<lparr>slots := ws, nr := nr b + 1\<rparr>) h1) (\<lambda>h2. Inr (l1, h2)))))))"

definition add_ptr_list :: "nat option \<Rightarrow> ptr \<Rightarrow> pl_heap \<Rightarrow> (nat option \<times> pl_heap) res" where
  "add_ptr_list l p h = add_ptr_list_tag l p 0 h"

definition add_ptr_list_notag :: "nat option \<Rightarrow> ptr \<Rightarrow> pl_heap \<Rightarrow> (nat option \<times> pl_heap) res" where
  "add_ptr_list_notag l p h = add_ptr_list_tag l (p AND NOT 3) (p AND 3) h"

text \<open>
  \<open>pack_ptr_list\<close>: empty blocks are taken out. After an empty head the loop starts again with the new head, without looking
  at its condition.
\<close>

partial_function (option) pack_loop :: "nat option \<Rightarrow> nat option \<Rightarrow> pl_heap \<Rightarrow> (nat option \<times> pl_heap) res option" where
  "pack_loop head entry h =
     (case block entry h of
        Inl u \<Rightarrow> Some (Inl u)
      | Inr b \<Rightarrow>
          if nr b \<noteq> 0
          then if next_block b = head then Some (Inr (head, h)) else pack_loop head (next_block b) h
          else if next_block b = entry
          then Some (rbind (free_ptrlist entry h) (\<lambda>h1. Inr (None, h1)))
          else (case rbind (set_block (prev b) (\<lambda>c. c\<lparr>next_block := next_block b\<rparr>) h) (\<lambda>h1.
                     rbind (set_block (next_block b) (\<lambda>c. c\<lparr>prev := prev b\<rparr>) h1) (free_ptrlist entry)) of
                  Inl u \<Rightarrow> Some (Inl u)
                | Inr h2 \<Rightarrow>
                    if entry = head then pack_loop (next_block b) (next_block b) h2
                    else if next_block b = head then Some (Inr (head, h2))
                    else pack_loop head (next_block b) h2))"

definition pack_ptr_list :: "nat option \<Rightarrow> pl_heap \<Rightarrow> (nat option \<times> pl_heap) res option" where
  "pack_ptr_list l h = (if l = None then Some (Inr (None, h)) else pack_loop l l h)"

text \<open>The loops of the macros that move the entries behind the current one.\<close>

function shift_up :: "int \<Rightarrow> int \<Rightarrow> ptr list \<Rightarrow> ptr list res" where
  "shift_up this final xs =
     (if final \<ge> this
      then rbind (get_slot xs final) (\<lambda>w. rbind (put_slot (final + 1) w xs) (shift_up this (final - 1)))
      else Inr xs)"
  by pat_completeness auto
termination by (relation "measure (\<lambda>(this, final, xs). nat (final + 1 - this))") auto

declare shift_up.simps [simp del]

function shift_down :: "int \<Rightarrow> int \<Rightarrow> ptr list \<Rightarrow> ptr list res" where
  "shift_down this final xs =
     (if this < final
      then rbind (get_slot xs (this + 1)) (\<lambda>w. rbind (put_slot this w xs) (shift_down (this + 1) final))
      else put_slot this deleted xs)"
  by pat_completeness auto
termination by (relation "measure (\<lambda>(this, final, xs). nat (final - this))") auto

declare shift_down.simps [simp del]

text \<open>\<open>INSERT_CURRENT\<close>, \<open>DELETE_CURRENT_PTR\<close> and \<open>REPLACE_CURRENT_PTR\<close> at a block and an index; the first two move the cursor.\<close>

definition insert_current :: "ptr \<Rightarrow> nat option \<Rightarrow> int \<Rightarrow> pl_heap \<Rightarrow> (nat option \<times> int \<times> pl_heap) res" where
  "insert_current new l i h =
     rbind (block l h) (\<lambda>b.
     rbind (if nr b = int LIST_NODE_NR
            then rbind (split_ptr_list_head l h) (\<lambda>h1.
                 rbind (block l h1) (\<lambda>b1.
                   Inr (if i \<ge> nr b1 then (next_block b1, i - nr b1, h1) else (l, i, h1))))
            else Inr (l, i, h)) (\<lambda>(l1, i1, h1).
     rbind (block l1 h1) (\<lambda>b1.
     rbind (shift_up i1 (nr b1 - 1) (slots b1)) (\<lambda>ws.
     rbind (put_slot i1 new ws) (\<lambda>ws1.
     rbind (set_block l1 (\<lambda>c. c\<lparr>slots := ws1, nr := nr c + 1\<rparr>) h1) (\<lambda>h2. Inr (l1, i1, h2)))))))"

definition delete_current_ptr :: "nat option \<Rightarrow> int \<Rightarrow> pl_heap \<Rightarrow> (int \<times> pl_heap) res" where
  "delete_current_ptr l i h =
     rbind (block l h) (\<lambda>b.
     rbind (shift_down i (nr b - 1) (slots b)) (\<lambda>ws.
     rbind (set_block l (\<lambda>c. c\<lparr>slots := ws, nr := nr c - 1\<rparr>) h) (\<lambda>h1. Inr (i - 1, h1))))"

definition replace_current_ptr :: "ptr \<Rightarrow> nat option \<Rightarrow> int \<Rightarrow> pl_heap \<Rightarrow> pl_heap res" where
  "replace_current_ptr new l i h =
     rbind (block l h) (\<lambda>b. rbind (put_slot i new (slots b)) (\<lambda>ws. set_block l (\<lambda>c. c\<lparr>slots := ws\<rparr>) h))"

text \<open>The tag of the entry at the cursor: \<open>tag_ptr\<close>, \<open>CURRENT_TAG\<close> and \<open>TAG_CURRENT\<close> with \<open>update_tag\<close>.\<close>

definition tag_ptr :: "ptr \<Rightarrow> ptr \<Rightarrow> ptr" where
  "tag_ptr p tag = tag OR p"

definition current_tag :: "nat option \<Rightarrow> int \<Rightarrow> pl_heap \<Rightarrow> ptr res" where
  "current_tag l i h = rbind (block l h) (\<lambda>b. rbind (get_slot (slots b) i) (\<lambda>w. Inr (3 AND w)))"

definition tag_current :: "ptr \<Rightarrow> nat option \<Rightarrow> int \<Rightarrow> pl_heap \<Rightarrow> pl_heap res" where
  "tag_current tag l i h =
     rbind (block l h) (\<lambda>b.
     rbind (get_slot (slots b) i) (\<lambda>w.
     rbind (put_slot i (tag OR (NOT 3 AND w)) (slots b)) (\<lambda>ws. set_block l (\<lambda>c. c\<lparr>slots := ws\<rparr>) h)))"

section \<open>Operations on entries\<close>

text \<open>The body has the counter as its variable; the loop is left when it becomes 0, and the assertion is skipped.\<close>

definition delete_body :: "ptr \<Rightarrow> int body" where
  "delete_body entry l i p cnt h =
     (if p = entry
      then rbind (delete_current_ptr l i h) (\<lambda>(i1, h1).
             Inr (if cnt - 1 = 0 then Leave (cnt - 1) h1 else Turn l i1 (cnt - 1) h1))
      else Inr (Turn l i cnt h))"

definition delete_ptr_list_entry :: "nat option \<Rightarrow> ptr \<Rightarrow> int \<Rightarrow> pl_heap \<Rightarrow> (int \<times> nat option \<times> pl_heap) res option" where
  "delete_ptr_list_entry l entry cnt h =
     obind (for_each_ptr untag (delete_body entry) l cnt h) (\<lambda>(left, cnt1, h1).
       if \<not> left \<and> \<not> cnt1 \<le> 0 then Some (Inl Aborted)
       else obind (pack_ptr_list l h1) (\<lambda>(l1, h2). Some (Inr (cnt1, l1, h2))))"

definition replace_body :: "ptr \<Rightarrow> ptr \<Rightarrow> int body" where
  "replace_body old_ptr new_ptr l i p cnt h =
     (if p = old_ptr
      then rbind (replace_current_ptr new_ptr l i h) (\<lambda>h1.
             Inr (if cnt - 1 = 0 then Leave (cnt - 1) h1 else Turn l i (cnt - 1) h1))
      else Inr (Turn l i cnt h))"

definition replace_ptr_list_entry :: "nat option \<Rightarrow> ptr \<Rightarrow> ptr \<Rightarrow> int \<Rightarrow> pl_heap \<Rightarrow> (int \<times> pl_heap) res option" where
  "replace_ptr_list_entry l old_ptr new_ptr cnt h =
     obind (for_each_ptr untag (replace_body old_ptr new_ptr) l cnt h) (\<lambda>(left, cnt1, h1).
       if \<not> left \<and> \<not> cnt1 \<le> 0 then Some (Inl Aborted) else Some (Inr (cnt1, h1)))"

text \<open>The last entry, with its tag; 0 if there is none. Blocks that become empty stay.\<close>

partial_function (option) undo_loop :: "nat option \<Rightarrow> nat option \<Rightarrow> pl_heap \<Rightarrow> (ptr \<times> pl_heap) res option" where
  "undo_loop first crt h =
     (case rbind (block crt h) (\<lambda>b. rbind (block (prev b) h) (\<lambda>p. Inr (prev b, p))) of
        Inl u \<Rightarrow> Some (Inl u)
      | Inr (l, b) \<Rightarrow>
          if nr b \<noteq> 0
          then Some (rbind (get_slot (slots b) (nr b - 1)) (\<lambda>w.
                     rbind (put_slot (nr b - 1) undone (slots b)) (\<lambda>ws.
                     rbind (set_block l (\<lambda>c. c\<lparr>slots := ws, nr := nr c - 1\<rparr>) h) (\<lambda>h1. Inr (w, h1)))))
          else if l = first then Some (Inr (0, h)) else undo_loop first l h)"

definition undo_ptr_list_last :: "nat option \<Rightarrow> pl_heap \<Rightarrow> (ptr \<times> pl_heap) res option" where
  "undo_ptr_list_last head h = (if head = None then Some (Inr (0, h)) else undo_loop head head h)"

definition delete_ptr_list_last :: "nat option \<Rightarrow> pl_heap \<Rightarrow> (ptr \<times> nat option \<times> pl_heap) res" where
  "delete_ptr_list_last head h =
     (if head = None then Inr (0, head, h)
      else rbind (block head h) (\<lambda>f.
           rbind (block (prev f) h) (\<lambda>b.
           rbind (if nr b \<noteq> 0
                  then rbind (get_slot (slots b) (nr b - 1)) (\<lambda>w.
                       rbind (set_block (prev f) (\<lambda>c. c\<lparr>nr := nr c - 1\<rparr>) h) (\<lambda>h1. Inr (w, nr b - 1, h1)))
                  else Inr (0, nr b, h)) (\<lambda>(w, n, h1).
             if n \<le> 0
             then rbind (set_block head (\<lambda>c. c\<lparr>prev := prev b\<rparr>) h1) (\<lambda>h2.
                  rbind (block (prev f) h2) (\<lambda>b2.
                  rbind (set_block (prev b2) (\<lambda>c. c\<lparr>next_block := head\<rparr>) h2) (\<lambda>h3.
                  rbind (free_ptrlist (prev f) h3) (\<lambda>h4. Inr (w, if prev f = head then None else head, h4)))))
             else Inr (w, head, h1)))))"

definition concat_body :: "nat option body" where
  "concat_body l i entry b h = rbind (add_ptr_list b entry h) (\<lambda>(b1, h1). Inr (Turn l i b1 h1))"

definition concat_ptr_list :: "nat option \<Rightarrow> nat option \<Rightarrow> pl_heap \<Rightarrow> (nat option \<times> pl_heap) res option" where
  "concat_ptr_list a b h =
     obind (for_each_ptr untag concat_body a b h) (\<lambda>(left, b1, h1). Some (Inr (b1, h1)))"

partial_function (option) free_loop :: "nat option \<Rightarrow> pl_heap \<Rightarrow> pl_heap res option" where
  "free_loop l h =
     (if l = None then Some (Inr h)
      else case rbind (block l h) (\<lambda>b. rbind (free_ptrlist l h) (\<lambda>h1. Inr (next_block b, h1))) of
             Inl u \<Rightarrow> Some (Inl u)
           | Inr (next, h1) \<Rightarrow> free_loop next h1)"

definition free_ptr_list :: "nat option \<Rightarrow> pl_heap \<Rightarrow> (nat option \<times> pl_heap) res option" where
  "free_ptr_list l h =
     (if l = None then Some (Inr (None, h))
      else obind (Some (rbind (block l h) (\<lambda>b. set_block (prev b) (\<lambda>c. c\<lparr>next_block := None\<rparr>) h))) (\<lambda>h1.
           obind (free_loop l h1) (\<lambda>h2. Some (Inr (None, h2)))))"

end
