(* ===== verification/Sparse_Lib.thy ===== *)
theory Sparse_Lib
  imports Sparse_Ptrlist
begin

text \<open>
  src/sparse-0.4.1/lib.c: the command line of the sparse library, which the front end calls with the files it is to check.
  \<open>sparse_initialize\<close> walks over the arguments, puts the files on a list of pointers and what the options ask for into
  variables and into a buffer of preprocessor lines, which it reads before all files.

  A pointer into \<open>argv\<close> is an index; behind the last argument there is a NULL pointer, and a read behind that is out of
  bounds. \<open>die\<close> ends the process with a message.
\<close>

section \<open>Results\<close>

datatype lib_stop = Ub ub | Die string

type_synonym 'a lrun = "lib_stop + 'a"

fun lbind :: "'a lrun \<Rightarrow> ('a \<Rightarrow> 'b lrun) \<Rightarrow> 'b lrun" where
  "lbind (Inl u) f = Inl u"
| "lbind (Inr x) f = f x"

lemma lbind_cong [fundef_cong]: "m = m' \<Longrightarrow> (\<And>x. m' = Inr x \<Longrightarrow> f x = g x) \<Longrightarrow> lbind m f = lbind m' g"
  by (cases m') auto

fun lift :: "'a res \<Rightarrow> 'a lrun" where
  "lift (Inl u) = Inl (Ub u)"
| "lift (Inr x) = Inr x"

fun lfold :: "('x \<Rightarrow> 's \<Rightarrow> 's lrun) \<Rightarrow> 'x list \<Rightarrow> 's \<Rightarrow> 's lrun" where
  "lfold f [] s = Inr s"
| "lfold f (x # xs) s = lbind (f x s) (lfold f xs)"

text \<open>The buffer of \<open>die\<close> has 512 characters.\<close>

definition die :: "string \<Rightarrow> 'a lrun" where
  "die text = Inl (Die (take 511 text))"

text \<open>The character at an index of a string: NUL at its end.\<close>

definition chr :: "string \<Rightarrow> nat \<Rightarrow> char" where
  "chr s i = (if i < length s then s ! i else c_nul)"

section \<open>State\<close>

datatype ctype = uint_ctype | int_ctype | ulong_ctype | long_ctype

type_synonym warning_entry = "string \<times> int"

record lib =
  argv :: "string list"
  pre_buffer :: string
  pre_buffer_size :: nat
  preprocess_only :: bool
  cmdline_include :: "(string \<times> int) list"
  verbose :: int
  optimize :: int
  optimize_size :: bool
  warnings :: "warning_entry list"
  debugs :: "warning_entry list"
  bits_in_long :: int
  max_int_alignment :: int
  bits_in_pointer :: int
  pointer_alignment :: int
  size_t_ctype :: ctype
  ssize_t_ctype :: ctype
  gcc_major :: int
  gcc_minor :: int
  gcc_patchlevel :: int
  filelist :: "nat option"
  lists :: pl_heap

text \<open>What \<open>open\<close> gives for a file, and where the arguments are in memory.\<close>

record lib_env =
  open_fd :: "string \<Rightarrow> int"
  arg_ptr :: "nat \<Rightarrow> ptr"

definition PRE_BUFFER :: nat where "PRE_BUFFER = 8192"
definition CMDLINE_INCLUDE :: nat where "CMDLINE_INCLUDE = 20"

definition WARNING_OFF :: int where "WARNING_OFF = 0"
definition WARNING_ON :: int where "WARNING_ON = 1"
definition WARNING_FORCE_OFF :: int where "WARNING_FORCE_OFF = 2"

text \<open>The table of the warnings with the values their variables have at the start.\<close>

definition default_warnings :: "warning_entry list" where
  "default_warnings =
     [(''address-space'', 1), (''bitwise'', 0), (''cast-to-as'', 0), (''cast-truncate'', 1), (''context'', 1), (''decl'', 1),
      (''default-bitfield-sign'', 0), (''do-while'', 0), (''enum-mismatch'', 1), (''non-pointer-null'', 1),
      (''old-initializer'', 1), (''one-bit-signed-bitfield'', 1), (''paren-string'', 0), (''ptr-subtraction-blows'', 0),
      (''return-void'', 0), (''shadow'', 0), (''transparent-union'', 1), (''typesign'', 0), (''undef'', 0), (''uninitialized'', 1)]"

definition default_debugs :: "warning_entry list" where
  "default_debugs = [(''entry'', 0), (''dead'', 0)]"

text \<open>The variables at the start; the version of the compiler comes from its macros.\<close>

definition lib_start :: "string list \<Rightarrow> int \<times> int \<times> int \<Rightarrow> pl_heap \<Rightarrow> lib" where
  "lib_start as gcc h =
     \<lparr>argv = as, pre_buffer = [], pre_buffer_size = 0, preprocess_only = False, cmdline_include = [], verbose = 0, optimize = 0,
      optimize_size = False, warnings = default_warnings, debugs = default_debugs, bits_in_long = 32, max_int_alignment = 4,
      bits_in_pointer = 32, pointer_alignment = 4, size_t_ctype = uint_ctype, ssize_t_ctype = int_ctype,
      gcc_major = fst gcc, gcc_minor = fst (snd gcc), gcc_patchlevel = snd (snd gcc), filelist = None, lists = h\<rparr>"

text \<open>\<open>*p\<close> for a pointer into \<open>argv\<close>.\<close>

definition arg_at :: "string list \<Rightarrow> nat \<Rightarrow> string option lrun" where
  "arg_at as i = (if i < length as then Inr (Some (as ! i)) else if i = length as then Inr None else Inl (Ub Out_Of_Bounds))"

section \<open>The lines for the preprocessor\<close>

text \<open>
  \<open>pre_buffer_size\<close> counts what \<open>vsnprintf\<close> would have written, also when there was no room for it. The buffer is the list of
  its bytes up to the last one written; the bytes behind it are 0.
\<close>

definition add_pre_buffer :: "string \<Rightarrow> lib \<Rightarrow> lib lrun" where
  "add_pre_buffer text st =
     (let size = pre_buffer_size st; room = PRE_BUFFER - size; put = take (room - 1) text
      in if size > PRE_BUFFER then Inl (Ub Out_Of_Bounds)
         else Inr (st\<lparr>pre_buffer := (if room = 0 then pre_buffer st
                                   else take size (pre_buffer st) @ put @ [c_nul] @ drop (size + length put + 1) (pre_buffer st)),
                      pre_buffer_size := size + length text\<rparr>))"

section \<open>Options\<close>

type_synonym handler = "string \<Rightarrow> nat \<Rightarrow> lib \<Rightarrow> (nat \<times> lib) lrun"

abbreviation go_on :: "nat \<Rightarrow> lib lrun \<Rightarrow> (nat \<times> lib) lrun" where
  "go_on next r \<equiv> lbind r (\<lambda>st. Inr (next, st))"

text \<open>The argument ends at the first space or equals sign, which is overwritten with NUL in \<open>argv\<close>.\<close>

definition ends_name :: "char \<Rightarrow> bool" where
  "ends_name c \<longleftrightarrow> c_isspace c \<or> c = CHR ''=''"

definition handle_switch_D :: handler where
  "handle_switch_D arg next st =
     (let name = takeWhile (\<lambda>c. \<not> ends_name c) (tl arg);
          rest = dropWhile (\<lambda>c. \<not> ends_name c) (tl arg);
          value = (if rest = [] then ''1'' else tl rest);
          st1 = (if rest = [] then st else st\<lparr>argv := (argv st)[next := CHR ''-'' # take 1 arg @ name]\<rparr>)
      in go_on next (add_pre_buffer (''#define '' @ name @ '' '' @ value @ [c_lf]) st1))"

definition handle_switch_E :: handler where
  "handle_switch_E arg next st = Inr (next, if chr arg 1 = c_nul then st\<lparr>preprocess_only := True\<rparr> else st)"

text \<open>A line with a path in quotes.\<close>

definition path_line :: "string \<Rightarrow> string \<Rightarrow> string" where
  "path_line directive path = directive @ '' '' @ [c_dquote] @ path @ ''/'' @ [c_dquote, c_lf]"

definition handle_switch_I :: handler where
  "handle_switch_I arg next st =
     (if chr arg 1 = CHR ''-'' then go_on next (add_pre_buffer (''#split_include'' @ [c_lf]) st)
      else if chr arg 1 = c_nul
      then lbind (arg_at (argv st) (next + 1)) (\<lambda>path.
             case path of
               None \<Rightarrow> die ''missing argument for -I option''
             | Some p \<Rightarrow> go_on (next + 1) (add_pre_buffer (path_line ''#add_include'' p) st))
      else go_on next (add_pre_buffer (path_line ''#add_include'' (tl arg)) st))"

text \<open>\<open>open\<close> and \<open>perror\<close> are given a NULL pointer when there is no argument: \<open>open\<close> fails.\<close>

definition add_cmdline_include :: "lib_env \<Rightarrow> string option \<Rightarrow> lib \<Rightarrow> lib lrun" where
  "add_cmdline_include env filename st =
     (case filename of
        None \<Rightarrow> Inr st
      | Some f \<Rightarrow>
          if open_fd env f < 0 then Inr st
          else if length (cmdline_include st) \<ge> CMDLINE_INCLUDE then die (''too many include files for '' @ f @ [c_lf])
          else Inr (st\<lparr>cmdline_include := cmdline_include st @ [(f, open_fd env f)]\<rparr>))"

definition handle_switch_i :: "lib_env \<Rightarrow> handler" where
  "handle_switch_i env arg next st =
     lbind (arg_at (argv st) next) (\<lambda>here.
       if here \<noteq> None \<and> (arg = ''include'' \<or> arg = ''imacros'')
       then lbind (arg_at (argv st) (next + 1)) (\<lambda>f. go_on (next + 1) (add_cmdline_include env f st))
       else if here \<noteq> None \<and> arg = ''isystem''
       then lbind (arg_at (argv st) (next + 1)) (\<lambda>path.
              case path of
                None \<Rightarrow> die ''missing argument for -isystem option''
              | Some p \<Rightarrow> go_on (next + 1) (add_pre_buffer (path_line ''#add_isystem'' p) st))
       else Inr (next, st))"

definition handle_switch_M :: handler where
  "handle_switch_M arg next st =
     (if arg = ''MF'' \<or> arg = ''MQ'' \<or> arg = ''MT''
      then lbind (arg_at (argv st) next) (\<lambda>here.
             if here = None then die (''missing argument for -'' @ arg @ '' option'') else Inr (next + 1, st))
      else Inr (next, st))"

definition handle_switch_m :: handler where
  "handle_switch_m arg next st =
     Inr (next,
       if arg = ''m64''
       then st\<lparr>bits_in_long := 64, max_int_alignment := 8, bits_in_pointer := 64, pointer_alignment := 8,
               size_t_ctype := ulong_ctype, ssize_t_ctype := long_ctype\<rparr>
       else if arg = ''msize-long'' then st\<lparr>size_t_ctype := ulong_ctype, ssize_t_ctype := long_ctype\<rparr>
       else st)"

definition handle_switch_o :: handler where
  "handle_switch_o arg next st =
     (if arg = ''o'' then lbind (arg_at (argv st) next) (\<lambda>here. Inr (if here \<noteq> None then next + 1 else next, st))
      else Inr (next, st))"

text \<open>
  \<open>handle_onoff_switch\<close> on a table of names and flags. \<open>True\<close> says that the name was found; else it returns NULL.
\<close>

fun set_flag :: "string \<Rightarrow> int \<Rightarrow> warning_entry list \<Rightarrow> bool \<times> warning_entry list" where
  "set_flag p flag [] = (False, [])"
| "set_flag p flag ((name, v) # ws) =
     (if p = name then (True, (name, flag) # ws) else case set_flag p flag ws of (found, ws1) \<Rightarrow> (found, (name, v) # ws1))"

definition all_on :: "warning_entry list \<Rightarrow> warning_entry list" where
  "all_on ws = map (\<lambda>(name, v). (name, if v \<noteq> WARNING_FORCE_OFF then WARNING_ON else v)) ws"

definition handle_onoff_switch :: "string \<Rightarrow> warning_entry list \<Rightarrow> bool \<times> warning_entry list" where
  "handle_onoff_switch arg ws =
     (let p = tl arg;
          ws1 = (if p = ''all'' then all_on ws else ws)
      in if chr p 0 = CHR ''n'' \<and> chr p 1 = CHR ''o''
         then set_flag (if chr (drop 2 p) 0 = CHR ''-'' then drop 3 p else drop 2 p) WARNING_FORCE_OFF ws1
         else set_flag p WARNING_ON ws1)"

definition handle_switch_W :: handler where
  "handle_switch_W arg next st = Inr (next, st\<lparr>warnings := snd (handle_onoff_switch arg (warnings st))\<rparr>)"

definition handle_switch_v :: handler where
  "handle_switch_v arg next st =
     (case handle_onoff_switch arg (debugs st) of
        (found, ds) \<Rightarrow>
          Inr (next,
            if found then st\<lparr>debugs := ds\<rparr>
            else st\<lparr>debugs := ds, verbose := verbose st + 1 + int (length (takeWhile (\<lambda>c. c = CHR ''v'') (tl arg)))\<rparr>))"

definition handle_onoff_switch_finalize :: "warning_entry list \<Rightarrow> warning_entry list" where
  "handle_onoff_switch_finalize ws = map (\<lambda>(name, v). (name, if v = WARNING_FORCE_OFF then WARNING_OFF else v)) ws"

definition handle_switch_W_finalize :: "lib \<Rightarrow> lib" where
  "handle_switch_W_finalize st = st\<lparr>warnings := handle_onoff_switch_finalize (warnings st)\<rparr>"

definition handle_switch_v_finalize :: "lib \<Rightarrow> lib" where
  "handle_switch_v_finalize st = st\<lparr>debugs := handle_onoff_switch_finalize (debugs st)\<rparr>"

definition handle_switch_U :: handler where
  "handle_switch_U arg next st = go_on next (add_pre_buffer (''#undef '' @ tl arg @ [c_lf]) st)"

definition handle_switch_O :: handler where
  "handle_switch_O arg next st =
     (let c = chr arg 1
      in Inr (next, st\<lparr>optimize := (if c_isdigit c then digit_val c else 1), optimize_size := (c = CHR ''s'')\<rparr>))"

text \<open>The switch is parsed and ignored.\<close>

definition handle_switch_f :: handler where
  "handle_switch_f arg next st = Inr (next, st)"

definition handle_switch_G :: handler where
  "handle_switch_G arg next st =
     (if arg = ''G'' then lbind (arg_at (argv st) next) (\<lambda>here. Inr (if here \<noteq> None then next + 1 else next, st))
      else Inr (next, st))"

definition handle_nostdinc :: handler where
  "handle_nostdinc arg next st = go_on next (add_pre_buffer (''#nostdinc'' @ [c_lf]) st)"

definition handle_dirafter :: handler where
  "handle_dirafter arg next st =
     lbind (arg_at (argv st) (next + 1)) (\<lambda>path.
       case path of
         None \<Rightarrow> die ''missing argument for -dirafter option''
       | Some p \<Rightarrow> go_on (next + 1) (add_pre_buffer (path_line ''#add_dirafter'' p) st))"

definition handle_switch :: "lib_env \<Rightarrow> handler" where
  "handle_switch env arg next st =
     (let c = chr arg 0
      in if c = CHR ''D'' then handle_switch_D arg next st
         else if c = CHR ''E'' then handle_switch_E arg next st
         else if c = CHR ''I'' then handle_switch_I arg next st
         else if c = CHR ''i'' then handle_switch_i env arg next st
         else if c = CHR ''M'' then handle_switch_M arg next st
         else if c = CHR ''m'' then handle_switch_m arg next st
         else if c = CHR ''o'' then handle_switch_o arg next st
         else if c = CHR ''U'' then handle_switch_U arg next st
         else if c = CHR ''v'' then handle_switch_v arg next st
         else if c = CHR ''W'' then handle_switch_W arg next st
         else if c = CHR ''O'' then handle_switch_O arg next st
         else if c = CHR ''f'' then handle_switch_f arg next st
         else if c = CHR ''G'' then handle_switch_G arg next st
         else if arg = ''nostdinc'' then handle_nostdinc arg next st
         else if arg = ''dirafter'' then handle_dirafter arg next st
         else Inr (next, st))"

section \<open>The lines that are always there\<close>

definition builtin_functions :: "string list" where
  "builtin_functions =
     [''extern void *__builtin_memcpy(void *, const void *, __SIZE_TYPE__);'',
      ''extern void *__builtin_mempcpy(void *, const void *, __SIZE_TYPE__);'',
      ''extern void *__builtin_memset(void *, int, __SIZE_TYPE__);'',
      ''extern int __builtin_memcmp(const void *, const void *, __SIZE_TYPE__);'',
      ''extern char *__builtin_strcat(char *, const char *);'',
      ''extern char *__builtin_strncat(char *, const char *, __SIZE_TYPE__);'',
      ''extern int __builtin_strcmp(const char *, const char *);'',
      ''extern char *__builtin_strchr(const char *, int);'',
      ''extern char *__builtin_strcpy(char *, const char *);'',
      ''extern char *__builtin_strncpy(char *, const char *, __SIZE_TYPE__);'',
      ''extern __SIZE_TYPE__ __builtin_strspn(const char *, const char *);'',
      ''extern __SIZE_TYPE__ __builtin_strcspn(const char *, const char *);'',
      ''extern char * __builtin_strpbrk(const char *, const char *);'',
      ''extern __SIZE_TYPE__ __builtin_strlen(const char *);'',
      ''extern void *__builtin_return_address(unsigned int);'',
      ''extern void *__builtin_extract_return_addr(void *);'',
      ''extern void *__builtin_frame_address(unsigned int);'',
      ''extern void __builtin_trap(void);'',
      ''extern int __builtin_ffs(int);'',
      ''extern void *__builtin_alloca(__SIZE_TYPE__);'',
      ''extern int __builtin_popcount(unsigned int);'',
      ''extern int __builtin_popcountl(unsigned long);'',
      ''extern void __builtin_prefetch (const void *, ...);'',
      ''extern long __builtin_alpha_extbl(long, long);'',
      ''extern long __builtin_alpha_extwl(long, long);'',
      ''extern long __builtin_alpha_insbl(long, long);'',
      ''extern long __builtin_alpha_inswl(long, long);'',
      ''extern long __builtin_alpha_insql(long, long);'',
      ''extern long __builtin_alpha_inslh(long, long);'',
      ''extern long __builtin_alpha_cmpbge(long, long);'',
      ''extern long __builtin_labs(long);'']"

definition declare_builtin_functions :: "lib \<Rightarrow> lib lrun" where
  "declare_builtin_functions st = lfold add_pre_buffer (map (\<lambda>t. t @ [c_lf]) builtin_functions) st"

definition builtin_stream :: "lib \<Rightarrow> string list" where
  "builtin_stream st =
     [''#weak_define __GNUC__ '' @ fmt_d (gcc_major st),
      ''#weak_define __GNUC_MINOR__ '' @ fmt_d (gcc_minor st),
      ''#weak_define __GNUC_PATCHLEVEL__ '' @ fmt_d (gcc_patchlevel st),
      ''#define __extension__'',
      ''#define __pragma__'',
      if size_t_ctype st = ulong_ctype then ''#weak_define __SIZE_TYPE__ long unsigned int''
      else ''#weak_define __SIZE_TYPE__ unsigned int'',
      ''#weak_define __STDC__ 1'',
      ''#define __builtin_stdarg_start(a,b) ((a) = (__builtin_va_list)(&(b)))'',
      ''#define __builtin_va_start(a,b) ((a) = (__builtin_va_list)(&(b)))'',
      ''#define __builtin_va_arg(arg,type)  ({ type __va_arg_ret = *(type *)(arg); arg += sizeof(type); __va_arg_ret; })'',
      ''#define __builtin_va_alist (*(void *)0)'',
      ''#define __builtin_va_arg_incr(x) ((x) + 1)'',
      ''#define __builtin_va_copy(dest, src) ({ dest = src; (void)0; })'',
      ''#define __builtin_va_end(arg)'',
      ''#define __BASE_FILE__ '' @ [c_dquote] @ ''base_file.c'' @ [c_dquote]] @
     (if optimize st \<noteq> 0 then [''#define __OPTIMIZE__ 1''] else []) @
     (if optimize_size st then [''#define __OPTIMIZE_SIZE__ 1''] else [])"

definition create_builtin_stream :: "lib \<Rightarrow> lib lrun" where
  "create_builtin_stream st = lfold add_pre_buffer (map (\<lambda>t. t @ [c_lf]) (builtin_stream st)) st"

section \<open>Reading the arguments\<close>

text \<open>A handler never moves back, and the number of arguments stays.\<close>

lemma add_pre_buffer_argv: "add_pre_buffer t st = Inr st1 \<Longrightarrow> argv st1 = argv st"
  by (auto simp: add_pre_buffer_def Let_def split: if_splits)

lemma lbind_Inr_iff: "lbind m f = Inr y \<longleftrightarrow> (\<exists>x. m = Inr x \<and> f x = Inr y)"
  by (cases m) auto

lemmas handler_defs =
  handle_switch_D_def handle_switch_E_def handle_switch_I_def handle_switch_i_def handle_switch_M_def handle_switch_m_def
  handle_switch_o_def handle_switch_U_def handle_switch_v_def handle_switch_W_def handle_switch_O_def handle_switch_f_def
  handle_switch_G_def handle_nostdinc_def handle_dirafter_def

lemma add_cmdline_include_argv: "add_cmdline_include env f st = Inr st1 \<Longrightarrow> argv st1 = argv st"
  by (auto simp: add_cmdline_include_def die_def split: option.splits if_splits)

lemma handle_switch_moves:
  assumes "handle_switch env arg next st = Inr (next1, st1)"
  shows "next \<le> next1 \<and> length (argv st1) = length (argv st)"
proof -
  note add = add_pre_buffer_argv [THEN arg_cong [where f = length]] add_cmdline_include_argv [THEN arg_cong [where f = length]]
  show ?thesis
    using assms unfolding handle_switch_def Let_def
    by (auto simp: handler_defs Let_def lbind_Inr_iff die_def dest!: add split: if_splits option.splits prod.splits)
qed

function args_loop :: "lib_env \<Rightarrow> nat \<Rightarrow> lib \<Rightarrow> lib lrun" where
  "args_loop env args st =
     lbind (arg_at (argv st) (args + 1)) (\<lambda>a.
       case a of
         None \<Rightarrow> Inr st
       | Some arg \<Rightarrow>
           if chr arg 0 = CHR ''-'' \<and> chr arg 1 \<noteq> c_nul
           then lbind (handle_switch env (tl arg) (args + 1) st) (\<lambda>(args1, st1). args_loop env args1 st1)
           else lbind (lift (add_ptr_list_notag (filelist st) (arg_ptr env (args + 1)) (lists st))) (\<lambda>(l, h).
                  args_loop env (args + 1) (st\<lparr>filelist := l, lists := h\<rparr>)))"
  by pat_completeness auto
termination
proof (relation "measure (\<lambda>(env, args, st). length (argv st) - args)", goal_cases)
  case (2 env args st a arg p args1 st1)
  then show ?case using handle_switch_moves [of env "tl arg" "args + 1" st args1 st1] by (auto simp: arg_at_def split: if_splits)
next
  case (3 env args st a arg p l h)
  then show ?case by (auto simp: arg_at_def split: if_splits)
qed simp

declare args_loop.simps [simp del]

text \<open>
  The tokens that are read before all files: those of the buffer, then those of the files of \<open>-include\<close>, which are put in
  front of each other from the last one to the first. \<open>tokenize_buffer\<close> reads as many bytes as \<open>pre_buffer_size\<close> says.
\<close>

datatype source = Buffer string | Include string int

fun include_loop :: "(string \<times> int) list \<Rightarrow> nat \<Rightarrow> source list \<Rightarrow> source list" where
  "include_loop incs 0 token = token"
| "include_loop incs (Suc i) token = include_loop incs i (Include (fst (incs ! i)) (snd (incs ! i)) # token)"

definition sparse_initial :: "lib \<Rightarrow> source list lrun" where
  "sparse_initial st =
     (if pre_buffer_size st > PRE_BUFFER then Inl (Ub Out_Of_Bounds)
      else Inr (Buffer (take (pre_buffer_size st) (pre_buffer st)) #
                include_loop (cmdline_include st) (length (cmdline_include st)) []))"

text \<open>
  \<open>ptr_list_empty(filelist)\<close> is given the address of the variable with the list, which is not NULL: what follows is always
  done. The result is the state and the tokens that are parsed.
\<close>

definition lib_sparse_initialize :: "lib_env \<Rightarrow> lib \<Rightarrow> (lib \<times> source list) lrun" where
  "lib_sparse_initialize env st =
     lbind (args_loop env 0 st) (\<lambda>st1.
     lbind (create_builtin_stream (handle_switch_v_finalize (handle_switch_W_finalize st1))) (\<lambda>st2.
     lbind (add_pre_buffer (''#define __CHECKER__ 1'' @ [c_lf]) st2) (\<lambda>st3.
     lbind (if preprocess_only st3 then Inr st3 else declare_builtin_functions st3) (\<lambda>st4.
     lbind (sparse_initial st4) (\<lambda>srcs. Inr (st4, srcs))))))"

end
