(* ===== verification/Sparse_Ptrlist_Facts.thy ===== *)
theory Sparse_Ptrlist_Facts
  imports Sparse_Ptrlist
begin

text \<open>
  The rings of blocks of src/sparse-0.4.1/ptrlist.c as sequences of pointers: each operation ends, stays inside the blocks and
  does to the sequence what it should. A ring is a segment of linked blocks from its head back to its head.
\<close>

section \<open>Segments and rings\<close>

type_synonym blocks = "nat \<Rightarrow> ptr_list option"

definition linked :: "blocks \<Rightarrow> nat \<Rightarrow> nat \<Rightarrow> nat \<Rightarrow> bool" where
  "linked m p a q \<longleftrightarrow>
     (case m a of
        None \<Rightarrow> False
      | Some b \<Rightarrow> prev b = Some p \<and> next_block b = Some q \<and> 0 \<le> nr b \<and> nr b \<le> 29 \<and> length (slots b) = 29)"

text \<open>The blocks \<open>bs\<close> between the blocks \<open>p\<close> and \<open>q\<close>.\<close>

fun seg :: "blocks \<Rightarrow> nat \<Rightarrow> nat list \<Rightarrow> nat \<Rightarrow> bool" where
  "seg m p [] q = True"
| "seg m p (a # as) q \<longleftrightarrow> linked m p a (case as of [] \<Rightarrow> q | c # cs \<Rightarrow> c) \<and> seg m a as q"

definition ring :: "blocks \<Rightarrow> nat list \<Rightarrow> bool" where
  "ring m bs \<longleftrightarrow> bs \<noteq> [] \<and> distinct bs \<and> seg m (last bs) bs (hd bs)"

definition entries :: "ptr_list \<Rightarrow> ptr list" where
  "entries b = take (nat (nr b)) (slots b)"

definition contents :: "blocks \<Rightarrow> nat list \<Rightarrow> ptr list" where
  "contents m bs = concat (map (\<lambda>a. case m a of None \<Rightarrow> [] | Some b \<Rightarrow> entries b) bs)"

lemma contents_simps [simp]:
  "contents m [] = []" "contents m (as @ bs) = contents m as @ contents m bs"
  "m a = Some b \<Longrightarrow> contents m (a # as) = entries b @ contents m as"
  by (simp_all add: contents_def)

lemma linkedD:
  assumes "linked m p a q"
  obtains b where "m a = Some b" and "prev b = Some p" and "next_block b = Some q" and "0 \<le> nr b" and "nr b \<le> 29" and "length (slots b) = 29"
  using assms by (auto simp: linked_def split: option.splits)

lemma seg_append:
  "seg m p (as @ bs) q \<longleftrightarrow> seg m p as (case bs of [] \<Rightarrow> q | c # cs \<Rightarrow> c) \<and> seg m (if as = [] then p else last as) bs q"
  by (induction as arbitrary: p) (auto split: list.splits)

lemma seg_block: "seg m p bs q \<Longrightarrow> a \<in> set bs \<Longrightarrow> \<exists>b. m a = Some b"
  by (induction bs arbitrary: p) (auto simp: linked_def split: option.splits)

text \<open>Writing a block that is not in the segment, or without changing its links.\<close>

lemma linked_cong: "m a = m' a \<Longrightarrow> linked m p a q = linked m' p a q"
  by (simp add: linked_def)

lemma seg_cong: "\<forall>a\<in>set bs. m a = m' a \<Longrightarrow> seg m p bs q = seg m' p bs q"
proof (induction bs arbitrary: p)
  case (Cons a bs)
  then show ?case using linked_cong [of m a m'] by simp
qed simp

lemma contents_cong: "\<forall>a\<in>set bs. m a = m' a \<Longrightarrow> contents m bs = contents m' bs"
  by (simp add: contents_def cong: map_cong)

lemma ring_cong: "\<forall>a\<in>set bs. m a = m' a \<Longrightarrow> ring m bs = ring m' bs"
  using seg_cong [of bs m m' "last bs" "hd bs"] by (auto simp: ring_def)

lemma contents_upd: "m x = Some b \<Longrightarrow> entries c = entries b \<Longrightarrow> contents (m(x \<mapsto> c)) bs = contents m bs"
  by (auto simp: contents_def intro!: arg_cong [where f = concat] map_cong)

lemma entries_links [simp]: "entries (b\<lparr>prev := x\<rparr>) = entries b" "entries (b\<lparr>next_block := y\<rparr>) = entries b"
  by (simp_all add: entries_def)

lemma seg_upd_same:
  assumes "m a = Some b" and "prev c = prev b" and "next_block c = next_block b" and "0 \<le> nr c" and "nr c \<le> 29" and "length (slots c) = 29"
    and "seg m p bs q"
  shows "seg (m(a \<mapsto> c)) p bs q"
  using assms(7)
proof (induction bs arbitrary: p)
  case (Cons x bs)
  then show ?case using assms(1-6) by (auto simp: linked_def split: option.splits)
qed simp

lemma ring_upd_same:
  assumes "m a = Some b" and "prev c = prev b" and "next_block c = next_block b" and "0 \<le> nr c" and "nr c \<le> 29" and "length (slots c) = 29"
    and "ring m bs"
  shows "ring (m(a \<mapsto> c)) bs"
  using seg_upd_same [of m a b c "last bs" bs "hd bs"] assms by (simp add: ring_def)

lemma ring_two:
  "as \<noteq> [] \<Longrightarrow> bs \<noteq> [] \<Longrightarrow>
   ring m (as @ bs) \<longleftrightarrow> distinct (as @ bs) \<and> seg m (last bs) as (hd bs) \<and> seg m (last as) bs (hd as)"
  by (simp add: ring_def seg_append hd_append split: list.splits)

lemma ring_rotate: "ring m (as @ bs) \<longleftrightarrow> ring m (bs @ as)"
proof (cases "as = [] \<or> bs = []")
  case False
  then show ?thesis using ring_two [of as bs m] ring_two [of bs as m] by auto
qed auto

lemma ring_block:
  assumes "ring m (as @ a # bs)"
  obtains b where "m a = Some b" and "prev b = Some (last (a # bs @ as))" and "next_block b = Some (hd (bs @ as @ [a]))"
    and "0 \<le> nr b" and "nr b \<le> 29" and "length (slots b) = 29"
proof -
  have "ring m (a # bs @ as)" using assms ring_rotate [of m as "a # bs"] by simp
  then have "linked m (last (a # bs @ as)) a (case bs @ as of [] \<Rightarrow> a | c # cs \<Rightarrow> c)" by (simp add: ring_def)
  moreover have "(case bs @ as of [] \<Rightarrow> a | c # cs \<Rightarrow> c) = hd ((bs @ as) @ [a])" by (cases "bs @ as") auto
  ultimately have "linked m (last (a # bs @ as)) a (hd (bs @ as @ [a]))" by simp
  then show thesis using that by (rule linkedD)
qed

text \<open>The two ends of a segment.\<close>

lemma seg_set_prev:
  assumes "seg m p (a # as) q" and "a \<notin> set as" and "m a = Some b"
  shows "seg (m(a \<mapsto> b\<lparr>prev := Some p'\<rparr>)) p' (a # as) q"
proof -
  have "seg (m(a \<mapsto> b\<lparr>prev := Some p'\<rparr>)) a as q = seg m a as q" by (rule seg_cong) (use assms(2) in auto)
  then show ?thesis using assms by (auto simp: linked_def)
qed

lemma seg_set_next:
  assumes "seg m p (as @ [a]) q" and "a \<notin> set as" and "m a = Some b"
  shows "seg (m(a \<mapsto> b\<lparr>next_block := Some q'\<rparr>)) p (as @ [a]) q'"
proof -
  have "seg (m(a \<mapsto> b\<lparr>next_block := Some q'\<rparr>)) p as a = seg m p as a" by (rule seg_cong) (use assms(2) in auto)
  then show ?thesis using assms by (auto simp: linked_def seg_append)
qed

text \<open>A block is taken out of a ring, or put in behind its last block.\<close>

lemma ring_remove:
  assumes "ring m (e # ts)" and "ts \<noteq> []" and "m e = Some b"
    and "m1 = m(last ts \<mapsto> (the (m (last ts)))\<lparr>next_block := next_block b\<rparr>)"
    and "m2 = m1(hd ts \<mapsto> (the (m1 (hd ts)))\<lparr>prev := prev b\<rparr>)"
  shows "ring (m2(e := None)) ts"
    and "contents (m2(e := None)) ts = contents m ts"
proof -
  have d: "e \<notin> set ts" "distinct ts" using assms(1) by (simp_all add: ring_def)
  have b: "prev b = Some (last ts)" "next_block b = Some (hd ts)"
    using ring_block [of m "[]" e ts] assms(1-3) by (auto simp: hd_append)
  have s: "seg m e ts e" using assms(1,2) by (simp add: ring_def)
  obtain us z where z: "ts = us @ [z]" using assms(2) by (metis append_butlast_last_id)
  obtain bz where bz: "m z = Some bz" using seg_block [OF s, of z] z by auto
  have s1: "seg m1 e ts (hd ts)" using seg_set_next [of m e us z e bz "hd ts"] s z d bz b by (simp add: assms(4))
  obtain a as where a: "ts = a # as" using assms(2) by (cases ts) auto
  obtain ba where ba: "m1 a = Some ba" using seg_block [OF s1, of a] a by auto
  have "seg m2 (last ts) ts (hd ts)" using seg_set_prev [of m1 e a as "hd ts" ba "last ts"] s1 a d ba b by (simp add: assms(5))
  then have "seg (m2(e := None)) (last ts) ts (hd ts)"
    using seg_cong [of ts m2 "m2(e := None)"] d(1) by auto
  then show "ring (m2(e := None)) ts" using assms(2) d(2) by (simp add: ring_def)
  have "contents (m2(e := None)) ts = contents m2 ts" by (rule contents_cong) (use d(1) in auto)
  also have "\<dots> = contents m1 ts" using a ba by (simp add: assms(5) contents_upd [where b = ba])
  also have "\<dots> = contents m ts" using z bz by (simp add: assms(4) contents_upd [where b = bz])
  finally show "contents (m2(e := None)) ts = contents m ts" .
qed

lemma ring_insert:
  assumes "ring m bs" and "n \<notin> set bs" and "m n = Some c" and "0 \<le> nr c" and "nr c \<le> 29" and "length (slots c) = 29"
    and "m1 = m(n \<mapsto> c\<lparr>prev := Some (last bs), next_block := Some (hd bs)\<rparr>)"
    and "m2 = m1(hd bs \<mapsto> (the (m1 (hd bs)))\<lparr>prev := Some n\<rparr>)"
    and "m3 = m2(last bs \<mapsto> (the (m2 (last bs)))\<lparr>next_block := Some n\<rparr>)"
  shows "ring m3 (bs @ [n])" and "contents m3 (bs @ [n]) = contents m bs @ entries c"
proof -
  have d: "distinct bs" "bs \<noteq> []" using assms(1) by (simp_all add: ring_def)
  have s: "seg m1 (last bs) bs (hd bs)" using assms(1,2) seg_cong [of bs m m1] by (auto simp: ring_def assms(7))
  obtain a as where a: "bs = a # as" using d(2) by (cases bs) auto
  obtain ba where ba: "m1 a = Some ba" using seg_block [OF s, of a] a by auto
  have s2: "seg m2 n bs (hd bs)" using seg_set_prev [of m1 "last bs" a as "hd bs" ba n] s a d ba by (simp add: assms(8))
  obtain us z where z: "bs = us @ [z]" using d(2) by (metis append_butlast_last_id)
  obtain bz where bz: "m2 z = Some bz" using seg_block [OF s2, of z] z by auto
  have "seg m3 n bs n" using seg_set_next [of m2 n us z "hd bs" bz n] s2 z d bz by (simp add: assms(9))
  moreover have "m3 n = Some (c\<lparr>prev := Some (last bs), next_block := Some (hd bs)\<rparr>)"
    using assms(2) d by (auto simp: assms(7-9))
  ultimately show "ring m3 (bs @ [n])" using d assms(2,4-6) by (auto simp: ring_def seg_append linked_def hd_append)
  have "contents m3 (bs @ [n]) = contents m2 (bs @ [n])" using z bz by (simp add: assms(9) contents_upd [where b = bz])
  also have "\<dots> = contents m1 (bs @ [n])" using a ba by (simp add: assms(8) contents_upd [where b = ba])
  also have "\<dots> = contents m (bs @ [n])" using contents_upd [of m n c "c\<lparr>prev := Some (last bs), next_block := Some (hd bs)\<rparr>" "bs @ [n]"] assms(3)
    by (simp add: assms(7))
  finally show "contents m3 (bs @ [n]) = contents m bs @ entries c" using assms(3) by simp
qed

section \<open>Lists on the heap\<close>

text \<open>The list at \<open>l\<close> has the blocks \<open>bs\<close> and the pointers \<open>xs\<close>.\<close>

definition rep :: "pl_heap \<Rightarrow> nat option \<Rightarrow> nat list \<Rightarrow> ptr list \<Rightarrow> bool" where
  "rep h l bs xs \<longleftrightarrow>
     (\<forall>a\<ge>pl_fresh h. pl_blocks h a = None) \<and> (bs = [] \<and> l = None \<or> ring (pl_blocks h) bs \<and> l = Some (hd bs)) \<and>
     contents (pl_blocks h) bs = xs"

text \<open>A change of one list: only its blocks and new ones are written.\<close>

definition changes :: "pl_heap \<Rightarrow> nat list \<Rightarrow> pl_heap \<Rightarrow> nat list \<Rightarrow> bool" where
  "changes h bs h' bs' \<longleftrightarrow>
     pl_fresh h \<le> pl_fresh h' \<and> set bs' \<subseteq> set bs \<union> {pl_fresh h..} \<and>
     (\<forall>a. a \<notin> set bs \<longrightarrow> a < pl_fresh h \<longrightarrow> pl_blocks h' a = pl_blocks h a)"

lemma rep_None [simp]: "rep h None bs xs \<longleftrightarrow> (\<forall>a\<ge>pl_fresh h. pl_blocks h a = None) \<and> bs = [] \<and> xs = []"
  by (auto simp: rep_def)

lemma rep_Some: "rep h (Some a) bs xs \<longleftrightarrow>
  (\<forall>a\<ge>pl_fresh h. pl_blocks h a = None) \<and> ring (pl_blocks h) bs \<and> a = hd bs \<and> contents (pl_blocks h) bs = xs"
  by (auto simp: rep_def)

lemma ring_ends:
  assumes "ring m bs"
  obtains b c where "m (hd bs) = Some b" and "prev b = Some (last bs)" and "m (last bs) = Some c" and "next_block c = Some (hd bs)"
    and "0 \<le> nr c" and "nr c \<le> 29" and "length (slots c) = 29"
proof -
  have "bs \<noteq> []" using assms by (simp add: ring_def)
  then obtain a as us z where a: "bs = a # as" "bs = us @ [z]" by (metis append_butlast_last_id list.exhaust)
  have 1: "ring m ([] @ a # as)" "ring m (us @ z # [])" using assms a by simp_all
  show thesis
    using that ring_block [OF 1(1)] ring_block [OF 1(2)] a by (metis append_Nil append_Nil2 hd_append2 last_snoc list.sel(1) snoc_eq_iff_butlast)
qed

lemma ring_alloc:
  assumes "ring m bs" and "\<forall>a\<ge>n. m a = None"
  shows "\<forall>a\<in>set bs. a < n"
proof
  fix a assume "a \<in> set bs"
  then obtain b where "m a = Some b" using assms(1) seg_block [of m "last bs" bs "hd bs" a] by (auto simp: ring_def)
  then show "a < n" using assms(2) by (metis not_le option.distinct(1))
qed

lemma ring_append_entry:
  assumes "ring m bs" and "m (last bs) = Some b" and "nr b < 29"
    and "c = b\<lparr>slots := (slots b)[nat (nr b) := w], nr := nr b + 1\<rparr>"
  shows "ring (m(last bs \<mapsto> c)) bs" and "contents (m(last bs \<mapsto> c)) bs = contents m bs @ [w]"
proof -
  obtain us z where z: "bs = us @ [z]" using assms(1) by (metis append_butlast_last_id ring_def)
  have b: "0 \<le> nr b" "length (slots b) = 29" using ring_ends [OF assms(1)] assms(2) by auto
  show "ring (m(last bs \<mapsto> c)) bs"
    by (rule ring_upd_same [where b = b]) (use assms(1-3) b in \<open>simp_all add: assms(4)\<close>)
  have "z \<notin> set us" using assms(1) z by (simp add: ring_def)
  then have "contents (m(z \<mapsto> c)) us = contents m us" by (intro contents_cong) auto
  moreover have "nat (nr b + 1) = Suc (nat (nr b))" using b(1) by simp
  then have "entries c = entries b @ [w]" using b assms(3) by (simp add: entries_def assms(4) take_Suc_conv_app_nth)
  ultimately show "contents (m(last bs \<mapsto> c)) bs = contents m bs @ [w]" using z assms(2) by simp
qed

lemma add_in_place:
  assumes "rep h (Some a) bs xs" and "pl_blocks h (last bs) = Some b" and "nr b < 29"
    and "h' = h\<lparr>pl_blocks := (pl_blocks h)(last bs \<mapsto> b\<lparr>slots := (slots b)[nat (nr b) := w], nr := nr b + 1\<rparr>)\<rparr>"
  shows "rep h' (Some a) bs (xs @ [w]) \<and> changes h bs h' bs"
proof -
  have r: "ring (pl_blocks h) bs" using assms(1) by (simp add: rep_Some)
  have "last bs < pl_fresh h" using assms(1,2) by (metis not_le option.distinct(1) rep_Some)
  moreover have "last bs \<in> set bs" using r by (simp add: ring_def)
  ultimately show ?thesis
    using assms(1) ring_append_entry [OF r assms(2,3) refl, of w] by (auto simp: rep_Some changes_def assms(4))
qed

text \<open>Writing through a pointer to an allocated block.\<close>

lemma block_Some [simp]: "pl_blocks h a = Some b \<Longrightarrow> block (Some a) h = Inr b"
  by (simp add: block_def)

lemma set_block_Some:
  "pl_blocks h a = Some b \<Longrightarrow> set_block (Some a) f h = Inr (h\<lparr>pl_blocks := (pl_blocks h)(a \<mapsto> f b)\<rparr>)"
  by (simp add: set_block_def)

lemma free_ptrlist_Some: "pl_blocks h a = Some b \<Longrightarrow> free_ptrlist (Some a) h = Inr (h\<lparr>pl_blocks := (pl_blocks h)(a := None)\<rparr>)"
  by (simp add: free_ptrlist_def)

abbreviation new_block :: ptr_list where
  "new_block \<equiv> \<lparr>nr = 0, prev = None, next_block = None, slots = replicate LIST_NODE_NR 0\<rparr>"

lemma add_to_empty:
  assumes "rep h None bs xs" and "3 AND p = 0" and "NOT 3 AND tag = 0"
  shows "\<exists>a h'. add_ptr_list_tag None p tag h = Inr (Some a, h') \<and> rep h' (Some a) [a] [tag OR p] \<and> changes h [] h' [a]"
proof -
  let ?n = "pl_fresh h"
  define c where "c = \<lparr>nr = 1, prev = Some ?n, next_block = Some ?n, slots = (replicate LIST_NODE_NR 0)[0 := tag OR p]\<rparr>"
  define h' where "h' = \<lparr>pl_blocks = (pl_blocks h)(?n \<mapsto> c), pl_fresh = ?n + 1\<rparr>"
  have "add_ptr_list_tag None p tag h = Inr (Some ?n, h')"
    using assms(2,3) by (cases h) (simp add: add_ptr_list_tag_def alloc_ptrlist_def set_block_def block_def put_slot_def LIST_NODE_NR_def c_def h'_def)
  moreover have "rep h' (Some ?n) [?n] [tag OR p]" "changes h [] h' [?n]"
    using assms(1) by (auto simp: rep_Some ring_def linked_def entries_def c_def h'_def LIST_NODE_NR_def changes_def take_Suc_conv_app_nth)
  ultimately show ?thesis by blast
qed

text \<open>A full last block: a new one is linked in behind it.\<close>

lemma add_grows:
  assumes "rep h (Some a) bs xs" and "pl_blocks h (last bs) = Some z" and "nr z \<ge> 29" and "3 AND p = 0" and "NOT 3 AND tag = 0"
  shows "\<exists>h'. add_ptr_list_tag (Some a) p tag h = Inr (Some a, h') \<and> rep h' (Some a) (bs @ [pl_fresh h]) (xs @ [tag OR p]) \<and>
              changes h bs h' (bs @ [pl_fresh h])"
proof -
  let ?n = "pl_fresh h" and ?m = "pl_blocks h"
  have h: "ring ?m bs" "a = hd bs" "\<forall>a\<ge>?n. ?m a = None" "contents ?m bs = xs" using assms(1) by (simp_all add: rep_Some)
  obtain b where b: "?m a = Some b" "prev b = Some (last bs)" using ring_ends [OF h(1)] h(2) by metis
  have below: "\<forall>a\<in>set bs. a < ?n" using ring_alloc [OF h(1,3)] .
  then have n: "?n \<notin> set bs" by blast
  have in_bs: "a \<in> set bs" "last bs \<in> set bs" using h(1,2) by (simp_all add: ring_def)
  define c where "c = new_block\<lparr>prev := Some (last bs), next_block := Some (hd bs)\<rparr>"
  define m1 where "m1 = (?m(?n \<mapsto> new_block))(?n \<mapsto> c)"
  define m2 where "m2 = m1(hd bs \<mapsto> (the (m1 (hd bs)))\<lparr>prev := Some ?n\<rparr>)"
  define m3 where "m3 = m2(last bs \<mapsto> (the (m2 (last bs)))\<lparr>next_block := Some ?n\<rparr>)"
  have "ring (?m(?n \<mapsto> new_block)) bs" using ring_cong [of bs ?m "?m(?n \<mapsto> new_block)"] h(1) n by auto
  then have "ring m3 (bs @ [?n])" "contents m3 (bs @ [?n]) = contents (?m(?n \<mapsto> new_block)) bs @ entries new_block"
    using ring_insert [of "?m(?n \<mapsto> new_block)" bs ?n new_block m1 m2 m3] n by (simp_all add: m1_def m2_def m3_def c_def LIST_NODE_NR_def)
  moreover have "contents (?m(?n \<mapsto> new_block)) bs = xs" using contents_cong [of bs "?m(?n \<mapsto> new_block)" ?m] h(4) n by auto
  ultimately have r: "ring m3 (bs @ [?n])" "contents m3 (bs @ [?n]) = xs" by (simp_all add: entries_def)
  have m3: "m3 ?n = Some c" "\<forall>x\<ge>?n + 1. m3 x = None" "\<forall>x. x \<notin> set bs \<longrightarrow> x < ?n \<longrightarrow> m3 x = ?m x"
    using n in_bs h(2,3) below by (auto simp: m1_def m2_def m3_def)
  define h1 where "h1 = \<lparr>pl_blocks = m3, pl_fresh = ?n + 1\<rparr>"
  define h' where "h' = h1\<lparr>pl_blocks := m3(?n \<mapsto> c\<lparr>slots := (slots c)[nat (nr c) := tag OR p], nr := nr c + 1\<rparr>)\<rparr>"
  have "add_ptr_list_tag (Some a) p tag h = Inr (Some a, h')"
    using assms(2-5) b n in_bs h(2)
    by (cases h) (auto simp: add_ptr_list_tag_def alloc_ptrlist_def set_block_def block_def put_slot_def LIST_NODE_NR_def h'_def h1_def
        m1_def m2_def m3_def c_def split: if_splits)
  moreover have "rep h1 (Some a) (bs @ [?n]) xs" using r m3(2) h(2) in_bs by (auto simp: rep_Some h1_def hd_append)
  then have "rep h' (Some a) (bs @ [?n]) (xs @ [tag OR p])"
    using add_in_place [of h1 a "bs @ [?n]" xs c h' "tag OR p"] m3(1) by (simp add: h'_def h1_def c_def)
  moreover have "changes h bs h' (bs @ [?n])" using m3(3) by (auto simp: changes_def h'_def h1_def)
  ultimately show ?thesis by blast
qed

lemma add_appends:
  assumes "rep h l bs xs" and "3 AND p = 0" and "NOT 3 AND tag = 0"
  shows "\<exists>l' h' bs'. add_ptr_list_tag l p tag h = Inr (l', h') \<and> rep h' l' bs' (xs @ [tag OR p]) \<and> changes h bs h' bs'"
proof (cases l)
  case None
  then show ?thesis using add_to_empty [of h bs xs p tag] assms by auto
next
  case (Some a)
  then have r: "ring (pl_blocks h) bs" "a = hd bs" using assms(1) by (simp_all add: rep_Some)
  obtain b z where z: "pl_blocks h a = Some b" "prev b = Some (last bs)" "pl_blocks h (last bs) = Some z" "0 \<le> nr z" "length (slots z) = 29"
    using ring_ends [OF r(1)] r(2) by metis
  show ?thesis
  proof (cases "nr z < 29")
    case True
    then have "add_ptr_list_tag l p tag h = Inr (l, h\<lparr>pl_blocks := (pl_blocks h)(last bs \<mapsto>
        z\<lparr>slots := (slots z)[nat (nr z) := tag OR p], nr := nr z + 1\<rparr>)\<rparr>)"
      using assms(2,3) Some z by (simp add: add_ptr_list_tag_def block_def set_block_def put_slot_def LIST_NODE_NR_def)
    then show ?thesis using add_in_place [of h a bs xs z] True Some assms(1) z(3) by blast
  next
    case False
    then show ?thesis using add_grows [of h a bs xs z p tag] assms Some z(3) by auto
  qed
qed

section \<open>Walking a ring\<close>

text \<open>At a block with the blocks \<open>ds\<close> before it and \<open>ts\<close> behind it.\<close>

lemma ring_walk:
  assumes "ring m (ds @ a # ts)"
  obtains b where "m a = Some b" and "0 \<le> nr b" and "nr b \<le> 29" and "length (slots b) = 29"
    and "next_block b = Some (hd (ds @ a # ts)) \<longleftrightarrow> ts = []" and "ts \<noteq> [] \<Longrightarrow> next_block b = Some (hd ts)"
proof -
  have d: "distinct (ds @ a # ts)" using assms by (simp add: ring_def)
  obtain b where b: "m a = Some b" "next_block b = Some (hd (ts @ ds @ [a]))" "0 \<le> nr b" "nr b \<le> 29" "length (slots b) = 29"
    using ring_block [OF assms] by metis
  have "hd (ts @ ds @ [a]) = hd (ds @ a # ts) \<longleftrightarrow> ts = []"
    using d by (cases ts; cases ds) auto
  then show thesis using that [OF b(1,3-5)] b(2) by (simp add: hd_append)
qed

lemma ring_step: "ring m (ds @ a # t # ts) = ring m ((ds @ [a]) @ t # ts)"
  by simp

lemma size_loop_ring:
  assumes "ring (pl_blocks h) (ds @ a # ts)"
  shows "size_loop (Some (hd (ds @ a # ts))) (Some a) n h = Some (Inr (n + int (length (contents (pl_blocks h) (a # ts)))))"
  using assms
proof (induction ts arbitrary: ds a n)
  case Nil
  obtain b where b: "pl_blocks h a = Some b" "0 \<le> nr b" "nr b \<le> 29" "length (slots b) = 29" "next_block b = Some (hd (ds @ [a]))"
    using ring_walk [OF Nil.prems] by auto
  then have "block (Some a) h = Inr b" by simp
  then show ?case using b by (subst size_loop.simps) (simp add: entries_def)
next
  case (Cons t ts)
  obtain b where b: "pl_blocks h a = Some b" "0 \<le> nr b" "nr b \<le> 29" "length (slots b) = 29" "next_block b = Some t"
    "next_block b \<noteq> Some (hd (ds @ a # t # ts))"
    using ring_walk [OF Cons.prems] by auto
  then have "block (Some a) h = Inr b" by simp
  then have "size_loop (Some (hd (ds @ a # t # ts))) (Some a) n h = size_loop (Some (hd (ds @ a # t # ts))) (Some t) (n + nr b) h"
    using b by (subst size_loop.simps) simp
  also have "\<dots> = Some (Inr (n + nr b + int (length (contents (pl_blocks h) (t # ts)))))"
    using Cons.IH [of "ds @ [a]" t "n + nr b"] Cons.prems by simp
  finally show ?case using b by (simp add: entries_def)
qed

lemma ptr_list_size_rep:
  assumes "rep h l bs xs"
  shows "ptr_list_size l h = Some (Inr (int (length xs)))"
proof (cases l)
  case None
  then show ?thesis using assms by (simp add: ptr_list_size_def)
next
  case (Some a)
  then obtain as where "bs = a # as" using assms by (cases bs) (auto simp: rep_def ring_def)
  then show ?thesis using Some assms size_loop_ring [of h "[]" a as 0] by (simp add: ptr_list_size_def rep_Some)
qed

lemma linearize_loop_ring:
  assumes "ring (pl_blocks h) (ds @ a # ts)" and "0 < mx"
  shows "linearize_loop (Some (hd (ds @ a # ts))) (Some a) mx arr h = Some (Inr (arr @ take (nat mx) (contents (pl_blocks h) (a # ts))))"
  using assms
proof (induction ts arbitrary: ds a mx arr)
  case Nil
  obtain b where b: "pl_blocks h a = Some b" "0 \<le> nr b" "nr b \<le> 29" "length (slots b) = 29" "next_block b = Some (hd (ds @ [a]))"
    using ring_walk [OF Nil.prems(1)] by auto
  then have "block (Some a) h = Inr b" by simp
  then show ?case using b Nil.prems(2)
    by (subst linearize_loop.simps, cases mx "nr b" rule: linorder_cases)
       (auto simp: entries_def first_slots_def min_def Let_def nat_le_iff)
next
  case (Cons t ts)
  obtain b where b: "pl_blocks h a = Some b" "0 \<le> nr b" "nr b \<le> 29" "length (slots b) = 29" "next_block b = Some t"
    "next_block b \<noteq> Some (hd (ds @ a # t # ts))"
    using ring_walk [OF Cons.prems(1)] by auto
  then have blk: "block (Some a) h = Inr b" by simp
  show ?case
  proof (cases "nr b < mx")
    case True
    then have "linearize_loop (Some (hd (ds @ a # t # ts))) (Some a) mx arr h =
        linearize_loop (Some (hd (ds @ a # t # ts))) (Some t) (mx - nr b) (arr @ entries b) h"
      using b blk by (subst linearize_loop.simps) (simp add: first_slots_def entries_def Let_def nat_le_iff)
    also have "\<dots> = Some (Inr ((arr @ entries b) @ take (nat (mx - nr b)) (contents (pl_blocks h) (t # ts))))"
      using Cons.IH [of "ds @ [a]" t "mx - nr b" "arr @ entries b"] Cons.prems True by simp
    finally show ?thesis using b True by (simp add: entries_def nat_diff_distrib)
  next
    case False
    then show ?thesis using b blk Cons.prems(2)
      by (subst linearize_loop.simps, cases mx "nr b" rule: linorder_cases)
         (auto simp: first_slots_def entries_def min_def Let_def nat_le_iff)
  qed
qed

lemma linearize_rep:
  assumes "rep h l bs xs"
  shows "linearize_ptr_list l mx h = Some (Inr (int (length (take (nat mx) xs)), take (nat mx) xs))"
proof (cases "l = None \<or> mx \<le> 0")
  case True
  then show ?thesis using assms by (cases l) (auto simp: linearize_ptr_list_def)
next
  case False
  then obtain a where a: "l = Some a" by auto
  then obtain as where "bs = a # as" using assms by (cases bs) (auto simp: rep_def ring_def)
  then show ?thesis using False a assms linearize_loop_ring [of h "[]" a as mx "[]"] by (simp add: linearize_ptr_list_def rep_Some)
qed

section \<open>Iteration\<close>

text \<open>
  A body that leaves the cursor alone and, as long as \<open>P\<close> holds, the blocks \<open>bs\<close> of the list: the loop is a fold over the
  entries.
\<close>

definition steady :: "blocks \<Rightarrow> nat list \<Rightarrow> ('a \<times> pl_heap \<Rightarrow> bool) \<Rightarrow> (ptr \<Rightarrow> 'a \<times> pl_heap \<Rightarrow> ('a \<times> pl_heap) res) \<Rightarrow> 'a body \<Rightarrow> bool" where
  "steady m bs P f body \<longleftrightarrow>
     (\<forall>l i w x h. body l i w x h = rbind (f w (x, h)) (\<lambda>(x1, h1). Inr (Turn l i x1 h1))) \<and>
     (\<forall>w s s1. P s \<longrightarrow> f w s = Inr s1 \<longrightarrow> P s1) \<and> (\<forall>x h. P (x, h) \<longrightarrow> (\<forall>a\<in>set bs. pl_blocks h a = m a))"

abbreviation ended :: "('a \<times> pl_heap) res \<Rightarrow> (bool \<times> 'a \<times> pl_heap) res option" where
  "ended r \<equiv> Some (rbind r (\<lambda>s. Inr (False, s)))"

lemma for_each_block:
  assumes "steady m bs P f body" and "a \<in> set bs" and "m a = Some b" and "0 \<le> nr b" and "nr b \<le> 29" and "length (slots b) = 29"
    and "P (x, h)" and "i \<le> nat (nr b)"
  shows "for_each_loop ent body head (Some a) (int i) x h =
         obind (Some (rfold f (map ent (drop i (entries b))) (x, h))) (\<lambda>(x1, h1). for_each_loop ent body head (Some a) (nr b) x1 h1)"
  using assms(7,8)
proof (induction "nat (nr b) - i" arbitrary: i x h)
  case 0
  then have "int i = nr b" "drop i (entries b) = []" using assms(4) by (simp_all add: entries_def)
  then show ?case by simp
next
  case (Suc k)
  have i: "i < nat (nr b)" "i < length (slots b)" using Suc.hyps(2) assms(5,6) by auto
  have blk: "block (Some a) h = Inr b" using assms(1-3) Suc.prems(1) by (simp add: steady_def)
  have d: "drop i (entries b) = slots b ! i # drop (Suc i) (entries b)"
    using i by (simp add: entries_def Cons_nth_drop_Suc [symmetric])
  have "for_each_loop ent body head (Some a) (int i) x h =
      obind (Some (f (ent (slots b ! i)) (x, h))) (\<lambda>(x1, h1). for_each_loop ent body head (Some a) (int (Suc i)) x1 h1)"
    using i blk assms(1)
    by (subst for_each_loop.simps) (cases "f (ent (slots b ! i)) (x, h)", auto simp: get_slot_def steady_def add.commute split: prod.splits)
  also have "\<dots> = obind (Some (rfold f (map ent (drop i (entries b))) (x, h))) (\<lambda>(x1, h1). for_each_loop ent body head (Some a) (nr b) x1 h1)"
  proof (cases "f (ent (slots b ! i)) (x, h)")
    case (Inr s1)
    obtain x1 h1 where s1: "s1 = (x1, h1)" by (cases s1)
    have "P (x1, h1)" using assms(1) Suc.prems(1) Inr s1 unfolding steady_def by blast
    then show ?thesis using Suc.hyps(1) [of "Suc i" x1 h1] Suc.hyps(2) i Inr s1 d by simp
  qed (simp add: d)
  finally show ?case .
qed

lemma rfold_keeps: "\<forall>w s s1. P s \<longrightarrow> f w s = Inr s1 \<longrightarrow> P s1 \<Longrightarrow> P s \<Longrightarrow> rfold f ws s = Inr s1 \<Longrightarrow> P s1"
  by (induction ws arbitrary: s) (auto simp: rbind_Inr_iff)

lemma for_each_loop_fold:
  assumes "steady m (ds @ a # ts) P f body" and "ring m (ds @ a # ts)" and "P (x, h)"
  shows "for_each_loop ent body (Some (hd (ds @ a # ts))) (Some a) 0 x h = ended (rfold f (map ent (contents m (a # ts))) (x, h))"
  using assms
proof (induction ts arbitrary: ds a x h)
  case Nil
  obtain b where b: "m a = Some b" "0 \<le> nr b" "nr b \<le> 29" "length (slots b) = 29" "next_block b = Some (hd (ds @ [a]))"
    using ring_walk [OF Nil.prems(2)] by auto
  have e: "for_each_loop ent body (Some (hd (ds @ [a]))) (Some a) (nr b) x1 h1 = Some (Inr (False, x1, h1))" if "P (x1, h1)" for x1 h1
  proof -
    have "block (Some a) h1 = Inr b" using Nil.prems(1) that b(1) by (simp add: steady_def)
    then show ?thesis using b(5) by (subst for_each_loop.simps) simp
  qed
  have "P s1" if "rfold f (map ent (entries b)) (x, h) = Inr s1" for s1
    using rfold_keeps [of P f, OF _ Nil.prems(3) that] Nil.prems(1) by (simp add: steady_def)
  then show ?case
    using for_each_block [OF Nil.prems(1) _ b(1-4) Nil.prems(3), of 0 ent "Some (hd (ds @ [a]))"] b(1) e
    by (cases "rfold f (map ent (entries b)) (x, h)") auto
next
  case (Cons t ts)
  obtain b where b: "m a = Some b" "0 \<le> nr b" "nr b \<le> 29" "length (slots b) = 29" "next_block b = Some t"
    "next_block b \<noteq> Some (hd (ds @ a # t # ts))"
    using ring_walk [OF Cons.prems(2)] by auto
  have e: "for_each_loop ent body (Some (hd (ds @ a # t # ts))) (Some a) (nr b) x1 h1 = ended (rfold f (map ent (contents m (t # ts))) (x1, h1))"
    if "P (x1, h1)" for x1 h1
  proof -
    have "block (Some a) h1 = Inr b" using Cons.prems(1) that b(1) by (simp add: steady_def)
    then have "for_each_loop ent body (Some (hd (ds @ a # t # ts))) (Some a) (nr b) x1 h1 =
        for_each_loop ent body (Some (hd (ds @ a # t # ts))) (Some t) 0 x1 h1"
      using b(5,6) by (subst for_each_loop.simps) simp
    then show ?thesis using Cons.IH [of "ds @ [a]" t x1 h1] Cons.prems(1,2) that by simp
  qed
  have "P s1" if "rfold f (map ent (entries b)) (x, h) = Inr s1" for s1
    using rfold_keeps [of P f, OF _ Cons.prems(3) that] Cons.prems(1) by (simp add: steady_def)
  then show ?case
    using for_each_block [OF Cons.prems(1) _ b(1-4) Cons.prems(3), of 0 ent "Some (hd (ds @ a # t # ts))"] b(1) e
    by (cases "rfold f (map ent (entries b)) (x, h)") (auto simp: rfold_append)
qed

lemma for_each_fold:
  assumes "rep h l bs xs" and "steady (pl_blocks h) bs P f body" and "P (x, h)"
  shows "for_each_ptr ent body l x h = ended (rfold f (map ent xs) (x, h))"
proof (cases l)
  case None
  then show ?thesis using assms(1) by (simp add: for_each_ptr_def)
next
  case (Some a)
  then obtain as where "bs = a # as" using assms(1) by (cases bs) (auto simp: rep_def ring_def)
  then show ?thesis using Some assms for_each_loop_fold [of "pl_blocks h" "[]" a as P f body x h ent] by (simp add: for_each_ptr_def rep_Some)
qed

section \<open>Taking out blocks\<close>

text \<open>The first block of a ring is linked out and freed.\<close>

definition unlinked :: "nat \<Rightarrow> nat list \<Rightarrow> pl_heap \<Rightarrow> pl_heap \<Rightarrow> bool" where
  "unlinked e ts h h' \<longleftrightarrow>
     pl_fresh h' = pl_fresh h \<and> ring (pl_blocks h') ts \<and> pl_blocks h' e = None \<and>
     (\<forall>cs. e \<notin> set cs \<longrightarrow> contents (pl_blocks h') cs = contents (pl_blocks h) cs) \<and>
     (\<forall>x. x \<noteq> e \<longrightarrow> map_option nr (pl_blocks h' x) = map_option nr (pl_blocks h x)) \<and>
     (\<forall>x. x \<notin> set (e # ts) \<longrightarrow> pl_blocks h' x = pl_blocks h x)"

lemma unlink_ring:
  assumes "ring (pl_blocks h) (e # ts)" and "ts \<noteq> []" and "pl_blocks h e = Some b"
  shows "\<exists>h'. rbind (set_block (prev b) (\<lambda>c. c\<lparr>next_block := next_block b\<rparr>) h) (\<lambda>h1.
              rbind (set_block (next_block b) (\<lambda>c. c\<lparr>prev := prev b\<rparr>) h1) (free_ptrlist (Some e))) = Inr h' \<and> unlinked e ts h h'"
proof -
  let ?m = "pl_blocks h"
  have b: "prev b = Some (last ts)" "next_block b = Some (hd ts)"
    using ring_block [of ?m "[]" e ts] assms by (auto simp: hd_append)
  have e: "e \<notin> set ts" "last ts \<in> set ts" "hd ts \<in> set ts" using assms(1,2) by (auto simp: ring_def)
  have s: "seg ?m e ts e" using assms(1,2) by (simp add: ring_def)
  obtain bz where bz: "?m (last ts) = Some bz" using seg_block [OF s e(2)] by auto
  define m1 where "m1 = ?m(last ts \<mapsto> bz\<lparr>next_block := next_block b\<rparr>)"
  obtain ba where ba: "m1 (hd ts) = Some ba" using seg_block [OF s e(3)] by (cases "hd ts = last ts") (auto simp: m1_def)
  define m2 where "m2 = m1(hd ts \<mapsto> ba\<lparr>prev := prev b\<rparr>)"
  have r: "ring (m2(e := None)) ts"
    using ring_remove(1) [of ?m e ts b m1 m2] assms bz ba by (simp add: m1_def m2_def)
  have "contents (m2(e := None)) cs = contents ?m cs" if "e \<notin> set cs" for cs
  proof -
    have "contents (m2(e := None)) cs = contents m2 cs" by (rule contents_cong) (use that in auto)
    also have "\<dots> = contents m1 cs" by (simp add: m2_def contents_upd [where b = ba] ba)
    also have "\<dots> = contents ?m cs" by (simp add: m1_def contents_upd [where b = bz] bz)
    finally show ?thesis .
  qed
  moreover have "map_option nr ((m2(e := None)) x) = map_option nr (?m x)" if "x \<noteq> e" for x
    using that bz ba by (auto simp: m1_def m2_def split: if_splits)
  moreover have "(m2(e := None)) x = ?m x" if "x \<notin> set (e # ts)" for x
    using that e by (auto simp: m1_def m2_def)
  ultimately have "unlinked e ts h (h\<lparr>pl_blocks := m2(e := None)\<rparr>)" using r by (simp add: unlinked_def)
  moreover have "m2 e = Some b" using e assms(3) by (auto simp: m1_def m2_def)
  ultimately show ?thesis using b bz ba by (simp add: set_block_def free_ptrlist_def m1_def m2_def)
qed

definition nonempty :: "blocks \<Rightarrow> nat \<Rightarrow> bool" where
  "nonempty m a \<longleftrightarrow> (\<exists>n. map_option nr (m a) = Some n \<and> n \<noteq> 0)"

lemma changes_refl [simp]: "changes h bs h bs"
  by (auto simp: changes_def)

lemma changes_trans:
  assumes "changes h bs h1 cs" and "changes h1 cs h2 ds"
  shows "changes h bs h2 ds"
proof -
  have "pl_fresh h \<le> pl_fresh h2" "set ds \<subseteq> set bs \<union> {pl_fresh h..}" using assms unfolding changes_def by fastforce+
  moreover have "pl_blocks h2 a = pl_blocks h a" if "a \<notin> set bs" "a < pl_fresh h" for a
  proof -
    have "a \<notin> set cs" "a < pl_fresh h1" using assms(1) that unfolding changes_def by auto
    then show ?thesis using assms that unfolding changes_def by metis
  qed
  ultimately show ?thesis unfolding changes_def by blast
qed

lemma unlinked_nonempty: "unlinked e ts h h' \<Longrightarrow> e \<notin> set ds \<Longrightarrow> \<forall>d\<in>set ds. nonempty (pl_blocks h) d \<Longrightarrow> \<forall>d\<in>set ds. nonempty (pl_blocks h') d"
  unfolding unlinked_def nonempty_def by metis

lemma unlinked_changes: "unlinked e ts h h' \<Longrightarrow> set bs = set (e # ts) \<Longrightarrow> set cs = set ts \<Longrightarrow> changes h bs h' cs"
  by (auto simp: unlinked_def changes_def)

lemma unlinked_fresh: "unlinked e ts h h' \<Longrightarrow> \<forall>a\<ge>pl_fresh h. pl_blocks h a = None \<Longrightarrow> \<forall>a\<ge>pl_fresh h'. pl_blocks h' a = None"
  unfolding unlinked_def by (metis map_option_is_None)

lemma pack_loop_ring:
  assumes "ring (pl_blocks h) (ds @ a # ts)" and "\<forall>a\<ge>pl_fresh h. pl_blocks h a = None" and "\<forall>d\<in>set ds. nonempty (pl_blocks h) d"
  shows "\<exists>l' h' bs'. pack_loop (Some (hd (ds @ a # ts))) (Some a) h = Some (Inr (l', h')) \<and>
           rep h' l' bs' (contents (pl_blocks h) (ds @ a # ts)) \<and> (\<forall>c\<in>set bs'. nonempty (pl_blocks h') c) \<and> changes h (ds @ a # ts) h' bs'"
  using assms
proof (induction ts arbitrary: ds a h)
  case Nil
  obtain b where b: "pl_blocks h a = Some b" "next_block b = Some (hd (ds @ [a]))" using ring_walk [OF Nil.prems(1)] by auto
  show ?case
  proof (cases "nr b = 0")
    case False
    then have "pack_loop (Some (hd (ds @ [a]))) (Some a) h = Some (Inr (Some (hd (ds @ [a])), h))"
      using b by (subst pack_loop.simps) simp
    moreover have "rep h (Some (hd (ds @ [a]))) (ds @ [a]) (contents (pl_blocks h) (ds @ [a]))" using Nil.prems(1,2) by (simp add: rep_Some)
    moreover have "\<forall>c\<in>set (ds @ [a]). nonempty (pl_blocks h) c" using Nil.prems(3) b(1) False by (simp add: nonempty_def)
    ultimately show ?thesis by (metis changes_refl)
  next
    case True
    show ?thesis
    proof (cases ds)
      case Nil
      then have "pack_loop (Some (hd (ds @ [a]))) (Some a) h = Some (Inr (None, h\<lparr>pl_blocks := (pl_blocks h)(a := None)\<rparr>))"
        using b True by (subst pack_loop.simps) (simp add: free_ptrlist_def)
      moreover have "contents (pl_blocks h) (ds @ [a]) = []" using b(1) Nil True by (simp add: entries_def)
      ultimately show ?thesis using Nil Nil.prems(2) by (auto simp: changes_def)
    next
      case (Cons d ds')
      have r: "ring (pl_blocks h) (a # ds)" using Nil.prems(1) ring_rotate [of _ ds "[a]"] by simp
      have ne: "Some a \<noteq> Some (hd (ds @ [a]))" using Nil.prems(1) Cons by (auto simp: ring_def)
      obtain h' where h': "rbind (set_block (prev b) (\<lambda>c. c\<lparr>next_block := next_block b\<rparr>) h) (\<lambda>h1.
          rbind (set_block (next_block b) (\<lambda>c. c\<lparr>prev := prev b\<rparr>) h1) (free_ptrlist (Some a))) = Inr h'" "unlinked a ds h h'"
        using unlink_ring [OF r _ b(1)] Cons by auto
      then have "pack_loop (Some (hd (ds @ [a]))) (Some a) h = Some (Inr (Some (hd ds), h'))"
        using b True ne Cons by (subst pack_loop.simps) (simp cong: if_cong)
      moreover have "rep h' (Some (hd ds)) ds (contents (pl_blocks h) (ds @ [a]))"
        using h'(2) unlinked_fresh [OF h'(2) Nil.prems(2)] r b(1) True by (auto simp: rep_Some unlinked_def entries_def ring_def)
      moreover have "\<forall>c\<in>set ds. nonempty (pl_blocks h') c" using unlinked_nonempty [OF h'(2) _ Nil.prems(3)] r by (simp add: ring_def)
      moreover have "changes h (ds @ [a]) h' ds" using h'(2) by (rule unlinked_changes) auto
      ultimately show ?thesis by blast
    qed
  qed
next
  case (Cons t ts)
  obtain b where b: "pl_blocks h a = Some b" "next_block b = Some t" "t \<noteq> hd (ds @ a # t # ts)" using ring_walk [OF Cons.prems(1)] by auto
  have ta: "t \<noteq> a" using Cons.prems(1) by (auto simp: ring_def)
  show ?case
  proof (cases "nr b = 0")
    case False
    then have "pack_loop (Some (hd (ds @ a # t # ts))) (Some a) h = pack_loop (Some (hd (ds @ a # t # ts))) (Some t) h"
      using b by (subst pack_loop.simps) simp
    moreover have "\<forall>d\<in>set (ds @ [a]). nonempty (pl_blocks h) d" using Cons.prems(3) b(1) False by (simp add: nonempty_def)
    ultimately show ?thesis using Cons.IH [of h "ds @ [a]" t] Cons.prems(1,2) by simp
  next
    case True
    have r: "ring (pl_blocks h) (a # t # ts @ ds)" using Cons.prems(1) ring_rotate [of _ ds "a # t # ts"] by simp
    obtain h' where h': "rbind (set_block (prev b) (\<lambda>c. c\<lparr>next_block := next_block b\<rparr>) h) (\<lambda>h1.
        rbind (set_block (next_block b) (\<lambda>c. c\<lparr>prev := prev b\<rparr>) h1) (free_ptrlist (Some a))) = Inr h'" "unlinked a (t # ts @ ds) h h'"
      using unlink_ring [OF r _ b(1)] by auto
    have "pack_loop (Some (hd (ds @ a # t # ts))) (Some a) h = pack_loop (Some (hd (ds @ t # ts))) (Some t) h'"
      using b True h'(1) ta Cons.prems(1) by (subst pack_loop.simps) (cases ds; auto simp: ring_def cong: if_cong)
    moreover have "ring (pl_blocks h') (ds @ t # ts)" using h'(2) ring_rotate [of _ "t # ts" ds] by (simp add: unlinked_def)
    moreover have "contents (pl_blocks h') (ds @ t # ts) = contents (pl_blocks h) (ds @ a # t # ts)"
    proof -
      have "contents (pl_blocks h') (ds @ t # ts) = contents (pl_blocks h) (ds @ t # ts)" using h'(2) r unfolding unlinked_def ring_def by auto
      then show ?thesis using b(1) True by (simp add: entries_def)
    qed
    moreover have "\<forall>d\<in>set ds. nonempty (pl_blocks h') d" using unlinked_nonempty [OF h'(2) _ Cons.prems(3)] r by (simp add: ring_def)
    moreover have "changes h (ds @ a # t # ts) h' (ds @ t # ts)" using h'(2) by (rule unlinked_changes) auto
    ultimately show ?thesis
      using Cons.IH [of h' ds t] unlinked_fresh [OF h'(2) Cons.prems(2)] changes_trans by metis
  qed
qed

lemma pack_rep:
  assumes "rep h l bs xs"
  shows "\<exists>l' h' bs'. pack_ptr_list l h = Some (Inr (l', h')) \<and> rep h' l' bs' xs \<and> (\<forall>c\<in>set bs'. nonempty (pl_blocks h') c) \<and>
           changes h bs h' bs'"
proof (cases l)
  case None
  then show ?thesis using assms by (auto simp: pack_ptr_list_def intro!: exI [of _ "[]"])
next
  case (Some a)
  then obtain as where "bs = a # as" using assms by (cases bs) (auto simp: rep_def ring_def)
  then show ?thesis using Some assms pack_loop_ring [of h "[]" a as] by (auto simp: pack_ptr_list_def rep_Some)
qed

end
