(* ===== verification/Sparse_Ptrlist_Edit.thy ===== *)
theory Sparse_Ptrlist_Edit
  imports Sparse_Ptrlist_Facts
begin

text \<open>
  The operations of src/sparse-0.4.1/ptrlist.c that change a list while it is walked: deleting, replacing and inserting at the
  cursor, and the loops that use them.
\<close>

section \<open>At the cursor\<close>

text \<open>A block with the same links and other entries.\<close>

definition rewritten :: "ptr_list \<Rightarrow> ptr list \<Rightarrow> ptr_list \<Rightarrow> bool" where
  "rewritten b xs c \<longleftrightarrow>
     prev c = prev b \<and> next_block c = next_block b \<and> 0 \<le> nr c \<and> nr c \<le> 29 \<and> length (slots c) = 29 \<and> entries c = xs"

abbreviation well_sized :: "ptr_list \<Rightarrow> bool" where
  "well_sized b \<equiv> 0 \<le> nr b \<and> nr b \<le> 29 \<and> length (slots b) = 29"

lemma nr_le: "well_sized b \<Longrightarrow> nat (nr b) \<le> 29"
  by (simp add: nat_le_iff)

lemma length_entries: "well_sized b \<Longrightarrow> length (entries b) = nat (nr b)"
  using nr_le [of b] by (simp add: entries_def)

lemma shift_down_moves:
  assumes "i < n" and "n \<le> length xs"
  shows "shift_down (int i) (int n - 1) xs = Inr (take i xs @ take (n - 1 - i) (drop (Suc i) xs) @ deleted # drop n xs)"
  using assms
proof (induction "n - 1 - i" arbitrary: i xs)
  case 0
  then have "n = Suc i" by simp
  then show ?case using 0 by (subst shift_down.simps) (simp add: put_slot_def upd_conv_take_nth_drop)
next
  case (Suc k)
  define ys where "ys = xs[i := xs ! Suc i]"
  have i: "Suc i < n" "Suc i < length xs" using Suc.hyps(2) Suc.prems by auto
  have "shift_down (int i) (int n - 1) xs = shift_down (int (Suc i)) (int n - 1) ys"
    using i by (subst shift_down.simps) (simp add: get_slot_def put_slot_def ys_def nat_add_distrib add.commute)
  also have "\<dots> = Inr (take (Suc i) ys @ take (n - 1 - Suc i) (drop (Suc (Suc i)) ys) @ deleted # drop n ys)"
    using Suc.hyps(1) [of "Suc i" ys] Suc.hyps(2) i Suc.prems(2) by (simp add: ys_def)
  also have "take (Suc i) ys = take i xs @ [xs ! Suc i]" using i by (simp add: ys_def take_Suc_conv_app_nth)
  also have "drop (Suc (Suc i)) ys = drop (Suc (Suc i)) xs" using i by (simp add: ys_def)
  also have "drop n ys = drop n xs" using i by (simp add: ys_def)
  also have "(take i xs @ [xs ! Suc i]) @ take (n - 1 - Suc i) (drop (Suc (Suc i)) xs) @ deleted # drop n xs =
      take i xs @ take (n - 1 - i) (drop (Suc i) xs) @ deleted # drop n xs"
    using i by (simp add: Cons_nth_drop_Suc [symmetric] take_Cons')
  finally show ?case .
qed

lemma delete_current:
  assumes "pl_blocks h a = Some b" and "well_sized b" and "i < nat (nr b)"
  shows "\<exists>c. delete_current_ptr (Some a) (int i) h = Inr (int i - 1, h\<lparr>pl_blocks := (pl_blocks h)(a \<mapsto> c)\<rparr>) \<and>
             rewritten b (take i (entries b) @ drop (Suc i) (entries b)) c"
proof -
  let ?n = "nat (nr b)"
  define ws where "ws = take i (slots b) @ take (?n - 1 - i) (drop (Suc i) (slots b)) @ deleted # drop ?n (slots b)"
  have n: "?n \<le> length (slots b)" "int ?n - 1 = nr b - 1" using assms(2,3) by auto
  have "shift_down (int i) (nr b - 1) (slots b) = Inr ws" using shift_down_moves [OF assms(3) n(1)] n(2) by (simp add: ws_def)
  then have "delete_current_ptr (Some a) (int i) h = Inr (int i - 1, h\<lparr>pl_blocks := (pl_blocks h)(a \<mapsto> b\<lparr>slots := ws, nr := nr b - 1\<rparr>)\<rparr>)"
    using assms(1) by (simp add: delete_current_ptr_def set_block_def)
  moreover have "nat (nr b - 1) = ?n - 1" using assms(3) by auto
  then have "entries (b\<lparr>slots := ws, nr := nr b - 1\<rparr>) = take i (entries b) @ drop (Suc i) (entries b)"
    using assms(2,3) nr_le [OF assms(2)] by (simp add: entries_def ws_def drop_take)
  ultimately show ?thesis using assms(2,3) by (auto simp: rewritten_def ws_def)
qed

lemma replace_current:
  assumes "pl_blocks h a = Some b" and "well_sized b" and "i < nat (nr b)"
  shows "\<exists>c. replace_current_ptr new (Some a) (int i) h = Inr (h\<lparr>pl_blocks := (pl_blocks h)(a \<mapsto> c)\<rparr>) \<and>
             rewritten b (take i (entries b) @ new # drop (Suc i) (entries b)) c"
proof -
  define c where "c = b\<lparr>slots := (slots b)[i := new]\<rparr>"
  have "replace_current_ptr new (Some a) (int i) h = Inr (h\<lparr>pl_blocks := (pl_blocks h)(a \<mapsto> c)\<rparr>)"
    using assms nr_le [OF assms(2)] by (simp add: replace_current_ptr_def put_slot_def set_block_def c_def)
  moreover have "entries c = take i (entries b) @ new # drop (Suc i) (entries b)"
    using assms(2,3) nr_le [OF assms(2)] by (simp add: entries_def c_def upd_conv_take_nth_drop take_update_swap take_Cons' drop_take)
  ultimately show ?thesis using assms(2) by (auto simp: rewritten_def c_def)
qed

section \<open>Loops that edit\<close>

text \<open>
  Entries that match, without their tags, are replaced by \<open>r\<close>, and the counter goes down; the walk ends when it is 0. With a
  counter that is not positive this never happens.
\<close>

fun edit_run :: "ptr \<Rightarrow> ptr list \<Rightarrow> int \<Rightarrow> ptr list \<Rightarrow> bool \<times> int \<times> ptr list" where
  "edit_run e r c [] = (False, c, [])"
| "edit_run e r c (x # xs) =
     (if untag x = e
      then if c - 1 = 0 then (True, 0, r @ xs) else (case edit_run e r (c - 1) xs of (out, d, ys) \<Rightarrow> (out, d, r @ ys))
      else (case edit_run e r c xs of (out, d, ys) \<Rightarrow> (out, d, x # ys)))"

lemma edit_run_append:
  "edit_run e r c (xs @ ys) =
   (case edit_run e r c xs of
      (True, d, zs) \<Rightarrow> (True, d, zs @ ys)
    | (False, d, zs) \<Rightarrow> (case edit_run e r d ys of (out, d', us) \<Rightarrow> (out, d', zs @ us)))"
  by (induction xs arbitrary: c) (auto split: prod.splits bool.splits)

text \<open>A body that does this at the cursor; \<open>r\<close> has at most one entry.\<close>

definition edits :: "int body \<Rightarrow> ptr \<Rightarrow> ptr list \<Rightarrow> bool" where
  "edits body e r \<longleftrightarrow>
     length r \<le> 1 \<and>
     (\<forall>a i p c h b. pl_blocks h a = Some b \<longrightarrow> well_sized b \<longrightarrow> i < nat (nr b) \<longrightarrow>
        (if p = e
         then \<exists>b'. rewritten b (take i (entries b) @ r @ drop (Suc i) (entries b)) b' \<and>
                body (Some a) (int i) p c h =
                Inr (if c - 1 = 0 then Leave 0 (h\<lparr>pl_blocks := (pl_blocks h)(a \<mapsto> b')\<rparr>)
                     else Turn (Some a) (int i + int (length r) - 1) (c - 1) (h\<lparr>pl_blocks := (pl_blocks h)(a \<mapsto> b')\<rparr>))
         else body (Some a) (int i) p c h = Inr (Turn (Some a) (int i) c h)))"

lemma delete_edits: "edits (delete_body e) e []"
  unfolding edits_def
proof (intro conjI allI impI)
  fix a i p c b and h :: pl_heap assume *: "pl_blocks h a = Some b" "well_sized b" "i < nat (nr b)"
  show "if p = e
        then \<exists>b'. rewritten b (take i (entries b) @ [] @ drop (Suc i) (entries b)) b' \<and>
               delete_body e (Some a) (int i) p c h =
               Inr (if c - 1 = 0 then Leave 0 (h\<lparr>pl_blocks := (pl_blocks h)(a \<mapsto> b')\<rparr>)
                    else Turn (Some a) (int i + int (length []) - 1) (c - 1) (h\<lparr>pl_blocks := (pl_blocks h)(a \<mapsto> b')\<rparr>))
        else delete_body e (Some a) (int i) p c h = Inr (Turn (Some a) (int i) c h)"
    using delete_current [OF *] by (auto simp: delete_body_def)
qed simp

lemma replace_edits: "edits (replace_body e new) e [new]"
  unfolding edits_def
proof (intro conjI allI impI)
  fix a i p c b and h :: pl_heap assume *: "pl_blocks h a = Some b" "well_sized b" "i < nat (nr b)"
  show "if p = e
        then \<exists>b'. rewritten b (take i (entries b) @ [new] @ drop (Suc i) (entries b)) b' \<and>
               replace_body e new (Some a) (int i) p c h =
               Inr (if c - 1 = 0 then Leave 0 (h\<lparr>pl_blocks := (pl_blocks h)(a \<mapsto> b')\<rparr>)
                    else Turn (Some a) (int i + int (length [new]) - 1) (c - 1) (h\<lparr>pl_blocks := (pl_blocks h)(a \<mapsto> b')\<rparr>))
        else replace_body e new (Some a) (int i) p c h = Inr (Turn (Some a) (int i) c h)"
    using replace_current [OF *, of new] by (auto simp: replace_body_def)
qed simp

text \<open>The turns of the loop in one block.\<close>

lemma edit_block:
  assumes "edits body e r" and "pl_blocks h a = Some b" and "well_sized b" and "i \<le> nat (nr b)"
    and "edit_run e r c (drop i (entries b)) = (out, d, ys)"
  shows "\<exists>b'. rewritten b (take i (entries b) @ ys) b' \<and>
              for_each_loop untag body head (Some a) (int i) c h =
              (if out then Some (Inr (True, d, h\<lparr>pl_blocks := (pl_blocks h)(a \<mapsto> b')\<rparr>))
               else for_each_loop untag body head (Some a) (nr b') d (h\<lparr>pl_blocks := (pl_blocks h)(a \<mapsto> b')\<rparr>))"
  using assms(2-5)
proof (induction "nat (nr b) - i" arbitrary: i b c h out d ys)
  case 0
  then have "int i = nr b" "drop i (entries b) = []" "take i (entries b) = entries b" using length_entries [of b] by auto
  then show ?case using 0 by (intro exI [of _ b]) (auto simp: rewritten_def fun_upd_idem)
next
  case (Suc k)
  let ?x = "slots b ! i"
  have i: "i < nat (nr b)" "i < length (slots b)" "int i < nr b" using Suc.hyps(2) Suc.prems(2) by auto
  have len: "length (entries b) = nat (nr b)" using Suc.prems(2) by (rule length_entries)
  have x: "drop i (entries b) = ?x # drop (Suc i) (entries b)" "take (Suc i) (entries b) = take i (entries b) @ [?x]"
    using i len by (simp_all add: Cons_nth_drop_Suc [symmetric] take_Suc_conv_app_nth) (simp_all add: entries_def)
  have unfold: "for_each_loop untag body head (Some a) (int i) c h =
      (case body (Some a) (int i) (untag ?x) c h of
         Inl u \<Rightarrow> Some (Inl u) | Inr (Leave x1 h1) \<Rightarrow> Some (Inr (True, x1, h1))
       | Inr (Turn l1 i1 x1 h1) \<Rightarrow> for_each_loop untag body head l1 (i1 + 1) x1 h1)"
    using i Suc.prems(1) by (subst for_each_loop.simps) (simp add: get_slot_def)
  show ?case
  proof (cases "untag ?x = e")
    case False
    then have "body (Some a) (int i) (untag ?x) c h = Inr (Turn (Some a) (int i) c h)"
      using assms(1) Suc.prems(1,2) i(1) unfolding edits_def by metis
    moreover obtain zs where zs: "edit_run e r c (drop (Suc i) (entries b)) = (out, d, zs)" "ys = ?x # zs"
      using Suc.prems(4) x(1) False by (auto split: prod.splits)
    ultimately show ?thesis
      using Suc.hyps(1) [of b "Suc i" h c out d zs] Suc.hyps(2) Suc.prems(1,2) i x(2) unfold by (simp add: add.commute)
  next
    case True
    obtain b' where b': "rewritten b (take i (entries b) @ r @ drop (Suc i) (entries b)) b'"
      "body (Some a) (int i) (untag ?x) c h =
       Inr (if c - 1 = 0 then Leave 0 (h\<lparr>pl_blocks := (pl_blocks h)(a \<mapsto> b')\<rparr>)
            else Turn (Some a) (int i + int (length r) - 1) (c - 1) (h\<lparr>pl_blocks := (pl_blocks h)(a \<mapsto> b')\<rparr>))"
      using assms(1) Suc.prems(1,2) i(1) True unfolding edits_def by metis
    show ?thesis
    proof (cases "c - 1 = 0")
      case left: True
      then have "out" "d = 0" "ys = r @ drop (Suc i) (entries b)" using Suc.prems(4) x(1) True by auto
      then show ?thesis using b' unfold left by auto
    next
      case False
      then obtain zs where zs: "edit_run e r (c - 1) (drop (Suc i) (entries b)) = (out, d, zs)" "ys = r @ zs"
        using Suc.prems(4) x(1) True by (auto split: prod.splits)
      define h1 where "h1 = h\<lparr>pl_blocks := (pl_blocks h)(a \<mapsto> b')\<rparr>"
      have b1: "well_sized b'" "entries b' = take i (entries b) @ r @ drop (Suc i) (entries b)" using b'(1) by (simp_all add: rewritten_def)
      have nr': "nat (nr b') = i + length r + (nat (nr b) - Suc i)" using length_entries [OF b1(1)] b1(2) len i by simp
      have at: "drop (i + length r) (entries b') = drop (Suc i) (entries b)" "take (i + length r) (entries b') = take i (entries b) @ r"
        using b1(2) len i by simp_all
      have "nat (nr b') - (i + length r) = k" using nr' Suc.hyps(2) by simp
      from Suc.hyps(1) [OF this [symmetric], of h1 "c - 1" out d zs]
      obtain b2 where "rewritten b' ((take i (entries b) @ r) @ zs) b2"
        "for_each_loop untag body head (Some a) (int (i + length r)) (c - 1) h1 =
         (if out then Some (Inr (True, d, h1\<lparr>pl_blocks := (pl_blocks h1)(a \<mapsto> b2)\<rparr>))
          else for_each_loop untag body head (Some a) (nr b2) d (h1\<lparr>pl_blocks := (pl_blocks h1)(a \<mapsto> b2)\<rparr>))"
        using b1(1) nr' at zs(1) by (auto simp: h1_def)
      then show ?thesis using b' unfold False zs(2) by (intro exI [of _ b2]) (auto simp: rewritten_def h1_def)
    qed
  qed
qed

text \<open>The whole ring: the blocks and their links stay.\<close>

definition edited :: "nat list \<Rightarrow> pl_heap \<Rightarrow> pl_heap \<Rightarrow> bool" where
  "edited bs h h' \<longleftrightarrow>
     pl_fresh h' = pl_fresh h \<and> (\<forall>x. x \<notin> set bs \<longrightarrow> pl_blocks h' x = pl_blocks h x) \<and> (\<forall>cs. ring (pl_blocks h) cs \<longrightarrow> ring (pl_blocks h') cs)"

lemma rewritten_edited:
  assumes "pl_blocks h a = Some b" and "rewritten b xs c" and "a \<in> set bs"
  shows "edited bs h (h\<lparr>pl_blocks := (pl_blocks h)(a \<mapsto> c)\<rparr>)"
  using assms ring_upd_same [of "pl_blocks h" a b c] by (auto simp: edited_def rewritten_def)

lemma edited_trans: "edited bs h h1 \<Longrightarrow> edited bs h1 h2 \<Longrightarrow> edited bs h h2"
  by (auto simp: edited_def)

lemma edit_loop_ring:
  assumes "edits body e r" and "ring (pl_blocks h) (ds @ a # ts)"
    and "edit_run e r c (contents (pl_blocks h) (a # ts)) = (out, d, ys)"
  shows "\<exists>h'. for_each_loop untag body (Some (hd (ds @ a # ts))) (Some a) 0 c h = Some (Inr (out, d, h')) \<and>
              edited (a # ts) h h' \<and> contents (pl_blocks h') (a # ts) = ys"
  using assms(2,3)
proof (induction ts arbitrary: ds a c h out d ys)
  case Nil
  obtain b where b: "pl_blocks h a = Some b" "well_sized b" "next_block b = Some (hd (ds @ [a]))" using ring_walk [OF Nil.prems(1)] by auto
  obtain b' where b': "rewritten b ys b'" "for_each_loop untag body (Some (hd (ds @ [a]))) (Some a) 0 c h =
      (if out then Some (Inr (True, d, h\<lparr>pl_blocks := (pl_blocks h)(a \<mapsto> b')\<rparr>))
       else for_each_loop untag body (Some (hd (ds @ [a]))) (Some a) (nr b') d (h\<lparr>pl_blocks := (pl_blocks h)(a \<mapsto> b')\<rparr>))"
    using edit_block [OF assms(1) b(1,2), of 0 c out d ys] Nil.prems(2) b(1) by auto
  have "for_each_loop untag body (Some (hd (ds @ [a]))) (Some a) (nr b') d (h\<lparr>pl_blocks := (pl_blocks h)(a \<mapsto> b')\<rparr>) =
      Some (Inr (False, d, h\<lparr>pl_blocks := (pl_blocks h)(a \<mapsto> b')\<rparr>))"
    using b(3) b'(1) by (subst for_each_loop.simps) (simp add: rewritten_def)
  then show ?case using b' rewritten_edited [OF b(1) b'(1), of "[a]"] by (auto simp: rewritten_def)
next
  case (Cons t ts)
  obtain b where b: "pl_blocks h a = Some b" "well_sized b" "next_block b = Some t" "t \<noteq> hd (ds @ a # t # ts)"
    using ring_walk [OF Cons.prems(1)] by auto
  have nin: "a \<notin> set (t # ts)" using Cons.prems(1) by (simp add: ring_def)
  obtain o1 d1 y1 where e1: "edit_run e r c (entries b) = (o1, d1, y1)" by (metis surj_pair)
  obtain b' where b': "rewritten b y1 b'" "for_each_loop untag body (Some (hd (ds @ a # t # ts))) (Some a) 0 c h =
      (if o1 then Some (Inr (True, d1, h\<lparr>pl_blocks := (pl_blocks h)(a \<mapsto> b')\<rparr>))
       else for_each_loop untag body (Some (hd (ds @ a # t # ts))) (Some a) (nr b') d1 (h\<lparr>pl_blocks := (pl_blocks h)(a \<mapsto> b')\<rparr>))"
    using edit_block [OF assms(1) b(1,2), of 0 c o1 d1 y1] e1 by auto
  define h1 where "h1 = h\<lparr>pl_blocks := (pl_blocks h)(a \<mapsto> b')\<rparr>"
  have h1: "edited (a # t # ts) h h1" "ring (pl_blocks h1) ((ds @ [a]) @ t # ts)"
    "contents (pl_blocks h1) (t # ts) = contents (pl_blocks h) (t # ts)" "entries b' = y1"
    using rewritten_edited [OF b(1) b'(1), of "a # t # ts"] Cons.prems(1) b'(1) contents_cong [of "t # ts" "pl_blocks h1" "pl_blocks h"] nin
    by (auto simp: h1_def edited_def rewritten_def)
  show ?case
  proof (cases o1)
    case True
    then have "out" "d = d1" "ys = y1 @ contents (pl_blocks h) (t # ts)" using Cons.prems(2) b(1) e1 by (auto simp: edit_run_append split: prod.splits)
    then show ?thesis using b'(2) True h1 by (auto simp: h1_def)
  next
    case False
    then obtain y2 where e2: "edit_run e r d1 (contents (pl_blocks h1) (t # ts)) = (out, d, y2)" "ys = y1 @ y2"
      using Cons.prems(2) b(1) e1 h1(3) by (auto simp: edit_run_append split: prod.splits)
    have "for_each_loop untag body (Some (hd (ds @ a # t # ts))) (Some a) (nr b') d1 h1 =
        for_each_loop untag body (Some (hd ((ds @ [a]) @ t # ts))) (Some t) 0 d1 h1"
      using b(3,4) b'(1) by (subst for_each_loop.simps) (simp add: rewritten_def h1_def)
    then obtain h2 where h2: "for_each_loop untag body (Some (hd (ds @ a # t # ts))) (Some a) (nr b') d1 h1 = Some (Inr (out, d, h2))"
      "edited (t # ts) h1 h2" "contents (pl_blocks h2) (t # ts) = y2"
      using Cons.IH [OF h1(2) e2(1)] by auto
    have "pl_blocks h2 a = Some b'" using h2(2) nin by (simp add: edited_def h1_def)
    moreover have "edited (a # t # ts) h h2" using h1(1) h2(2) by (auto simp: edited_def)
    ultimately show ?thesis using b'(2) False h2 e2(2) h1(4) by (auto simp: h1_def)
  qed
qed

lemma edit_rep:
  assumes "rep h l bs xs" and "edits body e r" and "edit_run e r c xs = (out, d, ys)"
  shows "\<exists>h'. for_each_ptr untag body l c h = Some (Inr (out, d, h')) \<and> rep h' l bs ys \<and> changes h bs h' bs"
proof (cases l)
  case None
  then show ?thesis using assms by (auto simp: for_each_ptr_def)
next
  case (Some a)
  then obtain as where as: "bs = a # as" using assms(1) by (cases bs) (auto simp: rep_def ring_def)
  have r: "ring (pl_blocks h) ([] @ a # as)" "contents (pl_blocks h) (a # as) = xs" "\<forall>x\<ge>pl_fresh h. pl_blocks h x = None"
    using assms(1) Some as by (simp_all add: rep_Some)
  obtain h' where h': "for_each_loop untag body (Some a) (Some a) 0 c h = Some (Inr (out, d, h'))" "edited bs h h'"
    "contents (pl_blocks h') bs = ys"
    using edit_loop_ring [OF assms(2) r(1), of c out d ys] assms(3) r(2) as by auto
  have "pl_blocks h' x = None" if "x \<ge> pl_fresh h'" for x
  proof -
    have "\<forall>y\<in>set bs. y < pl_fresh h" using ring_alloc [OF r(1,3)] as by simp
    then have "x \<notin> set bs" using h'(2) that by (auto simp: edited_def)
    then show ?thesis using h'(2) r(3) that by (simp add: edited_def)
  qed
  then have "rep h' l bs ys" using h' r(1) Some as by (auto simp: rep_Some edited_def)
  moreover have "changes h bs h' bs" using h'(2) by (auto simp: edited_def changes_def)
  ultimately show ?thesis using h'(1) Some by (auto simp: for_each_ptr_def)
qed

section \<open>Deleting and replacing entries\<close>

abbreviation matches :: "ptr \<Rightarrow> ptr list \<Rightarrow> int" where
  "matches e xs \<equiv> int (length (filter (\<lambda>x. untag x = e) xs))"

text \<open>The first \<open>n\<close> matches are replaced.\<close>

fun first_replaced :: "nat \<Rightarrow> ptr \<Rightarrow> ptr list \<Rightarrow> ptr list \<Rightarrow> ptr list" where
  "first_replaced n e r [] = []"
| "first_replaced n e r (x # xs) =
     (if untag x = e \<and> n > 0 then r @ first_replaced (n - 1) e r xs else x # first_replaced n e r xs)"

lemma first_replaced_0 [simp]: "first_replaced 0 e r xs = xs"
  by (induction xs) simp_all

lemma edit_run_counts:
  "0 < c \<Longrightarrow> c \<le> matches e xs \<Longrightarrow> edit_run e r c xs = (True, 0, first_replaced (nat c) e r xs)"
proof (induction xs arbitrary: c)
  case (Cons x xs)
  show ?case
  proof (cases "untag x = e \<and> c \<noteq> 1")
    case True
    then show ?thesis using Cons.IH [of "c - 1"] Cons.prems by (simp add: nat_diff_distrib)
  qed (use Cons in auto)
qed simp

lemma edit_run_all:
  "c \<le> 0 \<or> matches e xs < c \<Longrightarrow> edit_run e r c xs = (False, c - matches e xs, concat (map (\<lambda>x. if untag x = e then r else [x]) xs))"
  by (induction xs arbitrary: c) auto

lemma filter_concat: "concat (map (\<lambda>x. if P x then [] else [x]) xs) = filter (\<lambda>x. \<not> P x) xs"
  by (induction xs) auto

text \<open>What the two operations should leave, for a positive counter and for one that is not.\<close>

definition replaced :: "int \<Rightarrow> ptr \<Rightarrow> ptr list \<Rightarrow> ptr list \<Rightarrow> ptr list" where
  "replaced c e r xs = (if c \<le> 0 then concat (map (\<lambda>x. if untag x = e then r else [x]) xs) else first_replaced (nat c) e r xs)"

definition count_left :: "int \<Rightarrow> ptr \<Rightarrow> ptr list \<Rightarrow> int" where
  "count_left c e xs = (if c \<le> 0 then c - matches e xs else 0)"

lemma edit_run_result:
  assumes "c \<le> matches e xs"
  shows "edit_run e r c xs = (0 < c, count_left c e xs, replaced c e r xs)"
  using assms edit_run_counts [of c e xs r] edit_run_all [of c e xs r] by (simp add: replaced_def count_left_def)

lemma delete_ptr_list_entry_result:
  assumes "rep h l bs xs"
  shows "if c \<le> matches e xs
         then \<exists>l' h' bs'. delete_ptr_list_entry l e c h = Some (Inr (count_left c e xs, l', h')) \<and> rep h' l' bs' (replaced c e [] xs) \<and>
                (\<forall>a\<in>set bs'. nonempty (pl_blocks h') a) \<and> changes h bs h' bs'
         else delete_ptr_list_entry l e c h = Some (Inl Aborted)"
proof (cases "c \<le> matches e xs")
  case True
  then obtain h1 where h1: "for_each_ptr untag (delete_body e) l c h = Some (Inr (0 < c, count_left c e xs, h1))"
    "rep h1 l bs (replaced c e [] xs)" "changes h bs h1 bs"
    using edit_rep [OF assms delete_edits] edit_run_result by blast
  obtain l' h' bs' where h': "pack_ptr_list l h1 = Some (Inr (l', h'))" "rep h' l' bs' (replaced c e [] xs)"
    "\<forall>a\<in>set bs'. nonempty (pl_blocks h') a" "changes h1 bs h' bs'"
    using pack_rep [OF h1(2)] by blast
  have "delete_ptr_list_entry l e c h = Some (Inr (count_left c e xs, l', h'))"
    using h1(1) h'(1) by (simp add: delete_ptr_list_entry_def count_left_def)
  then show ?thesis using True h' changes_trans [OF h1(3) h'(4)] by auto
next
  case False
  then have "edit_run e [] c xs = (False, c - matches e xs, concat (map (\<lambda>x. if untag x = e then [] else [x]) xs))"
    by (intro edit_run_all) simp
  from edit_rep [OF assms delete_edits this] obtain h1 where
    "for_each_ptr untag (delete_body e) l c h = Some (Inr (False, c - matches e xs, h1))" by blast
  then show ?thesis using False by (simp add: delete_ptr_list_entry_def)
qed

lemma replace_ptr_list_entry_result:
  assumes "rep h l bs xs"
  shows "if c \<le> matches e xs
         then \<exists>h'. replace_ptr_list_entry l e new c h = Some (Inr (count_left c e xs, h')) \<and> rep h' l bs (replaced c e [new] xs) \<and>
                changes h bs h' bs
         else replace_ptr_list_entry l e new c h = Some (Inl Aborted)"
proof (cases "c \<le> matches e xs")
  case True
  then obtain h1 where h1: "for_each_ptr untag (replace_body e new) l c h = Some (Inr (0 < c, count_left c e xs, h1))"
    "rep h1 l bs (replaced c e [new] xs)" "changes h bs h1 bs"
    using edit_rep [OF assms replace_edits] edit_run_result by blast
  then show ?thesis using True by (auto simp: replace_ptr_list_entry_def count_left_def)
next
  case False
  then have "edit_run e [new] c xs = (False, c - matches e xs, concat (map (\<lambda>x. if untag x = e then [new] else [x]) xs))"
    by (intro edit_run_all) simp
  from edit_rep [OF assms replace_edits this] obtain h1 where
    "for_each_ptr untag (replace_body e new) l c h = Some (Inr (False, c - matches e xs, h1))" by blast
  then show ?thesis using False by (simp add: replace_ptr_list_entry_def)
qed

end
