(* ===== verification/Sparse_Ptrlist_Lists.thy ===== *)
theory Sparse_Ptrlist_Lists
  imports Sparse_Ptrlist_Edit
begin

text \<open>
  The operations of src/sparse-0.4.1/ptrlist.c on whole lists and on their ends, as operations on sequences: concatenation, the
  loop from the end to the start, taking the last entry, inserting at the cursor and freeing a list.
\<close>

section \<open>Concatenation\<close>

lemma untag_aligned [simp]: "3 AND untag w = 0" "NOT 3 AND (0 :: ptr) = 0"
  by (simp_all add: untag_def and.left_commute [of 3] flip: and.assoc)

lemma untag_untag [simp]: "untag (untag w) = untag w"
  by (simp add: untag_def flip: and.assoc)

lemma add_ptr_list_rep:
  assumes "rep h l bs xs"
  shows "\<exists>l' h' bs'. add_ptr_list l (untag p) h = Inr (l', h') \<and> rep h' l' bs' (xs @ [untag p]) \<and> changes h bs h' bs'"
  using add_appends [OF assms, of "untag p" 0] by (simp add: add_ptr_list_def)

lemma add_ptr_list_keeps:
  assumes "rep h l bs xs" and "add_ptr_list l p h = Inr (l', h')"
  shows "\<exists>bs'. rep h' l' bs' (xs @ [p]) \<and> changes h bs h' bs'"
proof -
  have "3 AND p = 0" using assms(2) by (auto simp: add_ptr_list_def add_ptr_list_tag_def split: if_splits)
  then show ?thesis using add_appends [OF assms(1), of p 0] assms(2) by (auto simp: add_ptr_list_def)
qed

text \<open>A list whose blocks are not those of the list that changes stays as it is.\<close>

lemma changes_rep:
  assumes "changes h bs h' bs'" and "rep h l as xs" and "set as \<inter> set bs = {}" and "\<forall>a\<ge>pl_fresh h'. pl_blocks h' a = None"
  shows "rep h' l as xs" and "\<forall>a\<in>set as. pl_blocks h' a = pl_blocks h a" and "set as \<inter> set bs' = {}"
proof -
  have below: "\<forall>a\<in>set as. a < pl_fresh h" using assms(2) ring_alloc [of "pl_blocks h" as "pl_fresh h"] by (auto simp: rep_def)
  then show same: "\<forall>a\<in>set as. pl_blocks h' a = pl_blocks h a" using assms(1,3) unfolding changes_def by blast
  show "rep h' l as xs"
    using assms(2,4) ring_cong [of as "pl_blocks h" "pl_blocks h'"] contents_cong [of as "pl_blocks h" "pl_blocks h'"] same by (auto simp: rep_def)
  show "set as \<inter> set bs' = {}" using assms(1,3) below unfolding changes_def by fastforce
qed

abbreviation append_step :: "ptr \<Rightarrow> nat option \<times> pl_heap \<Rightarrow> (nat option \<times> pl_heap) res" where
  "append_step w s \<equiv> add_ptr_list (fst s) w (snd s)"

lemma append_all:
  assumes "rep h b bs ys"
  shows "\<exists>b' h' bs'. rfold append_step (map untag xs) (b, h) = Inr (b', h') \<and> rep h' b' bs' (ys @ map untag xs) \<and> changes h bs h' bs'"
  using assms
proof (induction xs arbitrary: b h bs ys)
  case Nil
  then show ?case by (auto intro: exI [of _ bs])
next
  case (Cons x xs)
  obtain b1 h1 bs1 where 1: "add_ptr_list b (untag x) h = Inr (b1, h1)" "rep h1 b1 bs1 (ys @ [untag x])" "changes h bs h1 bs1"
    using add_ptr_list_rep [OF Cons.prems] by blast
  obtain b' h' bs' where 2: "rfold append_step (map untag xs) (b1, h1) = Inr (b', h')" "rep h' b' bs' ((ys @ [untag x]) @ map untag xs)"
    "changes h1 bs1 h' bs'"
    using Cons.IH [OF 1(2)] by blast
  show ?case using 1(1) 2(1,2) changes_trans [OF 1(3) 2(3)] by auto
qed

lemma rep_fresh: "rep h l bs xs \<Longrightarrow> \<forall>a\<ge>pl_fresh h. pl_blocks h a = None"
  by (simp add: rep_def)

lemma concat_result:
  assumes "rep h a as xs" and "rep h b bs ys" and "set as \<inter> set bs = {}"
  shows "\<exists>b' h' bs'. concat_ptr_list a b h = Some (Inr (b', h')) \<and> rep h' b' bs' (ys @ map untag xs) \<and> rep h' a as xs \<and> changes h bs h' bs'"
proof -
  define P where "P = (\<lambda>(l, h'). \<exists>bs' zs. rep h' l bs' zs \<and> changes h bs h' bs')"
  have step: "P s1" if p: "P s" and e: "append_step w s = Inr s1" for w s s1
  proof -
    obtain l h1 bs1 zs where 1: "s = (l, h1)" "rep h1 l bs1 zs" "changes h bs h1 bs1" using p by (cases s) (auto simp: P_def)
    obtain l2 h2 where 2: "s1 = (l2, h2)" "add_ptr_list l w h1 = Inr (l2, h2)" using e 1(1) by (cases s1) auto
    show ?thesis using add_ptr_list_keeps [OF 1(2) 2(2)] changes_trans [OF 1(3)] 2(1) unfolding P_def by fastforce
  qed
  have "\<forall>x\<in>set as. pl_blocks h1 x = pl_blocks h x" if "P (l, h1)" for l h1
    using that changes_rep(2) [OF _ assms(1,3)] rep_fresh unfolding P_def by blast
  then have "steady (pl_blocks h) as P append_step concat_body"
    using step unfolding steady_def by (auto simp: concat_body_def)
  moreover have "P (b, h)" using assms(2) changes_refl by (auto simp: P_def)
  ultimately have "for_each_ptr untag concat_body a b h = ended (rfold append_step (map untag xs) (b, h))"
    by (rule for_each_fold [OF assms(1)])
  moreover obtain b' h' bs' where 3: "rfold append_step (map untag xs) (b, h) = Inr (b', h')" "rep h' b' bs' (ys @ map untag xs)" "changes h bs h' bs'"
    using append_all [OF assms(2)] by blast
  ultimately have "concat_ptr_list a b h = Some (Inr (b', h'))" by (simp add: concat_ptr_list_def)
  then show ?thesis using 3 changes_rep(1) [OF 3(3) assms(1,3) rep_fresh [OF 3(2)]] by blast
qed

section \<open>The last entry\<close>

lemma ring_at_end:
  assumes "ring m (as @ z # ds)"
  obtains c b where "m (hd (ds @ as @ [z])) = Some c" and "prev c = Some z" and "m z = Some b" and "well_sized b"
proof -
  have r: "ring m ((ds @ as) @ [z])" using assms ring_rotate [of m "as @ [z]" ds] by simp
  obtain c b where "m (hd ((ds @ as) @ [z])) = Some c" "prev c = Some z" "m z = Some b" "well_sized b"
    using ring_ends [OF r] by (metis last_snoc)
  then show thesis using that by simp
qed

lemma drop_last_entry:
  assumes "well_sized b" and "nr b \<noteq> 0"
  shows "get_slot (slots b) (nr b - 1) = Inr (last (entries b))" and "entries b \<noteq> []"
    and "rewritten b (butlast (entries b)) (b\<lparr>nr := nr b - 1\<rparr>)"
    and "\<exists>ws. put_slot (nr b - 1) w (slots b) = Inr ws \<and> rewritten b (butlast (entries b)) (b\<lparr>slots := ws, nr := nr b - 1\<rparr>)"
proof -
  have n: "0 \<le> nr b - 1" "nat (nr b) = Suc (nat (nr b - 1))" "nat (nr b - 1) < length (slots b)" using assms by auto
  have e: "entries b = take (nat (nr b - 1)) (slots b) @ [slots b ! nat (nr b - 1)]" using n by (simp add: entries_def take_Suc_conv_app_nth)
  then show "get_slot (slots b) (nr b - 1) = Inr (last (entries b))" "entries b \<noteq> []" using n by (auto simp: get_slot_def)
  show "rewritten b (butlast (entries b)) (b\<lparr>nr := nr b - 1\<rparr>)" using assms n e by (auto simp: rewritten_def entries_def)
  show "\<exists>ws. put_slot (nr b - 1) w (slots b) = Inr ws \<and> rewritten b (butlast (entries b)) (b\<lparr>slots := ws, nr := nr b - 1\<rparr>)"
    using assms n e by (auto simp: rewritten_def entries_def put_slot_def)
qed

text \<open>The entries of one block of a ring are rewritten.\<close>

lemma rewrite_block:
  assumes "ring (pl_blocks h) (as @ z # ds)" and "\<forall>a\<ge>pl_fresh h. pl_blocks h a = None" and "pl_blocks h z = Some b" and "rewritten b ys c"
    and "h' = h\<lparr>pl_blocks := (pl_blocks h)(z \<mapsto> c)\<rparr>"
  shows "rep h' (Some (hd (as @ [z]))) (as @ z # ds) (contents (pl_blocks h) as @ ys @ contents (pl_blocks h) ds)"
    and "changes h (as @ z # ds) h' (as @ z # ds)"
proof -
  let ?m = "(pl_blocks h)(z \<mapsto> c)"
  have z: "z \<notin> set as" "z \<notin> set ds" "z < pl_fresh h" using assms(1) ring_alloc [OF assms(1,2)] by (auto simp: ring_def)
  have "contents ?m as = contents (pl_blocks h) as" "contents ?m ds = contents (pl_blocks h) ds"
    using z by (auto intro!: contents_cong)
  moreover have "ring ?m (as @ z # ds)"
    using ring_upd_same [OF assms(3) _ _ _ _ _ assms(1), of c] assms(4) by (simp add: rewritten_def)
  ultimately show "rep h' (Some (hd (as @ [z]))) (as @ z # ds) (contents (pl_blocks h) as @ ys @ contents (pl_blocks h) ds)"
    using assms(2,4) z(3) by (auto simp: rep_Some assms(5) rewritten_def hd_append)
  show "changes h (as @ z # ds) h' (as @ z # ds)" by (auto simp: changes_def assms(5))
qed

lemma undo_loop_ring:
  assumes "ring (pl_blocks h) (as @ z # ds)" and "\<forall>a\<ge>pl_fresh h. pl_blocks h a = None" and "contents (pl_blocks h) ds = []"
  defines "xs \<equiv> contents (pl_blocks h) (as @ [z])"
  shows "if xs = [] then undo_loop (Some (hd (as @ [z]))) (Some (hd (ds @ as @ [z]))) h = Some (Inr (0, h))
         else \<exists>h'. undo_loop (Some (hd (as @ [z]))) (Some (hd (ds @ as @ [z]))) h = Some (Inr (last xs, h')) \<and>
                rep h' (Some (hd (as @ [z]))) (as @ z # ds) (butlast xs) \<and> changes h (as @ z # ds) h' (as @ z # ds)"
  using assms(1-3) unfolding xs_def
proof (induction as arbitrary: z ds rule: rev_induct)
  case Nil
  obtain c b where b: "pl_blocks h (hd (ds @ [z])) = Some c" "prev c = Some z" "pl_blocks h z = Some b" "well_sized b"
    using ring_at_end [OF Nil.prems(1)] by auto
  show ?case
  proof (cases "nr b = 0")
    case True
    then show ?thesis using b by (subst undo_loop.simps) (simp add: entries_def)
  next
    case False
    obtain ws where ws: "put_slot (nr b - 1) undone (slots b) = Inr ws" "rewritten b (butlast (entries b)) (b\<lparr>slots := ws, nr := nr b - 1\<rparr>)"
      using drop_last_entry(4) [OF b(4) False] by blast
    then have "undo_loop (Some z) (Some (hd (ds @ [z]))) h =
        Some (Inr (last (entries b), h\<lparr>pl_blocks := (pl_blocks h)(z \<mapsto> b\<lparr>slots := ws, nr := nr b - 1\<rparr>)\<rparr>))"
      using b False drop_last_entry(1) [OF b(4) False] by (subst undo_loop.simps) (simp add: set_block_def)
    then show ?thesis
      using rewrite_block [OF Nil.prems(1,2) b(3) ws(2) refl] Nil.prems(3) b(3) drop_last_entry(2) [OF b(4) False] by auto
  qed
next
  case (snoc y as)
  let ?z = "hd (ds @ (as @ [y]) @ [z])" and ?f = "hd ((as @ [y]) @ [z])"
  obtain c b where b: "pl_blocks h ?z = Some c" "prev c = Some z" "pl_blocks h z = Some b" "well_sized b"
    using ring_at_end [OF snoc.prems(1)] by auto
  show ?case
  proof (cases "nr b = 0")
    case True
    have "z \<noteq> ?f" using snoc.prems(1) by (cases as) (auto simp: ring_def)
    then have 1: "undo_loop (Some ?f) (Some ?z) h = undo_loop (Some ?f) (Some (hd ((z # ds) @ as @ [y]))) h"
      using b True by (subst undo_loop.simps) simp
    have f: "?f = hd (as @ [y])" by (simp add: hd_append)
    have e: "entries b = []" using True by (simp add: entries_def)
    then have 2: "contents (pl_blocks h) ((as @ [y]) @ [z]) = contents (pl_blocks h) (as @ [y])" using b(3) by (simp add: contents_def)
    have r: "ring (pl_blocks h) (as @ y # z # ds)" "contents (pl_blocks h) (z # ds) = []" "(as @ [y]) @ z # ds = as @ y # z # ds"
      using snoc.prems(1,3) b(3) e by simp_all
    show ?thesis using snoc.IH [OF r(1) snoc.prems(2) r(2)] unfolding 1 2 r(3) unfolding f .
  next
    case False
    obtain ws where ws: "put_slot (nr b - 1) undone (slots b) = Inr ws" "rewritten b (butlast (entries b)) (b\<lparr>slots := ws, nr := nr b - 1\<rparr>)"
      using drop_last_entry(4) [OF b(4) False] by blast
    then have "undo_loop (Some ?f) (Some ?z) h =
        Some (Inr (last (entries b), h\<lparr>pl_blocks := (pl_blocks h)(z \<mapsto> b\<lparr>slots := ws, nr := nr b - 1\<rparr>)\<rparr>))"
      using b False drop_last_entry(1) [OF b(4) False] by (subst undo_loop.simps) (simp add: set_block_def)
    moreover have "contents (pl_blocks h) [y, z] = contents (pl_blocks h) [y] @ entries b" using b(3) by (simp add: contents_def)
    ultimately show ?thesis
      using rewrite_block [OF snoc.prems(1,2) b(3) ws(2) refl] snoc.prems(3) b(3) drop_last_entry(2) [OF b(4) False]
      by (auto simp: butlast_append)
  qed
qed

lemma undo_last_result:
  assumes "rep h l bs xs"
  shows "if xs = [] then undo_ptr_list_last l h = Some (Inr (0, h))
         else \<exists>h'. undo_ptr_list_last l h = Some (Inr (last xs, h')) \<and> rep h' l bs (butlast xs) \<and> changes h bs h' bs"
proof (cases l)
  case None
  then show ?thesis using assms by (simp add: undo_ptr_list_last_def)
next
  case (Some a)
  have r: "ring (pl_blocks h) bs" "\<forall>a\<ge>pl_fresh h. pl_blocks h a = None" "a = hd bs" "contents (pl_blocks h) bs = xs" using assms Some by (simp_all add: rep_Some)
  obtain as z where "bs = as @ [z]" using r(1) by (metis append_butlast_last_id ring_def)
  then show ?thesis using undo_loop_ring [of h as z "[]"] r Some by (auto simp: undo_ptr_list_last_def split: if_splits)
qed

text \<open>
  \<open>delete_ptr_list_last\<close> looks at the last block only. It links the block out in the other order; when no block is empty the
  list loses its last entry and keeps no empty block.
\<close>

lemma links_commute:
  assumes "pl_blocks h p = Some b" and "pl_blocks h q = Some c"
  shows "rbind (set_block (Some p) (\<lambda>b. b\<lparr>prev := x\<rparr>) h) (set_block (Some q) (\<lambda>b. b\<lparr>next_block := y\<rparr>)) =
         rbind (set_block (Some q) (\<lambda>b. b\<lparr>next_block := y\<rparr>) h) (set_block (Some p) (\<lambda>b. b\<lparr>prev := x\<rparr>))"
  using assms by (cases "p = q"; cases b) (auto simp: set_block_def fun_upd_twist)

lemma delete_last_result:
  assumes "rep h l bs xs" and "\<forall>a\<in>set bs. nonempty (pl_blocks h) a"
  shows "if xs = [] then delete_ptr_list_last l h = Inr (0, l, h)
         else \<exists>l' h' bs'. delete_ptr_list_last l h = Inr (last xs, l', h') \<and> rep h' l' bs' (butlast xs) \<and>
                (\<forall>a\<in>set bs'. nonempty (pl_blocks h') a) \<and> changes h bs h' bs'"
proof (cases l)
  case None
  then show ?thesis using assms by (simp add: delete_ptr_list_last_def)
next
  case (Some a)
  have r: "ring (pl_blocks h) bs" "\<forall>a\<ge>pl_fresh h. pl_blocks h a = None" "a = hd bs" "contents (pl_blocks h) bs = xs"
    using assms(1) Some by (simp_all add: rep_Some)
  obtain as z where bs: "bs = as @ [z]" using r(1) by (metis append_butlast_last_id ring_def)
  obtain f b where b: "pl_blocks h a = Some f" "prev f = Some z" "pl_blocks h z = Some b" "well_sized b"
    using ring_at_end [of "pl_blocks h" as z "[]"] r(1,3) bs by auto
  have n: "nr b \<noteq> 0" using assms(2) bs b(3) by (simp add: nonempty_def)
  define c where "c = b\<lparr>nr := nr b - 1\<rparr>"
  define h1 where "h1 = h\<lparr>pl_blocks := (pl_blocks h)(z \<mapsto> c)\<rparr>"
  have e: "entries b \<noteq> []" "get_slot (slots b) (nr b - 1) = Inr (last (entries b))" "rewritten b (butlast (entries b)) c"
    using drop_last_entry [OF b(4) n] by (simp_all add: c_def)
  have xs: "xs \<noteq> []" "last xs = last (entries b)" "butlast xs = contents (pl_blocks h) as @ butlast (entries b)"
    using r(4) bs b(3) e(1) by (auto simp: butlast_append)
  have h1: "rep h1 (Some a) bs (butlast xs)" "changes h bs h1 bs"
    using rewrite_block [OF _ r(2) b(3) e(3) h1_def, of as "[]"] r(1,3) bs xs(3) by (simp_all add: hd_append)
  have ne1: "\<forall>a\<in>set as. nonempty (pl_blocks h1) a" using assms(2) r(1) bs by (auto simp: h1_def nonempty_def ring_def)
  show ?thesis
  proof (cases "nr b = 1")
    case False
    then have "delete_ptr_list_last l h = Inr (last (entries b), l, h1)"
      using Some b n e(2) by (simp add: delete_ptr_list_last_def set_block_def h1_def c_def)
    moreover have "\<forall>a\<in>set bs. nonempty (pl_blocks h1) a" using False ne1 bs by (simp add: h1_def c_def nonempty_def)
    ultimately show ?thesis using xs(1,2) h1 Some by simp blast
  next
    case one: True
    have c: "pl_blocks h1 z = Some c" "entries c = []" "prev c = prev b" using one by (simp_all add: h1_def c_def entries_def)
    show ?thesis
    proof (cases as)
      case Nil
      then have a: "a = z" "prev b = Some z" using r(1,3) bs b by auto
      have "delete_ptr_list_last l h = Inr (last (entries b), None, h\<lparr>pl_blocks := (pl_blocks h)(z := None)\<rparr>)"
        using Some b n e(2) a one by (simp add: delete_ptr_list_last_def set_block_def free_ptrlist_def)
      moreover have "butlast xs = []" using xs(3) Nil e(3) c(2) by (simp add: rewritten_def)
      ultimately show ?thesis using xs Nil bs r(2) by (auto simp: changes_def)
    next
      case (Cons a' as')
      then have a: "a = hd as" "a \<noteq> z" using r(1,3) bs by (auto simp: ring_def)
      have ring1: "ring (pl_blocks h1) ([] @ z # as)" using h1(1) bs ring_rotate [of _ as "[z]"] by (simp add: rep_Some)
      have links: "prev c = Some (last as)" "next_block c = Some a"
      proof -
        obtain d where "pl_blocks h1 z = Some d" "prev d = Some (last (z # as @ []))" "next_block d = Some (hd (as @ [] @ [z]))"
          by (rule ring_block [OF ring1])
        then show "prev c = Some (last as)" "next_block c = Some a" using c(1) Cons a(1) by simp_all
      qed
      obtain g where g: "pl_blocks h1 (last as) = Some g"
        using seg_block [of "pl_blocks h1" "last (z # as)" "z # as" z "last as"] ring1 Cons unfolding ring_def by force
      obtain h2 where h2: "rbind (set_block (prev c) (\<lambda>b. b\<lparr>next_block := next_block c\<rparr>) h1) (\<lambda>h2.
          rbind (set_block (next_block c) (\<lambda>b. b\<lparr>prev := prev c\<rparr>) h2) (free_ptrlist (Some z))) = Inr h2" "unlinked z as h1 h2"
        using unlink_ring [of h1 z as c] ring1 c(1) Cons by auto
      have f: "pl_blocks h1 a = Some f" using b(1) a(2) by (simp add: h1_def)
      have "set_block (Some z) (\<lambda>c. c\<lparr>nr := nr c - 1\<rparr>) h = Inr h1" using b(3) by (simp add: set_block_def h1_def c_def)
      moreover have "rbind (set_block (Some a) (\<lambda>b. b\<lparr>prev := prev c\<rparr>) h1) (\<lambda>h2. rbind (block (Some z) h2) (\<lambda>b2.
          rbind (set_block (prev b2) (\<lambda>b. b\<lparr>next_block := Some a\<rparr>) h2) (free_ptrlist (Some z)))) = Inr h2"
        using links_commute [OF f g, of "prev c" "Some a"] h2(1) f links c(1) a(2)
        by (simp add: set_block_Some [OF f] rbind_assoc [symmetric])
      ultimately have "delete_ptr_list_last l h = Inr (last (entries b), Some a, h2)"
        using Some b n e(2) one a(2) by (simp add: delete_ptr_list_last_def c(3) [symmetric] rbind_assoc [symmetric])
      moreover have "rep h2 (Some a) as (butlast xs)"
        using h2(2) unlinked_fresh [OF h2(2)] h1(1) ring1 bs a(1) c by (auto simp: rep_Some unlinked_def ring_def)
      moreover have "\<forall>a\<in>set as. nonempty (pl_blocks h2) a" using unlinked_nonempty [OF h2(2) _ ne1] ring1 by (simp add: ring_def)
      moreover have "changes h bs h2 as" using changes_trans [OF h1(2) unlinked_changes [OF h2(2), of bs as]] bs by auto
      ultimately show ?thesis using xs by auto
    qed
  qed
qed

section \<open>Freeing a list\<close>

text \<open>A chain of blocks that ends with NULL.\<close>

fun chain :: "blocks \<Rightarrow> nat list \<Rightarrow> bool" where
  "chain m [] = True"
| "chain m (a # as) \<longleftrightarrow> (\<exists>b. m a = Some b \<and> next_block b = (case as of [] \<Rightarrow> None | c # cs \<Rightarrow> Some c)) \<and> chain m as"

lemma chain_cong: "\<forall>a\<in>set as. m a = m' a \<Longrightarrow> chain m as = chain m' as"
  by (induction as) auto

lemma free_loop_chain:
  assumes "chain (pl_blocks h) as" and "distinct as"
  shows "free_loop (case as of [] \<Rightarrow> None | c # cs \<Rightarrow> Some c) h = Some (Inr (h\<lparr>pl_blocks := pl_blocks h |` (- set as)\<rparr>))"
  using assms
proof (induction as arbitrary: h)
  case Nil
  then show ?case by (subst free_loop.simps) (cases h, simp add: restrict_map_def)
next
  case (Cons a as)
  obtain b where b: "pl_blocks h a = Some b" "next_block b = (case as of [] \<Rightarrow> None | c # cs \<Rightarrow> Some c)" using Cons.prems(1) by auto
  define h1 where "h1 = h\<lparr>pl_blocks := (pl_blocks h)(a := None)\<rparr>"
  have "chain (pl_blocks h1) as" using Cons.prems chain_cong [of as "pl_blocks h" "pl_blocks h1"] by (auto simp: h1_def)
  then have "free_loop (next_block b) h1 = Some (Inr (h1\<lparr>pl_blocks := pl_blocks h1 |` (- set as)\<rparr>))"
    using Cons.IH [of h1] Cons.prems(2) b(2) by simp
  moreover have "pl_blocks h1 |` (- set as) = pl_blocks h |` (- set (a # as))" by (auto simp: h1_def restrict_map_def fun_eq_iff)
  ultimately show ?case using b(1) by (subst free_loop.simps) (simp add: free_ptrlist_def h1_def)
qed

lemma case_snoc: "(case as @ [z] of [] \<Rightarrow> x | c # cs \<Rightarrow> f c) = f (hd (as @ [z]))"
  by (cases as) auto

lemma seg_chain:
  assumes "seg m p (as @ [z]) q" and "z \<notin> set as" and "m z = Some b"
  shows "chain (m(z \<mapsto> b\<lparr>next_block := None\<rparr>)) (as @ [z])"
  using assms
proof (induction as arbitrary: p)
  case (Cons a as)
  then show ?case by (auto simp: linked_def case_snoc split: option.splits)
qed simp

lemma free_ptr_list_result:
  assumes "rep h l bs xs"
  shows "free_ptr_list l h = Some (Inr (None, h\<lparr>pl_blocks := pl_blocks h |` (- set bs)\<rparr>))"
proof (cases l)
  case None
  then show ?thesis using assms by (simp add: free_ptr_list_def restrict_map_def)
next
  case (Some a)
  have r: "ring (pl_blocks h) bs" "a = hd bs" using assms Some by (simp_all add: rep_Some)
  obtain as z where bs: "bs = as @ [z]" using r(1) by (metis append_butlast_last_id ring_def)
  obtain f b where b: "pl_blocks h a = Some f" "prev f = Some z" "pl_blocks h z = Some b" "well_sized b"
    using ring_at_end [of "pl_blocks h" as z "[]"] r bs by auto
  define h1 where "h1 = h\<lparr>pl_blocks := (pl_blocks h)(z \<mapsto> b\<lparr>next_block := None\<rparr>)\<rparr>"
  have "chain (pl_blocks h1) bs" "distinct bs"
    using seg_chain [of "pl_blocks h" "last bs" as z "hd bs" b] r(1) bs b(3) by (auto simp: h1_def ring_def)
  then have "free_loop (Some a) h1 = Some (Inr (h1\<lparr>pl_blocks := pl_blocks h1 |` (- set bs)\<rparr>))"
    using free_loop_chain [of h1 bs] r(1,2) by (cases bs) (auto simp: ring_def)
  moreover have "pl_blocks h1 |` (- set bs) = pl_blocks h |` (- set bs)" by (auto simp: h1_def restrict_map_def fun_eq_iff bs)
  ultimately show ?thesis using Some b by (simp add: free_ptr_list_def set_block_def h1_def)
qed

section \<open>From the end to the start\<close>

lemma take_int_Suc: "i < nat (nr b) \<Longrightarrow> well_sized b \<Longrightarrow> take (Suc i) (entries b) = take i (entries b) @ [slots b ! i]"
  using length_entries [of b] by (simp add: take_Suc_conv_app_nth) (simp add: entries_def)

lemma reverse_block:
  assumes "steady m bs P f body" and "a \<in> set bs" and "m a = Some b" and "well_sized b" and "P (x, h)" and "i \<le> nat (nr b)"
  shows "reverse_loop ent body head (Some a) (int i) x h =
         obind (Some (rfold f (map ent (rev (take i (entries b)))) (x, h))) (\<lambda>(x1, h1). reverse_loop ent body head (Some a) 0 x1 h1)"
  using assms(5,6)
proof (induction i arbitrary: x h)
  case (Suc i)
  have i: "i < nat (nr b)" "i < length (slots b)" using Suc.prems(2) assms(4) by auto
  have blk: "block (Some a) h = Inr b" using assms(1-3) Suc.prems(1) by (simp add: steady_def)
  have t: "rev (take (Suc i) (entries b)) = slots b ! i # rev (take i (entries b))" using take_int_Suc [OF i(1) assms(4)] by simp
  have "reverse_loop ent body head (Some a) (int (Suc i)) x h =
      obind (Some (f (ent (slots b ! i)) (x, h))) (\<lambda>(x1, h1). reverse_loop ent body head (Some a) (int i) x1 h1)"
    using i blk assms(1)
    by (subst reverse_loop.simps) (cases "f (ent (slots b ! i)) (x, h)", auto simp: get_slot_def steady_def split: prod.splits)
  also have "\<dots> = obind (Some (rfold f (map ent (rev (take (Suc i) (entries b)))) (x, h)))
      (\<lambda>(x1, h1). reverse_loop ent body head (Some a) 0 x1 h1)"
  proof (cases "f (ent (slots b ! i)) (x, h)")
    case (Inr s1)
    obtain x1 h1 where s1: "s1 = (x1, h1)" by (cases s1)
    have "P (x1, h1)" using assms(1) Suc.prems(1) Inr s1 unfolding steady_def by blast
    then show ?thesis using Suc.IH [of x1 h1] Suc.prems(2) Inr s1 t by simp
  qed (simp add: t)
  finally show ?case .
qed simp

lemma reverse_loop_fold:
  assumes "steady m (as @ z # ds) P f body" and "ring m (as @ z # ds)" and "P (x, h)" and "m z = Some b"
  shows "reverse_loop ent body (Some (hd (as @ [z]))) (Some z) (nr b) x h = ended (rfold f (map ent (rev (contents m (as @ [z])))) (x, h))"
  using assms
proof (induction as arbitrary: z ds b x h rule: rev_induct)
  case Nil
  obtain b1 where b: "m z = Some b1" "well_sized b1" using ring_at_end [OF Nil.prems(2)] by metis
  have e: "reverse_loop ent body (Some z) (Some z) 0 x1 h1 = Some (Inr (False, x1, h1))" if "P (x1, h1)" for x1 h1
  proof -
    have "block (Some z) h1 = Inr b" using Nil.prems(1,4) that by (simp add: steady_def)
    then show ?thesis by (subst reverse_loop.simps) simp
  qed
  have "P s1" if "rfold f (map ent (rev (entries b))) (x, h) = Inr s1" for s1
    using rfold_keeps [of P f, OF _ Nil.prems(3) that] Nil.prems(1) by (simp add: steady_def)
  then show ?case
    using reverse_block [OF Nil.prems(1) _ Nil.prems(4) _ Nil.prems(3), of "nat (nr b)" ent "Some z"] b Nil.prems(4) e length_entries [of b]
    by (cases "rfold f (map ent (rev (entries b))) (x, h)") auto
next
  case (snoc y as)
  have r: "ring m (as @ y # z # ds)" using snoc.prems(2) by simp
  obtain b1 where b: "m z = Some b1" "well_sized b1" "prev b1 = Some y"
  proof -
    obtain b1 where "m z = Some b1" "prev b1 = Some (last (z # ds @ as @ [y]))" "well_sized b1"
      using ring_block [of m "as @ [y]" z ds] snoc.prems(2) by (metis append.assoc)
    then show thesis using that by simp
  qed
  obtain by' where by': "m y = Some by'" by (rule ring_block [OF r])
  let ?f = "hd (as @ [y])"
  have f: "hd ((as @ [y]) @ [z]) = ?f" by (simp add: hd_append)
  have "z \<noteq> ?f" using r by (cases as) (auto simp: ring_def)
  then have e: "reverse_loop ent body (Some ?f) (Some z) 0 x1 h1 = ended (rfold f (map ent (rev (contents m (as @ [y])))) (x1, h1))"
    if "P (x1, h1)" for x1 h1
  proof -
    have "block (Some z) h1 = Inr b1" "block (Some y) h1 = Inr by'" using snoc.prems(1) that b(1) by' by (simp_all add: steady_def)
    then have "reverse_loop ent body (Some ?f) (Some z) 0 x1 h1 = reverse_loop ent body (Some ?f) (Some y) (nr by') x1 h1"
      using b(3) \<open>z \<noteq> ?f\<close> by (subst reverse_loop.simps) simp
    then show ?thesis using snoc.IH [of y "z # ds" x1 h1 by'] snoc.prems(1) r that by' by simp
  qed
  have "P s1" if "rfold f (map ent (rev (entries b1))) (x, h) = Inr s1" for s1
    using rfold_keeps [of P f, OF _ snoc.prems(3) that] snoc.prems(1) by (simp add: steady_def)
  moreover have "contents m ((as @ [y]) @ [z]) = contents m (as @ [y]) @ entries b1" using b(1) by (simp add: contents_def)
  ultimately show ?case
    using reverse_block [OF snoc.prems(1) _ b(1,2) snoc.prems(3), of "nat (nr b1)" ent "Some ?f"] b(1,2) e length_entries [of b1] snoc.prems(4)
    unfolding f by (cases "rfold f (map ent (rev (entries b1))) (x, h)") (auto simp: rfold_append)
qed

lemma for_each_reverse_fold:
  assumes "rep h l bs xs" and "steady (pl_blocks h) bs P f body" and "P (x, h)"
  shows "for_each_ptr_reverse ent body l x h = ended (rfold f (map ent (rev xs)) (x, h))"
proof (cases l)
  case None
  then show ?thesis using assms(1) by (simp add: for_each_ptr_reverse_def)
next
  case (Some a)
  have r: "ring (pl_blocks h) bs" "a = hd bs" "contents (pl_blocks h) bs = xs" using assms(1) Some by (simp_all add: rep_Some)
  obtain as z where bs: "bs = as @ [z]" using r(1) by (metis append_butlast_last_id ring_def)
  obtain c b where b: "pl_blocks h a = Some c" "prev c = Some z" "pl_blocks h z = Some b" "well_sized b"
    using ring_at_end [of "pl_blocks h" as z "[]"] r bs by auto
  show ?thesis
    using reverse_loop_fold [of "pl_blocks h" as z "[]" P f body x h b ent] assms(2,3) r bs b Some by (auto simp: for_each_ptr_reverse_def)
qed

end
