(* ===== verification/Sparse_Ptrlist_Insert.thy ===== *)
theory Sparse_Ptrlist_Insert
  imports Sparse_Ptrlist_Lists
begin

text \<open>
  Inserting at the cursor (src/sparse-0.4.1/ptrlist.c and ptrlist.h): a full block is split in two, the entries from the cursor
  on move up by one, and the sequence gains one entry at the cursor.
\<close>

section \<open>Splitting a block\<close>

lemma split_links:
  assumes "ring m (bs @ [a])" and "m a = Some b" and "k \<notin> set (bs @ [a])" and "0 \<le> old" and "old \<le> 29" and "well_sized b"
    and "q = hd (bs @ [a])"
    and "m1 = m(k \<mapsto> new_block, a \<mapsto> b\<lparr>nr := old\<rparr>)"
    and "m2 = m1(k \<mapsto> new_block\<lparr>prev := Some a, next_block := Some q\<rparr>)"
    and "m3 = m2(q \<mapsto> (the (m2 q))\<lparr>prev := Some k\<rparr>)"
    and "m4 = m3(a \<mapsto> (the (m3 a))\<lparr>next_block := Some k\<rparr>)"
  shows "ring m4 (bs @ [a, k])" and "\<forall>x\<in>set bs. map_option entries (m4 x) = map_option entries (m x)"
proof -
  have ka: "k \<noteq> a" "a \<notin> set bs" using assms(1,3) by (auto simp: ring_def)
  have "ring (m(k \<mapsto> new_block)) (bs @ [a])" using assms(1,3) ring_cong [of "bs @ [a]" m "m(k \<mapsto> new_block)"] by auto
  then have "ring m1 (bs @ [a])"
    unfolding assms(8) by (rule ring_upd_same [where b = b, rotated -1]) (use assms(2,4-6) ka in auto)
  then show "ring m4 (bs @ [a, k])"
    using ring_insert(1) [of m1 "bs @ [a]" k new_block m2 m3 m4] assms(3) ka by (simp add: assms(7-11) LIST_NODE_NR_def)
  have "q \<in> set (bs @ [a])" unfolding assms(7) by (rule hd_in_set) simp
  then obtain c where "m q = Some c" using assms(1) seg_block [of m "last (bs @ [a])" "bs @ [a]" "hd (bs @ [a])" q] by (auto simp: ring_def)
  then show "\<forall>x\<in>set bs. map_option entries (m4 x) = map_option entries (m x)"
    using ka assms(2,3) \<open>q \<in> set (bs @ [a])\<close> by (auto simp: assms(8-11))
qed

text \<open>The two halves of the entries, in the block itself and in a new one behind it.\<close>

definition halves :: "ptr_list \<Rightarrow> nat" where
  "halves b = nat (nr b - nr b div 2)"

lemma sum_gap: "x + y = z \<Longrightarrow> x + (y + 29) - z = (29 :: nat)"
  by simp

lemma contents_entries: "\<forall>x\<in>set bs. map_option entries (m x) = map_option entries (m' x) \<Longrightarrow> contents m bs = contents m' bs"
proof (induction bs)
  case (Cons a bs)
  then show ?case by (cases "m a"; cases "m' a") (auto simp: contents_def)
qed simp

lemma split_result:
  assumes "rep h l bs xs" and "bs = ds @ a # ts" and "pl_blocks h a = Some b" and "well_sized b"
  shows "\<exists>h' c d. split_ptr_list_head (Some a) h = Inr h' \<and> rep h' l (ds @ a # pl_fresh h # ts) xs \<and>
           pl_blocks h' a = Some c \<and> next_block c = Some (pl_fresh h) \<and> pl_blocks h' (pl_fresh h) = Some d \<and> well_sized c \<and> well_sized d \<and>
           entries c = take (halves b) (entries b) \<and> entries d = drop (halves b) (entries b) \<and>
           changes h bs h' (ds @ a # pl_fresh h # ts) \<and> contents (pl_blocks h') ds = contents (pl_blocks h) ds"
proof -
  let ?k = "pl_fresh h" and ?n = "nr b div 2" and ?m = "pl_blocks h" and ?old = "nr b - nr b div 2"
  define q where "q = hd (ts @ ds @ [a])"
  have r: "ring ?m (ds @ a # ts)" "\<forall>x\<ge>?k. ?m x = None" "l = Some (hd bs)" "contents ?m bs = xs" using assms(1,2) by (auto simp: rep_def)
  have ring: "ring ?m ((ts @ ds) @ [a])" using r(1) ring_rotate [of ?m ts "ds @ [a]"] by simp
  have below: "\<forall>x\<in>set bs. x < ?k" using ring_alloc [OF r(1,2)] assms(2) by simp
  then have k: "?k \<notin> set ((ts @ ds) @ [a])" "a \<noteq> ?k" using assms(2) by auto
  have bq: "next_block b = Some q" using ring_block [OF r(1)] assms(3) by (auto simp: q_def)
  obtain cq where cq: "?m q = Some cq" using seg_block [of ?m "last ((ts @ ds) @ [a])" "(ts @ ds) @ [a]" _ q] ring
    unfolding ring_def q_def by (metis append.assoc hd_in_set)
  define m1 where "m1 = ?m(?k \<mapsto> new_block, a \<mapsto> b\<lparr>nr := ?old\<rparr>)"
  define m2 where "m2 = m1(?k \<mapsto> new_block\<lparr>prev := Some a, next_block := Some q\<rparr>)"
  define m3 where "m3 = m2(q \<mapsto> (the (m2 q))\<lparr>prev := Some ?k\<rparr>)"
  define m4 where "m4 = m3(a \<mapsto> (the (m3 a))\<lparr>next_block := Some ?k\<rparr>)"
  have old: "0 \<le> ?old" "?old \<le> 29" "0 \<le> ?n" "?old + ?n = nr b" using assms(4) by auto
  have m4: "ring m4 ((ts @ ds) @ [a, ?k])" "\<forall>x\<in>set (ts @ ds). map_option entries (m4 x) = map_option entries (?m x)"
    using split_links [OF ring assms(3) k(1) old(1,2) assms(4) _ m1_def m2_def m3_def m4_def] by (simp_all add: q_def)
  have ka: "m4 ?k = Some (new_block\<lparr>prev := Some a, next_block := Some q\<rparr>)"
    using k cq r(2) by (auto simp: m4_def m3_def m2_def)
  obtain ca where ca: "m4 a = Some ca" "nr ca = ?old" "slots ca = slots b" "next_block ca = Some ?k"
    using k by (auto simp: m4_def m3_def m2_def m1_def)
  define c where "c = ca\<lparr>slots := take (nat ?old) (slots b) @ replicate (nat ?n) junk @ drop (nat (?old + ?n)) (slots b)\<rparr>"
  define d where "d = new_block\<lparr>prev := Some a, next_block := Some q, nr := ?n,
      slots := take (nat ?n) (drop (nat ?old) (slots b)) @ drop (nat ?n) (replicate LIST_NODE_NR 0)\<rparr>"
  define h' where "h' = \<lparr>pl_blocks = m4(?k \<mapsto> d, a \<mapsto> c), pl_fresh = ?k + 1\<rparr>"
  have "split_ptr_list_head (Some a) h = Inr h'" (is ?run)
    using assms(3,4) bq cq k old ca
    by (cases h) (auto simp: split_ptr_list_head_def alloc_ptrlist_def set_block_def block_def Let_def h'_def c_def d_def m4_def m3_def m2_def m1_def
        nat_le_iff fun_upd_twist)
  have nat: "nat (?old + ?n) = nat ?old + nat ?n" "nat ?old + nat ?n = nat (nr b)" "nat (nr b) \<le> 29" "nat ?n \<le> 29"
    using old nr_le [OF assms(4)] by (simp_all add: nat_add_distrib [symmetric])
  have c: "well_sized c" "entries c = take (halves b) (entries b)" "next_block c = Some ?k"
  proof -
    have "length (slots c) = 29" using nat assms(4) by (simp add: c_def sum_gap [OF nat(2)])
    moreover have "nr c = ?old" by (simp add: c_def ca(2))
    ultimately show "well_sized c" using old(1,2) by metis
    show "entries c = take (halves b) (entries b)" using nat assms(4) by (simp add: c_def entries_def halves_def ca(2) min_def)
    show "next_block c = Some ?k" by (simp add: c_def ca(4))
  qed
  have d: "well_sized d" "entries d = drop (halves b) (entries b)"
  proof -
    have n: "nat ?n \<le> 29 - nat ?old" "nat (nr b) - nat ?old = nat ?n" using nat(2,3) by linarith+
    have "nr d = ?n" "length (slots d) = 29" using n(1) nat(4) assms(4) by (simp_all add: d_def LIST_NODE_NR_def)
    moreover have "?n \<le> 29" using nat(4) by simp
    ultimately show "well_sized d" using old(3) by metis
    show "entries d = drop (halves b) (entries b)"
      using n assms(4) by (simp add: d_def entries_def halves_def drop_take)
  qed
  have "ring (m4(?k \<mapsto> d)) ((ts @ ds) @ [a, ?k])"
    by (rule ring_upd_same [OF ka _ _ _ _ _ m4(1)]) (use d(1) in \<open>simp_all add: d_def\<close>)
  then have "ring (pl_blocks h') ((ts @ ds) @ [a, ?k])"
    using ring_upd_same [of "m4(?k \<mapsto> d)" a ca c] ca(1) c(1) k(2) by (simp add: h'_def c_def)
  then have ring': "ring (pl_blocks h') (ds @ a # ?k # ts)" using ring_rotate [of _ ts "ds @ [a, ?k]"] by simp
  have h': "pl_blocks h' a = Some c" "pl_blocks h' ?k = Some d" using k(2) by (simp_all add: h'_def)
  have dist: "a \<notin> set (ts @ ds)" using ring by (simp add: ring_def)
  have both: "take (halves b) (entries b) @ drop (halves b) (entries b) @ ys = entries b @ ys" for ys by (simp flip: append.assoc)
  have "contents (pl_blocks h') ds = contents ?m ds" "contents (pl_blocks h') ts = contents ?m ts"
    using m4(2) k dist by (auto simp: h'_def intro!: contents_entries)
  then have cont: "contents (pl_blocks h') (ds @ a # ?k # ts) = xs" "contents (pl_blocks h') ds = contents ?m ds"
    using h' c(2) d(2) r(4) assms(2,3) by (simp_all add: both)
  have other: "pl_blocks h' x = ?m x" if "x \<notin> set bs" "x \<noteq> ?k" for x
  proof -
    have "q \<in> set ((ts @ ds) @ [a])" unfolding q_def append.assoc [symmetric] by (rule hd_in_set) simp
    then show ?thesis using that assms(2) by (auto simp: h'_def m4_def m3_def m2_def m1_def)
  qed
  have "pl_blocks h' x = None" if "x \<ge> pl_fresh h'" for x
    using other [of x] that below r(2) by (fastforce simp: h'_def)
  then have "rep h' l (ds @ a # ?k # ts) xs" using ring' cont(1) r(3) assms(2) by (auto simp: rep_def hd_append)
  moreover have "changes h bs h' (ds @ a # ?k # ts)" using other assms(2) by (auto simp: changes_def h'_def)
  ultimately show ?thesis using \<open>?run\<close> c d h' cont(2) by blast
qed

section \<open>Inserting an entry\<close>

lemma shift_up_moves:
  assumes "i \<le> n" and "n < length xs"
  shows "\<exists>ys. shift_up (int i) (int n - 1) xs = Inr ys \<and> length ys = length xs \<and> take i ys = take i xs \<and>
              drop (Suc i) ys = take (n - i) (drop i xs) @ drop (Suc n) xs"
  using assms
proof (induction "n - i" arbitrary: n xs)
  case 0
  then show ?case by (subst shift_up.simps) simp
next
  case (Suc k)
  obtain m where m: "n = Suc m" using Suc.hyps(2) by (cases n) auto
  have im: "i \<le> m" using Suc.hyps(2) m by simp
  define ys where "ys = xs[n := xs ! m]"
  have "shift_up (int i) (int n - 1) xs = shift_up (int i) (int m - 1) ys"
    using Suc.prems im m by (subst shift_up.simps) (simp add: get_slot_def put_slot_def ys_def nat_add_distrib add.commute)
  moreover obtain zs where zs: "shift_up (int i) (int m - 1) ys = Inr zs" "length zs = length ys" "take i zs = take i ys"
    "drop (Suc i) zs = take (m - i) (drop i ys) @ drop (Suc m) ys"
    using Suc.hyps(1) [of m ys] Suc.hyps(2) Suc.prems(2) im m by (auto simp: ys_def Suc_diff_le)
  moreover have "drop (Suc m) ys = xs ! m # drop (Suc n) xs" using Suc.prems m by (simp add: ys_def Cons_nth_drop_Suc [symmetric])
  moreover have "take (m - i) (drop i ys) = take (m - i) (drop i xs)" using Suc.hyps(2) m by (simp add: ys_def drop_update_swap)
  moreover have "take (n - i) (drop i xs) = take (m - i) (drop i xs) @ [xs ! m]"
    using Suc.hyps(2) Suc.prems m by (simp add: Suc_diff_le take_Suc_conv_app_nth)
  ultimately show ?case using Suc.hyps(2) m by (simp add: ys_def)
qed

lemma insert_in_block:
  assumes "pl_blocks h a = Some b" and "well_sized b" and "nr b < 29" and "i \<le> nat (nr b)"
  shows "\<exists>ws. rbind (shift_up (int i) (nr b - 1) (slots b)) (put_slot (int i) new) = Inr ws \<and>
              rewritten b (take i (entries b) @ new # drop i (entries b)) (b\<lparr>slots := ws, nr := nr b + 1\<rparr>)"
proof -
  let ?n = "nat (nr b)"
  have n: "?n < length (slots b)" "int ?n - 1 = nr b - 1" "nat (nr b + 1) = Suc ?n" using assms(2,3) by auto
  obtain ys where ys: "shift_up (int i) (nr b - 1) (slots b) = Inr ys" "length ys = 29" "take i ys = take i (slots b)"
    "drop (Suc i) ys = take (?n - i) (drop i (slots b)) @ drop (Suc ?n) (slots b)"
    using shift_up_moves [OF assms(4) n(1)] n(2) assms(2) by auto
  have i: "i < length ys" using assms(4) n(1) ys(2) assms(2) by simp
  then have put: "put_slot (int i) new ys = Inr (take i (slots b) @ new # take (?n - i) (drop i (slots b)) @ drop (Suc ?n) (slots b))"
    using ys by (simp add: put_slot_def upd_conv_take_nth_drop)
  have "rewritten b (take i (entries b) @ new # drop i (entries b))
      (b\<lparr>slots := take i (slots b) @ new # take (?n - i) (drop i (slots b)) @ drop (Suc ?n) (slots b), nr := nr b + 1\<rparr>)"
  proof -
    have "Suc ?n - i = Suc (?n - i)" "nr b + 1 \<le> 29" "length (take (?n - i) (drop i (slots b))) = ?n - i" "i \<le> 29"
      using assms(2-4) n(1) by (auto simp: Suc_diff_le)
    then show ?thesis using assms(2-4) n(1,3) by (simp add: rewritten_def entries_def drop_take min_absorb2)
  qed
  then show ?thesis using ys(1) put by auto
qed

text \<open>The end of \<open>INSERT_CURRENT\<close>, in a block with room.\<close>

definition insert_here :: "ptr \<Rightarrow> nat \<Rightarrow> nat \<Rightarrow> pl_heap \<Rightarrow> (nat option \<times> int \<times> pl_heap) res" where
  "insert_here new a i h =
     rbind (block (Some a) h) (\<lambda>b1.
     rbind (shift_up (int i) (nr b1 - 1) (slots b1)) (\<lambda>ws.
     rbind (put_slot (int i) new ws) (\<lambda>ws1.
     rbind (set_block (Some a) (\<lambda>c. c\<lparr>slots := ws1, nr := nr c + 1\<rparr>) h) (\<lambda>h2. Inr (Some a, int i, h2)))))"

lemma insert_here:
  assumes "rep h l bs xs" and "bs = ds @ a # ts" and "pl_blocks h a = Some b" and "well_sized b" and "nr b < 29" and "i \<le> nat (nr b)"
    and "p = length (contents (pl_blocks h) ds) + i"
  shows "\<exists>h' c. insert_here new a i h = Inr (Some a, int i, h') \<and> rep h' l bs (take p xs @ new # drop p xs) \<and>
           changes h bs h' bs \<and> pl_blocks h' a = Some c \<and> i < length (entries c) \<and> entries c ! i = new"
proof -
  have r: "ring (pl_blocks h) (ds @ a # ts)" "\<forall>a\<ge>pl_fresh h. pl_blocks h a = None" "l = Some (hd (ds @ [a]))"
    "xs = contents (pl_blocks h) ds @ entries b @ contents (pl_blocks h) ts"
    using assms(1-3) by (auto simp: rep_def hd_append)
  obtain ws where ws: "rbind (shift_up (int i) (nr b - 1) (slots b)) (put_slot (int i) new) = Inr ws"
    "rewritten b (take i (entries b) @ new # drop i (entries b)) (b\<lparr>slots := ws, nr := nr b + 1\<rparr>)"
    using insert_in_block [OF assms(3-6)] by blast
  define c where "c = b\<lparr>slots := ws, nr := nr b + 1\<rparr>"
  define h' where "h' = h\<lparr>pl_blocks := (pl_blocks h)(a \<mapsto> c)\<rparr>"
  have "insert_here new a i h = Inr (Some a, int i, h')"
    using ws(1) assms(3) by (auto simp: insert_here_def set_block_def h'_def c_def rbind_Inr_iff)
  moreover have len: "length (entries b) = nat (nr b)" using assms(4) by (rule length_entries)
  then have "take p xs @ new # drop p xs = contents (pl_blocks h) ds @ (take i (entries b) @ new # drop i (entries b)) @ contents (pl_blocks h) ts"
    using assms(6,7) r(4) by simp
  then have "rep h' l bs (take p xs @ new # drop p xs)" "changes h bs h' bs"
    using rewrite_block [OF r(1,2) assms(3) ws(2) refl] r(3) assms(2) by (simp_all add: h'_def c_def)
  moreover have "entries c = take i (entries b) @ new # drop i (entries b)" using ws(2) by (simp add: rewritten_def c_def)
  then have "i < length (entries c)" "entries c ! i = new" using assms(6) len by (simp_all add: nth_append)
  ultimately show ?thesis by (auto simp: h'_def)
qed

lemma insert_current_result:
  assumes "rep h l bs xs" and "bs = ds @ a # ts" and "pl_blocks h a = Some b" and "i \<le> nat (nr b)"
  defines "p \<equiv> length (contents (pl_blocks h) ds) + i"
  shows "\<exists>l' i' h' bs' c. insert_current new (Some a) (int i) h = Inr (Some l', int i', h') \<and> rep h' l bs' (take p xs @ new # drop p xs) \<and>
           changes h bs h' bs' \<and> pl_blocks h' l' = Some c \<and> i' < length (entries c) \<and> entries c ! i' = new"
proof -
  have r: "ring (pl_blocks h) (ds @ a # ts)" "contents (pl_blocks h) (ds @ a # ts) = xs" using assms(1,2) by (auto simp: rep_def)
  have b: "well_sized b" by (rule ring_block [OF r(1)]) (use assms(3) in auto)
  show ?thesis
  proof (cases "nr b = 29")
    case False
    then have "insert_current new (Some a) (int i) h = insert_here new a i h" using assms(3) by (simp add: insert_current_def insert_here_def LIST_NODE_NR_def)
    then show ?thesis using insert_here [OF assms(1-3) b _ assms(4), where new = new] False b p_def by fastforce
  next
    case True
    obtain h1 c d where s: "split_ptr_list_head (Some a) h = Inr h1" "rep h1 l (ds @ a # pl_fresh h # ts) xs" "pl_blocks h1 a = Some c"
      "next_block c = Some (pl_fresh h)" "pl_blocks h1 (pl_fresh h) = Some d" "well_sized c" "well_sized d"
      "entries c = take (halves b) (entries b)" "entries d = drop (halves b) (entries b)" "changes h bs h1 (ds @ a # pl_fresh h # ts)"
      "contents (pl_blocks h1) ds = contents (pl_blocks h) ds"
      using split_result [OF assms(1-3) b] by blast
    have lens: "length (entries c) = 15" "length (entries d) = 14"
      using length_entries [OF b] True s(8,9) by (simp_all add: halves_def)
    then have nrs: "nr c = 15" "nr d = 14" using length_entries [OF s(6)] length_entries [OF s(7)] s(6,7) by auto
    show ?thesis
    proof (cases "15 \<le> i")
      case False
      then have "insert_current new (Some a) (int i) h = insert_here new a i h1"
        using assms(3) True s(1,3) nrs by (simp add: insert_current_def insert_here_def LIST_NODE_NR_def)
      then show ?thesis
        using insert_here [OF s(2) refl s(3,6), where new = new and i = i] False nrs s(11) changes_trans [OF s(10)] unfolding p_def by fastforce
    next
      case big: True
      have i: "int i - 15 = int (i - 15)" "i - 15 \<le> nat (nr d)" using big assms(4) True nrs by auto
      then have run: "insert_current new (Some a) (int i) h = insert_here new (pl_fresh h) (i - 15) h1"
        using assms(3) True s(1,3,4) nrs big by (simp add: insert_current_def insert_here_def LIST_NODE_NR_def)
      have p: "p = length (contents (pl_blocks h1) (ds @ [a])) + (i - 15)" using s(3,11) lens(1) big by (simp add: p_def)
      have "ds @ a # pl_fresh h # ts = (ds @ [a]) @ pl_fresh h # ts" "nr d < 29" using nrs by simp_all
      from insert_here [OF s(2) this(1) s(5,7) this(2) i(2) p, of new] show ?thesis
        using run changes_trans [OF s(10)] by fastforce
    qed
  qed
qed

section \<open>Tags\<close>

text \<open>A tag that is written at the cursor is read there, and the pointer without its tag stays.\<close>

lemma tag_bits:
  assumes "NOT 3 AND tag = (0 :: ptr)"
  shows "3 AND (tag OR untag x) = tag" and "untag (tag OR untag x) = untag x"
proof -
  have "tag = (3 OR NOT 3) AND tag" by simp
  also have "\<dots> = (3 AND tag) OR (NOT 3 AND tag)" by (simp only: bit.conj_disj_distrib2)
  finally have "3 AND tag = tag" using assms by simp
  moreover have "3 AND untag x = 0" by (simp add: untag_def flip: and.assoc)
  ultimately show "3 AND (tag OR untag x) = tag" by (simp only: bit.conj_disj_distrib or.right_neutral)
  have "NOT 3 AND untag x = untag x" by (simp add: untag_def flip: and.assoc)
  then show "untag (tag OR untag x) = untag x" unfolding untag_def [of "tag OR untag x"] bit.conj_disj_distrib assms by simp
qed

lemma tag_current_result:
  assumes "rep h l bs xs" and "bs = ds @ a # ts" and "pl_blocks h a = Some b" and "i < length (entries b)" and "NOT 3 AND tag = 0"
  defines "w \<equiv> tag OR untag (entries b ! i)"
  shows "\<exists>h'. tag_current tag (Some a) (int i) h = Inr h' \<and> current_tag (Some a) (int i) h' = Inr tag \<and> untag w = untag (entries b ! i) \<and>
              rep h' l bs (contents (pl_blocks h) ds @ (entries b)[i := w] @ contents (pl_blocks h) ts)"
proof -
  have r: "ring (pl_blocks h) (ds @ a # ts)" "\<forall>a\<ge>pl_fresh h. pl_blocks h a = None" "l = Some (hd (ds @ [a]))"
    using assms(1,2) by (auto simp: rep_def hd_append)
  have b: "well_sized b" by (rule ring_block [OF r(1)]) (use assms(3) in auto)
  have i: "i < nat (nr b)" "entries b ! i = slots b ! i" "i < length (slots b)"
    using assms(4) length_entries [OF b] b by (auto simp: entries_def)
  define c where "c = b\<lparr>slots := (slots b)[i := w]\<rparr>"
  define h' where "h' = h\<lparr>pl_blocks := (pl_blocks h)(a \<mapsto> c)\<rparr>"
  have "rewritten b ((entries b)[i := w]) c" using b by (simp add: rewritten_def c_def entries_def take_update_swap)
  from rewrite_block(1) [OF r(1,2) assms(3) this h'_def] have "rep h' l bs (contents (pl_blocks h) ds @ (entries b)[i := w] @ contents (pl_blocks h) ts)"
    using r(3) assms(2) by simp
  moreover have "tag_current tag (Some a) (int i) h = Inr h'"
    using i assms(3) by (simp add: tag_current_def get_slot_def put_slot_def set_block_def h'_def c_def w_def untag_def)
  moreover have "current_tag (Some a) (int i) h' = Inr tag"
    using i tag_bits(1) [OF assms(5)] by (simp add: current_tag_def get_slot_def h'_def c_def w_def)
  moreover have "untag w = untag (entries b ! i)" unfolding w_def by (rule tag_bits(2) [OF assms(5)])
  ultimately show ?thesis by blast
qed

end
