(* ===== verification/Sparse_Ptrlist_Props.thy ===== *)
theory Sparse_Ptrlist_Props
  imports Sparse_Ptrlist_Insert
begin

text \<open>
  What the lists of pointers of src/sparse-0.4.1/ptrlist.c promise to the code that uses them, as an interface, and the
  properties of the operations.
\<close>

section \<open>Sequences of pointers\<close>

text \<open>
  The interface of the files and symbols of the front end: a sequence starts empty, grows at its end and is walked from its start.
\<close>

locale pointer_sequence =
  fixes holds :: "'h \<Rightarrow> 'l \<Rightarrow> ptr list \<Rightarrow> bool"
    and empty :: 'l
    and append :: "'l \<Rightarrow> ptr \<Rightarrow> 'h \<Rightarrow> ('l \<times> 'h) res"
    and visit :: "'l \<Rightarrow> 'h \<Rightarrow> ptr list res option"
    and number :: "'l \<Rightarrow> 'h \<Rightarrow> int res option"
  assumes append_holds: "holds h l xs \<Longrightarrow> \<exists>l' h'. append l p h = Inr (l', h') \<and> holds h' l' (xs @ [p])"
    and visit_holds: "holds h l xs \<Longrightarrow> visit l h = Some (Inr xs)"
    and number_holds: "holds h l xs \<Longrightarrow> number l h = Some (Inr (int (length xs)))"
begin

definition append_list :: "ptr list \<Rightarrow> 'l \<times> 'h \<Rightarrow> ('l \<times> 'h) res" where
  "append_list ps s = rfold (\<lambda>p (l, h). append l p h) ps s"

lemma append_list_holds:
  assumes "holds h l xs"
  shows "\<exists>l' h'. append_list ps (l, h) = Inr (l', h') \<and> holds h' l' (xs @ ps)"
  using assms
proof (induction ps arbitrary: l h xs)
  case (Cons p ps)
  obtain l1 h1 where 1: "append l p h = Inr (l1, h1)" "holds h1 l1 (xs @ [p])" using append_holds [OF Cons.prems] by blast
  then show ?case using Cons.IH [OF 1(2)] by (auto simp: append_list_def)
qed (simp add: append_list_def)

lemma visit_appended:
  assumes "holds h empty []"
  shows "\<exists>l' h'. append_list ps (empty, h) = Inr (l', h') \<and> visit l' h' = Some (Inr ps) \<and> number l' h' = Some (Inr (int (length ps)))"
  using append_list_holds [OF assms, of ps] visit_holds number_holds by fastforce

end

text \<open>The pointers a loop over a list gives its body, in their order.\<close>

definition collect :: "ptr list body" where
  "collect l i w acc h = Inr (Turn l i (acc @ [w]) h)"

definition walked :: "(ptr \<Rightarrow> ptr) \<Rightarrow> nat option \<Rightarrow> pl_heap \<Rightarrow> ptr list res option" where
  "walked ent l h = obind (for_each_ptr ent collect l [] h) (\<lambda>(left, acc, h1). Some (Inr acc))"

definition walked_backwards :: "(ptr \<Rightarrow> ptr) \<Rightarrow> nat option \<Rightarrow> pl_heap \<Rightarrow> ptr list res option" where
  "walked_backwards ent l h = obind (for_each_ptr_reverse ent collect l [] h) (\<lambda>(left, acc, h1). Some (Inr acc))"

lemma collect_steady: "steady (pl_blocks h) bs (\<lambda>s. snd s = h) (\<lambda>w (acc, h). Inr (acc @ [w], h)) collect"
  by (auto simp: steady_def collect_def)

lemma collect_fold: "rfold (\<lambda>w (acc, h). Inr (acc @ [w], h)) ws (acc, h) = Inr (acc @ ws, h)"
  by (induction ws arbitrary: acc) auto

lemma walked_rep:
  assumes "rep h l bs xs"
  shows "walked ent l h = Some (Inr (map ent xs))"
proof -
  have "for_each_ptr ent collect l [] h = ended (rfold (\<lambda>w (acc, h). Inr (acc @ [w], h)) (map ent xs) ([], h))"
    by (rule for_each_fold [OF assms collect_steady]) simp
  then show ?thesis by (simp add: walked_def collect_fold)
qed

lemma walked_backwards_rep:
  assumes "rep h l bs xs"
  shows "walked_backwards ent l h = Some (Inr (map ent (rev xs)))"
proof -
  have "for_each_ptr_reverse ent collect l [] h = ended (rfold (\<lambda>w (acc, h). Inr (acc @ [w], h)) (map ent (rev xs)) ([], h))"
    by (rule for_each_reverse_fold [OF assms collect_steady]) simp
  then show ?thesis by (simp add: walked_backwards_def collect_fold)
qed

lemma add_notag_rep:
  assumes "rep h l bs xs"
  shows "\<exists>l' h' bs'. add_ptr_list_notag l p h = Inr (l', h') \<and> rep h' l' bs' (xs @ [p])"
proof -
  have "3 AND (p AND NOT 3) = 0" "NOT 3 AND (p AND 3) = 0" "p AND 3 OR p AND NOT 3 = p"
    by (rule bit_word_eqI; auto simp: bit_simps)+
  then show ?thesis using add_appends [OF assms, of "p AND NOT 3" "p AND 3"] by (auto simp: add_ptr_list_notag_def)
qed

interpretation notag: pointer_sequence
  "\<lambda>h l xs. \<exists>bs. rep h l bs xs" None add_ptr_list_notag "walked (\<lambda>w. w)" ptr_list_size
proof
  fix h l xs p
  assume "\<exists>bs. rep h l bs xs"
  then obtain bs where r: "rep h l bs xs" ..
  show "\<exists>l' h'. add_ptr_list_notag l p h = Inr (l', h') \<and> (\<exists>bs. rep h' l' bs (xs @ [p]))" using add_notag_rep [OF r] by blast
  show "walked (\<lambda>w. w) l h = Some (Inr xs)" using walked_rep [OF r, of "\<lambda>w. w"] by simp
  show "ptr_list_size l h = Some (Inr (int (length xs)))" by (rule ptr_list_size_rep [OF r])
qed

section \<open>Properties\<close>

text \<open>A heap with no list in the memory that was not given out.\<close>

definition fresh_heap :: "pl_heap \<Rightarrow> bool" where
  "fresh_heap h \<longleftrightarrow> (\<forall>a\<ge>pl_fresh h. pl_blocks h a = None)"

definition no_blocks :: pl_heap where
  "no_blocks = \<lparr>pl_blocks = (\<lambda>a. None), pl_fresh = 0\<rparr>"

lemma fresh_no_blocks [simp]: "fresh_heap no_blocks"
  by (simp add: fresh_heap_def no_blocks_def)

lemma fresh_rep: "fresh_heap h \<longleftrightarrow> rep h None [] []"
  by (simp add: fresh_heap_def)

text \<open>A list of any length exists: the examples below are about one with three entries, the first and last of which are equal.\<close>

definition three_entries :: "nat option \<times> pl_heap" where
  "three_entries = (case rfold (\<lambda>p (l, h). add_ptr_list_notag l p h) [8, 16, 8] (None, no_blocks) of Inr s \<Rightarrow> s | Inl u \<Rightarrow> (None, no_blocks))"

lemma three_entries_rep: "\<exists>bs. rep (snd three_entries) (fst three_entries) bs [8, 16, 8]"
proof -
  have "rep no_blocks None [] []" using fresh_no_blocks fresh_rep by blast
  then obtain l h where 1: "notag.append_list [8, 16, 8] (None, no_blocks) = Inr (l, h)" "\<exists>bs. rep h l bs ([] @ [8, 16, 8])"
    using notag.append_list_holds [of no_blocks None "[]" "[8, 16, 8]"] by blast
  then have "three_entries = (l, h)" by (simp add: three_entries_def notag.append_list_def)
  then have "three_entries = (l, h) \<and> (\<exists>bs. rep h l bs [8, 16, 8])" using 1(2) by simp
  then show ?thesis by (metis fst_conv snd_conv)
qed

text \<open>
  C10: pointers that are added one after the other with \<open>add_ptr_list_notag\<close>, whatever bits they have, are what
  \<open>FOR_EACH_PTR_NOTAG\<close> gives its body, in their order, and \<open>ptr_list_size\<close> counts them; both loops end.
\<close>

theorem listed_pointers_walked:
  assumes "fresh_heap h"
  shows "\<exists>l h'. rfold (\<lambda>p (l, h). add_ptr_list_notag l p h) ps (None, h) = Inr (l, h') \<and>
                walked (\<lambda>w. w) l h' = Some (Inr ps) \<and> ptr_list_size l h' = Some (Inr (int (length ps)))"
proof -
  have "\<exists>bs. rep h None bs []" using assms fresh_rep by blast
  from notag.visit_appended [OF this, of ps] show ?thesis by (simp add: notag.append_list_def)
qed

lemma listed_pointers_walked_witness:
  "\<exists>l h'. rfold (\<lambda>p (l, h). add_ptr_list_notag l p h) (replicate 40 7) (None, no_blocks) = Inr (l, h') \<and>
          walked (\<lambda>w. w) l h' = Some (Inr (replicate 40 7)) \<and> ptr_list_size l h' = Some (Inr 40)"
  using listed_pointers_walked [OF fresh_no_blocks, of "replicate 40 7"] by simp

text \<open>
  C11: \<open>delete_ptr_list_entry\<close> with a count takes the first so many entries that are equal to the pointer, without their
  tags, out of the list, and with a count that is not positive all of them; the count that is left is the result, no
  block is left empty, and blocks of other lists are not touched. With a count above the number of such entries the
  assertion fails.
\<close>

theorem delete_ptr_list_entry_deletes:
  assumes "rep h l bs xs"
  shows "if c \<le> int (length (filter (\<lambda>x. untag x = e) xs))
         then \<exists>l' h' bs'. delete_ptr_list_entry l e c h = Some (Inr (count_left c e xs, l', h')) \<and> rep h' l' bs' (replaced c e [] xs) \<and>
                (\<forall>a\<in>set bs'. nonempty (pl_blocks h') a) \<and> changes h bs h' bs'
         else delete_ptr_list_entry l e c h = Some (Inl Aborted)"
  by (rule delete_ptr_list_entry_result [OF assms])

lemma delete_ptr_list_entry_deletes_witness:
  "\<exists>l' h' bs'. delete_ptr_list_entry (fst three_entries) 8 1 (snd three_entries) = Some (Inr (0, l', h')) \<and> rep h' l' bs' [16, 8]"
proof -
  obtain bs where r: "rep (snd three_entries) (fst three_entries) bs [8, 16, 8]" using three_entries_rep ..
  have m: "filter (\<lambda>x. untag x = 8) [8, 16, 8] = [8, 8 :: ptr]" "count_left 1 8 [8, 16, 8] = 0" "replaced 1 8 [] [8, 16, 8] = [16, 8]"
    by (simp_all add: untag_def count_left_def replaced_def)
  show ?thesis using delete_ptr_list_entry_deletes [OF r, of 1 8] unfolding m by auto
qed

text \<open>
  C12: \<open>INSERT_CURRENT\<close> at the index \<open>i\<close> of a block, also a full one, which it splits, puts the pointer in front of the entry
  at the cursor, keeps all others in their order, leaves the cursor at the new entry and does not touch other lists.
\<close>

theorem insert_current_inserts:
  assumes "rep h l bs xs" and "bs = ds @ a # ts" and "pl_blocks h a = Some b" and "i \<le> nat (nr b)"
    and "p = length (contents (pl_blocks h) ds) + i"
  shows "\<exists>l' i' h' bs' c. insert_current new (Some a) (int i) h = Inr (Some l', int i', h') \<and> rep h' l bs' (take p xs @ new # drop p xs) \<and>
           changes h bs h' bs' \<and> pl_blocks h' l' = Some c \<and> i' < length (entries c) \<and> entries c ! i' = new"
  using insert_current_result [OF assms(1-4)] assms(5) by blast

lemma insert_current_inserts_witness:
  "\<exists>a l' i' h' bs'. fst three_entries = Some a \<and> insert_current 4 (Some a) 0 (snd three_entries) = Inr (Some l', int i', h') \<and>
     rep h' (Some a) bs' [4, 8, 16, 8]"
proof -
  obtain bs where r: "rep (snd three_entries) (fst three_entries) bs [8, 16, 8]" using three_entries_rep ..
  then obtain a ts where a: "bs = [] @ a # ts" "fst three_entries = Some a" by (cases bs) (auto simp: rep_def)
  then have "ring (pl_blocks (snd three_entries)) ([] @ a # ts)" using r by (auto simp: rep_def)
  then obtain b where b: "pl_blocks (snd three_entries) a = Some b" by (rule ring_block)
  show ?thesis using insert_current_inserts [OF r a(1) b, of 0 0 4] a(2) by auto
qed

text \<open>
  C31: \<open>concat_ptr_list\<close> of two lists that share no block ends and appends the entries of the first, without their tags, to
  the second; the first list stays as it is.
\<close>

theorem concat_ptr_list_appends:
  assumes "rep h a as xs" and "rep h b bs ys" and "set as \<inter> set bs = {}"
  shows "\<exists>b' h' bs'. concat_ptr_list a b h = Some (Inr (b', h')) \<and> rep h' b' bs' (ys @ map untag xs) \<and> rep h' a as xs \<and> changes h bs h' bs'"
  by (rule concat_result [OF assms])

lemma concat_ptr_list_appends_witness:
  "\<exists>b' h' bs'. concat_ptr_list (fst three_entries) None (snd three_entries) = Some (Inr (b', h')) \<and> rep h' b' bs' [8, 16, 8]"
proof -
  obtain bs where r: "rep (snd three_entries) (fst three_entries) bs [8, 16, 8]" using three_entries_rep ..
  then have "rep (snd three_entries) None [] []" by (simp add: rep_fresh)
  moreover have "map untag [8, 16, 8] = [8, 16, 8]" by (simp add: untag_def)
  ultimately show ?thesis using concat_ptr_list_appends [OF r, of None "[]" "[]"] by auto
qed

text \<open>
  C32: \<open>free_ptr_list\<close> ends, frees every block of the list, each once, and clears the variable; a list that shares no block with
  it stays as it is.
\<close>

theorem free_ptr_list_frees:
  assumes "rep h l bs xs" and "rep h l2 cs ys" and "set bs \<inter> set cs = {}"
  shows "\<exists>h'. free_ptr_list l h = Some (Inr (None, h')) \<and> (\<forall>a\<in>set bs. pl_blocks h' a = None) \<and> rep h' l2 cs ys"
proof -
  let ?h = "h\<lparr>pl_blocks := pl_blocks h |` (- set bs)\<rparr>"
  have "\<forall>a\<in>set cs. pl_blocks h a = pl_blocks ?h a" using assms(3) by (auto simp: restrict_map_def)
  then have "rep ?h l2 cs ys"
    using assms(2) ring_cong [of cs "pl_blocks h" "pl_blocks ?h"] contents_cong [of cs "pl_blocks h" "pl_blocks ?h"]
    by (auto simp: rep_def restrict_map_def)
  then show ?thesis using free_ptr_list_result [OF assms(1)] by (auto simp: restrict_map_def)
qed

lemma free_ptr_list_frees_witness:
  "\<exists>h'. free_ptr_list (fst three_entries) (snd three_entries) = Some (Inr (None, h')) \<and> rep h' None [] []"
proof -
  obtain bs where r: "rep (snd three_entries) (fst three_entries) bs [8, 16, 8]" using three_entries_rep ..
  then have "rep (snd three_entries) None [] []" by (simp add: rep_fresh)
  then show ?thesis using free_ptr_list_frees [OF r, of None "[]" "[]"] by auto
qed

end
