(* ===== verification/Sparse_Lib_Facts.thy ===== *)
theory Sparse_Lib_Facts
  imports Sparse_Lib Sparse_Ptrlist_Props
begin

text \<open>
  The command line of the sparse library (src/sparse-0.4.1/lib.c) against a description of it: which arguments are files,
  which options take the next argument, which lines an option gives the preprocessor, and which value a warning has at the end.
\<close>

section \<open>The buffer\<close>

text \<open>The lines \<open>t\<close> were added; they are in the buffer as long as there was room for all of them and a NUL.\<close>

definition added :: "lib \<Rightarrow> string \<Rightarrow> bool" where
  "added st t \<longleftrightarrow> pre_buffer_size st = length t \<and> (length t < PRE_BUFFER \<longrightarrow> take (length t) (pre_buffer st) = t)"

definition same_but_buffer :: "lib \<Rightarrow> lib \<Rightarrow> bool" where
  "same_but_buffer st st1 \<longleftrightarrow> (\<exists>b n. st1 = st\<lparr>pre_buffer := b, pre_buffer_size := n\<rparr>)"

lemma same_but_buffer_fields:
  assumes "same_but_buffer st st1"
  shows "argv st1 = argv st" "preprocess_only st1 = preprocess_only st" "cmdline_include st1 = cmdline_include st" "optimize st1 = optimize st"
    "optimize_size st1 = optimize_size st" "warnings st1 = warnings st" "debugs st1 = debugs st" "size_t_ctype st1 = size_t_ctype st"
    "gcc_major st1 = gcc_major st" "gcc_minor st1 = gcc_minor st" "gcc_patchlevel st1 = gcc_patchlevel st" "filelist st1 = filelist st"
    "lists st1 = lists st"
  using assms by (auto simp: same_but_buffer_def)

lemma same_but_buffer_trans: "same_but_buffer st st1 \<Longrightarrow> same_but_buffer st1 st2 \<Longrightarrow> same_but_buffer st st2"
  unfolding same_but_buffer_def by clarsimp blast

lemma same_but_buffer_refl [simp]: "same_but_buffer st st"
  unfolding same_but_buffer_def by (rule exI [of _ "pre_buffer st"], rule exI [of _ "pre_buffer_size st"]) simp

lemma add_pre_buffer_result:
  assumes "added st t"
  shows "if length t > PRE_BUFFER then add_pre_buffer u st = Inl (Ub Out_Of_Bounds)
         else \<exists>st1. add_pre_buffer u st = Inr st1 \<and> added st1 (t @ u) \<and> same_but_buffer st st1"
proof (cases "length t > PRE_BUFFER")
  case True
  then show ?thesis using assms by (simp add: added_def add_pre_buffer_def)
next
  case False
  then obtain st1 where st1: "add_pre_buffer u st = Inr st1" "same_but_buffer st st1"
    using assms unfolding added_def add_pre_buffer_def same_but_buffer_def Let_def by auto
  moreover have "added st1 (t @ u)"
  proof -
    have "take (length (t @ u)) (pre_buffer st1) = t @ u" if "length (t @ u) < PRE_BUFFER"
    proof -
      have "take (length t) (pre_buffer st) = t" "pre_buffer_size st = length t" using that assms by (simp_all add: added_def)
      moreover have "take (PRE_BUFFER - length t - 1) u = u" using that by simp
      ultimately show ?thesis using that st1(1) by (auto simp: add_pre_buffer_def Let_def)
    qed
    moreover have "pre_buffer_size st1 = length (t @ u)" using st1(1) assms by (auto simp: added_def add_pre_buffer_def Let_def split: if_splits)
    ultimately show ?thesis by (simp add: added_def)
  qed
  ultimately show ?thesis using False by auto
qed

lemma add_all_result:
  assumes "added st t"
  shows "if length (t @ concat us) \<le> PRE_BUFFER
         then \<exists>st1. lfold add_pre_buffer us st = Inr st1 \<and> added st1 (t @ concat us) \<and> same_but_buffer st st1
         else lfold add_pre_buffer us st = Inl (Ub Out_Of_Bounds) \<or>
              (\<exists>st1. lfold add_pre_buffer us st = Inr st1 \<and> added st1 (t @ concat us) \<and> same_but_buffer st st1)"
  using assms
proof (induction us arbitrary: st t)
  case (Cons u us)
  show ?case
  proof (cases "length t > PRE_BUFFER")
    case True
    then show ?thesis using add_pre_buffer_result [OF Cons.prems, of u] by simp
  next
    case False
    then obtain st1 where st1: "add_pre_buffer u st = Inr st1" "added st1 (t @ u)" "same_but_buffer st st1"
      using add_pre_buffer_result [OF Cons.prems, of u] by auto
    show ?thesis using Cons.IH [OF st1(2)] st1(1) same_but_buffer_trans [OF st1(3)] by auto
  qed
qed simp

section \<open>What an option does\<close>

definition is_switch :: "string \<Rightarrow> bool" where
  "is_switch a \<longleftrightarrow> chr a 0 = CHR ''-'' \<and> chr a 1 \<noteq> c_nul"

definition is_include :: "string \<Rightarrow> bool" where
  "is_include s \<longleftrightarrow> s = ''include'' \<or> s = ''imacros''"

text \<open>The options that take the next argument, and among them those whose handler stops when there is none.\<close>

definition checks_next :: "string \<Rightarrow> bool" where
  "checks_next s \<longleftrightarrow> s = ''I'' \<or> s = ''isystem'' \<or> s = ''dirafter''"

definition takes_next :: "string \<Rightarrow> bool" where
  "takes_next s \<longleftrightarrow> checks_next s \<or> is_include s \<or> s = ''MF'' \<or> s = ''MQ'' \<or> s = ''MT'' \<or> s = ''o'' \<or> s = ''G''"

text \<open>The line of an option \<open>s\<close> with the next argument \<open>b\<close>.\<close>

definition option_text :: "string \<Rightarrow> string \<Rightarrow> string" where
  "option_text s b =
     (if chr s 0 = CHR ''D''
      then let rest = dropWhile (\<lambda>c. \<not> ends_name c) (tl s)
           in ''#define '' @ takeWhile (\<lambda>c. \<not> ends_name c) (tl s) @ '' '' @ (if rest = [] then ''1'' else tl rest) @ [c_lf]
      else if s = ''I'' then path_line ''#add_include'' b
      else if chr s 0 = CHR ''I'' \<and> chr s 1 = CHR ''-'' then ''#split_include'' @ [c_lf]
      else if chr s 0 = CHR ''I'' then path_line ''#add_include'' (tl s)
      else if s = ''isystem'' then path_line ''#add_isystem'' b
      else if chr s 0 = CHR ''U'' then ''#undef '' @ tl s @ [c_lf]
      else if s = ''nostdinc'' then ''#nostdinc'' @ [c_lf]
      else if s = ''dirafter'' then path_line ''#add_dirafter'' b
      else [])"

text \<open>What the handler of the option \<open>s\<close> leaves alone, and how it changes the warnings.\<close>

definition handled :: "string \<Rightarrow> nat \<Rightarrow> lib \<Rightarrow> lib \<Rightarrow> bool" where
  "handled s i st st1 \<longleftrightarrow>
     length (argv st1) = length (argv st) \<and> drop (Suc i) (argv st1) = drop (Suc i) (argv st) \<and> filelist st1 = filelist st \<and>
     lists st1 = lists st \<and> gcc_major st1 = gcc_major st \<and> gcc_minor st1 = gcc_minor st \<and> gcc_patchlevel st1 = gcc_patchlevel st \<and>
     length (cmdline_include st1) \<le> length (cmdline_include st) + (if is_include s then 1 else 0) \<and>
     warnings st1 = (if chr s 0 = CHR ''W'' then snd (handle_onoff_switch s (warnings st)) else warnings st)"

lemma handled_refl: "chr s 0 \<noteq> CHR ''W'' \<Longrightarrow> handled s i st st"
  by (simp add: handled_def)

lemma go_on_add:
  assumes "added st t" and "handled s i st0 st"
  shows "if length t > PRE_BUFFER then go_on n (add_pre_buffer u st) = Inl (Ub Out_Of_Bounds)
         else \<exists>st1. go_on n (add_pre_buffer u st) = Inr (n, st1) \<and> added st1 (t @ u) \<and> handled s i st0 st1"
proof (cases "length t > PRE_BUFFER")
  case False
  then obtain st1 where "add_pre_buffer u st = Inr st1" "added st1 (t @ u)" "same_but_buffer st st1"
    using add_pre_buffer_result [OF assms(1), of u] by auto
  then show ?thesis using False assms(2) same_but_buffer_fields [of st st1] by (auto simp: handled_def)
qed (use add_pre_buffer_result [OF assms(1), of u] in simp)

lemma path_line_nonempty [simp]: "path_line d p \<noteq> []"
  by (simp add: path_line_def)

lemma in_set_tl: "x \<in> set (tl xs) \<Longrightarrow> x \<in> set xs"
  by (cases xs) auto

lemma drop_Suc_tl: "drop (Suc n) xs = tl (drop n xs)"
  by (simp add: drop_Suc tl_drop)

lemma drop_is_Cons:
  assumes "drop n xs = a # as"
  shows "n < length xs" and "xs ! n = a" and "drop (Suc n) xs = as"
proof -
  show "n < length xs" using assms by (metis drop_all list.discI not_le)
  then show "xs ! n = a" "drop (Suc n) xs = as" using assms by (simp_all add: Cons_nth_drop_Suc [symmetric])
qed

lemma chr_first: "chr s 0 = c \<Longrightarrow> c \<noteq> c_nul \<Longrightarrow> \<exists>r. s = c # r"
  by (cases s) (auto simp: chr_def)

lemma chr_second: "c_nul \<notin> set s \<Longrightarrow> s \<noteq> [] \<Longrightarrow> chr s 1 = c_nul \<longleftrightarrow> length s = 1"
  by (cases s; cases "tl s") (auto simp: chr_def)

lemma chr_Cons [simp]: "chr (c # s) 0 = c" "chr (c # s) (Suc i) = chr s i" "chr [] i = c_nul"
  by (simp_all add: chr_def)

lemma arg_at_here: "i < length as \<Longrightarrow> arg_at as i = Inr (Some (as ! i))"
  by (simp add: arg_at_def)

text \<open>
  One option, with its argument if it takes one: options that give a line, options for a file to include, and all others.
\<close>

definition option_done :: "lib_env \<Rightarrow> string \<Rightarrow> string \<Rightarrow> string \<Rightarrow> nat \<Rightarrow> lib \<Rightarrow> bool" where
  "option_done env t s b i st \<longleftrightarrow>
     (if option_text s b \<noteq> [] \<and> length t > PRE_BUFFER then handle_switch env s i st = Inl (Ub Out_Of_Bounds)
      else \<exists>st1. handle_switch env s i st = Inr (if takes_next s then Suc i else i, st1) \<and> added st1 (t @ option_text s b) \<and> handled s i st st1)"

lemmas option_defs = option_text_def takes_next_def checks_next_def is_include_def Let_def

lemma line_option:
  assumes "added st0 t" and "handled s i st st0" and "option_text s b \<noteq> []" and "n = (if takes_next s then Suc i else i)"
    and "handle_switch env s i st = go_on n (add_pre_buffer (option_text s b) st0)"
  shows "option_done env t s b i st"
  using go_on_add [OF assms(1,2), of "option_text s b" n] assms(3-5) by (auto simp: option_done_def split: if_splits)

lemma quiet_option:
  assumes "added st1 t" and "handled s i st st1" and "option_text s b = []"
    and "handle_switch env s i st = Inr (if takes_next s then Suc i else i, st1)"
  shows "option_done env t s b i st"
  using assms by (simp add: option_done_def)

lemma takes_next_first: "takes_next (c # r) \<Longrightarrow> c \<in> {CHR ''I'', CHR ''i'', CHR ''d'', CHR ''M'', CHR ''o'', CHR ''G''}"
  by (auto simp: takes_next_def checks_next_def is_include_def)

lemma option_D:
  assumes "added st t" and "s = CHR ''D'' # r"
  shows "option_done env t s b i st"
proof (rule line_option)
  define st0 where "st0 = (if dropWhile (\<lambda>c. \<not> ends_name c) r = [] then st
      else st\<lparr>argv := (argv st)[i := CHR ''-'' # take 1 s @ takeWhile (\<lambda>c. \<not> ends_name c) r]\<rparr>)"
  show "added st0 t" "handled s i st st0" using assms by (auto simp: st0_def added_def handled_def is_include_def)
  show "handle_switch env s i st = go_on i (add_pre_buffer (option_text s b) st0)"
    using assms(2) by (simp add: handle_switch_def handle_switch_D_def option_text_def Let_def st0_def)
qed (simp_all add: assms(2) option_defs)

lemma option_I:
  assumes "added st t" and "s = CHR ''I'' # r" and "c_nul \<notin> set r"
    and "takes_next s \<Longrightarrow> Suc i < length (argv st) \<and> b = argv st ! Suc i"
  shows "option_done env t s b i st"
proof (rule line_option [OF assms(1) handled_refl])
  show "chr s 0 \<noteq> CHR ''W''" by (simp add: assms(2))
  show "option_text s b \<noteq> []" using assms(2) by (simp add: option_text_def)
  have nul: "chr r 0 = c_nul \<longleftrightarrow> r = []" using assms(3) by (cases r) auto
  have takes: "takes_next s \<longleftrightarrow> r = []" using assms(2) by (auto simp: takes_next_def checks_next_def is_include_def)
  have "handle_switch env s i st = handle_switch_I s i st" using assms(2) by (simp add: handle_switch_def)
  also have "\<dots> = go_on (if takes_next s then Suc i else i) (add_pre_buffer (option_text s b) st)"
  proof (cases r)
    case Nil
    then have "arg_at (argv st) (Suc i) = Inr (Some b)" using assms(4) takes by (simp add: arg_at_here)
    then show ?thesis using Nil assms(2) takes by (simp add: handle_switch_I_def option_text_def)
  next
    case (Cons d ds)
    then show ?thesis using assms(2) takes nul by (simp add: handle_switch_I_def option_text_def)
  qed
  finally show "handle_switch env s i st = go_on (if takes_next s then Suc i else i) (add_pre_buffer (option_text s b) st)" .
qed simp

lemma option_U:
  assumes "added st t" and "s = CHR ''U'' # r"
  shows "option_done env t s b i st"
proof (rule line_option [OF assms(1) handled_refl])
  show "i = (if takes_next s then Suc i else i)" using takes_next_first [of _ r] by (auto simp: assms(2))
  show "handle_switch env s i st = go_on i (add_pre_buffer (option_text s b) st)"
    by (simp add: assms(2) handle_switch_def option_text_def handle_switch_U_def)
qed (simp_all add: assms(2) option_text_def)

lemma option_named:
  assumes "added st t" and "s = ''nostdinc'' \<or> s = ''dirafter'' \<or> s = ''isystem''" and "i < length (argv st)"
    and "takes_next s \<Longrightarrow> Suc i < length (argv st) \<and> b = argv st ! Suc i"
  shows "option_done env t s b i st"
proof -
  have line: "option_done env t s b i st"
    if "chr s 0 \<noteq> CHR ''W''" "option_text s b \<noteq> []" "n = (if takes_next s then Suc i else i)"
      "handle_switch env s i st = go_on n (add_pre_buffer (option_text s b) st)" for n
    using line_option [OF assms(1) handled_refl [OF that(1)] that(2-4)] .
  have here: "arg_at (argv st) i = Inr (Some (argv st ! i))" using assms(3) by (rule arg_at_here)
  from assms(2) show ?thesis
  proof (elim disjE)
    assume s: "s = ''nostdinc''"
    then have "\<not> takes_next s" by (simp add: takes_next_def checks_next_def is_include_def)
    then show ?thesis by (intro line [of i]) (simp_all add: s handle_switch_def handle_nostdinc_def option_text_def Let_def)
  next
    assume s: "s = ''dirafter''"
    then have "takes_next s" by (simp add: takes_next_def checks_next_def)
    moreover have "arg_at (argv st) (Suc i) = Inr (Some b)" using assms(4) calculation by (simp add: arg_at_here)
    ultimately show ?thesis by (intro line [of "Suc i"]) (simp_all add: s handle_switch_def handle_dirafter_def option_text_def Let_def)
  next
    assume s: "s = ''isystem''"
    then have "takes_next s" by (simp add: takes_next_def checks_next_def)
    moreover have "arg_at (argv st) (Suc i) = Inr (Some b)" using assms(4) calculation by (simp add: arg_at_here)
    ultimately show ?thesis by (intro line [of "Suc i"]) (simp_all add: s handle_switch_def handle_switch_i_def option_text_def here Let_def)
  qed
qed

lemma option_include:
  assumes "added st t" and "is_include s" and "i < length (argv st)" and "Suc i < length (argv st) \<and> b = argv st ! Suc i"
    and "length (cmdline_include st) < CMDLINE_INCLUDE"
  shows "option_done env t s b i st"
proof -
  have at: "arg_at (argv st) i = Inr (Some (argv st ! i))" "arg_at (argv st) (Suc i) = Inr (Some b)" using assms(3,4) by (simp_all add: arg_at_here)
  have "handle_switch env s i st = go_on (Suc i) (add_cmdline_include env (Some b) st)"
    using assms(2) unfolding is_include_def by (elim disjE) (simp_all add: handle_switch_def handle_switch_i_def at)
  moreover have "takes_next s" "option_text s b = []" "chr s 0 \<noteq> CHR ''W''"
    using assms(2) unfolding is_include_def by (elim disjE, simp_all add: takes_next_def is_include_def option_text_def)+
  ultimately show ?thesis using assms(1,2,5) by (simp add: option_done_def add_cmdline_include_def handled_def added_def)
qed

lemma option_v:
  assumes "added st t" and "s = CHR ''v'' # r"
  shows "option_done env t s b i st"
proof -
  obtain found ds where ds: "handle_onoff_switch s (debugs st) = (found, ds)" by fastforce
  define st1 where "st1 = (if found then st\<lparr>debugs := ds\<rparr>
      else st\<lparr>debugs := ds, verbose := verbose st + 1 + int (length (takeWhile (\<lambda>c. c = CHR ''v'') r))\<rparr>)"
  have "handle_switch env s i st = Inr (i, st1)" using ds assms(2) by (simp add: handle_switch_def handle_switch_v_def st1_def)
  moreover have "added st1 t" "handled s i st st1" using assms by (simp_all add: st1_def added_def handled_def)
  moreover have "\<not> takes_next s" "option_text s b = []" using takes_next_first [of _ r] assms(2) by (auto simp: option_text_def)
  ultimately show ?thesis by (simp add: quiet_option)
qed

lemma option_W:
  assumes "added st t" and "s = CHR ''W'' # r"
  shows "option_done env t s b i st"
proof -
  define st1 where "st1 = st\<lparr>warnings := snd (handle_onoff_switch s (warnings st))\<rparr>"
  have "handle_switch env s i st = Inr (i, st1)" using assms(2) by (simp add: handle_switch_def handle_switch_W_def st1_def)
  moreover have "added st1 t" "handled s i st st1" using assms by (simp_all add: st1_def added_def handled_def)
  moreover have "\<not> takes_next s" "option_text s b = []" using takes_next_first [of _ r] assms(2) by (auto simp: option_text_def)
  ultimately show ?thesis by (simp add: quiet_option)
qed

lemma option_skip:
  assumes "added st t" and "s = ''MF'' \<or> s = ''MQ'' \<or> s = ''MT'' \<or> s = ''o'' \<or> s = ''G''" and "i < length (argv st)"
  shows "option_done env t s b i st"
proof (rule quiet_option [OF assms(1) handled_refl])
  have here: "arg_at (argv st) i = Inr (Some (argv st ! i))" using assms(3) by (rule arg_at_here)
  have "handle_switch env s i st = Inr (Suc i, st)" "takes_next s"
    using assms(2) by (elim disjE, simp_all add: handle_switch_def handle_switch_M_def handle_switch_o_def handle_switch_G_def here takes_next_def)+
  then show "handle_switch env s i st = Inr (if takes_next s then Suc i else i, st)" by simp
  show "chr s 0 \<noteq> CHR ''W''" "option_text s b = []" using assms(2) by (elim disjE, simp_all add: option_text_def)+
qed

lemma option_quiet:
  assumes "added st t" and "s = c # r" and "c \<notin> {CHR ''D'', CHR ''I'', CHR ''U'', CHR ''v'', CHR ''W''}" and "\<not> takes_next s"
    and "s \<noteq> ''nostdinc''" and "i < length (argv st)"
  shows "option_done env t s b i st"
proof -
  have quiet: "option_text s b = []" using assms(2-5) by (auto simp: option_defs)
  have "s \<noteq> ''MF''" "s \<noteq> ''MQ''" "s \<noteq> ''MT''" "s \<noteq> ''o''" "s \<noteq> ''G''" "s \<noteq> ''dirafter''" "s \<noteq> ''include''" "s \<noteq> ''imacros''"
    "s \<noteq> ''isystem''" using assms(4) by (auto simp: takes_next_def checks_next_def is_include_def)
  moreover have "chr s 0 = c" "c \<noteq> CHR ''D''" "c \<noteq> CHR ''I''" "c \<noteq> CHR ''U''" "c \<noteq> CHR ''v''" "c \<noteq> CHR ''W''" using assms(2,3) by auto
  ultimately have "\<exists>st1. handle_switch env s i st = Inr (i, st1) \<and> added st1 t \<and> handled s i st st1"
    using assms(1,5,6) by (simp add: handle_switch_def handler_defs Let_def handled_def added_def arg_at_here)
  then show ?thesis using quiet assms(4) by (simp add: option_done_def)
qed

lemma handle_switch_result:
  assumes "added st t" and "c_nul \<notin> set s" and "s \<noteq> []" and "i < length (argv st)"
    and "takes_next s \<Longrightarrow> Suc i < length (argv st) \<and> b = argv st ! Suc i"
    and "is_include s \<Longrightarrow> length (cmdline_include st) < CMDLINE_INCLUDE"
  shows "option_done env t s b i st"
proof -
  obtain c r where s: "s = c # r" using assms(3) by (cases s) auto
  have I: "option_done env t s b i st" if "c = CHR ''I''" using option_I [of st t s r i b] assms s that by auto
  have inc: "option_done env t s b i st" if "is_include s"
    using option_include [OF assms(1) that assms(4)] assms(5,6) that by (simp add: takes_next_def)
  note named = option_named [OF assms(1) _ assms(4,5)] and skip = option_skip [OF assms(1) _ assms(4)]
  show ?thesis
  proof (cases "takes_next s")
    case True
    from this [unfolded takes_next_def checks_next_def] show ?thesis
    proof (elim disjE)
      assume "s = ''I''"
      then have "c = CHR ''I''" using s by simp
      then show ?thesis by (rule I)
    next
      assume "is_include s"
      then show ?thesis by (rule inc)
    next
      assume "s = ''isystem''"
      then show ?thesis by (intro named) simp
    next
      assume "s = ''dirafter''"
      then show ?thesis by (intro named) simp
    next
      assume "s = ''MF''"
      then show ?thesis by (intro skip) simp
    next
      assume "s = ''MQ''"
      then show ?thesis by (intro skip) simp
    next
      assume "s = ''MT''"
      then show ?thesis by (intro skip) simp
    next
      assume "s = ''o''"
      then show ?thesis by (intro skip) simp
    next
      assume "s = ''G''"
      then show ?thesis by (intro skip) simp
    qed
  next
    case False
    consider "c = CHR ''D''" | "c = CHR ''I''" | "c = CHR ''U''" | "c = CHR ''v''" | "c = CHR ''W''"
      | "c \<notin> {CHR ''D'', CHR ''I'', CHR ''U'', CHR ''v'', CHR ''W''}" by blast
    then show ?thesis
    proof cases
      case 2
      then show ?thesis by (rule I)
    next
      case 6
      then show ?thesis
        using option_quiet [OF assms(1) s 6 False _ assms(4)] named by (cases "s = ''nostdinc''") simp_all
    qed (use s option_D option_U option_v option_W assms(1) in simp_all)
  qed
qed

section \<open>The arguments\<close>

text \<open>The files among the arguments, by their index; the options, each with the argument it takes; whether none is missing.\<close>

fun files_of :: "nat \<Rightarrow> string list \<Rightarrow> nat list" where
  "files_of i [] = []"
| "files_of i (a # as) =
     (if \<not> is_switch a then i # files_of (Suc i) as
      else if takes_next (tl a) then files_of (Suc (Suc i)) (tl as) else files_of (Suc i) as)"

fun switches_of :: "string list \<Rightarrow> (string \<times> string) list" where
  "switches_of [] = []"
| "switches_of (a # as) =
     (if \<not> is_switch a then switches_of as
      else if takes_next (tl a) then (tl a, case as of [] \<Rightarrow> [] | b # bs \<Rightarrow> b) # switches_of (tl as) else (tl a, []) # switches_of as)"

fun args_complete :: "string list \<Rightarrow> bool" where
  "args_complete [] = True"
| "args_complete (a # as) =
     (if \<not> is_switch a then args_complete as else if takes_next (tl a) then as \<noteq> [] \<and> args_complete (tl as) else args_complete as)"

definition texts :: "(string \<times> string) list \<Rightarrow> string" where
  "texts sws = concat (map (\<lambda>(s, b). option_text s b) sws)"

definition after_warnings :: "(string \<times> string) list \<Rightarrow> warning_entry list \<Rightarrow> warning_entry list" where
  "after_warnings sws ws = fold (\<lambda>(s, b) ws. if chr s 0 = CHR ''W'' then snd (handle_onoff_switch s ws) else ws) sws ws"

abbreviation include_count :: "(string \<times> string) list \<Rightarrow> nat" where
  "include_count sws \<equiv> length (filter (\<lambda>(s, b). is_include s) sws)"

text \<open>What the loop has done when it is behind the arguments \<open>as\<close>, the first of which has the index \<open>k\<close>.\<close>

definition read_args :: "lib_env \<Rightarrow> nat \<Rightarrow> string list \<Rightarrow> string \<Rightarrow> ptr list \<Rightarrow> lib \<Rightarrow> lib \<Rightarrow> bool" where
  "read_args env k as t xs st st1 \<longleftrightarrow>
     added st1 (t @ texts (switches_of as)) \<and>
     (\<exists>bs. rep (lists st1) (filelist st1) bs (xs @ map (arg_ptr env) (files_of k as))) \<and>
     warnings st1 = after_warnings (switches_of as) (warnings st) \<and>
     gcc_major st1 = gcc_major st \<and> gcc_minor st1 = gcc_minor st \<and> gcc_patchlevel st1 = gcc_patchlevel st"

lemma args_loop_result:
  assumes "added st t" and "rep (lists st) (filelist st) bs xs" and "k < length (argv st)" and "as = drop (Suc k) (argv st)"
    and "\<forall>a\<in>set as. c_nul \<notin> set a" and "args_complete as" and "length (cmdline_include st) + include_count (switches_of as) \<le> CMDLINE_INCLUDE"
  shows "(\<exists>st1. args_loop env k st = Inr st1 \<and> read_args env (Suc k) as t xs st st1) \<or>
         (length (t @ texts (switches_of as)) > PRE_BUFFER \<and> args_loop env k st = Inl (Ub Out_Of_Bounds))"
  using assms
proof (induction "length as" arbitrary: as k st t bs xs rule: less_induct)
  case less
  show ?case
  proof (cases as)
    case Nil
    then have "arg_at (argv st) (Suc k) = Inr None" using less.prems(3,4) by (simp add: arg_at_def)
    then have "args_loop env k st = Inr st" by (subst args_loop.simps) simp
    moreover have "read_args env (Suc k) as t xs st st" using less.prems(1,2) Nil by (auto simp: read_args_def texts_def after_warnings_def)
    ultimately show ?thesis by blast
  next
    case (Cons a as')
    then have k: "Suc k < length (argv st)" "argv st ! Suc k = a" "as' = drop (Suc (Suc k)) (argv st)"
      using less.prems(4) drop_is_Cons [of "Suc k" "argv st" a as'] by auto
    have here: "arg_at (argv st) (Suc k) = Inr (Some a)" using k by (simp add: arg_at_def)
    show ?thesis
    proof (cases "is_switch a")
      case False
      obtain l h bs1 where add: "add_ptr_list_notag (filelist st) (arg_ptr env (Suc k)) (lists st) = Inr (l, h)"
        "rep h l bs1 (xs @ [arg_ptr env (Suc k)])"
        using add_notag_rep [OF less.prems(2)] by blast
      define st0 where "st0 = st\<lparr>filelist := l, lists := h\<rparr>"
      have "args_loop env k st = args_loop env (Suc k) st0"
        using here add(1) False by (subst args_loop.simps) (auto simp: is_switch_def st0_def)
      moreover have "added st0 t" "rep (lists st0) (filelist st0) bs1 (xs @ [arg_ptr env (Suc k)])" "as' = drop (Suc (Suc k)) (argv st0)"
        using less.prems(1) add(2) k(3) by (simp_all add: st0_def added_def)
      ultimately show ?thesis
        using less.hyps [of as' st0 t bs1 "xs @ [arg_ptr env (Suc k)]" "Suc k"] less.prems(5-7) k Cons False
        by (auto simp: st0_def read_args_def)
    next
      case True
      define s where "s = tl a"
      define b where "b = (case as' of [] \<Rightarrow> [] | b # bs \<Rightarrow> b)"
      define rest where "rest = (if takes_next s then tl as' else as')"
      define j where "j = (if takes_next s then Suc (Suc k) else Suc k)"
      define u where "u = option_text s (if takes_next s then b else [])"
      have s: "s \<noteq> []" "c_nul \<notin> set s"
        using True less.prems(5) Cons by (cases a; force simp: s_def is_switch_def)+
      have sw: "switches_of as = (s, if takes_next s then b else []) # switches_of rest" "files_of (Suc k) as = files_of (Suc j) rest"
        "args_complete rest" "takes_next s \<Longrightarrow> as' \<noteq> []"
        using True Cons less.prems(6) by (auto simp: s_def b_def rest_def j_def split: if_splits)
      have next_arg: "Suc (Suc k) < length (argv st) \<and> b = argv st ! Suc (Suc k)" if t: "takes_next s"
      proof -
        obtain c cs where "as' = c # cs" using sw(4) [OF t] by (cases as') auto
        then show ?thesis using k(3) by (cases "Suc (Suc k) < length (argv st)") (auto simp: b_def Cons_nth_drop_Suc [symmetric])
      qed
      have loop: "args_loop env k st = lbind (handle_switch env s (Suc k) st) (\<lambda>(args1, st1). args_loop env args1 st1)"
        using here True by (subst args_loop.simps) (simp add: is_switch_def s_def)
      have inc: "is_include s \<Longrightarrow> length (cmdline_include st) < CMDLINE_INCLUDE" using less.prems(7) sw(1) by auto
      have res: "if u \<noteq> [] \<and> length t > PRE_BUFFER then handle_switch env s (Suc k) st = Inl (Ub Out_Of_Bounds)
           else \<exists>st1. handle_switch env s (Suc k) st = Inr (j, st1) \<and> added st1 (t @ u) \<and> handled s (Suc k) st st1"
        using handle_switch_result [OF less.prems(1) s(2,1) k(1), of "if takes_next s then b else []" env] next_arg inc
        unfolding option_done_def u_def j_def by simp
      have total: "texts (switches_of as) = u @ texts (switches_of rest)" by (simp add: sw(1) texts_def u_def)
      show ?thesis
      proof (cases "u \<noteq> [] \<and> length t > PRE_BUFFER")
        case True
        then show ?thesis using res loop total by auto
      next
        case False
        then obtain st1 where st1: "handle_switch env s (Suc k) st = Inr (j, st1)" "added st1 (t @ u)" "handled s (Suc k) st st1"
          using res by auto
        have "drop (Suc (Suc k)) (argv st1) = as'" using st1(3) k(3) by (simp add: handled_def)
        then have "drop (Suc j) (argv st1) = rest" using drop_Suc_tl [of "Suc (Suc k)" "argv st1"] by (simp add: rest_def j_def)
        moreover have "j < length (argv st1)" using st1(3) k(1) next_arg by (auto simp: handled_def j_def)
        moreover have "length rest < length as" "\<forall>a\<in>set rest. c_nul \<notin> set a"
          using Cons less.prems(5) by (auto simp: rest_def dest: in_set_tl)
        moreover have "length (cmdline_include st1) + include_count (switches_of rest) \<le> CMDLINE_INCLUDE"
          using less.prems(7) st1(3) by (auto simp: sw(1) handled_def split: if_splits)
        moreover have "rep (lists st1) (filelist st1) bs xs" using less.prems(2) st1(3) by (simp add: handled_def)
        ultimately have "(\<exists>st2. args_loop env j st1 = Inr st2 \<and> read_args env (Suc j) rest (t @ u) xs st1 st2) \<or>
            (length ((t @ u) @ texts (switches_of rest)) > PRE_BUFFER \<and> args_loop env j st1 = Inl (Ub Out_Of_Bounds))"
          using less.hyps [of rest st1 "t @ u" bs xs j] st1(2) sw(3) by blast
        moreover have "read_args env (Suc k) as t xs st st2" if "read_args env (Suc j) rest (t @ u) xs st1 st2" for st2
          using that st1(3) total by (auto simp: read_args_def handled_def sw(1,2) after_warnings_def)
        ultimately show ?thesis using loop st1(1) total by auto
      qed
    qed
  qed
qed

end
