(* ===== verification/Sparse_Lib_Props.thy ===== *)
theory Sparse_Lib_Props
  imports Sparse_Lib_Facts
begin

text \<open>
  \<open>sparse_initialize\<close> (src/sparse-0.4.1/lib.c) as a whole: the files it finds, the lines it gives the preprocessor, the
  values of the warnings, and what goes wrong.
\<close>

section \<open>The size of the lines that are always there\<close>

definition all_lines :: "string list \<Rightarrow> string" where
  "all_lines ts = concat (map (\<lambda>t. t @ [c_lf]) ts)"

lemma all_lines_simps [simp]: "all_lines [] = []" "all_lines (t # ts) = t @ c_lf # all_lines ts" "all_lines (ts @ us) = all_lines ts @ all_lines us"
  by (simp_all add: all_lines_def)

lemma length_builtin_functions: "length (all_lines builtin_functions) = 1644"
  by code_simp

definition version_digits :: "lib \<Rightarrow> nat" where
  "version_digits st = length (fmt_d (gcc_major st)) + length (fmt_d (gcc_minor st)) + length (fmt_d (gcc_patchlevel st))"

lemma length_builtin_stream: "length (all_lines (builtin_stream st)) \<le> 709 + version_digits st"
  unfolding builtin_stream_def version_digits_def by simp

section \<open>Behind the arguments\<close>

lemma lfold_append: "lfold f (xs @ ys) s = lbind (lfold f xs s) (lfold f ys)"
proof (induction xs arbitrary: s)
  case (Cons x xs)
  then show ?case by (cases "f x s") simp_all
qed simp

lemma lbind_Inr_right [simp]: "lbind m Inr = m"
  by (cases m) simp_all

lemma lfold_single [simp]: "lfold f [x] = f x"
proof
  fix s
  have "lfold f [] = Inr" by (rule ext) simp
  then show "lfold f [x] s = f x s" by simp
qed

lemma lbind_assoc: "lbind (lbind m f) g = lbind m (\<lambda>x. lbind (f x) g)"
  by (cases m) simp_all

lemma lfold_add_keeps: "lfold add_pre_buffer us st = Inr st1 \<Longrightarrow> preprocess_only st1 = preprocess_only st"
proof (induction us arbitrary: st)
  case (Cons u us)
  then show ?case by (auto simp: lbind_Inr_iff add_pre_buffer_def Let_def split: if_splits)
qed simp

text \<open>The lines that come behind those of the options.\<close>

definition own_lines :: "lib \<Rightarrow> string list" where
  "own_lines st = builtin_stream st @ [''#define __CHECKER__ 1''] @ (if preprocess_only st then [] else builtin_functions)"

definition behind_args :: "lib \<Rightarrow> (lib \<times> source list) lrun" where
  "behind_args st =
     lbind (create_builtin_stream st) (\<lambda>st2.
     lbind (add_pre_buffer (''#define __CHECKER__ 1'' @ [c_lf]) st2) (\<lambda>st3.
     lbind (if preprocess_only st3 then Inr st3 else declare_builtin_functions st3) (\<lambda>st4.
     lbind (sparse_initial st4) (\<lambda>srcs. Inr (st4, srcs)))))"

lemma behind_args_fold:
  "behind_args st =
   lbind (lfold add_pre_buffer (map (\<lambda>t. t @ [c_lf]) (own_lines st)) st) (\<lambda>st4. lbind (sparse_initial st4) (\<lambda>srcs. Inr (st4, srcs)))"
proof -
  let ?add = "\<lambda>ts. lfold add_pre_buffer (map (\<lambda>t. t @ [c_lf]) ts)"
  define ts where "ts = builtin_stream st @ [''#define __CHECKER__ 1'']"
  have own: "own_lines st = ts @ (if preprocess_only st then [] else builtin_functions)" by (simp add: own_lines_def ts_def)
  have ts: "?add ts st = lbind (create_builtin_stream st) (add_pre_buffer (''#define __CHECKER__ 1'' @ [c_lf]))"
    unfolding ts_def create_builtin_stream_def by (simp add: lfold_append)
  have "lbind (?add ts st) (\<lambda>st3. if preprocess_only st3 then Inr st3 else declare_builtin_functions st3) = ?add (own_lines st) st"
  proof (cases "?add ts st")
    case (Inr st3)
    then have "preprocess_only st3 = preprocess_only st" by (rule lfold_add_keeps)
    then show ?thesis using Inr by (simp add: own lfold_append declare_builtin_functions_def)
  qed (simp add: own lfold_append)
  then show ?thesis unfolding behind_args_def ts lbind_assoc [symmetric] by (simp add: lbind_assoc)
qed

lemma behind_args_result:
  assumes "added st t"
  shows "if length (t @ all_lines (own_lines st)) \<le> PRE_BUFFER
         then \<exists>st1. behind_args st = Inr (st1, Buffer (take (length (t @ all_lines (own_lines st))) (pre_buffer st1)) #
                       include_loop (cmdline_include st) (length (cmdline_include st)) []) \<and>
                     added st1 (t @ all_lines (own_lines st)) \<and> same_but_buffer st st1
         else behind_args st = Inl (Ub Out_Of_Bounds)"
proof -
  have "if length (t @ all_lines (own_lines st)) \<le> PRE_BUFFER
      then \<exists>st1. lfold add_pre_buffer (map (\<lambda>t. t @ [c_lf]) (own_lines st)) st = Inr st1 \<and>
             added st1 (t @ all_lines (own_lines st)) \<and> same_but_buffer st st1
      else lfold add_pre_buffer (map (\<lambda>t. t @ [c_lf]) (own_lines st)) st = Inl (Ub Out_Of_Bounds) \<or>
           (\<exists>st1. lfold add_pre_buffer (map (\<lambda>t. t @ [c_lf]) (own_lines st)) st = Inr st1 \<and>
             added st1 (t @ all_lines (own_lines st)) \<and> same_but_buffer st st1)"
    using add_all_result [OF assms, of "map (\<lambda>t. t @ [c_lf]) (own_lines st)"] by (simp add: all_lines_def)
  then show ?thesis
    using same_but_buffer_fields(3) by (auto simp: behind_args_fold sparse_initial_def added_def split: if_splits)
qed

lemma length_own_lines: "length (all_lines (own_lines st)) \<le> 2375 + version_digits st"
  using length_builtin_stream [of st] length_builtin_functions by (simp add: own_lines_def)

text \<open>The flags are put in order between the two.\<close>

definition finalized :: "lib \<Rightarrow> lib" where
  "finalized st = handle_switch_v_finalize (handle_switch_W_finalize st)"

lemma finalized_fields [simp]:
  "pre_buffer (finalized st) = pre_buffer st" "pre_buffer_size (finalized st) = pre_buffer_size st" "filelist (finalized st) = filelist st"
  "lists (finalized st) = lists st" "warnings (finalized st) = handle_onoff_switch_finalize (warnings st)"
  "gcc_major (finalized st) = gcc_major st" "gcc_minor (finalized st) = gcc_minor st" "gcc_patchlevel (finalized st) = gcc_patchlevel st"
  "added (finalized st) t = added st t" "version_digits (finalized st) = version_digits st"
  by (simp_all add: finalized_def handle_switch_v_finalize_def handle_switch_W_finalize_def added_def version_digits_def)

lemma initialize_split: "lib_sparse_initialize env st = lbind (args_loop env 0 st) (\<lambda>st1. behind_args (finalized st1))"
  by (simp add: lib_sparse_initialize_def behind_args_def finalized_def)

section \<open>The whole\<close>

text \<open>Arguments that are C strings, with no argument of an option missing and not too many files to include.\<close>

definition well_formed_args :: "string list \<Rightarrow> bool" where
  "well_formed_args as \<longleftrightarrow>
     (\<forall>a\<in>set as. c_nul \<notin> set a) \<and> args_complete as \<and> include_count (switches_of as) \<le> CMDLINE_INCLUDE"

lemma args_loop_start:
  assumes "well_formed_args as" and "fresh_heap h" and "st = lib_start (prog # as) gcc h"
  shows "(\<exists>st1. args_loop env 0 st = Inr st1 \<and> read_args env 1 as [] [] st st1) \<or>
         (length (texts (switches_of as)) > PRE_BUFFER \<and> args_loop env 0 st = Inl (Ub Out_Of_Bounds))"
proof -
  have st: "argv st = prog # as" "cmdline_include st = []" "filelist st = None" "lists st = h" "added st []"
    by (simp_all add: assms(3) lib_start_def added_def)
  have "rep (lists st) (filelist st) [] []" using assms(2) st(3,4) by (simp add: fresh_heap_def)
  moreover have "0 < length (argv st)" "as = drop (Suc 0) (argv st)" using st(1) by simp_all
  moreover have "\<forall>a\<in>set as. c_nul \<notin> set a" "args_complete as" "length (cmdline_include st) + include_count (switches_of as) \<le> CMDLINE_INCLUDE"
    using assms(1) st(2) by (simp_all add: well_formed_args_def)
  ultimately show ?thesis using args_loop_result [OF st(5), of "[]" "[]" 0 as env] by (simp only: One_nat_def append_Nil)
qed

lemma include_loop_order: "n \<le> length incs \<Longrightarrow> include_loop incs n token = map (\<lambda>(f, fd). Include f fd) (take n incs) @ token"
  by (induction n arbitrary: token) (auto simp: take_Suc_conv_app_nth split: prod.splits)

lemma own_lines_same: "same_but_buffer st st1 \<Longrightarrow> own_lines st1 = own_lines st"
  by (simp add: own_lines_def builtin_stream_def same_but_buffer_fields)

definition tokens :: "string \<Rightarrow> lib \<Rightarrow> source list" where
  "tokens t st = Buffer (t @ all_lines (own_lines st)) # map (\<lambda>(f, fd). Include f fd) (cmdline_include st)"

lemma initialize_result:
  assumes "well_formed_args as" and "fresh_heap h" and "st = lib_start (prog # as) gcc h"
    and "length (texts (switches_of as)) + 2375 + version_digits st < PRE_BUFFER"
  shows "\<exists>st1 bs. lib_sparse_initialize env st = Inr (st1, tokens (texts (switches_of as)) st1) \<and>
           rep (lists st1) (filelist st1) bs (map (arg_ptr env) (files_of 1 as)) \<and>
           warnings st1 = handle_onoff_switch_finalize (after_warnings (switches_of as) default_warnings)"
proof -
  let ?t = "texts (switches_of as)"
  obtain st1 where st1: "args_loop env 0 st = Inr st1" "read_args env 1 as [] [] st st1"
    using args_loop_start [OF assms(1-3), of env] assms(4) by auto
  have v: "version_digits st1 = version_digits st" "added (finalized st1) ?t" using st1(2) by (simp_all add: read_args_def version_digits_def)
  let ?u = "?t @ all_lines (own_lines (finalized st1))"
  have "length ?u < PRE_BUFFER" using assms(4) v length_own_lines [of "finalized st1"] by simp
  then obtain st2 where st2: "behind_args (finalized st1) = Inr (st2, Buffer (take (length ?u) (pre_buffer st2)) #
      include_loop (cmdline_include (finalized st1)) (length (cmdline_include (finalized st1))) [])"
    "added st2 ?u" "same_but_buffer (finalized st1) st2"
    using behind_args_result [OF v(2)] by auto
  note same = same_but_buffer_fields [OF st2(3)]
  have "take (length ?u) (pre_buffer st2) = ?u" using st2(2) \<open>length ?u < PRE_BUFFER\<close> by (simp add: added_def)
  then have "behind_args (finalized st1) = Inr (st2, tokens ?t st2)"
    using st2(1) same(3) by (simp add: tokens_def own_lines_same [OF st2(3)] include_loop_order)
  moreover obtain bs where "rep (lists st2) (filelist st2) bs (map (arg_ptr env) (files_of 1 as))"
    using st1(2) same by (auto simp: read_args_def)
  moreover have "warnings st2 = handle_onoff_switch_finalize (after_warnings (switches_of as) default_warnings)"
    using st1(2) same by (simp add: read_args_def assms(3) lib_start_def)
  ultimately show ?thesis using st1(1) by (auto simp: initialize_split)
qed

lemma initialize_overflow:
  assumes "well_formed_args as" and "fresh_heap h" and "length (texts (switches_of as)) > PRE_BUFFER"
  shows "lib_sparse_initialize env (lib_start (prog # as) gcc h) = Inl (Ub Out_Of_Bounds)"
proof -
  let ?st = "lib_start (prog # as) gcc h" and ?t = "texts (switches_of as)"
  consider st1 where "args_loop env 0 ?st = Inr st1" "read_args env 1 as [] [] ?st st1" | "args_loop env 0 ?st = Inl (Ub Out_Of_Bounds)"
    using args_loop_start [OF assms(1,2) refl, of env prog gcc] by blast
  then show ?thesis
  proof cases
    case 1
    then have "added (finalized st1) ?t" by (simp add: read_args_def)
    then show ?thesis using behind_args_result [of "finalized st1" ?t] assms(3) 1(1) by (simp add: initialize_split)
  qed (simp add: initialize_split)
qed

section \<open>Warnings\<close>

text \<open>
  What the manual (sparse.1) says of an option for the warning \<open>w\<close>: \<open>-W<name>\<close> switches it on, \<open>-Wno-<name>\<close> off; lib.c takes
  \<open>-Wno<name>\<close> for the latter as well.
\<close>

definition says :: "string \<Rightarrow> string \<Rightarrow> bool option" where
  "says w s = (if tl s = w then Some True else if tl s = ''no-'' @ w \<or> tl s = ''no'' @ w then Some False else None)"

text \<open>The last option that names the warning decides; without one \<open>-Wall\<close>; else the value \<open>v\<close> at the start stays.\<close>

definition decided :: "'b \<Rightarrow> 'b \<Rightarrow> string list \<Rightarrow> string \<Rightarrow> 'b \<Rightarrow> 'b" where
  "decided on off ss w v =
     (let ms = filter (\<lambda>s. says w s \<noteq> None) ss
      in if ms \<noteq> [] then (if says w (last ms) = Some True then on else off) else if ''all'' \<in> set (map tl ss) then on else v)"

definition warning_switches :: "(string \<times> string) list \<Rightarrow> string list" where
  "warning_switches sws = filter (\<lambda>s. chr s 0 = CHR ''W'') (map fst sws)"

text \<open>The options that are heeded: the code takes the first two letters of \<open>-Wnon-pointer-null\<close> for the prefix \<open>no\<close>.\<close>

abbreviation heeded :: "string list \<Rightarrow> string list" where
  "heeded ss \<equiv> filter (\<lambda>s. tl s \<noteq> ''non-pointer-null'') ss"

text \<open>How the code reads an option: the name it looks up and the value it sets.\<close>

definition read_onoff :: "string \<Rightarrow> string \<times> bool" where
  "read_onoff s =
     (let p = tl s
      in if chr p 0 = CHR ''n'' \<and> chr p 1 = CHR ''o''
         then (if chr (drop 2 p) 0 = CHR ''-'' then drop 3 p else drop 2 p, False) else (p, True))"

lemma set_flag_lookup: "map_of (snd (set_flag p f ws)) w = (if w = p then map_option (\<lambda>v. f) (map_of ws w) else map_of ws w)"
  by (induction p f ws rule: set_flag.induct) (auto split: prod.splits)

lemma all_on_lookup: "map_of (all_on ws) w = map_option (\<lambda>v. if v \<noteq> WARNING_FORCE_OFF then WARNING_ON else v) (map_of ws w)"
  unfolding all_on_def map_of_map by simp

lemma finalize_lookup:
  "map_of (handle_onoff_switch_finalize ws) w = map_option (\<lambda>v. if v = WARNING_FORCE_OFF then WARNING_OFF else v) (map_of ws w)"
  unfolding handle_onoff_switch_finalize_def map_of_map by simp

text \<open>The names of the table: none starts with a dash, and only one with the letters of the prefix.\<close>

lemma warning_names:
  assumes "map_of default_warnings w = Some v"
  shows "w \<noteq> CHR ''-'' # r" and "w = CHR ''n'' # CHR ''o'' # q \<Longrightarrow> w = ''non-pointer-null''"
  using assms by (auto simp: default_warnings_def split: if_splits)

lemma read_onoff_says:
  assumes "map_of default_warnings w = Some v"
  shows "fst (read_onoff s) = w \<longleftrightarrow> tl s \<noteq> ''non-pointer-null'' \<and> says w s \<noteq> None"
    and "fst (read_onoff s) = w \<Longrightarrow> snd (read_onoff s) \<longleftrightarrow> says w s = Some True"
proof -
  note names = warning_names [OF assms]
  consider r where "tl s = CHR ''n'' # CHR ''o'' # CHR ''-'' # r"
    | r where "tl s = CHR ''n'' # CHR ''o'' # r" "chr r 0 \<noteq> CHR ''-''"
    | "\<not> (chr (tl s) 0 = CHR ''n'' \<and> chr (tl s) 1 = CHR ''o'')"
    by (cases "tl s"; cases "tl (tl s)"; cases "tl (tl (tl s))") (auto simp: chr_def)
  then have "(fst (read_onoff s) = w \<longleftrightarrow> tl s \<noteq> ''non-pointer-null'' \<and> says w s \<noteq> None) \<and>
             (fst (read_onoff s) = w \<longrightarrow> (snd (read_onoff s) \<longleftrightarrow> says w s = Some True))"
  proof cases
    case (1 r)
    then have r: "read_onoff s = (r, False)" by (simp add: read_onoff_def Let_def chr_def)
    have "w \<noteq> tl s" using names(2) 1 by auto
    moreover have "tl s = ''no-'' @ w \<longleftrightarrow> r = w" "tl s \<noteq> ''no'' @ w" "tl s \<noteq> ''non-pointer-null''"
      using 1 names(1) by auto
    ultimately show ?thesis using r by (auto simp: says_def)
  next
    case (2 r)
    then have r: "read_onoff s = (r, False)" by (simp add: read_onoff_def Let_def chr_def)
    have "w = tl s \<longrightarrow> tl s = ''non-pointer-null''" using names(2) 2 by auto
    moreover have "tl s = ''non-pointer-null'' \<Longrightarrow> r \<noteq> w"
      using assms 2 by (auto simp: default_warnings_def split: if_splits)
    moreover have "tl s = ''no'' @ w \<longleftrightarrow> r = w" "tl s \<noteq> ''no-'' @ w" using 2 by (auto simp: chr_def)
    ultimately show ?thesis using r by (auto simp: says_def)
  next
    case 3
    then have r: "read_onoff s = (tl s, True)" by (auto simp: read_onoff_def Let_def)
    have no: "tl s \<noteq> CHR ''n'' # CHR ''o'' # q" for q
    proof
      assume "tl s = CHR ''n'' # CHR ''o'' # q"
      with 3 show False by (simp only:) (simp add: chr_def)
    qed
    have "tl s \<noteq> ''no'' @ w" "tl s \<noteq> ''no-'' @ w" "tl s \<noteq> ''non-pointer-null''"
      using no [of w] no [of "CHR ''-'' # w"] no [of "''n-pointer-null''"] by simp_all
    then show ?thesis using r by (auto simp: says_def)
  qed
  then show "fst (read_onoff s) = w \<longleftrightarrow> tl s \<noteq> ''non-pointer-null'' \<and> says w s \<noteq> None"
    "fst (read_onoff s) = w \<Longrightarrow> snd (read_onoff s) \<longleftrightarrow> says w s = Some True" by blast+
qed

lemma onoff_lookup:
  assumes "map_of ws w = Some v"
  shows "map_of (snd (handle_onoff_switch s ws)) w =
         Some (if fst (read_onoff s) = w then (if snd (read_onoff s) then WARNING_ON else WARNING_FORCE_OFF)
               else if tl s = ''all'' \<and> v \<noteq> WARNING_FORCE_OFF then WARNING_ON else v)"
proof -
  define p where "p = tl s"
  define q where "q = (if chr (drop 2 p) 0 = CHR ''-'' then drop 3 p else drop 2 p)"
  define ws1 where "ws1 = (if p = ''all'' then all_on ws else ws)"
  have ws1: "map_of ws1 w = Some (if p = ''all'' \<and> v \<noteq> WARNING_FORCE_OFF then WARNING_ON else v)"
    using assms by (simp add: ws1_def all_on_lookup)
  have "handle_onoff_switch s ws = (if snd (read_onoff s) then set_flag (fst (read_onoff s)) WARNING_ON ws1
      else set_flag (fst (read_onoff s)) WARNING_FORCE_OFF ws1)"
    unfolding handle_onoff_switch_def read_onoff_def Let_def p_def [symmetric] q_def [symmetric] ws1_def [symmetric] by simp
  then show ?thesis using ws1 by (simp add: set_flag_lookup p_def)
qed

lemma default_values: "map_of default_warnings w = Some v \<Longrightarrow> v = 0 \<or> v = 1"
  by (auto simp: default_warnings_def split: if_splits)

lemma decided_snoc:
  assumes "on \<noteq> off" and "v \<noteq> off"
  shows "decided on off (ss @ [s]) w v =
         (case says w s of Some b \<Rightarrow> if b then on else off
          | None \<Rightarrow> if tl s = ''all'' \<and> decided on off ss w v \<noteq> off then on else decided on off ss w v)"
proof (cases "says w s")
  case None
  define ms where "ms = filter (\<lambda>s. says w s \<noteq> None) ss"
  have "filter (\<lambda>s. says w s \<noteq> None) (ss @ [s]) = ms" using None by (simp add: ms_def)
  then show ?thesis using None assms unfolding decided_def ms_def [symmetric] Let_def by (cases "tl s = ''all''") auto
qed (simp add: decided_def Let_def)

lemma after_warnings_lookup:
  assumes "map_of default_warnings w = Some v"
  shows "map_of (after_warnings sws default_warnings) w =
         Some (decided WARNING_ON WARNING_FORCE_OFF (heeded (warning_switches sws)) w v)"
proof (induction sws rule: rev_induct)
  case Nil
  then show ?case using assms(1) by (simp add: after_warnings_def warning_switches_def decided_def)
next
  case (snoc x sws)
  have on: "WARNING_ON \<noteq> WARNING_FORCE_OFF" by (simp add: WARNING_ON_def WARNING_FORCE_OFF_def)
  have off: "v \<noteq> WARNING_FORCE_OFF" using default_values [OF assms] by (auto simp: WARNING_FORCE_OFF_def)
  obtain s b where x: "x = (s, b)" by (cases x)
  show ?case
  proof (cases "chr s 0 = CHR ''W''")
    case True
    have step: "after_warnings (sws @ [x]) ws = snd (handle_onoff_switch s (after_warnings sws ws))" for ws
      using True x by (simp add: after_warnings_def)
    define ss where "ss = heeded (warning_switches sws)"
    have ss: "heeded (warning_switches (sws @ [x])) = ss @ (if tl s = ''non-pointer-null'' then [] else [s])"
      using True x by (simp add: warning_switches_def ss_def)
    have all: "tl s = ''non-pointer-null'' \<Longrightarrow> tl s \<noteq> ''all''" by simp
    note r = read_onoff_says [OF assms, of s] decided_snoc [OF on off, of ss s w]
    show ?thesis
      unfolding step onoff_lookup [OF snoc.IH [folded ss_def]] ss
      using r all by (cases "tl s = ''non-pointer-null''"; cases "says w s") simp_all
  next
    case False
    then show ?thesis using snoc.IH x by (simp add: after_warnings_def warning_switches_def)
  qed
qed

lemma final_warnings:
  assumes "map_of default_warnings w = Some v"
  shows "map_of (handle_onoff_switch_finalize (after_warnings sws default_warnings)) w =
         Some (decided WARNING_ON WARNING_OFF (heeded (warning_switches sws)) w v)"
  using default_values [OF assms]
  by (auto simp: finalize_lookup after_warnings_lookup [OF assms] decided_def Let_def WARNING_ON_def WARNING_FORCE_OFF_def WARNING_OFF_def)

section \<open>Missing arguments\<close>

lemma args_loop_outside: "length (argv st) \<le> k \<Longrightarrow> args_loop env k st = Inl (Ub Out_Of_Bounds)"
  by (subst args_loop.simps) (simp add: arg_at_def)

lemma args_loop_files:
  assumes "rep (lists st) (filelist st) bs xs" and "drop (Suc k) (argv st) = ps @ qs" and "\<forall>p\<in>set ps. \<not> is_switch p" and "k < length (argv st)"
  shows "\<exists>st1. args_loop env k st = args_loop env (k + length ps) st1 \<and> argv st1 = argv st"
  using assms
proof (induction ps arbitrary: k st bs xs)
  case (Cons p ps)
  have k: "Suc k < length (argv st)" "argv st ! Suc k = p" "drop (Suc (Suc k)) (argv st) = ps @ qs"
    using drop_is_Cons [of "Suc k" "argv st" p "ps @ qs"] Cons.prems(2) by auto
  obtain l h bs1 where add: "add_ptr_list_notag (filelist st) (arg_ptr env (Suc k)) (lists st) = Inr (l, h)"
    "rep h l bs1 (xs @ [arg_ptr env (Suc k)])"
    using add_notag_rep [OF Cons.prems(1)] by blast
  define st0 where "st0 = st\<lparr>filelist := l, lists := h\<rparr>"
  have here: "arg_at (argv st) (Suc k) = Inr (Some p)" using k by (simp add: arg_at_def)
  have "args_loop env k st = args_loop env (Suc k) st0"
    using here add(1) Cons.prems(3) by (subst args_loop.simps) (auto simp: is_switch_def st0_def)
  then show ?case using Cons.IH [of st0 bs1 "xs @ [arg_ptr env (Suc k)]" "Suc k"] add(2) k Cons.prems(3) by (auto simp: st0_def)
qed auto

lemma last_option:
  assumes "takes_next s" and "Suc k < length (argv st)" and "length (argv st) = Suc (Suc k)" and "argv st ! Suc k = CHR ''-'' # s"
  shows "args_loop env k st = (if checks_next s then Inl (Die (''missing argument for -'' @ s @ '' option'')) else Inl (Ub Out_Of_Bounds))"
proof -
  have here: "arg_at (argv st) (Suc k) = Inr (Some (CHR ''-'' # s))" "arg_at (argv st) (Suc (Suc k)) = Inr None"
    using assms(2-4) by (simp_all add: arg_at_def)
  have sw: "chr s 0 \<noteq> c_nul" using assms(1) unfolding takes_next_def checks_next_def is_include_def by (elim disjE) simp_all
  have loop: "args_loop env k st = lbind (handle_switch env s (Suc k) st) (\<lambda>(args1, st1). args_loop env args1 st1)"
    using here sw by (subst args_loop.simps) simp
  have out: "args_loop env (Suc (Suc k)) st = Inl (Ub Out_Of_Bounds)" using assms(3) by (intro args_loop_outside) simp
  show ?thesis
    using assms(1) unfolding takes_next_def checks_next_def is_include_def loop
    by (elim disjE)
      (simp_all add: handle_switch_def handle_switch_I_def handle_switch_i_def handle_dirafter_def handle_switch_M_def handle_switch_o_def
        handle_switch_G_def here out die_def add_cmdline_include_def Let_def)
qed

section \<open>Properties\<close>

text \<open>
  C9: for arguments in which no option misses its argument, with at most twenty files to include and few enough options for
  the buffer, \<open>sparse_initialize\<close> returns; the loop over its list of files visits the arguments that are neither options
  nor arguments of options, in their order, and what is read before all files are the lines of the options, the
  lines of the library and the files to include, in their order.
\<close>

theorem initialize_reads_arguments:
  assumes "well_formed_args as" and "fresh_heap h" and "st = lib_start (prog # as) gcc h"
    and "length (texts (switches_of as)) + 2375 + version_digits st < PRE_BUFFER"
  shows "\<exists>st1. lib_sparse_initialize env st = Inr (st1, tokens (texts (switches_of as)) st1) \<and>
               walked (\<lambda>w. w) (filelist st1) (lists st1) = Some (Inr (map (arg_ptr env) (files_of 1 as)))"
proof -
  obtain st1 bs where st1: "lib_sparse_initialize env st = Inr (st1, tokens (texts (switches_of as)) st1)"
    "rep (lists st1) (filelist st1) bs (map (arg_ptr env) (files_of 1 as))"
    using initialize_result [OF assms] by blast
  then show ?thesis using walked_rep [OF st1(2), of "\<lambda>w. w"] by auto
qed

definition some_args :: "string list" where
  "some_args = [''a.c'', ''-DX=1'', ''-Wno-decl'', ''-o'', ''out'', ''-Wall'', ''-Wundef'', ''b.c'']"

definition some_env :: lib_env where
  "some_env = \<lparr>open_fd = (\<lambda>f. - 1), arg_ptr = (\<lambda>i. 16 * of_nat i)\<rparr>"

definition some_start :: lib where
  "some_start = lib_start (''sparse'' # some_args) (4, 2, 1) no_blocks"

lemma some_args_ok:
  "well_formed_args some_args" "length (texts (switches_of some_args)) + 2375 + version_digits some_start < PRE_BUFFER"
  "files_of 1 some_args = [1, 8]" "texts (switches_of some_args) = ''#define X 1'' @ [c_lf]"
  by code_simp+

lemma initialize_reads_arguments_witness:
  "\<exists>st1. lib_sparse_initialize some_env some_start = Inr (st1, tokens (''#define X 1'' @ [c_lf]) st1) \<and>
         walked (\<lambda>w. w) (filelist st1) (lists st1) = Some (Inr [16, 128])"
  using initialize_reads_arguments [OF some_args_ok(1) fresh_no_blocks some_start_def some_args_ok(2), of some_env] some_args_ok(3,4)
  by (simp add: some_env_def)

text \<open>
  C13: the value of a warning of the table after \<open>sparse_initialize\<close> is decided by the last option \<open>-W<name>\<close>, which switches it
  on, or \<open>-Wno-<name>\<close> or \<open>-Wno<name>\<close>, which switch it off, wherever \<open>-Wall\<close> is; without such an option \<open>-Wall\<close> switches it on,
  and else it keeps its default. The one exception among the options of the manual is \<open>-Wnon-pointer-null\<close>: it is as
  if it were not there.
\<close>

theorem warnings_decided:
  assumes "well_formed_args as" and "fresh_heap h" and "st = lib_start (prog # as) gcc h"
    and "length (texts (switches_of as)) + 2375 + version_digits st < PRE_BUFFER" and "map_of default_warnings w = Some v"
  shows "\<exists>st1 srcs. lib_sparse_initialize env st = Inr (st1, srcs) \<and>
           map_of (warnings st1) w = Some (decided 1 0 (heeded (warning_switches (switches_of as))) w v)"
proof -
  obtain st1 where st1: "lib_sparse_initialize env st = Inr (st1, tokens (texts (switches_of as)) st1)"
    "warnings st1 = handle_onoff_switch_finalize (after_warnings (switches_of as) default_warnings)"
    using initialize_result [OF assms(1-4)] by blast
  from final_warnings [OF assms(5)] show ?thesis using st1 by (simp add: WARNING_ON_def WARNING_OFF_def)
qed

definition warn_args :: "string list" where
  "warn_args = [''a.c'', ''-Wno-decl'', ''-Wall'', ''-Wnoundef'', ''-Wno-shadow'', ''-Wshadow'',
     ''-Wno-non-pointer-null'', ''-Wnon-pointer-null'']"

definition warn_start :: lib where
  "warn_start = lib_start (''sparse'' # warn_args) (4, 2, 1) no_blocks"

lemma warn_args_ok:
  "well_formed_args warn_args" "length (texts (switches_of warn_args)) + 2375 + version_digits warn_start < PRE_BUFFER"
  "map_of default_warnings ''decl'' = Some 1" "map_of default_warnings ''undef'' = Some 0"
  "map_of default_warnings ''shadow'' = Some 0" "map_of default_warnings ''non-pointer-null'' = Some 1"
  "map_of default_warnings ''typesign'' = Some 0"
  by code_simp+

lemma warn_args_decided:
  "decided 1 0 (heeded (warning_switches (switches_of warn_args))) ''decl'' (1 :: int) = 0"
  "decided 1 0 (heeded (warning_switches (switches_of warn_args))) ''undef'' (0 :: int) = 0"
  "decided 1 0 (heeded (warning_switches (switches_of warn_args))) ''shadow'' (0 :: int) = 1"
  "decided 1 0 (heeded (warning_switches (switches_of warn_args))) ''non-pointer-null'' (1 :: int) = 0"
  "decided 1 0 (heeded (warning_switches (switches_of warn_args))) ''typesign'' (0 :: int) = 1"
  by code_simp+

lemma warnings_decided_witness:
  "\<exists>st1 srcs. lib_sparse_initialize some_env warn_start = Inr (st1, srcs) \<and>
     map_of (warnings st1) ''decl'' = Some 0 \<and> map_of (warnings st1) ''undef'' = Some 0 \<and>
     map_of (warnings st1) ''shadow'' = Some 1 \<and> map_of (warnings st1) ''non-pointer-null'' = Some 0 \<and>
     map_of (warnings st1) ''typesign'' = Some 1"
proof -
  note w = warnings_decided [OF warn_args_ok(1) fresh_no_blocks warn_start_def warn_args_ok(2), where env = some_env]
  note ws = w [OF warn_args_ok(3), unfolded warn_args_decided] w [OF warn_args_ok(4), unfolded warn_args_decided]
    w [OF warn_args_ok(5), unfolded warn_args_decided] w [OF warn_args_ok(6), unfolded warn_args_decided]
    w [OF warn_args_ok(7), unfolded warn_args_decided]
  obtain st1 srcs where st1: "lib_sparse_initialize some_env warn_start = Inr (st1, srcs)" using ws(1) by blast
  show ?thesis using ws unfolding st1 by simp
qed

text \<open>
  C37: when the last argument is an option whose argument is missing, \<open>-I\<close>, \<open>-isystem\<close> and \<open>-dirafter\<close> end the process with a
  message; \<open>-o\<close>, \<open>-G\<close>, \<open>-MF\<close>, \<open>-MQ\<close>, \<open>-MT\<close>, \<open>-include\<close> and \<open>-imacros\<close>, whose handlers look at the option itself instead of
  at what follows, step over the NULL pointer at the end, and \<open>sparse_initialize\<close> reads behind \<open>argv\<close>.
\<close>

theorem missing_last_argument:
  assumes "fresh_heap h" and "\<forall>p\<in>set ps. \<not> is_switch p" and "takes_next s"
  shows "lib_sparse_initialize env (lib_start (prog # ps @ [CHR ''-'' # s]) gcc h) =
         (if checks_next s then Inl (Die (''missing argument for -'' @ s @ '' option'')) else Inl (Ub Out_Of_Bounds))"
proof -
  define st where "st = lib_start (prog # ps @ [CHR ''-'' # s]) gcc h"
  have st: "argv st = prog # ps @ [CHR ''-'' # s]" "rep (lists st) (filelist st) [] []"
    using assms(1) by (simp_all add: st_def lib_start_def fresh_heap_def)
  obtain st1 where st1: "args_loop env 0 st = args_loop env (length ps) st1" "argv st1 = argv st"
    using args_loop_files [OF st(2), of 0 ps "[CHR ''-'' # s]" env] assms(2) st(1) by auto
  have "args_loop env (length ps) st1 = (if checks_next s then Inl (Die (''missing argument for -'' @ s @ '' option'')) else Inl (Ub Out_Of_Bounds))"
    using st(1) st1(2) by (intro last_option [OF assms(3)]) (simp_all add: nth_append)
  then show ?thesis using st1(1) by (simp add: initialize_split st_def [symmetric])
qed

lemma missing_last_argument_witness:
  "lib_sparse_initialize some_env (lib_start [''sparse'', ''a.c'', ''-o''] (4, 2, 1) no_blocks) = Inl (Ub Out_Of_Bounds)"
  using missing_last_argument [OF fresh_no_blocks, of "[''a.c'']" "''o''" some_env "''sparse''" "(4, 2, 1)"]
  by (simp add: is_switch_def takes_next_def checks_next_def)

text \<open>
  C36: when the lines of the options have more than 8192 characters, \<open>sparse_initialize\<close> writes behind \<open>pre_buffer\<close>:
  \<open>vsnprintf\<close> returns what it would have written, and the room left, an unsigned number, wraps around.
\<close>

theorem many_options_overflow:
  assumes "well_formed_args as" and "fresh_heap h" and "length (texts (switches_of as)) > PRE_BUFFER"
  shows "lib_sparse_initialize env (lib_start (prog # as) gcc h) = Inl (Ub Out_Of_Bounds)"
  by (rule initialize_overflow [OF assms])

definition long_option :: string where
  "long_option = ''-D'' @ replicate 8200 (CHR ''x'')"

lemma long_option_text: "well_formed_args [long_option]" "length (texts (switches_of [long_option])) = 8211"
proof -
  have n: "ends_name (CHR ''x'') = False" by code_simp
  have sw: "is_switch long_option" "takes_next (tl long_option) = False"
    using takes_next_first [of "CHR ''D''" "replicate 8200 (CHR ''x'')"] by (auto simp: is_switch_def long_option_def)
  then show "well_formed_args [long_option]"
    by (auto simp: well_formed_args_def is_include_def long_option_def)
  have "dropWhile (\<lambda>c. \<not> ends_name c) (replicate 8200 (CHR ''x'')) = []" "takeWhile (\<lambda>c. \<not> ends_name c) (replicate 8200 (CHR ''x'')) = replicate 8200 (CHR ''x'')"
    using n by (simp_all add: dropWhile_eq_Nil_conv takeWhile_eq_all_conv)
  then show "length (texts (switches_of [long_option])) = 8211"
    using sw by (simp add: texts_def option_text_def long_option_def Let_def)
qed

lemma many_options_overflow_witness:
  "lib_sparse_initialize some_env (lib_start [''sparse'', long_option] (4, 2, 1) no_blocks) = Inl (Ub Out_Of_Bounds)"
  using many_options_overflow [OF long_option_text(1) fresh_no_blocks, of some_env "''sparse''" "(4, 2, 1)"] long_option_text(2)
  by (simp add: PRE_BUFFER_def)

end
