(* ===== verification/Analyzer_Unverified.thy ===== *)
theory Analyzer_Unverified
  imports Analyzer_Props
begin

text \<open>
  The first pass of the front end from end to end, for functions whose statements hold calls directly: what it
  prints is given by the list of the statements in the order of the visit. Both passes together, and what
  the module of the driver reads from their text.
\<close>

section \<open>The reference\<close>

text \<open>The name of the function that is called, if the expression is a call.\<close>

definition callee :: "expr \<Rightarrow> string option" where
  "callee e =
     (case e_body e of
        EXPR_CALL f args \<Rightarrow> (case f of None \<Rightarrow> None | Some fe \<Rightarrow> (case e_name fe of Ptr g \<Rightarrow> Some g | _ \<Rightarrow> None))
      | _ \<Rightarrow> None)"

text \<open>A call is checked if its result decides or is returned; conditions of loops are not among these.\<close>

definition expr_lines :: "string list \<Rightarrow> string \<Rightarrow> stmt \<Rightarrow> expr \<Rightarrow> string list" where
  "expr_lines ls F s e =
     (case callee e of
        None \<Rightarrow> []
      | Some f \<Rightarrow> if f \<in> set ls \<and> \<not> is_decision s \<and> \<not> is_case s then [error_line F f (e_line e) @ [c_lf]] else [])"

definition stmt_calls :: "string list \<Rightarrow> string \<Rightarrow> stmt \<Rightarrow> string list" where
  "stmt_calls ls F s = concat (map (expr_lines ls F s) (parts s))"

definition body_calls :: "string list \<Rightarrow> string \<Rightarrow> stmt list \<Rightarrow> string list" where
  "body_calls ls F ss = concat (map (stmt_calls ls F) ss)"

definition part_ids :: "stmt list \<Rightarrow> nat list" where
  "part_ids ss = map e_id (concat (map parts ss))"

text \<open>
  Expressions that are looked at: values, names and calls by name of which no argument is a variable, and which do
  not initialise a variable.
\<close>

definition direct :: "stmt \<Rightarrow> expr \<Rightarrow> bool" where
  "direct s e =
     (case e_body e of
        EXPR_CALL f args \<Rightarrow>
          e_name e = Uninit \<and> \<not> is_declaration s \<and> callee e \<noteq> None \<and> (\<forall>a\<in>set args. get_out_symbol (Some a) = None)
      | EXPR_VALUE \<Rightarrow> True | EXPR_FVALUE \<Rightarrow> True | EXPR_STRING \<Rightarrow> True | EXPR_POSTOP \<Rightarrow> True | EXPR_SYMBOL x \<Rightarrow> True
      | _ \<Rightarrow> False)"

definition has_value :: "stmt \<Rightarrow> bool" where
  "has_value s =
     (case s_body s of STMT_IF c t f \<Rightarrow> c \<noteq> None | STMT_SWITCH e b \<Rightarrow> e \<noteq> None | STMT_RETURN e \<Rightarrow> e \<noteq> None | _ \<Rightarrow> True)"

definition stmt_direct :: "string list \<Rightarrow> string \<Rightarrow> stmt \<Rightarrow> bool" where
  "stmt_direct ls F s \<longleftrightarrow>
     has_value s \<and> (\<forall>e\<in>set (parts s). direct s e) \<and> (\<forall>t\<in>set (stmt_calls ls F s). length t \<le> 256)"

lemma append_calls [simp]:
  "body_calls ls F [] = []" "body_calls ls F (s # ss) = stmt_calls ls F s @ body_calls ls F ss"
  "body_calls ls F (ss @ ts) = body_calls ls F ss @ body_calls ls F ts"
  "part_ids [] = []" "part_ids (s # ss) = map e_id (parts s) @ part_ids ss" "part_ids (ss @ ts) = part_ids ss @ part_ids ts"
  by (simp_all add: body_calls_def part_ids_def)

section \<open>Steps that print\<close>

text \<open>
  A step that examines the expressions \<open>js\<close> and prints \<open>t\<close>: what later steps rely on is kept, and other expressions
  stay fresh.
\<close>

definition examined :: "nat list \<Rightarrow> string \<Rightarrow> fe_state \<Rightarrow> fe_state \<Rightarrow> bool" where
  "examined js t st st' \<longleftrightarrow>
     fe_out st' = fe_out st @ t \<and> CurrentFile st' = CurrentFile st \<and> fe_black st' = fe_black st \<and>
     FileFunctionList st' = FileFunctionList st \<and> MaxIndentLevel st' = MaxIndentLevel st \<and>
     MaxLineCount st' = MaxLineCount st \<and> (\<forall>j. j \<notin> set js \<longrightarrow> fresh_expr j st \<longrightarrow> fresh_expr j st')"

definition all_fresh :: "nat list \<Rightarrow> fe_state \<Rightarrow> bool" where
  "all_fresh js st \<longleftrightarrow> distinct js \<and> (\<forall>j\<in>set js. fresh_expr j st)"

definition listing :: "string list \<Rightarrow> fe_state \<Rightarrow> bool" where
  "listing ls st \<longleftrightarrow> BlackList (fe_black st) = Some (map Some ls) \<and> BlackListCount (fe_black st) = length ls"

text \<open>A computation that ends, with its result made from the state by \<open>g\<close>.\<close>

definition prints :: "string list \<Rightarrow> string \<Rightarrow> nat list \<Rightarrow> string \<Rightarrow> (fe_state \<Rightarrow> 'a run) \<Rightarrow> (fe_state \<Rightarrow> 'a) \<Rightarrow> bool" where
  "prints ls F js t m g \<longleftrightarrow>
     (\<forall>st. listing ls st \<longrightarrow> CurrentFile st = Some F \<longrightarrow> all_fresh js st \<longrightarrow> (\<exists>st'. m st = ok (g st') \<and> examined js t st st'))"

lemma examined_trans: "examined js t st st1 \<Longrightarrow> examined ks u st1 st2 \<Longrightarrow> examined (js @ ks) (t @ u) st st2"
  by (auto simp: examined_def)

lemma examined_fresh:
  assumes "examined js t st st'" and "all_fresh (js @ ks) st"
  shows "all_fresh ks st'"
  using assms by (auto simp: examined_def all_fresh_def)

lemma printsE:
  assumes "prints ls F js t m g" and "listing ls st" and "CurrentFile st = Some F" and "all_fresh js st"
  obtains st' where "m st = ok (g st')" and "examined js t st st'"
  using assms unfolding prints_def by blast

lemma prints_then:
  assumes "prints ls F js t m g" and "prints ls F ks u (\<lambda>st. k (g st)) h"
  shows "prints ls F (js @ ks) (t @ u) (\<lambda>st. obind (m st) k) h"
  unfolding prints_def
proof (intro allI impI)
  fix st assume st: "listing ls st" "CurrentFile st = Some F" "all_fresh (js @ ks) st"
  have "all_fresh js st" using st(3) by (simp add: all_fresh_def)
  then obtain st1 where 1: "m st = ok (g st1)" "examined js t st st1" using printsE [OF assms(1) st(1,2)] by blast
  then have "listing ls st1" "CurrentFile st1 = Some F" using st by (auto simp: examined_def listing_def)
  then obtain st2 where "k (g st1) = ok (h st2)" "examined ks u st1 st2"
    using printsE [OF assms(2)] examined_fresh [OF 1(2) st(3)] by blast
  then show "\<exists>st'. obind (m st) k = ok (h st') \<and> examined (js @ ks) (t @ u) st st'"
    using 1 examined_trans [OF 1(2)] by auto
qed

lemma prints_update: "(\<And>st. examined [] t st (f st)) \<Longrightarrow> prints ls F [] t (\<lambda>st. ok (g (f st))) g"
  unfolding prints_def by blast

lemma prints_done: "prints ls F [] [] (\<lambda>st. ok (g st)) g"
  by (rule prints_update [where f = "\<lambda>st. st"]) (simp add: examined_def)

lemma prints_map:
  assumes "prints ls F js t m g" and "\<And>st. k (g st) = ok (h st)"
  shows "prints ls F js t (\<lambda>st. obind (m st) k) h"
  using prints_then [OF assms(1), of "[]" "[]" k h] prints_done [of ls F h] assms(2) by simp

lemma prints_after:
  assumes "prints ls F js t m g" and "\<And>st. examined [] [] st (f st)"
  shows "prints ls F js t (\<lambda>st. m (f st)) g"
  using prints_then [OF prints_update [OF assms(2), where g = "\<lambda>s. s"] assms(1)] by simp

lemma prints_eq: "prints ls F js t m g \<Longrightarrow> (\<And>st. m st = m' st) \<Longrightarrow> prints ls F js t m' g"
  by (simp add: prints_def)

lemma prt_examined:
  "examined [] [] st (set_prt s p st)" "examined [] [] st (set_prt_if c p st)"
  by (auto simp: examined_def set_prt_def set_prt_if_def fresh_expr_def split: option.splits)

section \<open>Expressions and statements\<close>

lemma marked_examined:
  "examined [e_id e] [] st (mark_visited (e_id e) (set_e_stmt e s st))"
  using mark_visited_other(1) [of "e_id e" _ "set_e_stmt e s st"]
  by (auto simp: examined_def mark_visited_keeps set_e_stmt_def fresh_expr_def mark_visited_limits)

lemma direct_callE:
  assumes "direct s e" and "callee e = Some f"
  obtains fe args where "e = call_of (e_id e) (e_line e) fe args" and "e_name fe = Ptr f"
    and "\<forall>a\<in>set args. get_out_symbol (Some a) = None" and "\<not> is_declaration s"
  using assms by (cases e) (auto simp: direct_def callee_def call_of_def split: expr_body.splits option.splits slot.splits)

lemma examine_atom:
  assumes "direct s e" and "callee e = None" and "\<not> visited1 st (e_id e)"
  shows "\<exists>r. examine_expression e st = ok (r, mark_visited (e_id e) st)"
  using assms by (cases e) (auto simp: direct_def examine_expression.simps split: expr_body.splits)

lemma examine_listed:
  assumes "direct s e" and "callee e = Some f" and "listing ls st" and "CurrentFile st = Some F" and "fresh_expr (e_id e) st"
    and "\<forall>t\<in>set (expr_lines ls F s e). length t \<le> 256"
  shows "\<exists>v. examine_expression e (set_e_stmt e s st) = ok (Some R_CALL,
           put_out (concat (expr_lines ls F s e)) ((mark_visited (e_id e) (set_e_stmt e s st))\<lparr>AnalyzedFunction := v\<rparr>))"
proof -
  obtain fe args where e: "e = call_of (e_id e) (e_line e) fe args" "e_name fe = Ptr f"
    "\<forall>a\<in>set args. get_out_symbol (Some a) = None" "\<not> is_declaration s"
    using direct_callE [OF assms(1,2)] by blast
  define st1 where "st1 = mark_visited (e_id e) (set_e_stmt e s st)"
  have keeps: "fe_black st1 = fe_black st" "CurrentFile st1 = Some F" "e_prt_expr st1 (e_id e) = None" "e_prt_stmt st1 (e_id e) = Some s"
    using assms(4,5) by (simp_all add: st1_def mark_visited_keeps set_e_stmt_def fresh_expr_def)
  have black: "is_black_listed (Some f) (fe_black st1) = Inr (f \<in> set ls)"
    using assms(3) by (simp add: listing_def keeps(1) is_black_listed_names)
  have lines: "expr_lines ls F s e = (if f \<in> set ls \<and> \<not> is_decision s \<and> \<not> is_case s then [error_line F f (e_line e) @ [c_lf]] else [])"
    by (simp add: expr_lines_def assms(2))
  have "\<exists>v. examine_call e st1 = ok (put_out (concat (expr_lines ls F s e)) (st1\<lparr>AnalyzedFunction := v\<rparr>))"
  proof (cases "f \<in> set ls")
    case True
    have "length (error_line F f (e_line e)) < 256" if "\<not> is_decision s" "\<not> is_case s"
      using assms(6) lines that True by simp
    then have "emit_error (Some F) (Some f) (e_line e) ''Unverified return value for function'' (st1\<lparr>AnalyzedFunction := Some f\<rparr>) =
        Inr (put_out (error_line F f (e_line e) @ [c_lf]) (st1\<lparr>AnalyzedFunction := Some f\<rparr>))" if "\<not> is_decision s" "\<not> is_case s"
      using that by (simp add: emit_error_def Let_def error_line_def store_def)
    then have "examine_call (call_of (e_id e) (e_line e) fe args) st1 =
        ok (put_out (concat (expr_lines ls F s e)) (st1\<lparr>AnalyzedFunction := Some f\<rparr>))"
      using examine_call_direct [OF e(2) _ keeps(3,4) e(4), of "e_line e" args] black True out_args_none [OF e(3)] keeps(2) lines
      by (auto simp: put_out_def)
    then show ?thesis using e(1) by auto
  next
    case False
    have "get_caller (call_of (e_id e) (e_line e) fe args) = Inr (Some f)" using e(2) by (simp add: get_caller_def)
    then have "examine_call (call_of (e_id e) (e_line e) fe args) st1 = ok (st1\<lparr>AnalyzedFunction := None\<rparr>)"
      using black False by (simp add: examine_call_def)
    then show ?thesis using e(1) lines False by (auto simp: put_out_def)
  qed
  then show ?thesis
    using examine_direct_call [OF assms(5), of "e_line e" fe args s] e(1) by (auto simp: st1_def set_e_stmt_def)
qed

lemma examine_part:
  assumes "direct s e" and "\<forall>t\<in>set (expr_lines ls F s e). length t \<le> 256"
  shows "prints ls F [e_id e] (concat (expr_lines ls F s e)) (\<lambda>st. examine_opt examine_expression (Some e) (set_e_stmt e s st)) (\<lambda>st. st)"
  unfolding prints_def
proof (intro allI impI)
  fix st assume st: "listing ls st" "CurrentFile st = Some F" "all_fresh [e_id e] st"
  then have fresh: "fresh_expr (e_id e) st" by (simp add: all_fresh_def)
  let ?st1 = "mark_visited (e_id e) (set_e_stmt e s st)"
  show "\<exists>st'. examine_opt examine_expression (Some e) (set_e_stmt e s st) = ok st' \<and> examined [e_id e] (concat (expr_lines ls F s e)) st st'"
  proof (cases "callee e")
    case None
    then obtain r where "examine_expression e (set_e_stmt e s st) = ok (r, ?st1)"
      using examine_atom [OF assms(1), of "set_e_stmt e s st"] fresh by (auto simp: set_e_stmt_def fresh_expr_def)
    then show ?thesis using marked_examined [of e st s] None by (simp add: expr_lines_def)
  next
    case (Some f)
    obtain v where "examine_expression e (set_e_stmt e s st) = ok (Some R_CALL,
        put_out (concat (expr_lines ls F s e)) (?st1\<lparr>AnalyzedFunction := v\<rparr>))"
      using examine_listed [OF assms(1) Some st(1,2) fresh assms(2)] by blast
    then show ?thesis using marked_examined [of e st s] by (auto simp: examined_def put_out_def fresh_expr_def)
  qed
qed

text \<open>The expressions of a list, each with its line.\<close>

definition fits :: "string list \<Rightarrow> string \<Rightarrow> stmt \<Rightarrow> expr list \<Rightarrow> bool" where
  "fits ls F s es \<longleftrightarrow> (\<forall>e\<in>set es. direct s e \<and> (\<forall>t\<in>set (expr_lines ls F s e). length t \<le> 256))"

lemma fits_append [simp]: "fits ls F s (es @ fs) \<longleftrightarrow> fits ls F s es \<and> fits ls F s fs"
  by (auto simp: fits_def)

abbreviation printed_lines :: "string list \<Rightarrow> string \<Rightarrow> stmt \<Rightarrow> expr list \<Rightarrow> string" where
  "printed_lines ls F s es \<equiv> concat (concat (map (expr_lines ls F s) es))"

lemma examine_opt_part:
  assumes "fits ls F s (the_list x)"
  shows "prints ls F (map e_id (the_list x)) (printed_lines ls F s (the_list x))
           (\<lambda>st. examine_opt examine_expression x (set_e_stmt_if x s st)) (\<lambda>st. st)"
proof (cases x)
  case None
  then show ?thesis using prints_done [of ls F "\<lambda>st. st"] by (simp add: the_list_def set_e_stmt_if_def)
next
  case (Some e)
  then show ?thesis using assms examine_part [of s e ls F] by (simp add: the_list_def set_e_stmt_if_def fits_def)
qed

lemma examine_opt_value:
  assumes "fits ls F s (the_list x)" and "x \<noteq> None"
  shows "prints ls F (map e_id (the_list x)) (printed_lines ls F s (the_list x))
           (\<lambda>st. obind (Some (set_e_stmt_deref x s st)) (examine_opt examine_expression x)) (\<lambda>st. st)"
  by (rule prints_eq [OF examine_opt_part [OF assms(1)]]) (use assms(2) in \<open>auto simp: set_e_stmt_deref_def set_e_stmt_if_def\<close>)

lemma examine_initializers:
  assumes "fits ls F s (concat (map (\<lambda>d. the_list (initializer d)) ds))"
  shows "prints ls F (map e_id (concat (map (\<lambda>d. the_list (initializer d)) ds)))
           (printed_lines ls F s (concat (map (\<lambda>d. the_list (initializer d)) ds))) (examine_symbols examine_expression s ds) (\<lambda>st. st)"
  using assms
proof (induction ds)
  case Nil
  then show ?case using prints_done [of ls F "\<lambda>st. st"] by simp
next
  case (Cons d ds)
  obtain n ini where d: "d = Symbol n ini" by (cases d)
  have "prints ls F (map e_id (the_list ini)) (printed_lines ls F s (the_list ini))
      (\<lambda>st. examine_opt examine_expression ini (set_e_stmt_if ini s st)) (\<lambda>st. st)"
    by (rule examine_opt_part) (use Cons.prems d in simp)
  moreover have "fits ls F s (concat (map (\<lambda>d. the_list (initializer d)) ds))" using Cons.prems by simp
  ultimately show ?case using prints_then Cons.IH d by fastforce
qed

lemma stmt_fits: "stmt_direct ls F s \<Longrightarrow> fits ls F s (parts s)"
  by (auto simp: stmt_direct_def fits_def stmt_calls_def)

lemma examine_parts_prints:
  assumes "stmt_direct ls F s" and "tidy (Some s)"
  shows "prints ls F (map e_id (parts s)) (concat (stmt_calls ls F s)) (examine_parts examine_expression s) (\<lambda>st. st)"
proof -
  note fit = stmt_fits [OF assms(1)]
  obtain i l b where s: "s = Stmt i l b" by (cases s)
  have two: "prints ls F (map e_id (the_list x) @ map e_id (the_list y)) (printed_lines ls F s (the_list x) @ printed_lines ls F s (the_list y))
      (\<lambda>st. obind (examine_opt examine_expression x (set_e_stmt_if x s st)) (\<lambda>st1. examine_opt examine_expression y (set_e_stmt_if y s st1))) (\<lambda>st. st)"
    if "parts s = the_list x @ the_list y" for x y
    by (rule prints_then [OF examine_opt_part examine_opt_part]) (use fit that in simp_all)
  show ?thesis
  proof (cases b)
    case (STMT_DECLARATION ds)
    then show ?thesis using examine_initializers [of ls F s ds] fit s
      by (simp add: parts_def examine_parts_def [abs_def] stmt_calls_def)
  next
    case (STMT_CASE e to u)
    then show ?thesis using two [of e to] s by (simp add: parts_def examine_parts_def [abs_def] stmt_calls_def)
  next
    case (STMT_ITERATOR pc qc p u q)
    then show ?thesis using two [of pc qc] s by (simp add: parts_def examine_parts_def [abs_def] stmt_calls_def)
  next
    case (STMT_EXPRESSION e)
    then show ?thesis using examine_opt_part [of ls F s e] fit s by (simp add: parts_def examine_parts_def [abs_def] stmt_calls_def)
  next
    case (STMT_GOTO e)
    then show ?thesis using examine_opt_part [of ls F s e] fit s by (simp add: parts_def examine_parts_def [abs_def] stmt_calls_def)
  next
    case (STMT_IF c t f)
    then show ?thesis using examine_opt_value [of ls F s c] fit s assms(1)
      by (simp add: parts_def examine_parts_def [abs_def] stmt_calls_def stmt_direct_def has_value_def)
  next
    case (STMT_SWITCH e u)
    then show ?thesis using examine_opt_value [of ls F s e] fit s assms(1)
      by (simp add: parts_def examine_parts_def [abs_def] stmt_calls_def stmt_direct_def has_value_def)
  next
    case (STMT_RETURN e)
    then show ?thesis using examine_opt_value [of ls F s e] fit s assms(1)
      by (simp add: parts_def examine_parts_def [abs_def] stmt_calls_def stmt_direct_def has_value_def)
  qed (use assms(2) s prints_done [of ls F "\<lambda>st. st"] in \<open>simp_all add: parts_def examine_parts_def [abs_def] stmt_calls_def\<close>)
qed

lemma wrapper_prints:
  assumes "stmt_direct ls F s" and "tidy (Some s)"
  shows "prints ls F (map e_id (parts s)) (concat (stmt_calls ls F s)) (examine_stmt_expression s) (Pair True)"
  using prints_then [OF examine_parts_prints [OF assms] prints_done [of ls F "Pair True"]]
  by (simp add: examine_stmt_expression_def stmt_wrapper_def [abs_def])

section \<open>The visit of a function\<close>

lemma prints_deref:
  assumes "prints ls F js t (examine_statement w True s) g" and "s \<noteq> None"
  shows "prints ls F js t (\<lambda>st. obind (Some (set_prt_deref s p st)) (examine_statement w True s)) g"
  by (rule prints_eq [OF prints_after [OF assms(1), where f = "set_prt_if s p"]])
     (use assms(2) prt_examined in \<open>auto simp: set_prt_deref_def set_prt_if_def\<close>)

text \<open>A visit of two or three statements one after the other, all of which end with 1.\<close>

lemma prints_two:
  assumes "prints ls F js t m (Pair (1 :: int))" and "prints ls F ks u k (Pair (1 :: int))"
  shows "prints ls F (js @ ks) (t @ u) (\<lambda>st. obind (m st) (\<lambda>(v1, st1). obind (k st1) (\<lambda>(v2, st2).
           ok (if v1 = 0 \<or> v2 = 0 then 0 else 1, st2)))) (Pair 1)"
  by (rule prints_then [OF assms(1)], simp, rule prints_map [OF assms(2)]) simp

lemma prints_three:
  assumes "prints ls F js t m (Pair (1 :: int))" and "prints ls F ks u k (Pair (1 :: int))" and "prints ls F is v n (Pair (1 :: int))"
  shows "prints ls F (js @ ks @ is) (t @ u @ v) (\<lambda>st. obind (m st) (\<lambda>(v1, st1). obind (k st1) (\<lambda>(v2, st2).
           obind (n st2) (\<lambda>(v3, st3). ok (if v1 = 0 \<or> v2 = 0 \<or> v3 = 0 then 0 else 1, st3))))) (Pair 1)"
  by (rule prints_then [OF assms(1)], simp, rule prints_then [OF assms(2)], simp, rule prints_map [OF assms(3)]) simp

text \<open>What \<open>examine_statement\<close> does behind the call of its function, for tidy statements.\<close>

definition visit_rest :: "wrapper \<Rightarrow> stmt \<Rightarrow> fe_state \<Rightarrow> (int \<times> fe_state) run" where
  "visit_rest w s st =
     (case s_body s of
        STMT_CASE e to u \<Rightarrow> obind (Some (set_prt_deref u s st)) (examine_statement w True u)
      | STMT_COMPOUND us \<Rightarrow> examine_statements w True s us 1 st
      | STMT_IF c t f \<Rightarrow>
          obind (examine_statement w True t (set_prt_if f s (set_prt_if t s st))) (\<lambda>(v1, st2).
          obind (examine_statement w True f st2) (\<lambda>(v2, st3). ok (if v1 = 0 \<or> v2 = 0 then 0 else 1, st3)))
      | STMT_ITERATOR pc qc p u q \<Rightarrow>
          obind (examine_statement w True p (set_prt_if u s (set_prt_if q s (set_prt_if p s st)))) (\<lambda>(v1, st2).
          obind (examine_statement w True u st2) (\<lambda>(v2, st3).
          obind (examine_statement w True q st3) (\<lambda>(v3, st4). ok (if v1 = 0 \<or> v2 = 0 \<or> v3 = 0 then 0 else 1, st4))))
      | STMT_LABEL u \<Rightarrow> obind (Some (set_prt_deref u s st)) (examine_statement w True u)
      | STMT_SWITCH e u \<Rightarrow> obind (Some (set_prt_deref u s st)) (examine_statement w True u)
      | _ \<Rightarrow> ok (1, st))"

lemma examine_statement_rest:
  assumes "tidy (Some s)"
  shows "examine_statement w True (Some s) st = obind (w s st) (\<lambda>(c, st1). if \<not> c then ok (0, st1) else visit_rest w s st1)"
proof (cases s)
  case (Stmt i l b)
  then show ?thesis using assms by (cases b) (simp_all add: visit_rest_def Let_def cong: if_cong)
qed

lemma visit_prints:
  "tidy s \<Longrightarrow> \<forall>u\<in>set (stmts_opt s). stmt_direct ls F u \<Longrightarrow>
   prints ls F (part_ids (stmts_opt s)) (concat (body_calls ls F (stmts_opt s))) (examine_statement examine_stmt_expression True s) (Pair 1)"
  "tidy_list ss \<Longrightarrow> \<forall>u\<in>set (stmts_list ss). stmt_direct ls F u \<Longrightarrow>
   prints ls F (part_ids (stmts_list ss)) (concat (body_calls ls F (stmts_list ss))) (examine_statements examine_stmt_expression True p ss 1) (Pair 1)"
proof (induction s and ss arbitrary: and p rule: tidy_tidy_list.induct)
  case 1
  show ?case using prints_done [of ls F "Pair 1"] by simp
next
  case (2 i l b)
  define s where "s = Stmt i l b"
  have w: "prints ls F (map e_id (parts s)) (concat (stmt_calls ls F s)) (examine_stmt_expression s) (Pair True)"
    by (rule wrapper_prints) (use "2.prems" in \<open>simp_all add: s_def\<close>)
  have "prints ls F (part_ids (tl (stmts_opt (Some s)))) (concat (body_calls ls F (tl (stmts_opt (Some s))))) (visit_rest examine_stmt_expression s) (Pair 1)"
  proof (cases b)
    case (STMT_CASE e to u)
    then show ?thesis using prints_deref "2.IH" "2.prems" by (simp add: visit_rest_def [abs_def] s_def)
  next
    case (STMT_LABEL u)
    then show ?thesis using prints_deref "2.IH" "2.prems" by (simp add: visit_rest_def [abs_def] s_def)
  next
    case (STMT_SWITCH e u)
    then show ?thesis using prints_deref "2.IH" "2.prems" by (simp add: visit_rest_def [abs_def] s_def)
  next
    case (STMT_COMPOUND us)
    then show ?thesis using "2.IH" "2.prems" by (simp add: visit_rest_def [abs_def] s_def)
  next
    case (STMT_IF c t f)
    have "prints ls F (part_ids (stmts_opt t)) (concat (body_calls ls F (stmts_opt t)))
        (\<lambda>st. examine_statement examine_stmt_expression True t (set_prt_if f s (set_prt_if t s st))) (Pair 1)"
      by (rule prints_after [OF prints_after]) (use prt_examined STMT_IF "2.IH" "2.prems" in auto)
    from prints_two [OF this, of "part_ids (stmts_opt f)" "concat (body_calls ls F (stmts_opt f))" "examine_statement examine_stmt_expression True f"]
    show ?thesis using STMT_IF "2.IH" "2.prems" by (simp add: visit_rest_def [abs_def] s_def)
  next
    case (STMT_ITERATOR pc qc p u q)
    have "prints ls F (part_ids (stmts_opt p)) (concat (body_calls ls F (stmts_opt p)))
        (\<lambda>st. examine_statement examine_stmt_expression True p (set_prt_if u s (set_prt_if q s (set_prt_if p s st)))) (Pair 1)"
      by (rule prints_after [OF prints_after [OF prints_after]]) (use prt_examined STMT_ITERATOR "2.IH" "2.prems" in auto)
    from prints_three [OF this, of "part_ids (stmts_opt u)" "concat (body_calls ls F (stmts_opt u))" "examine_statement examine_stmt_expression True u"
        "part_ids (stmts_opt q)" "concat (body_calls ls F (stmts_opt q))" "examine_statement examine_stmt_expression True q"]
    show ?thesis using STMT_ITERATOR "2.IH" "2.prems" by (simp add: visit_rest_def [abs_def] s_def)
  qed (use "2.prems" prints_done [of ls F "Pair 1"] in \<open>simp_all add: visit_rest_def [abs_def] s_def\<close>)
  from prints_then [OF w, where k = "\<lambda>(c, st1). if \<not> c then ok (0, st1) else visit_rest examine_stmt_expression s st1"] this
  have "prints ls F (part_ids (stmts_opt (Some s))) (concat (body_calls ls F (stmts_opt (Some s))))
      (\<lambda>st. obind (examine_stmt_expression s st) (\<lambda>(c, st1). if \<not> c then ok (0, st1) else visit_rest examine_stmt_expression s st1)) (Pair 1)"
    by (simp add: s_def)
  moreover have "examine_statement examine_stmt_expression True (Some s) st =
      obind (examine_stmt_expression s st) (\<lambda>(c, st1). if \<not> c then ok (0, st1) else visit_rest examine_stmt_expression s st1)" for st
    by (rule examine_statement_rest) (use "2.prems"(1) in \<open>simp add: s_def\<close>)
  ultimately show ?case by (simp add: s_def [symmetric])
next
  case 3
  show ?case using prints_done [of ls F "Pair 1"] by simp
next
  case (4 s ss)
  have "prints ls F (part_ids (stmts_opt (Some s))) (concat (body_calls ls F (stmts_opt (Some s))))
      (\<lambda>st. examine_statement examine_stmt_expression True (Some s) (set_prt s p st)) (Pair 1)"
    by (rule prints_after) (use prt_examined "4.IH" "4.prems" in auto)
  from prints_then [OF this, of "part_ids (stmts_list ss)" "concat (body_calls ls F (stmts_list ss))"
      "\<lambda>(tmp, st1). examine_statements examine_stmt_expression True p ss (if tmp = 0 then 0 else 1) st1" "Pair 1"]
  show ?case using "4.IH" "4.prems" by simp
qed

section \<open>Functions and files\<close>

abbreviation fn_stmts :: "fn_def \<Rightarrow> stmt list" where "fn_stmts g \<equiv> snd (snd (snd (snd g)))"

definition fn_direct :: "string list \<Rightarrow> string \<Rightarrow> fn_def \<Rightarrow> bool" where
  "fn_direct ls F g \<longleftrightarrow> fn_stmts g \<noteq> [] \<and> tidy_list (fn_stmts g) \<and> (\<forall>u\<in>set (stmts_list (fn_stmts g)). stmt_direct ls F u)"

text \<open>The lines of a function and of a file, and the expressions that are examined.\<close>

definition fn_calls :: "string list \<Rightarrow> string \<Rightarrow> fn_def \<Rightarrow> fn_lines_t" where
  "fn_calls ls F g = (fst g, body_calls ls F (stmts_list (fn_stmts g)))"

definition file_calls :: "string list \<Rightarrow> file_def \<Rightarrow> file_lines_t" where
  "file_calls ls f = (fst f, map (fn_calls ls (fst f)) (snd f))"

definition fn_ids :: "fn_def \<Rightarrow> nat list" where
  "fn_ids g = part_ids (stmts_list (fn_stmts g))"

definition file_ids :: "file_def \<Rightarrow> nat list" where
  "file_ids f = concat (map fn_ids (snd f))"

lemma call_flag:
  "\<not> has_flag (fe_flag ERR_FUN_CALL) ERR_FUN_INDENT_LEVEL" "\<not> has_flag (fe_flag ERR_FUN_CALL) ERR_FUN_LINES"
  "\<not> continue_parsing (fe_flag ERR_FUN_CALL)"
  by code_simp+

lemma put_examined: "examined [] t st (put_out t st)"
  by (simp add: examined_def put_out_def fresh_expr_def)

lemma function_prints:
  assumes "fn_direct ls F g"
  shows "prints ls F (fn_ids g) (fn_marked (fn_calls ls F g)) (parse_function examine_stmt_expression (fe_flag ERR_FUN_CALL) (fn_symbol g)) (\<lambda>st. st)"
proof -
  obtain name l i bl ss where g: "g = (name, l, i, bl, ss)" by (metis surj_pair)
  obtain s ss' where ss: "ss = s # ss'" using assms g by (cases ss) (auto simp: fn_direct_def)
  let ?body = "Stmt i bl (STMT_COMPOUND ss)"
  define begun where "begun st = (put_out (fn_head name) st)\<lparr>CurrentIndentLevel := -1, LastInstructionLine := -1,
    indent_level := (indent_level st)(i := 0), GlobalFlags := fe_flag ERR_FUN_CALL\<rparr>" for st
  have "prints ls F (fn_ids g) (concat (body_calls ls F (stmts_list ss))) (examine_statements examine_stmt_expression True ?body ss 1) (Pair 1)"
    using visit_prints(2) [of ss ls F ?body] assms by (simp add: fn_direct_def fn_ids_def g)
  then have "prints ls F (fn_ids g) (concat (body_calls ls F (stmts_list ss))) (examine_instructions examine_stmt_expression ?body ss) (\<lambda>st. st)"
    using prints_eq [OF prints_map [where h = "\<lambda>st. st" and k = "\<lambda>(_, st'). ok st'"]] examine_instructions_list [of _ ?body ss _ 1] by fastforce
  moreover have "prints ls F [] fn_tail (\<lambda>st. ok (put_out fn_tail st)) (\<lambda>st. st)"
    by (rule prints_update [where g = "\<lambda>st. st"]) (rule put_examined)
  ultimately have b: "prints ls F (fn_ids g @ []) (concat (body_calls ls F (stmts_list ss)) @ fn_tail)
      (\<lambda>st. obind (examine_instructions examine_stmt_expression ?body ss st) (\<lambda>st3. ok (put_out fn_tail st3))) (\<lambda>st. st)"
    by (rule prints_then)
  have "examined [] (fn_head name) st (begun st)" for st
    by (simp add: begun_def examined_def put_out_def fresh_expr_def)
  then have "prints ls F [] (fn_head name) (\<lambda>st. ok (begun st)) (\<lambda>st. st)" by (rule prints_update [where g = "\<lambda>st. st"])
  from prints_then [OF this b] have "prints ls F (fn_ids g) (fn_marked (fn_calls ls F g))
      (\<lambda>st. obind (examine_instructions examine_stmt_expression ?body ss (begun st)) (\<lambda>st3. ok (put_out fn_tail st3))) (\<lambda>st. st)"
    by (simp add: fn_marked_def fn_calls_def g)
  then show ?thesis
    by (rule prints_eq)
       (use ss call_flag in \<open>simp add: parse_function_def g Let_def begun_def fn_head_def fn_tail_def report_function_def put_out_def\<close>)
qed

lemma functions_print:
  assumes "\<forall>g\<in>set gs. fn_direct ls F g"
  shows "prints ls F (concat (map fn_ids gs)) (concat (map (\<lambda>g. fn_marked (fn_calls ls F g)) gs))
           (parse_function_list examine_stmt_expression (fe_flag ERR_FUN_CALL) (map fn_symbol gs)) (\<lambda>st. st)"
  using assms
proof (induction gs)
  case Nil
  then show ?case using prints_done [of ls F "\<lambda>st. st"] by simp
next
  case (Cons g gs)
  then show ?case using prints_then [OF function_prints [of ls F g]] by simp
qed

lemma parse_files_calls:
  assumes "\<forall>f\<in>set fs. sparse env (fst f) = map fn_symbol (snd f) \<and> (\<forall>g\<in>set (snd f). fn_direct ls (fst f) g)"
    and "all_fresh (concat (map file_ids fs)) st" and "listing ls st" and "length (FileFunctionList st) + length fs \<le> FILE_SLOTS"
  shows "\<exists>st'. parse_files env examine_stmt_expression (fe_flag ERR_FUN_CALL) True (length (FileFunctionList st)) (map fst fs) st = ok st' \<and>
               fe_out st' = fe_out st @ concat (map (\<lambda>f. file_marked (file_calls ls f)) fs) \<and>
               FileFunctionList st' = FileFunctionList st @ map (\<lambda>f. sparse env (fst f)) fs \<and>
               MaxIndentLevel st' = MaxIndentLevel st \<and> MaxLineCount st' = MaxLineCount st"
  using assms
proof (induction fs arbitrary: st)
  case (Cons f fs)
  define st3 where "st3 = put_out (file_head (fst f)) (st\<lparr>FileFunctionList := FileFunctionList st @ [sparse env (fst f)],
    CurrentFile := Some (fst f), FileMapping := MAP_NULL\<rparr>)"
  have f: "sparse env (fst f) = map fn_symbol (snd f)" "\<forall>g\<in>set (snd f). fn_direct ls (fst f) g" using Cons.prems(1) by simp_all
  have fresh: "all_fresh (file_ids f @ concat (map file_ids fs)) st3" "listing ls st3" "CurrentFile st3 = Some (fst f)"
    using Cons.prems(2,3) by (simp_all add: st3_def all_fresh_def listing_def fresh_expr_def put_out_def)
  then have "all_fresh (file_ids f) st3" by (simp add: all_fresh_def)
  then obtain st4 where 4: "parse_function_list examine_stmt_expression (fe_flag ERR_FUN_CALL) (map fn_symbol (snd f)) st3 = ok st4"
    "examined (file_ids f) (concat (map (\<lambda>g. fn_marked (fn_calls ls (fst f) g)) (snd f))) st3 st4"
    using printsE [OF functions_print [OF f(2)] fresh(2,3)] by (auto simp: file_ids_def)
  define st5 where "st5 = put_out file_tail st4"
  have k: "all_fresh (concat (map file_ids fs)) st5" "listing ls st5" "FileFunctionList st5 = FileFunctionList st @ [sparse env (fst f)]"
    "fe_out st5 = fe_out st @ file_marked (file_calls ls f)" "MaxIndentLevel st5 = MaxIndentLevel st" "MaxLineCount st5 = MaxLineCount st"
    using examined_fresh [OF 4(2) fresh(1)] fresh(2) 4(2)
    by (simp_all add: st5_def all_fresh_def listing_def fresh_expr_def put_out_def examined_def st3_def file_marked_def file_calls_def comp_def)
  have "parse_files env examine_stmt_expression (fe_flag ERR_FUN_CALL) True (length (FileFunctionList st)) (map fst (f # fs)) st =
      parse_files env examine_stmt_expression (fe_flag ERR_FUN_CALL) True (length (FileFunctionList st5)) (map fst fs) st5"
    using 4(1) f(1) Cons.prems(4) call_flag(3) k(3)
    by (simp add: st5_def st3_def map_file_def unmap_file_def file_head_def file_tail_def Let_def nth_append put_out_def)
  then show ?case using Cons.IH [of st5] Cons.prems(1,4) k by auto
qed simp

section \<open>Both passes\<close>

definition calls_head :: string where
  "calls_head = [c_tab, c_tab, c_tab, c_tab] @ ''Call Errors:'' @ [c_lf]"

definition both_text :: "string list \<Rightarrow> 32 word \<Rightarrow> int \<Rightarrow> int \<Rightarrow> file_def list \<Rightarrow> string" where
  "both_text ls flags max_level max_lines fs =
     calls_head @ concat (map (\<lambda>f. file_marked (file_calls ls f)) fs) @
     style_head @ concat (map (file_text_of flags max_level max_lines) fs)"

text \<open>A file of which both passes can be followed.\<close>

definition file_direct :: "string list \<Rightarrow> file_def \<Rightarrow> bool" where
  "file_direct ls f \<longleftrightarrow> (\<forall>g\<in>set (snd f). fn_direct ls (fst f) g)"

lemma run_passes_both:
  assumes "\<forall>f\<in>set fs. file_ok env n f \<and> file_direct ls f" and "has_flag flags ERR_FUN_CALL"
    and "and flags (not (fe_flag ERR_FUN_CALL)) = rest" and "style_flags rest" and "continue_parsing rest"
    and "sparse_initialize env args = map fst fs" and "FileList st = None" and "fs \<noteq> []" and "length fs \<le> FILE_SLOTS"
    and "listing ls st" and "all_fresh (concat (map file_ids fs)) st"
  shows "\<exists>st'. run_passes env args flags st = ok st' \<and>
               fe_out st' = fe_out st @ both_text ls rest (MaxIndentLevel st) (MaxLineCount st) fs"
proof -
  define st0 where "st0 = (put_out calls_head st)\<lparr>FileFunctionList := []\<rparr>"
  have "\<forall>f\<in>set fs. sparse env (fst f) = map fn_symbol (snd f) \<and> (\<forall>g\<in>set (snd f). fn_direct ls (fst f) g)"
    using assms(1) by (simp add: file_ok_def file_direct_def)
  moreover have "all_fresh (concat (map file_ids fs)) st0" "listing ls st0"
    using assms(10,11) by (simp_all add: st0_def all_fresh_def listing_def fresh_expr_def put_out_def)
  ultimately obtain st1 where 1: "parse_files env examine_stmt_expression (fe_flag ERR_FUN_CALL) True 0 (map fst fs) st0 = ok st1"
    "fe_out st1 = fe_out st0 @ concat (map (\<lambda>f. file_marked (file_calls ls f)) fs)"
    "FileFunctionList st1 = map (\<lambda>f. sparse env (fst f)) fs" "MaxIndentLevel st1 = MaxIndentLevel st" "MaxLineCount st1 = MaxLineCount st"
    using parse_files_calls [of fs env ls st0] assms(9) by (auto simp: st0_def put_out_def)
  define st2 where "st2 = put_out style_head (st1\<lparr>FileList := Some (map fst fs)\<rparr>)"
  obtain st' where "parse_files env examine_stmt_indent rest False 0 (map fst fs) st2 = ok st'"
    "fe_out st' = fe_out st2 @ concat (map (file_text_of rest (MaxIndentLevel st2) (MaxLineCount st2)) fs)"
    using parse_files_layout [of fs env n rest 0 st2 False] assms(1,4,9) 1(3) by (auto simp: st2_def put_out_def comp_def)
  then show ?thesis
    using assms(2,3,5-8) 1
    by (simp add: run_passes_def Let_def parse_file_list_def st0_def st2_def style_head_def calls_head_def put_out_def both_text_def)
qed

section \<open>What the module reads from both\<close>

text \<open>Every line of the first pass is one report.\<close>

definition call_reports :: "string \<Rightarrow> string \<Rightarrow> string \<Rightarrow> rbc_output list" where
  "call_reports F N t = [new_report ERR_UNVERIFIED_FUNCTION (style_message F N t)]"

definition names_direct :: "file_def \<Rightarrow> bool" where
  "names_direct f \<longleftrightarrow>
     names_ok f \<and>
     (\<forall>g\<in>set (snd f). \<forall>u\<in>set (stmts_list (fn_stmts g)). \<forall>e\<in>set (parts u). case callee e of None \<Rightarrow> True | Some h \<Rightarrow> name_ok h)"

lemma error_report_line:
  assumes "name_ok F" and "name_ok h" and "length (error_line F h l @ [c_lf]) \<le> 256"
  shows "report_line (error_line F h l @ [c_lf])"
proof -
  have "c_lf \<notin> set (error_line F h l)" "c_nul \<notin> set (error_line F h l)" "CHR ''#'' \<notin> set (error_line F h l)"
    using name_ok_chars [OF assms(1)] name_ok_chars [OF assms(2)] fmt_d_not [OF nondigits(5), of l] fmt_d_not [OF nondigits(6), of l]
      fmt_d_not [OF nondigits(7), of l]
    by (simp_all add: error_line_def)
  then show ?thesis unfolding report_line_def using assms(3) by (intro exI [of _ "error_line F h l"]) simp
qed

lemma calls_make:
  assumes "name_ok F" and "name_ok N" and "length t \<le> 256"
  shows "makes spa_emit_calls call_reports F N t"
  using assms
  by (auto simp: makes_def call_reports_def spa_emit_calls_def spa_add_def spa_message_def store_def name_ok_def MAX_BUFF_SIZE_def
      style_message_def)

lemma body_line:
  assumes "t \<in> set (body_calls ls F us)"
  obtains u e h where "u \<in> set us" and "e \<in> set (parts u)" and "callee e = Some h" and "t = error_line F h (e_line e) @ [c_lf]"
    and "t \<in> set (stmt_calls ls F u)"
proof -
  obtain u where u: "u \<in> set us" "t \<in> set (stmt_calls ls F u)" using assms by (auto simp: body_calls_def)
  then obtain e where e: "e \<in> set (parts u)" "t \<in> set (expr_lines ls F u e)" by (auto simp: stmt_calls_def)
  then obtain h where "callee e = Some h" "t = error_line F h (e_line e) @ [c_lf]"
    by (cases "callee e") (auto simp: expr_lines_def split: if_splits)
  then show thesis using that [OF u(1) e(1)] u(2) by blast
qed

lemma calls_marked_ok:
  assumes "file_direct ls f" and "names_direct f"
  shows "name_ok (fst (file_calls ls f)) \<and>
         (\<forall>g\<in>set (snd (file_calls ls f)). fn_marked_ok spa_emit_calls call_reports (fst (file_calls ls f)) g)"
proof -
  have F: "name_ok (fst f)" using assms(2) by (simp add: names_direct_def names_ok_def)
  have "fn_marked_ok spa_emit_calls call_reports (fst f) (fn_calls ls (fst f) g)" if g: "g \<in> set (snd f)" for g
    unfolding fn_marked_ok_def
  proof (intro conjI ballI)
    show N: "name_ok (fst (fn_calls ls (fst f) g))" using assms(2) g by (simp add: names_direct_def names_ok_def fn_calls_def)
    fix t assume "t \<in> set (snd (fn_calls ls (fst f) g))"
    then have "t \<in> set (body_calls ls (fst f) (stmts_list (fn_stmts g)))" by (simp add: fn_calls_def)
    then obtain u e h where t: "u \<in> set (stmts_list (fn_stmts g))" "e \<in> set (parts u)" "callee e = Some h"
      "t = error_line (fst f) h (e_line e) @ [c_lf]" "t \<in> set (stmt_calls ls (fst f) u)" by (rule body_line)
    have "length t \<le> 256" using assms(1) g t(1,5) by (auto simp: file_direct_def fn_direct_def stmt_direct_def)
    moreover have "name_ok h" using assms(2) g t(1-3) by (fastforce simp: names_direct_def)
    ultimately show "report_line t" "makes spa_emit_calls call_reports (fst f) (fst (fn_calls ls (fst f) g)) t"
      using error_report_line [OF F] calls_make [OF F N] t(4) by simp_all
  qed
  then show ?thesis using F by (simp add: file_calls_def)
qed

text \<open>The reports of the first pass for a list of files.\<close>

definition unverified_reports :: "string list \<Rightarrow> file_def \<Rightarrow> rbc_output list" where
  "unverified_reports ls f =
     concat (map (\<lambda>g. map (\<lambda>t. new_report ERR_UNVERIFIED_FUNCTION (style_message (fst f) (fst g) t))
       (body_calls ls (fst f) (stmts_list (fn_stmts g)))) (snd f))"

lemma file_makes_calls: "file_makes call_reports (file_calls ls f) = unverified_reports ls f"
  by (simp add: file_makes_def file_calls_def unverified_reports_def fn_makes_def [abs_def] fn_calls_def call_reports_def [abs_def] comp_def
      concat_map_singleton)

text \<open>The first part of the report, up to the heading of the second.\<close>

lemma spa_first_part:
  assumes "\<forall>f\<in>set fs. file_direct ls f \<and> names_direct f"
    and "spa_in st = fopen_text (calls_head @ concat (map (\<lambda>f. file_marked (file_calls ls f)) fs) @ r)"
  shows "\<exists>b F N. spa_files spa_emit_calls (length fs) (spa_skip_to ([c_tab, c_tab] @ ''Call Errors'') st) =
           rbind (add_all (concat (map (unverified_reports ls) fs)) (spa_output st)) (\<lambda>o1.
             Inr (st\<lparr>spa_in := fopen_text r, spa_buff := b, spa_file_name := F, spa_func_name := N, spa_output := o1\<rparr>))"
proof -
  define cs where "cs = map (file_calls ls) fs"
  define st1 where "st1 = st\<lparr>spa_in := fopen_text (concat (map file_marked cs) @ r), spa_buff := Some calls_head\<rparr>"
  have "spa_fgets st = (True, st1)"
    using spa_fgets_line [of st "[c_tab, c_tab, c_tab, c_tab] @ ''Call Errors:''" "concat (map file_marked cs) @ r"] assms(2)
    by (simp add: st1_def calls_head_def cs_def comp_def)
  moreover have "contains calls_head ([c_tab, c_tab] @ ''Call Errors'')" by (simp add: calls_head_def contains_def starts_with_def)
  ultimately have skip: "spa_skip_to ([c_tab, c_tab] @ ''Call Errors'') st = st1" by (subst spa_skip_to.simps) (simp add: st1_def)
  have ok: "\<forall>f\<in>set cs. name_ok (fst f) \<and> (\<forall>g\<in>set (snd f). fn_marked_ok spa_emit_calls call_reports (fst f) g)"
    using assms(1) calls_marked_ok unfolding cs_def by auto
  show ?thesis
    using spa_files_marked [OF ok, of st1 r] skip by (cases st) (simp add: st1_def cs_def file_makes_calls comp_def)
qed

lemma spa_parse_both:
  assumes "\<forall>f\<in>set fs. file_direct ls f \<and> names_direct f" and "isset ERR_UNVERIFIED_FUNCTION es" and "spa_style es"
  shows "spa_parse_output_file (fopen_text (both_text ls flags a b fs)) es (int (length fs)) =
         add_all (concat (map (unverified_reports ls) fs) @ concat (map (file_reports es flags a b) fs)) []"
proof -
  define second where "second = style_head @ concat (map (file_text_of flags a b) fs)"
  define st0 where "st0 = \<lparr>spa_in = fopen_text (both_text ls flags a b fs), spa_buff = None, spa_file_name = None, spa_func_name = None,
    spa_output = []\<rparr>"
  obtain bf F N where first: "spa_files spa_emit_calls (length fs) (spa_skip_to ([c_tab, c_tab] @ ''Call Errors'') st0) =
      rbind (add_all (concat (map (unverified_reports ls) fs)) []) (\<lambda>o1.
        Inr (st0\<lparr>spa_in := fopen_text second, spa_buff := bf, spa_file_name := F, spa_func_name := N, spa_output := o1\<rparr>))"
    using spa_first_part [OF assms(1), of st0 second] by (auto simp: st0_def both_text_def second_def)
  have style: "rbind (spa_files (spa_emit_style es) (length fs) (spa_skip_to ''Other errors'' st)) (\<lambda>st2. Inr (spa_output st2)) =
      add_all (concat (map (file_reports es flags a b) fs)) (spa_output st)" if "spa_in st = fopen_text second" for st
    by (rule spa_second_part) (use assms(1) that in \<open>simp_all add: second_def names_direct_def\<close>)
  show ?thesis
    unfolding spa_parse_output_file_def st0_def [symmetric] Let_def
    using assms(2,3) first style
    by (cases "add_all (concat (map (unverified_reports ls) fs)) []") (simp_all add: rfold_append)
qed

section \<open>The program\<close>

text \<open>A command line that asks for unverified calls, and for the length and the depth of functions.\<close>

definition all_argv :: "string \<Rightarrow> string \<Rightarrow> string \<Rightarrow> string list \<Rightarrow> string list" where
  "all_argv prog a b names = prog # ''-c'' # ''-l'' # a # ''-i'' # b # names"

definition all_flags :: "32 word" where
  "all_flags = or (or (fe_flag ERR_FUN_CALL) (fe_flag ERR_FUN_LINES)) (fe_flag ERR_FUN_INDENT_LEVEL)"

lemma all_flags_facts:
  "has_flag all_flags ERR_FUN_CALL" "and all_flags (not (fe_flag ERR_FUN_CALL)) = measure_flags"
  by code_simp+

lemma analyzer_main_all:
  assumes "\<forall>w\<in>set names. plain_arg w" and "black_list_text env = Some (lines_text ls)" and "\<forall>l\<in>set ls. line_ok l" and "length ls \<le> 12"
  shows "analyzer_main env True (all_argv prog a b names) [] =
         obind (run_passes env names all_flags (started a b ls)) (\<lambda>st. ok (0, st))"
  using analyzer_main_options [of "[''-c'', ''-l'', a, ''-i'', b]" names "[Opt CHR ''c'' None, Opt CHR ''l'' (Some a), Opt CHR ''i'' (Some b)]"
      prog all_flags b a env ls True] getopt_plain [OF assms(1)] assms(2-4)
  by (simp add: all_argv_def all_flags_def)

text \<open>
  From the command line to the reports of the driver, for both passes: asked for unverified calls and for
  functions of at least \<open>a\<close> lines or depth \<open>b\<close>, the front end ends with status 0, and the sparse module reads from what
  it has printed first one report for every statement that calls a black-listed function and neither decides by
  its result nor returns it, in the order of the visit, then the depth and the length of every function that reaches
  its limit. The statements hold calls, names or values directly, the arguments of calls are no variables, and the
  expressions are different nodes; the memory behind the arguments happens to be zero, and the black list has at most
  twelve lines.
\<close>

lemma front_end_calls_reach_driver:
  assumes "\<forall>f\<in>set fs. file_ok env n f \<and> file_direct ls f \<and> names_direct f \<and> plain_arg (fst f)" and "fs \<noteq> []" and "length fs \<le> FILE_SLOTS"
    and "distinct (concat (map file_ids fs))" and "sparse_initialize env (map fst fs) = map fst fs"
    and "black_list_text env = Some (lines_text ls)" and "\<forall>l\<in>set ls. line_ok l" and "length ls \<le> 12"
    and "isset ERR_UNVERIFIED_FUNCTION es" and "spa_style es"
  shows "\<exists>st'. analyzer_main env True (all_argv prog a b (map fst fs)) [] = ok (0, st') \<and>
               spa_parse_output_file (fopen_text (fe_out st')) es (int (length fs)) =
               add_all (concat (map (unverified_reports ls) fs) @ concat (map (file_reports es measure_flags (atoi b) (atoi a)) fs)) []"
proof -
  let ?st = "started a b ls"
  have files: "\<forall>f\<in>set fs. file_ok env n f \<and> file_direct ls f" "\<forall>f\<in>set fs. file_direct ls f \<and> names_direct f"
    "\<forall>w\<in>set (map fst fs). plain_arg w" using assms(1) by auto
  have "FileList ?st = None" "listing ls ?st" "all_fresh (concat (map file_ids fs)) ?st"
    using assms(4) by (simp_all add: started_def fe_start_def listing_def all_fresh_def fresh_expr_def)
  from run_passes_both [OF files(1) all_flags_facts style_env_facts(2,4) assms(5) this(1) assms(2,3) this(2,3)]
  obtain st' where "run_passes env (map fst fs) all_flags ?st = ok st'" "fe_out st' = both_text ls measure_flags (atoi b) (atoi a) fs"
    by (auto simp: started_def fe_start_def)
  then show ?thesis
    using analyzer_main_all [OF files(3) assms(6-8), of prog a b] spa_parse_both [OF files(2) assms(9,10)] by auto
qed

text \<open>A function with a dropped result, a tested one and one that is tested by a loop.\<close>

definition three_calls :: fn_def where
  "three_calls =
     (''main'', 2, 0, 2,
      [Stmt 1 3 (STMT_EXPRESSION (Some (call_of 10 3 (fn_name ''malloc'') []))),
       Stmt 2 4 (STMT_IF (Some (call_of 11 4 (fn_name ''fork'') [])) (Some (Stmt 3 5 (STMT_EXPRESSION (a_value 12)))) None),
       Stmt 4 6 (STMT_ITERATOR (Some (call_of 13 6 (fn_name ''read'') [])) None None (Some (Stmt 5 7 (STMT_EXPRESSION (a_value 14)))) None),
       Stmt 6 8 (STMT_RETURN (a_value 15))])"

definition calls_list :: "string list" where
  "calls_list = [''malloc'', ''fork'', ''read'']"

definition calls_env :: sparse_env where
  "calls_env =
     \<lparr>sparse_initialize = (\<lambda>as. as), sparse = (\<lambda>_. [fn_symbol three_calls]),
      open_file = (\<lambda>_. OPENED (MAP_TEXT (lines_text (replicate 8 ''x'') @ ''''))), black_list_text = Some (lines_text calls_list)\<rparr>"

definition all_errset :: rbc_errset_t where
  "all_errset = \<lparr>bit_set = [or (push_bit (err_code ERR_UNVERIFIED_FUNCTION) 1)
     (or (push_bit (err_code ERR_FUNCTION_LINE) 1) (push_bit (err_code ERR_FUNCTION_INDENTATION) 1))]\<rparr>"

lemma calls_env_ok: "file_ok calls_env 8 (name, [three_calls])"
proof -
  have "mapping_ok 8 (OPENED (MAP_TEXT (lines_text (replicate 8 ''x'') @ '''')))"
    unfolding mapping_ok_def by (intro disjI2 exI [of _ "replicate 8 ''x''"] exI [of _ "''''"]) simp
  moreover have "fn_ok 8 three_calls" by code_simp
  ultimately show ?thesis by (simp add: file_ok_def calls_env_def)
qed

end
