(* ===== verification/Front_End_Library.thy ===== *)
theory Front_End_Library
  imports Sparse_Lib_Props Analyzer_Unverified
begin

text \<open>
  The front end together with the sparse library: the files that \<open>parse_file_list\<close> (src/sparse-0.4.1/rbc_sparse_utils/static_analyzer.c)
  goes over with \<open>FOR_EACH_PTR_NOTAG\<close> are those \<open>sparse_initialize\<close> (src/sparse-0.4.1/lib.c) has put on the list of pointers.
\<close>

text \<open>The strings at the pointers of the list; \<open>name_at\<close> is the string at an address.\<close>

definition library_files :: "lib_env \<Rightarrow> (ptr \<Rightarrow> string) \<Rightarrow> int \<times> int \<times> int \<Rightarrow> string \<Rightarrow> string list \<Rightarrow> string list" where
  "library_files lenv name_at gcc prog as =
     (case lib_sparse_initialize lenv (lib_start (prog # as) gcc no_blocks) of
        Inl u \<Rightarrow> []
      | Inr (st, srcs) \<Rightarrow>
          (case walked (\<lambda>w. w) (filelist st) (lists st) of Some (Inr ps) \<Rightarrow> map name_at ps | _ \<Rightarrow> []))"

lemma plain_not_switch: "plain_arg w \<Longrightarrow> c_nul \<notin> set w \<Longrightarrow> \<not> is_switch w"
  by (cases w) (auto simp: plain_arg_def is_switch_def)

lemma plain_args:
  assumes "\<forall>a\<in>set as. \<not> is_switch a"
  shows "switches_of as = []" and "args_complete as" and "files_of i as = [i..<i + length as]"
proof -
  show "switches_of as = []" "args_complete as" using assms by (induction as) simp_all
  show "files_of i as = [i..<i + length as]"
    using assms
  proof (induction as arbitrary: i)
    case (Cons a as)
    then show ?case using upt_conv_Cons [of i "i + length (a # as)"] by simp
  qed simp
qed

lemma library_files_plain:
  assumes "\<forall>a\<in>set as. plain_arg a \<and> c_nul \<notin> set a" and "version_digits (lib_start [] gcc no_blocks) \<le> 30"
    and "\<forall>i<length as. name_at (arg_ptr lenv (Suc i)) = as ! i"
  shows "library_files lenv name_at gcc prog as = as"
proof -
  let ?st = "lib_start (prog # as) gcc no_blocks"
  have plain: "\<forall>a\<in>set as. \<not> is_switch a" using assms(1) plain_not_switch by blast
  note args = plain_args [OF plain]
  have "well_formed_args as" using assms(1) args by (simp add: well_formed_args_def)
  moreover have "version_digits ?st \<le> 30" using assms(2) by (simp add: version_digits_def lib_start_def)
  then have "length (texts (switches_of as)) + 2375 + version_digits ?st < PRE_BUFFER" using args by (simp add: texts_def PRE_BUFFER_def)
  ultimately obtain st bs where st: "lib_sparse_initialize lenv ?st = Inr (st, tokens (texts (switches_of as)) st)"
    "rep (lists st) (filelist st) bs (map (arg_ptr lenv) (files_of 1 as))"
    using initialize_result [OF _ fresh_no_blocks refl] by blast
  have "map name_at (map (arg_ptr lenv) (files_of 1 as)) = as"
  proof (rule nth_equalityI)
    show "length (map name_at (map (arg_ptr lenv) (files_of 1 as))) = length as" by (simp add: args(3) del: upt_Suc)
    fix i assume "i < length (map name_at (map (arg_ptr lenv) (files_of 1 as)))"
    then show "map name_at (map (arg_ptr lenv) (files_of 1 as)) ! i = as ! i" using assms(3) by (simp add: args(3) del: upt_Suc)
  qed
  then show ?thesis using st(1) walked_rep [OF st(2), of "\<lambda>w. w"] by (simp add: library_files_def)
qed

end
