(* ===== verification/Spec2Isabelle.thy ===== *)
theory Spec2Isabelle
  imports Robocheck_Facts Module_Facts Config_Props Analyzer_Layout Analyzer_Uses Dlfcn_Facts Sparse_Diag Front_End_Library
begin

text \<open>
  Robocheck runs a set of code checkers over a student's program and prints what they found as one
  JSON report with a penalty for each kind of error. This development models the program's own C
  code: the driver, its libraries, the six modules that run the checkers and read their output, the
  program that edits the configuration, and the checker that comes with it, a front end of the sparse
  parser, with the parts of the sparse library that take the command line and hold the lists.

  \<^bold>\<open>The parts and how they interact.\<close> \<open>main\<close> (src/main.c) calls \<open>init_robocheck\<close>, \<open>run_robocheck\<close> and
  \<open>close_robocheck\<close> of src/src/librobocheck.c. The driver reads rbc_config.xml through the small XML
  layer (src/config/rbc_xml_parser.c), builds for each start-up tool its input and its set of
  enabled errors, loads the module of the tool as a shared library and calls its \<open>run_tool\<close>. The module
  starts the tool with a shell command, reads the text the tool printed and returns a list of
  reports, which it builds with \<open>add\<close> (src/lib/tool.h). The driver appends the reports that are new
  to the output vector; at the end it sorts the vector by type, asks the penalty library
  (src/src/penalty.c) for the penalty of each type and prints the JSON text. The configuration
  program (src/config/configure.c, src/config/rbc_config.c) reads the same file, changes it and
  writes it back. The front end (src/sparse-0.4.1/rbc_sparse_utils) is started by the sparse module as a
  process of its own: it has the parser build the syntax trees of the files and goes over them twice,
  for calls of functions on a black list whose result is not checked and for the layout; the module
  reads what it prints. The files it goes over are those that \<open>sparse_initialize\<close> (src/sparse-0.4.1/lib.c) has put on a
  list of pointers (src/sparse-0.4.1/ptrlist.c).

  \<^bold>\<open>The theories.\<close>
  \<^item> \<open>Prelude\<close>: the result type \<open>'a res\<close> (an undefined behaviour \<open>ub\<close> or a value), its \<open>rbind\<close> and folds,
    the pointer type \<open>slot\<close> (uninitialised, NULL or a value) and list lemmas. \<open>C_Lib\<close>: the functions of the C
    library that the program uses (strings, \<open>strtok\<close>, \<open>atoi\<close>, \<open>%d\<close>, \<open>fgets\<close> and \<open>feof\<close> on a text), with fixed
    buffers as \<open>store\<close>. \<open>C_Float\<close>: binary32 numbers as the penalties use them.
  \<^item> \<open>Errset\<close>: src/lib/rbc_err_codes.h and rbc_errset.h, the codes and the bit set over \<open>32 word\<close>.
  \<^item> \<open>Str_Utils\<close>: src/src/utils.c. \<open>Xml_Tree\<close>: src/config/rbc_xml_parser.c over trees; a node is the path to
    it, so that the pointer moves of the C code are list operations and text nodes (the indentation)
    are kept.
  \<^item> \<open>Rbc_Api\<close>: src/src/rbc_api.c, rbc_utils.c and rbc_task.c, the log with its fixed buffer, the command
    string, memory and processes, over the record \<open>io_state\<close>.
  \<^item> \<open>Tool\<close>: the structures of src/lib/tool.h and src/lib/common_types.h, and \<open>add\<close>. \<open>Penalty\<close>: src/src/penalty.c, whose
    state extends \<open>io_state\<close>.
  \<^item> \<open>Rbc_Input\<close>, \<open>Rbc_Output\<close> and \<open>Robocheck\<close>: src/src/librobocheck.c, the reading of the configuration,
    the output vector with its capacity and the report, and the run of the tools; the record
    \<open>rbc_state\<close> extends the state of the penalty library by the globals of the driver.
    \<open>Rbc_Output_Facts\<close>, \<open>Report_Facts\<close> and \<open>Robocheck_Facts\<close> hold their lemmas.
  \<^item> \<open>Module_Api\<close>: the interface \<open>rbc_module\<close> between the driver and a module, as a locale. \<open>Mod_Common\<close>:
    what the modules share. \<open>Mod_Drmemory\<close>, \<open>Mod_Valgrind\<close>, \<open>Mod_Helgrind\<close>, \<open>Mod_Splint\<close>, \<open>Mod_Simian\<close> and \<open>Mod_Sparse\<close>: one
    file of src/modules each, their definitions with the prefixes \<open>drm_\<close>, \<open>vg_\<close>, \<open>hg_\<close>, \<open>spl_\<close>, \<open>sim_\<close> and \<open>spa_\<close>
    before the names of the C functions. Each ends with an interpretation of the interface.
    \<open>Module_Facts\<close>: the lemmas on their parsers and the driver together with the modules.
  \<^item> \<open>Config\<close>: src/config/rbc_config.c and configure.c, every operation and \<open>main\<close>. \<open>Config_Facts\<close>: the laws of
    libxml2 as the locale \<open>libxml_spec\<close>, the abstract edits of a document (\<open>spec_edit\<close>) and that the
    operations implement them; \<open>xml_ok\<close> are the documents that the library is known to write and read back. \<open>Config_Props\<close>: an
    implementation of the laws (\<open>tree_libxml\<close>) and whole runs.
  \<^item> \<open>Black_List\<close>: black_list.c of the front end. \<open>Sparse_Ast\<close>: the syntax trees, in which the number of a node
    stands for its address and the members that the front end writes are maps from these numbers, and
    the state of static_analyzer.c. \<open>Analyzer\<close>: the traversal of statements, the pass over the layout, functions
    and files. \<open>Analyzer_Calls\<close> and \<open>Analyzer_Exprs\<close>: the pass over calls, with the recursion over expressions and
    the statements inside them. \<open>Analyzer_Main\<close>: options, arguments and \<open>main\<close>. \<open>Analyzer_Facts\<close>: the black list and the
    reference \<open>layout\<close> of the levels and lines of statements, with the proof that the traversal takes its maxima.
    \<open>Analyzer_Report\<close>: what the second pass prints and what \<open>Mod_Sparse\<close> reads from it. \<open>Analyzer_Layout\<close>: the checks
    of the layout of a line. \<open>Analyzer_Props\<close>: the first pass and whole runs. \<open>Analyzer_Uses\<close>: results that are assigned, with the
    reference \<open>uses\<close> of the later uses of a variable and the places that the code does not look at (\<open>hidden\<close>). \<open>Analyzer_Unverified\<close>: the first pass over whole files, by rules for steps
    that print (\<open>prints\<close>), and both passes as the module reads them.
  \<^item> \<open>Dlfcn\<close>: src/wrapper/dlfcn.c, the dynamic loader of the driver on Windows, with its linked list of modules on an
    explicit heap. \<open>Dlfcn_Facts\<close>: the list as the locale \<open>module_list\<close>, that the heap implements it, the states
    that calls reach (\<open>reachable\<close>) and the sequences of calls (\<open>calls\<close>) with the modules they leave open (\<open>opening_order\<close>).
  \<^item> \<open>Sparse_Ptrlist\<close>: src/sparse-0.4.1/ptrlist.c and ptrlist.h, rings of blocks of pointers on an explicit heap; a loop over a
    list is a function of its body, which may move the cursor, change the heap or leave the loop. \<open>Sparse_Ptrlist_Facts\<close>: rings
    as segments of linked blocks, the predicate \<open>rep\<close> that a list has certain blocks and entries, appending, walking and
    packing. \<open>Sparse_Ptrlist_Edit\<close>: loops that delete and replace. \<open>Sparse_Ptrlist_Lists\<close>: concatenation, the last entry, freeing,
    the loop backwards. \<open>Sparse_Ptrlist_Insert\<close>: splitting, inserting and tags. \<open>Sparse_Ptrlist_Props\<close>: the interface
    \<open>pointer_sequence\<close> as a locale, that the rings implement it, and the properties.
  \<^item> \<open>Sparse_Lib\<close>: the options of src/sparse-0.4.1/lib.c, its buffer of preprocessor lines and \<open>sparse_initialize\<close>, with a result
    type that has the end of the process by \<open>die\<close>. \<open>Sparse_Lib_Facts\<close>: what every option does (\<open>option_done\<close>) and the loop over the
    arguments against a description of the command line (\<open>files_of\<close>, \<open>switches_of\<close>). \<open>Sparse_Lib_Props\<close>: the whole, the warnings
    and what goes wrong. \<open>Sparse_Diag\<close>: the messages of lib.c and their limits. \<open>Front_End_Library\<close>: the front end on top of the
    library; the property is in this theory.

  \<^bold>\<open>What is shown.\<close> The driver: its report is the one the collected errors call for, in the order of
  the types and with the penalties (a refinement of a specification of the text); it collects only
  errors that are enabled, both for any modules that keep to the interface and for the six that come
  with it; \<open>add_range\<close>, the sort and the rewriting of messages do what they should below the stated
  bounds, and what happens beyond them. The configuration program: registering is one abstract edit,
  the file it writes from a well-formed one can be read by the driver and its counters stay right. The modules: an
  announced error is reported, frames of two tools on one place, with or without the name of the module, give one
  report; \<open>add\<close> keeps what comes before a repeated report. The libraries: error sets,
  penalties, lookup in the XML tree, comparison of messages, logging. The front end: from its command line
  to the reports of the driver, the unverified calls and the depth and the length of functions are those of the
  reference; a call whose result is dropped is reported and one whose result is tested is not; one whose result
  is assigned is reported exactly if no later statement names the variable, where a loop condition and the like are
  not looked at; the layout of a line is reported as it
  is; the black list is the list of lines. The loader: no sequence of calls leaves its list, symbols are found in
  the order of opening, an error is told once. The sparse library: the operations on lists of pointers end, stay inside
  their blocks and do to the sequence of entries what they should, and touch no other list; the command line is read
  as described, the last option that names a warning decides about it (but for the one documented option that is never
  heeded), and the limits on messages hold. Where the code fails (array reallocation, endless rewriting, closed streams, misspelt literals, lost
  messages, buffers that are too small, NULL values of \<open>return\<close>, options without their argument), the theorem states what it does instead.

  \<^bold>\<open>Errors and undefined behaviour.\<close> A read or write outside an object, of NULL, of freed or
  uninitialised memory, or a call outside the contract of the C library is the value \<open>Inl u\<close>; every
  later step is then skipped. A successful result therefore says that no such access happened.

  \<^bold>\<open>Integers.\<close> Words of flags, addresses and tags are words; where a value comes from a file or a command line
  (\<open>atoi\<close>, the counters of the configuration, identifiers) it wraps or is bounded as in C. Counters that go up by one for
  every step of the program (the size of a list of reports, the count of entries to delete, the rounds of \<open>transform_loop\<close>) and the
  numbers of lines and levels are unbounded; they would have to pass \<open>2 ^ 31\<close> for a difference.

  \<^bold>\<open>Loops and fuel.\<close> Loops over files end because every \<open>fgets\<close> shortens the rest of the file; the
  \<open>termination\<close> proofs use the length of it. \<open>transform_loop\<close> may not end: it is a
  \<open>partial_function (option)\<close>, and both its results and its divergence are theorems. So are the walks of the front
  end along parent pointers (\<open>get_expression_statement\<close>, \<open>get_last_expression\<close>, \<open>validate_loop\<close>, \<open>get_next_statement\<close>,
  \<open>usages_loop\<close>, \<open>is_initializer\<close>), which would not end on a cycle; the theorems on calls show that they return. The
  loops over the list of the loader (\<open>search_from\<close>, \<open>last_from\<close>, \<open>dlsym_loop\<close>) are shown to end in all reachable states,
  the loops over rings of blocks (\<open>for_each_loop\<close>, \<open>pack_loop\<close>, \<open>free_loop\<close> and the others of \<open>Sparse_Ptrlist\<close>) for all lists.
  The loop over \<open>argv\<close> ends because no handler moves back.
  The recursion over expressions ends by the size of the tree. No definition uses fuel;
  \<open>run_loop\<close> and the loops over entries recurse on the count in the file, as the code does.

  \<^bold>\<open>The environment.\<close> What is not C code of the repository is an argument. \<open>rbc_env\<close> has the XML file, the
  dynamic loader, the tools and the working directory; \<open>tool_env\<close> has what a shell command prints and what a file
  contains after the commands run so far, and what the polls of \<open>fuser\<close> answer; \<open>clock\<close> and \<open>allocs\<close> of the state
  are the results of \<open>strftime\<close> and \<open>malloc\<close>. libxml2 is the record \<open>libxml\<close>: the configuration is parsed and
  written by it. The laws of \<open>libxml_spec\<close> say of an element that a new child is its last one and a new attribute is its
  last one, and of documents with ordinary names and values and no text but blanks (\<open>xml_ok\<close>) that what was written is read
  back with the same elements, without blanks after \<open>xmlKeepBlanksDefault(0)\<close>, and that a document without blanks is then written
  indented; what \<open>indent_xml_file\<close> makes of a file follows from them. \<open>sparse_env\<close> has
  what the vendored parser makes of the files, what \<open>sparse_initialize\<close> lists, what \<open>open\<close> and \<open>mmap\<close> give and the text of the
  black list; in the theorem below the files are those of \<open>Sparse_Lib\<close>. \<open>lib_env\<close> has what \<open>open\<close> gives and where the
  arguments are in memory. \<open>winapi\<close> has the functions of Windows over a state of the system; the laws that are used (\<open>short_pointers\<close>,
  \<open>pure_lookup\<close>) are hypotheses of the theorems.

  \<^bold>\<open>Not modelled.\<close> The branches for Windows in the driver; \<open>print_vector\<close>, which exists
  only with \<open>RBC_DEBUG\<close>, and the code of the front end under \<open>VEC_ACCESS\<close> and its debug output, which are not
  compiled; the tokenizer, preprocessor, parser, evaluator and back ends of the vendored sparse library, which are a
  parameter of the front end, its \<open>sort_list\<close>, which the front end does not use, and its allocator, of which lists need
  only that a new block is zero; Dr. Memory, which the program only runs.
\<close>

section \<open>From the command line of the front end to the driver\<close>

text \<open>
  C6: from the command line to the reports of the driver, for both passes, with the files the sparse library puts on its
  list of pointers: asked for unverified calls and for functions of at least \<open>a\<close> lines or depth \<open>b\<close>, the front end ends with
  status 0, and the sparse module reads from what it has printed first one report for every statement that calls a
  black-listed function and neither decides by its result nor returns it, in the order of the visit, then the depth
  and the length of every function that reaches its limit. The statements hold calls, names or values directly, the
  arguments of calls are no variables, and the expressions are different nodes; the names of the files are in memory where
  \<open>argv\<close> points to, the memory behind the arguments happens to be zero, and the black list has at most twelve lines. A call that
  is the condition of a loop counts as one that does not decide, and the list of reports is built with \<open>add\<close>, which cuts it off at a
  report of the same file and line.
\<close>

theorem front_end_and_library_reach_driver:
  assumes "\<forall>f\<in>set fs. file_ok env n f \<and> file_direct ls f \<and> names_direct f \<and> plain_arg (fst f)" and "fs \<noteq> []" and "length fs \<le> FILE_SLOTS"
    and "distinct (concat (map file_ids fs))" and "sparse_initialize env = library_files lenv name_at gcc prog"
    and "\<forall>i<length fs. name_at (arg_ptr lenv (Suc i)) = fst (fs ! i)" and "version_digits (lib_start [] gcc no_blocks) \<le> 30"
    and "black_list_text env = Some (lines_text ls)" and "\<forall>l\<in>set ls. line_ok l" and "length ls \<le> 12"
    and "isset ERR_UNVERIFIED_FUNCTION es" and "spa_style es"
  shows "\<exists>st'. analyzer_main env True (all_argv prog a b (map fst fs)) [] = ok (0, st') \<and>
               spa_parse_output_file (fopen_text (fe_out st')) es (int (length fs)) =
               add_all (concat (map (unverified_reports ls) fs) @ concat (map (file_reports es measure_flags (atoi b) (atoi a)) fs)) []"
proof -
  have "\<forall>w\<in>set (map fst fs). plain_arg w \<and> c_nul \<notin> set w"
    using assms(1) name_ok_chars(2) by (auto simp: names_direct_def names_ok_def)
  then have "sparse_initialize env (map fst fs) = map fst fs"
    unfolding assms(5) by (rule library_files_plain [OF _ assms(7)]) (use assms(6) in simp)
  from front_end_calls_reach_driver [OF assms(1-4) this assms(8-12)] show ?thesis .
qed

definition library_env :: sparse_env where
  "library_env = calls_env\<lparr>sparse_initialize := library_files some_env (\<lambda>p. if p = 16 then ''a.c'' else []) (4, 2, 1) ''static_analyzer''\<rparr>"

lemma library_env_ok:
  "file_ok library_env 8 (name, [three_calls])" "black_list_text library_env = Some (lines_text calls_list)"
  "sparse_initialize library_env = library_files some_env (\<lambda>p. if p = 16 then ''a.c'' else []) (4, 2, 1) ''static_analyzer''"
  using calls_env_ok [of name] by (simp_all add: file_ok_def library_env_def calls_env_def)

theorem front_end_and_library_reach_driver_witness:
  "\<exists>st'. analyzer_main library_env True (all_argv ''static_analyzer'' ''7'' ''3'' [''a.c'']) [] = ok (0, st') \<and>
         spa_parse_output_file (fopen_text (fe_out st')) all_errset 1 =
         add_all [new_report ERR_UNVERIFIED_FUNCTION (style_message ''a.c'' ''main'' (error_line ''a.c'' ''malloc'' 3 @ [c_lf])),
                  new_report ERR_UNVERIFIED_FUNCTION (style_message ''a.c'' ''main'' (error_line ''a.c'' ''read'' 6 @ [c_lf])),
                  new_report ERR_FUNCTION_LINE (style_message ''a.c'' ''main'' (length_line 7))] []"
proof -
  let ?f = "(''a.c'', [three_calls])"
  have "unverified_reports calls_list ?f @ file_reports all_errset measure_flags (atoi ''3'') (atoi ''7'') ?f =
    [new_report ERR_UNVERIFIED_FUNCTION (style_message ''a.c'' ''main'' (error_line ''a.c'' ''malloc'' 3 @ [c_lf])),
     new_report ERR_UNVERIFIED_FUNCTION (style_message ''a.c'' ''main'' (error_line ''a.c'' ''read'' 6 @ [c_lf])),
     new_report ERR_FUNCTION_LINE (style_message ''a.c'' ''main'' (length_line 7))]" by code_simp
  moreover have "file_direct calls_list ?f" "names_direct ?f" "plain_arg ''a.c''" "distinct (file_ids ?f)"
    "\<forall>l\<in>set calls_list. line_ok l" "length calls_list \<le> 12" "isset ERR_UNVERIFIED_FUNCTION all_errset" "spa_style all_errset"
    "version_digits (lib_start [] (4, 2, 1) no_blocks) \<le> 30"
    by code_simp+
  moreover have "(\<lambda>p. if p = 16 then ''a.c'' else []) (arg_ptr some_env (Suc 0)) = ''a.c''" by (simp add: some_env_def)
  ultimately show ?thesis
    using front_end_and_library_reach_driver [where fs = "[?f]" and env = library_env and n = 8 and ls = calls_list and lenv = some_env
        and name_at = "\<lambda>p. if p = 16 then ''a.c'' else []" and gcc = "(4, 2, 1)" and prog = "''static_analyzer''" and es = all_errset
        and a = "''7''" and b = "''3''"] library_env_ok(1) [of "''a.c''"] library_env_ok(2,3)
    by (simp add: FILE_SLOTS_def del: lines_text_simps)
qed

end
